(* ===== verification/Prelude.thy ===== *)
theory Prelude
  imports Main "HOL-Library.Word"
begin

text \<open>
  The shared base of the development: machine types, the result type in which a C run
  either returns or hits one of the faults the source can hit, byte buffers with checked
  accesses (\<open>memcpy\<close>, \<open>memset\<close>), C strings in byte buffers, and the generic list lemmas
  the component theories use.
\<close>

unbundle bit_operations_syntax

section \<open>Machine types\<close>

type_synonym byte = "8 word"
type_synonym u32 = "32 word"
type_synonym u64 = "64 word"

type_synonym handle_t = int

text \<open>
  A \<open>uuid_t\<close> is only copied and compared as a whole (\<open>memcmp\<close> over \<open>sizeof(uuid_t)\<close>) by
  the services, so it is named by its textual form, as the \<open>*_consts.json\<close> files write it.
\<close>

type_synonym uuid = string

definition NO_ERROR :: int where
  "NO_ERROR = 0"

text \<open>The ports a server hands to the tipc library; a list of uuids is never given, only its length 0.\<close>

record tipc_port_acl =
  allow_ta_connect :: bool
  allow_ns_connect :: bool
  uuid_num :: nat

record tipc_port =
  port_name :: string
  msg_max_size :: nat
  msg_queue_len :: nat
  port_acl :: tipc_port_acl

section \<open>Faults and results\<close>

text \<open>
  What can go wrong inside the C code beyond returning an error code: a failed \<open>assert\<close>
  or a call of \<open>abort\<close>, an access outside a buffer, a null pointer dereference, a use of
  freed memory, a \<open>void*\<close> cast to a type the object does not have, a read of an
  uninitialised variable, a loop that never ends, and a signed addition that overflows.
\<close>

datatype fault =
    Assert_failed
  | Aborted
  | Out_of_bounds
  | Null_deref
  | Use_after_free
  | Type_confusion
  | Uninitialised
  | Diverges
  | Signed_overflow

type_synonym 'a res = "fault + 'a"

definition bindr :: "'a res \<Rightarrow> ('a \<Rightarrow> 'b res) \<Rightarrow> 'b res" where
  "bindr m f = (case m of Inl e \<Rightarrow> Inl e | Inr x \<Rightarrow> f x)"

definition assertr :: "bool \<Rightarrow> 'a res \<Rightarrow> 'a res" where
  "assertr b k = (if b then k else Inl Assert_failed)"

lemma bindr_simps [simp]:
  "bindr (Inl e) f = Inl e"
  "bindr (Inr x) f = f x"
  by (simp_all add: bindr_def)

lemma bindr_eq_Inr [simp]:
  "bindr m f = Inr y \<longleftrightarrow> (\<exists>x. m = Inr x \<and> f x = Inr y)"
  by (cases m) auto

lemma assertr_True [simp]: "b \<Longrightarrow> assertr b k = k"
  by (simp add: assertr_def)

lemma assertr_eq_Inr [simp]: "assertr b k = Inr y \<longleftrightarrow> b \<and> k = Inr y"
  by (simp add: assertr_def)

lemma bindr_assoc: "bindr (bindr m f) g = bindr m (\<lambda>x. bindr (f x) g)"
  by (cases m) auto

lemma bindr_total:
  assumes "\<exists>x. m = Inr x \<and> P x" and "\<And>x. P x \<Longrightarrow> \<exists>y. f x = Inr y \<and> Q y"
  shows "\<exists>y. bindr m f = Inr y \<and> Q y"
  using assms by fastforce

section \<open>Byte buffers\<close>

text \<open>\<open>memcpy(buf, src, len)\<close> for a buffer given by its contents.\<close>

definition memcpy_to :: "byte list \<Rightarrow> nat \<Rightarrow> byte list \<Rightarrow> byte list res" where
  "memcpy_to buf off src =
     (if off + length src \<le> length buf
      then Inr (take off buf @ src @ drop (off + length src) buf)
      else Inl Out_of_bounds)"

definition memset0 :: "byte list \<Rightarrow> nat \<Rightarrow> byte list res" where
  "memset0 buf n = memcpy_to buf 0 (replicate n 0)"

definition mem_read :: "byte list \<Rightarrow> nat \<Rightarrow> nat \<Rightarrow> byte list res" where
  "mem_read buf off n =
     (if off + n \<le> length buf then Inr (take n (drop off buf)) else Inl Out_of_bounds)"

named_theorems mem_simps

lemma memcpy_to_eq_Inr [mem_simps]:
  "memcpy_to buf off src = Inr b \<longleftrightarrow>
     off + length src \<le> length buf \<and> b = take off buf @ src @ drop (off + length src) buf"
  by (auto simp: memcpy_to_def)

lemma memset0_eq_Inr [mem_simps]:
  "memset0 buf n = Inr b \<longleftrightarrow> n \<le> length buf \<and> b = replicate n 0 @ drop n buf"
  by (auto simp: memset0_def memcpy_to_def)

lemma mem_read_eq_Inr [mem_simps]:
  "mem_read buf off n = Inr b \<longleftrightarrow> off + n \<le> length buf \<and> b = take n (drop off buf)"
  by (auto simp: mem_read_def)

lemma memcpy_to_length: "memcpy_to buf off src = Inr b \<Longrightarrow> length b = length buf"
  by (auto simp: mem_simps)

lemma memset0_length: "memset0 buf n = Inr b \<Longrightarrow> length b = length buf"
  by (auto simp: mem_simps)

lemma memcpy_to_ok: "off + length src \<le> length buf \<Longrightarrow> \<exists>b. memcpy_to buf off src = Inr b"
  by (simp add: mem_simps)

lemma memset0_ok: "n \<le> length buf \<Longrightarrow> memset0 buf n = Inr (replicate n 0 @ drop n buf)"
  by (simp add: mem_simps)

text \<open>A buffer whose bytes are all zero.\<close>

definition zeroed :: "byte list \<Rightarrow> bool" where
  "zeroed buf \<longleftrightarrow> (\<forall>b \<in> set buf. b = 0)"

lemma zeroed_replicate [simp]: "zeroed (replicate n 0)"
  by (simp add: zeroed_def)

lemma zeroed_append [simp]: "zeroed (xs @ ys) \<longleftrightarrow> zeroed xs \<and> zeroed ys"
  by (auto simp: zeroed_def)

lemma zeroed_Cons [simp]: "zeroed (x # xs) \<longleftrightarrow> x = 0 \<and> zeroed xs"
  by (auto simp: zeroed_def)

lemma zeroed_drop: "zeroed xs \<Longrightarrow> zeroed (drop n xs)"
  by (auto simp: zeroed_def dest: in_set_dropD)

text \<open>Overwriting a prefix and clearing it again leaves the rest of the buffer.\<close>

lemma zeroed_after_clear:
  "zeroed (drop n buf) \<Longrightarrow> memset0 buf n = Inr b \<Longrightarrow> zeroed b"
  by (auto simp: mem_simps)

section \<open>C strings\<close>

definition bytes_of :: "string \<Rightarrow> byte list" where
  "bytes_of s = map of_char s"

definition cstr :: "byte list \<Rightarrow> byte list" where
  "cstr buf = takeWhile (\<lambda>b. b \<noteq> 0) buf"

definition strnlen :: "byte list \<Rightarrow> nat \<Rightarrow> nat" where
  "strnlen buf n = length (takeWhile (\<lambda>b. b \<noteq> 0) (take n buf))"

text \<open>
  \<open>strcmp(a, b) == 0\<close> for a string literal \<open>a\<close> and a buffer \<open>b\<close>: the comparison runs to
  the terminating zero of \<open>b\<close> and off its end if there is none.
\<close>

definition strcmp_eq :: "string \<Rightarrow> byte list \<Rightarrow> bool res" where
  "strcmp_eq a buf =
     (if 0 \<in> set buf then Inr (bytes_of a = cstr buf) else Inl Out_of_bounds)"

lemma strcmp_eq_Inr [mem_simps]:
  "strcmp_eq a buf = Inr e \<longleftrightarrow> 0 \<in> set buf \<and> e = (bytes_of a = cstr buf)"
  by (auto simp: strcmp_eq_def)

section \<open>Lists\<close>

text \<open>Change the first element that satisfies a predicate: a write through a found pointer.\<close>

fun update_first :: "('a \<Rightarrow> bool) \<Rightarrow> ('a \<Rightarrow> 'a) \<Rightarrow> 'a list \<Rightarrow> 'a list" where
  "update_first P f [] = []"
| "update_first P f (x # xs) = (if P x then f x # xs else x # update_first P f xs)"

text \<open>Unlink the first element that satisfies a predicate.\<close>

fun remove_first :: "('a \<Rightarrow> bool) \<Rightarrow> 'a list \<Rightarrow> 'a list" where
  "remove_first P [] = []"
| "remove_first P (x # xs) = (if P x then xs else x # remove_first P xs)"

lemma length_update_first [simp]: "length (update_first P f xs) = length xs"
  by (induction xs) auto

lemma update_first_decomp:
  assumes "find P xs = Some x"
  shows "\<exists>as bs. xs = as @ x # bs \<and> P x \<and> (\<forall>a \<in> set as. \<not> P a) \<and>
    update_first P f xs = as @ f x # bs \<and> remove_first P xs = as @ bs"
  using assms
proof (induction xs)
  case Nil
  then show ?case by simp
next
  case (Cons y ys)
  show ?case
  proof (cases "P y")
    case True
    with Cons.prems show ?thesis by (intro exI [of _ "[]"] exI [of _ ys]) auto
  next
    case False
    with Cons obtain as bs where "ys = as @ x # bs \<and> P x \<and> (\<forall>a \<in> set as. \<not> P a) \<and>
      update_first P f ys = as @ f x # bs \<and> remove_first P ys = as @ bs" by auto
    with False show ?thesis by (intro exI [of _ "y # as"] exI [of _ bs]) auto
  qed
qed

lemma set_remove_first: "set (remove_first P xs) \<subseteq> set xs"
  by (induction xs) auto

lemma distinct_map_remove_first: "distinct (map g xs) \<Longrightarrow> distinct (map g (remove_first P xs))"
  by (induction xs) (auto dest: set_remove_first [THEN subsetD])

lemma map_update_first: "(\<And>x. g (f x) = g x) \<Longrightarrow> map g (update_first P f xs) = map g xs"
  by (induction xs) auto

lemma find_None_iff': "find P xs = None \<longleftrightarrow> (\<forall>x \<in> set xs. \<not> P x)"
  by (auto simp: find_None_iff)

lemma find_SomeD: "find P xs = Some x \<Longrightarrow> x \<in> set xs \<and> P x"
  by (auto simp: find_Some_iff)

lemma find_append: "find P (xs @ ys) = (case find P xs of None \<Rightarrow> find P ys | Some x \<Rightarrow> Some x)"
  by (induction xs) auto

lemma takeWhile_take_all:
  "(\<And>x. x \<in> set (take n xs) \<Longrightarrow> P x) \<Longrightarrow> takeWhile P (take n xs) = take n xs"
  by (simp add: takeWhile_eq_all_conv)

section \<open>Exclusive or\<close>

lemma xor_cancel: "((a :: 'a::len word) XOR b) XOR b = a"
  by (simp add: xor.assoc)

lemma xor_inject:
  "(a :: 'a::len word) XOR c = b XOR c \<longleftrightarrow> a = b" "c XOR a = c XOR b \<longleftrightarrow> a = b"
  by (metis xor_cancel, metis xor_cancel xor.commute)

end
