(* ===== verification/Hwrng_Dev.thy ===== *)
theory Hwrng_Dev
  imports Prelude
begin

text \<open>
  The random number device interface (\<open>hwcrypto/include/hwcrypto/hwrng_dev.h\<close>) as a
  locale, and the fake provider (\<open>hwcrypto/hwrng_srv_fake_provider.c\<close>) that implements it
  with a running counter. A device is a function from its state and a requested length to
  the return code, the bytes left in the buffer and the next state.
\<close>

type_synonym 'r rng_dev = "'r \<Rightarrow> nat \<Rightarrow> int \<times> byte list \<times> 'r"

section \<open>The device contract\<close>

locale hwrng_device =
  fixes get_rng_data :: "'r rng_dev"
  assumes rng_length: "get_rng_data r n = (rc, bs, r') \<Longrightarrow> length bs = n"
    and rng_rc: "get_rng_data r n = (rc, bs, r') \<Longrightarrow> rc = NO_ERROR \<or> rc < 0"

section \<open>The fake provider\<close>

text \<open>\<open>*buf = counter++ & 0xff\<close> for every byte of the buffer; the counter wraps.\<close>

fun fake_fill :: "nat \<Rightarrow> 'w::len word \<Rightarrow> byte list \<times> 'w word" where
  "fake_fill 0 counter = ([], counter)"
| "fake_fill (Suc n) counter =
     (case fake_fill n (counter + 1) of
        (bs, counter') \<Rightarrow> (ucast (counter AND 255) # bs, counter'))"

definition hwrng_dev_get_rng_data :: "('w::len word) rng_dev" where
  "hwrng_dev_get_rng_data counter buf_len =
     (case fake_fill buf_len counter of (bs, counter') \<Rightarrow> (NO_ERROR, bs, counter'))"

definition hwrng_dev_init :: int where
  "hwrng_dev_init = NO_ERROR"

definition initial_counter :: "'w::len word" where
  "initial_counter = 1"

lemma fake_fill_eq:
  "fake_fill n c = (map (\<lambda>i. ucast ((c + of_nat i) AND 255)) [0..<n], c + of_nat n)"
proof (induction n arbitrary: c)
  case 0
  then show ?case by simp
next
  case (Suc n)
  have "map (\<lambda>i. ucast ((c + of_nat i) AND 255) :: byte) [0..<Suc n] =
    ucast (c AND 255) # map (\<lambda>i. ucast ((c + 1 + of_nat i) AND 255)) [0..<n]"
    by (simp add: upt_conv_Cons map_Suc_upt [symmetric] add.assoc del: upt_Suc)
  with Suc show ?case by (simp add: add.assoc del: upt_Suc)
qed

lemma fake_get_eq:
  "hwrng_dev_get_rng_data c n =
     (NO_ERROR, map (\<lambda>i. ucast ((c + of_nat i) AND 255)) [0..<n], c + of_nat n)"
  by (simp add: hwrng_dev_get_rng_data_def fake_fill_eq)

interpretation fake: hwrng_device "hwrng_dev_get_rng_data :: ('w::len word) rng_dev"
  by unfold_locales (auto simp: fake_get_eq)

text \<open>
  The low byte of the counter: on a counter of at least eight bits the mask and the
  conversion to \<open>uint8_t\<close> are the same truncation, and truncation commutes with addition.
\<close>

lemma ucast_low_byte:
  fixes c :: "'w::len word"
  assumes "8 \<le> LENGTH('w)"
  shows "ucast (c AND 255) = (ucast c :: byte)"
proof (rule bit_word_eqI)
  fix n assume "n < LENGTH(8)"
  then have n: "n < 8" by simp
  have "(255 :: 'w word) = mask 8" by (simp add: mask_eq_exp_minus_1)
  moreover have "bit (mask 8 :: 'w word) n" using n assms by (simp add: bit_mask_iff)
  ultimately have "bit (255 :: 'w word) n" by metis
  with n assms show "bit (ucast (c AND 255) :: byte) n \<longleftrightarrow> bit (ucast c :: byte) n"
    by (simp add: bit_simps)
qed

lemma take_bit_add_down:
  fixes c d :: int
  assumes "m \<le> n"
  shows "take_bit m (take_bit n c + take_bit n d) = take_bit m (c + d)"
proof -
  have "take_bit m (take_bit n c + take_bit n d) =
    take_bit m (take_bit m (take_bit n c) + take_bit m (take_bit n d))"
    by (simp only: take_bit_add)
  with assms show ?thesis by (simp add: take_bit_add min_def)
qed

lemma ucast_add_byte:
  fixes c d :: "'w::len word"
  assumes "8 \<le> LENGTH('w)"
  shows "(ucast (c + d) :: byte) = ucast c + ucast d"
  using assms by transfer (simp add: take_bit_add_down take_bit_add)

lemma fake_bytes:
  fixes c :: "'w::len word"
  assumes "8 \<le> LENGTH('w)"
  shows "fst (snd (hwrng_dev_get_rng_data c n)) = map (\<lambda>i. ucast c + of_nat i) [0..<n]"
proof -
  have "(ucast (of_nat i :: 'w word) :: byte) = of_nat i" for i
    using assms by transfer (simp add: take_bit_take_bit min_def take_bit_of_nat)
  with assms show ?thesis
    by (auto simp: fake_get_eq ucast_low_byte ucast_add_byte)
qed

end
