(* ===== verification/Hwkey_Token.thy ===== *)
theory Hwkey_Token
  imports Hwrng_Dev
begin

text \<open>
  Opaque access tokens (\<open>hwcrypto/hwkey_srv.c\<close>): the emptiness test, the loop of
  \<open>get_key_handle\<close> that draws random blocks until 31 non-zero bytes are collected, what
  its result looks like, and exactly when it returns.
\<close>

section \<open>Definitions\<close>

definition HWKEY_OPAQUE_HANDLE_SIZE :: nat where
  [simp]: "HWKEY_OPAQUE_HANDLE_SIZE = 32"

definition is_empty_token :: "byte list \<Rightarrow> bool res" where
  "is_empty_token access_token =
     (if length access_token < HWKEY_OPAQUE_HANDLE_SIZE then Inl Out_of_bounds
      else if list_all (\<lambda>b. b = 0) (take HWKEY_OPAQUE_HANDLE_SIZE access_token) then Inr True
      else assertr (strnlen access_token HWKEY_OPAQUE_HANDLE_SIZE = HWKEY_OPAQUE_HANDLE_SIZE - 1)
             (Inr False))"

text \<open>The inner \<open>for\<close> loop: copy the non-zero random bytes, up to 31 of them.\<close>

fun fill_token :: "byte list \<Rightarrow> byte list \<Rightarrow> nat \<Rightarrow> byte list \<times> nat" where
  "fill_token [] token token_offset = (token, token_offset)"
| "fill_token (b # random_buf) token token_offset =
     (if token_offset < HWKEY_OPAQUE_HANDLE_SIZE - 1
      then if b \<noteq> 0 then fill_token random_buf (token[token_offset := b]) (Suc token_offset)
           else fill_token random_buf token token_offset
      else (token, token_offset))"

text \<open>
  The outer \<open>while (1)\<close> loop: the return code of the device (\<open>NO_ERROR\<close> when a token was
  completed), the token bytes and the device state. \<open>None\<close> is a loop that never ends.
\<close>

partial_function (option) token_loop ::
    "'r rng_dev \<Rightarrow> 'r \<Rightarrow> byte list \<Rightarrow> (int \<times> byte list \<times> 'r) option" where
  "token_loop dev r token =
     (case dev r (HWKEY_OPAQUE_HANDLE_SIZE + 2) of (rc, random_buf, r') \<Rightarrow>
        if rc \<noteq> NO_ERROR then Some (rc, token, r')
        else (case fill_token random_buf token 0 of (token', token_offset) \<Rightarrow>
                if token_offset = HWKEY_OPAQUE_HANDLE_SIZE - 1 then Some (NO_ERROR, token', r')
                else token_loop dev r' token'))"

text \<open>A token as clients hold it: 31 non-zero bytes and a terminating zero.\<close>

definition valid_token :: "byte list \<Rightarrow> bool" where
  "valid_token t \<longleftrightarrow> (\<exists>nz. t = nz @ [0] \<and> length nz = 31 \<and> 0 \<notin> set nz)"

text \<open>A token buffer whose last byte is still zero: what the loop keeps.\<close>

definition token_buffer :: "byte list \<Rightarrow> bool" where
  "token_buffer t \<longleftrightarrow> (\<exists>xs. t = xs @ [0] \<and> length xs = 31)"

definition zero_token :: "byte list" where
  "zero_token = replicate HWKEY_OPAQUE_HANDLE_SIZE 0"

section \<open>Token shape\<close>

lemma valid_token_length [simp]: "valid_token t \<Longrightarrow> length t = 32"
  by (auto simp: valid_token_def)

lemma valid_token_buffer: "valid_token t \<Longrightarrow> token_buffer t"
  by (auto simp: valid_token_def token_buffer_def)

lemma zero_token_buffer: "token_buffer zero_token"
  by (auto simp: token_buffer_def zero_token_def eval_nat_numeral intro!: exI [of _ "replicate 31 0"])

lemma is_empty_zero_token: "is_empty_token zero_token = Inr True"
  by (simp add: is_empty_token_def zero_token_def list_all_iff)

lemma takeWhile_nonzero: "(0 :: byte) \<notin> set xs \<Longrightarrow> takeWhile (\<lambda>b. b \<noteq> 0) xs = xs"
  by (auto simp: takeWhile_eq_all_conv)

lemma strnlen_valid_token: "valid_token t \<Longrightarrow> strnlen t 32 = 31"
  by (auto simp: valid_token_def strnlen_def takeWhile_tail takeWhile_nonzero)

lemma is_empty_valid_token:
  assumes "valid_token t"
  shows "is_empty_token t = Inr False"
proof -
  from assms obtain nz where t: "t = nz @ [0]" "length nz = 31" "0 \<notin> set nz"
    by (auto simp: valid_token_def)
  then have "\<not> list_all (\<lambda>b. b = 0) t"
    by (cases nz) auto
  with t strnlen_valid_token [OF assms] show ?thesis
    by (simp add: is_empty_token_def)
qed

text \<open>
  A 32-byte area equals a token only if it holds 31 non-zero bytes and then a zero: the
  area cannot have been cut short by an earlier zero.
\<close>

lemma valid_token_cstr: "valid_token t \<Longrightarrow> cstr t = butlast t"
  by (auto simp: valid_token_def cstr_def takeWhile_tail takeWhile_nonzero)

section \<open>The inner loop\<close>

lemma fill_token_eq:
  assumes "token_buffer tok" and "off \<le> 31"
  shows "fill_token buf tok off =
    (let nz = take (31 - off) (filter (\<lambda>b. b \<noteq> 0) buf)
     in (take off tok @ nz @ drop (off + length nz) tok, off + length nz))"
  using assms
proof (induction buf tok off rule: fill_token.induct)
  case (1 tok off)
  then show ?case by simp
next
  case (2 b buf tok off)
  from "2.prems"(1) have len: "length tok = 32"
    by (auto simp: token_buffer_def)
  consider "off = 31" | "off < 31" "b = 0" | "off < 31" "b \<noteq> 0"
    using "2.prems" by linarith
  then show ?case
  proof cases
    case 1
    then show ?thesis by simp
  next
    case 2
    then show ?thesis using "2.IH"(2) "2.prems" by simp
  next
    case 3
    have tb: "token_buffer (tok[off := b])"
      using "2.prems"(1) 3 by (auto simp: token_buffer_def list_update_append)
    have hd: "31 - off = Suc (31 - Suc off)" using 3 by simp
    show ?thesis
      using "2.IH"(1) [OF _ _ tb] 3 len
      by (simp add: Let_def hd take_Suc_conv_app_nth upd_conv_take_nth_drop add.commute)
  qed
qed

lemma fill_token_0:
  assumes "token_buffer tok"
  shows "fill_token buf tok 0 =
    (let nz = take 31 (filter (\<lambda>b. b \<noteq> 0) buf) in (nz @ drop (length nz) tok, length nz))"
  using fill_token_eq [OF assms, of 0 buf] by (simp add: Let_def)

lemma fill_token_buffer:
  assumes "token_buffer tok" and "fill_token buf tok 0 = (tok', off)"
  shows "token_buffer tok'"
proof -
  from assms(1) obtain xs where xs: "tok = xs @ [0]" "length xs = 31"
    by (auto simp: token_buffer_def)
  define nz where "nz = take 31 (filter (\<lambda>b. b \<noteq> 0) buf)"
  have "length nz \<le> 31" by (simp add: nz_def)
  with xs have "nz @ drop (length nz) tok = (nz @ drop (length nz) xs) @ [0]"
    and "length (nz @ drop (length nz) xs) = 31" by auto
  with assms show ?thesis
    by (auto simp: fill_token_0 Let_def nz_def [symmetric] token_buffer_def)
qed

lemma fill_token_complete:
  assumes "token_buffer tok" and "fill_token buf tok 0 = (tok', 31)"
  shows "valid_token tok' \<and> butlast tok' = take 31 (filter (\<lambda>b. b \<noteq> 0) buf)"
proof -
  from assms(1) obtain xs where xs: "tok = xs @ [0]" "length xs = 31"
    by (auto simp: token_buffer_def)
  define nz where "nz = take 31 (filter (\<lambda>b. b \<noteq> 0) buf)"
  have nz: "0 \<notin> set nz" by (auto simp: nz_def dest: in_set_takeD)
  from assms have "length nz = 31" "tok' = nz @ drop 31 tok"
    by (auto simp: fill_token_0 Let_def nz_def [symmetric])
  with xs nz show ?thesis
    by (auto simp: valid_token_def nz_def [symmetric])
qed

section \<open>The outer loop\<close>

text \<open>The random block drawn in round \<open>k\<close>, and whether it ends the loop.\<close>

fun rng_after :: "'r rng_dev \<Rightarrow> nat \<Rightarrow> 'r \<Rightarrow> 'r" where
  "rng_after dev 0 r = r"
| "rng_after dev (Suc k) r = rng_after dev k (snd (snd (dev r (HWKEY_OPAQUE_HANDLE_SIZE + 2))))"

definition round_ends :: "'r rng_dev \<Rightarrow> 'r \<Rightarrow> bool" where
  "round_ends dev r = (case dev r (HWKEY_OPAQUE_HANDLE_SIZE + 2) of (rc, buf, r') \<Rightarrow>
     rc \<noteq> NO_ERROR \<or> 31 \<le> length (filter (\<lambda>b. b \<noteq> 0) buf))"

lemma token_loop_step:
  assumes "token_buffer tok" and "dev r 34 = (rc, buf, r')"
    and "fill_token buf tok 0 = (tok', off)"
  shows "token_loop dev r tok =
    (if round_ends dev r
     then Some (rc, if rc = NO_ERROR then tok' else tok, r')
     else token_loop dev r' tok')"
proof -
  have "off = 31 \<longleftrightarrow> 31 \<le> length (filter (\<lambda>b. b \<noteq> 0) buf)"
    using assms by (auto simp: fill_token_0 Let_def)
  with assms show ?thesis
    by (subst token_loop.simps) (auto simp: round_ends_def)
qed

lemma token_loop_returns:
  assumes "round_ends dev (rng_after dev k r)" and "token_buffer tok"
  shows "\<exists>x. token_loop dev r tok = Some x"
  using assms
proof (induction k arbitrary: r tok)
  case 0
  obtain rc buf r' where d: "dev r 34 = (rc, buf, r')" using prod_cases3 by blast
  obtain tok' off where f: "fill_token buf tok 0 = (tok', off)" by fastforce
  from 0 show ?case by (simp add: token_loop_step [where dev = dev and r = r, OF _ d f])
next
  case (Suc k)
  obtain rc buf r' where d: "dev r 34 = (rc, buf, r')" using prod_cases3 by blast
  obtain tok' off where f: "fill_token buf tok 0 = (tok', off)" by fastforce
  from Suc.prems d have "round_ends dev (rng_after dev k r')" by simp
  with Suc.IH fill_token_buffer [OF Suc.prems(2) f] have "\<exists>x. token_loop dev r' tok' = Some x"
    by blast
  then show ?case by (simp add: token_loop_step [where dev = dev and r = r, OF Suc.prems(2) d f])
qed

text \<open>Conversely, the loop returns only if some round ends it.\<close>

lemma token_loop_round:
  assumes "token_loop dev r tok = Some x" and "token_buffer tok"
  shows "\<exists>k. round_ends dev (rng_after dev k r)"
proof -
  have "token_buffer tok \<longrightarrow> (\<exists>k. round_ends dev (rng_after dev k r))"
  proof (rule token_loop.raw_induct [where P = "\<lambda>dev r tok x.
      token_buffer tok \<longrightarrow> (\<exists>k. round_ends dev (rng_after dev k r))", OF _ assms(1)], rule impI)
    fix loop :: "'a rng_dev \<Rightarrow> 'a \<Rightarrow> byte list \<Rightarrow> (int \<times> byte list \<times> 'a) option"
      and dev :: "'a rng_dev" and r :: 'a and tok :: "byte list" and x
    assume IH: "\<And>dev r tok x. loop dev r tok = Some x \<Longrightarrow>
        token_buffer tok \<longrightarrow> (\<exists>k. round_ends dev (rng_after dev k r))"
      and eq: "(case dev r (HWKEY_OPAQUE_HANDLE_SIZE + 2) of (rc, random_buf, r') \<Rightarrow>
        if rc \<noteq> NO_ERROR then Some (rc, tok, r')
        else (case fill_token random_buf tok 0 of (token', token_offset) \<Rightarrow>
                if token_offset = HWKEY_OPAQUE_HANDLE_SIZE - 1 then Some (NO_ERROR, token', r')
                else loop dev r' token')) = Some x"
      and tb: "token_buffer tok"
    obtain rc buf r' where d: "dev r 34 = (rc, buf, r')" using prod_cases3 by blast
    obtain tok' off where f: "fill_token buf tok 0 = (tok', off)" by fastforce
    show "\<exists>k. round_ends dev (rng_after dev k r)"
    proof (cases "round_ends dev r")
      case True
      then show ?thesis by (intro exI [of _ 0]) simp
    next
      case False
      then have "rc = NO_ERROR" and "off \<noteq> 31"
        using d f tb by (auto simp: round_ends_def fill_token_0 Let_def)
      with eq d f have "loop dev r' tok' = Some x" by simp
      with IH fill_token_buffer [OF tb f] obtain k where "round_ends dev (rng_after dev k r')"
        by blast
      with d show ?thesis by (intro exI [of _ "Suc k"]) simp
    qed
  qed
  with assms(2) show ?thesis by simp
qed

text \<open>C13: The loop that draws a token returns exactly when some block the random device
  delivers is an error or has at least 31 non-zero bytes; with a device that keeps delivering
  poorer blocks it runs forever, because every block starts the token again.\<close>

theorem token_loop_returns_iff:
  "token_buffer tok \<Longrightarrow>
    (\<exists>x. token_loop dev r tok = Some x) \<longleftrightarrow> (\<exists>k. round_ends dev (rng_after dev k r))"
  using token_loop_returns token_loop_round by metis

theorem token_loop_returns_iff_witness:
  "\<not> (\<exists>x. token_loop (\<lambda>r n. (NO_ERROR, replicate n 0, r)) () zero_token = Some x)"
proof -
  have "\<not> round_ends (\<lambda>r n. (NO_ERROR, replicate n 0, r)) (r :: unit)" for r
    by (simp add: round_ends_def)
  with token_loop_returns_iff [OF zero_token_buffer, of "\<lambda>r n. (NO_ERROR, replicate n 0, r)" "()"]
  show ?thesis by simp
qed

text \<open>The result: a complete token exactly when the device reported no error.\<close>

lemma token_loop_last_round:
  assumes "token_loop dev r tok = Some (rc, t, r')" and "token_buffer tok"
    and "round_ends dev r"
  shows "token_buffer t \<and> (rc = NO_ERROR \<longrightarrow> valid_token t)"
proof -
  obtain rc1 buf r1 where d: "dev r 34 = (rc1, buf, r1)" using prod_cases3 by blast
  obtain tok1 off where f: "fill_token buf tok 0 = (tok1, off)" by fastforce
  have "rc1 = NO_ERROR \<Longrightarrow> off = 31"
    using assms d f by (auto simp: round_ends_def fill_token_0 Let_def)
  with assms d f show ?thesis
    using fill_token_complete fill_token_buffer
    by (auto simp: token_loop_step [where dev = dev and r = r, OF _ d f] split: if_splits)
qed

lemma token_loop_result:
  assumes "token_loop dev r tok = Some (rc, t, r')" and "token_buffer tok"
  shows "token_buffer t \<and> (rc = NO_ERROR \<longrightarrow> valid_token t)"
proof -
  from token_loop_round [OF assms] obtain k where "round_ends dev (rng_after dev k r)" ..
  then show ?thesis using assms
  proof (induction k arbitrary: r tok)
    case 0
    then show ?case using token_loop_last_round by simp
  next
    case (Suc k)
    obtain rc1 buf r1 where d: "dev r 34 = (rc1, buf, r1)" using prod_cases3 by blast
    obtain tok1 off where f: "fill_token buf tok 0 = (tok1, off)" by fastforce
    show ?case
    proof (cases "round_ends dev r")
      case True
      with Suc.prems show ?thesis by (metis token_loop_last_round)
    next
      case False
      with Suc.prems d f have "token_loop dev r1 tok1 = Some (rc, t, r')"
        by (simp add: token_loop_step [where dev = dev and r = r, OF _ d f])
      moreover from Suc.prems d have "round_ends dev (rng_after dev k r1)" by simp
      ultimately show ?thesis
        using Suc.IH fill_token_buffer [OF Suc.prems(3) f] by blast
    qed
  qed
qed

section \<open>The contract of a device that supplies tokens\<close>

locale hwrng_supply = hwrng_device get_rng_data for get_rng_data :: "'r rng_dev" +
  assumes rng_supply: "\<exists>k. round_ends get_rng_data (rng_after get_rng_data k r)"
begin

lemma token_loop_total:
  assumes "token_buffer tok"
  obtains rc t r' where "token_loop get_rng_data r tok = Some (rc, t, r')"
    and "token_buffer t" and "rc = NO_ERROR \<Longrightarrow> valid_token t"
proof -
  from token_loop_returns rng_supply assms obtain x where "token_loop get_rng_data r tok = Some x"
    by metis
  moreover obtain rc t r' where "x = (rc, t, r')" using prod_cases3 by blast
  ultimately show ?thesis using that token_loop_result assms by metis
qed

end

section \<open>The fake provider supplies tokens\<close>

text \<open>
  34 consecutive counter values hold at most one multiple of 256, so the first block has
  enough non-zero bytes.
\<close>

lemma low_byte_zero_unique:
  assumes "i < 34" and "j < 34" and "b + of_nat i = (0 :: byte)" and "b + of_nat j = 0"
  shows "i = j"
proof -
  from assms(3,4) have "(of_nat i :: byte) = of_nat j" by (metis add_left_imp_eq)
  then have "unat (of_nat i :: byte) = unat (of_nat j :: byte)" by simp
  with assms(1,2) show ?thesis by (simp add: unat_of_nat)
qed

lemma fake_block_nonzero:
  "31 \<le> length (filter (\<lambda>b. b \<noteq> (0 :: byte)) (map (\<lambda>i. b + of_nat i) [0..<34]))"
proof -
  let ?Z = "{i. i < 34 \<and> b + of_nat i = (0 :: byte)}"
  have "length (filter (\<lambda>b. b \<noteq> (0 :: byte)) (map (\<lambda>i. b + of_nat i) [0..<34])) =
      card ({i. i < 34} - ?Z)"
    by (simp add: filter_map o_def distinct_length_filter set_eq_iff Int_def)
       (rule arg_cong [of _ _ card], auto)
  moreover have "card ?Z \<le> 1"
    using low_byte_zero_unique by (auto simp: card_le_Suc0_iff_eq)
  moreover have "card ({i. i < (34::nat)} - ?Z) = card {i. i < (34::nat)} - card ?Z"
    by (rule card_Diff_subset) auto
  ultimately show ?thesis by simp
qed

lemma fake_round_ends:
  fixes c :: "'w::len word"
  assumes "8 \<le> LENGTH('w)"
  shows "round_ends hwrng_dev_get_rng_data c"
proof -
  have "fst (snd (hwrng_dev_get_rng_data c 34)) = map (\<lambda>i. ucast c + of_nat i) [0..<34]"
    by (rule fake_bytes [OF assms])
  with fake_block_nonzero [of "ucast c"]
  have "31 \<le> length (filter (\<lambda>b. b \<noteq> 0) (fst (snd (hwrng_dev_get_rng_data c 34))))"
    by metis
  then show ?thesis by (auto simp: round_ends_def split: prod.splits)
qed

interpretation fake64: hwrng_supply "hwrng_dev_get_rng_data :: (64 word) rng_dev"
  by unfold_locales (rule exI [of _ 0], simp add: fake_round_ends)

interpretation fake32: hwrng_supply "hwrng_dev_get_rng_data :: (32 word) rng_dev"
  by unfold_locales (rule exI [of _ 0], simp add: fake_round_ends)

end
