(* ===== verification/Trusty_Env.thy ===== *)
theory Trusty_Env
  imports Prelude
begin

text \<open>
  Types of the IPC and crypto interfaces that several services use: poll events as the
  set of flags that are up (the code only tests single bits and the empty mask), and the
  BoringSSL ciphers the services name.
\<close>

datatype poll_flag =
    IPC_HANDLE_POLL_READY
  | IPC_HANDLE_POLL_ERROR
  | IPC_HANDLE_POLL_HUP
  | IPC_HANDLE_POLL_MSG
  | IPC_HANDLE_POLL_SEND_UNBLOCKED

record uevent =
  ev_handle :: handle_t
  ev_event :: "poll_flag set"

datatype evp_cipher =
  EVP_aes_128_cbc | EVP_aes_256_cbc | EVP_aes_128_gcm | EVP_aes_256_gcm

end
