(* ===== verification/Hwkey_Srv.thy ===== *)
theory Hwkey_Srv
  imports Hwkey_Token Trusty_Env
begin

text \<open>
  The hwkey service (\<open>hwcrypto/hwkey_srv.c\<close>, \<open>hwcrypto/hwkey_srv_priv.h\<close>): key slots,
  the global list of opaque handles, the request handlers, the channel and port event
  handlers. This theory holds the definitions; \<open>Hwkey_Inv\<close> and \<open>Hwkey_Props\<close> hold what is
  proved about them.
\<close>

section \<open>External code: crypto library and IPC answers\<close>

text \<open>
  BoringSSL, the system state library and the IPC layer are not part of the repository.
  What they answer during one event is an argument of the handlers: every field below is
  the outcome of one call site, so an arbitrary record is an arbitrary behaviour. A pair
  of a flag and a byte list is the success flag and what the call wrote to its output.
\<close>

record crypto =
  HKDF :: "nat \<Rightarrow> byte list \<Rightarrow> byte list \<Rightarrow> byte list \<Rightarrow> bool \<times> byte list"
  uuid_bytes :: "uuid \<Rightarrow> byte list"
  EVP_CIPHER_CTX_new :: bool
  EVP_DecryptInit :: "evp_cipher \<Rightarrow> bool"
  EVP_DecryptInit_key :: "evp_cipher \<Rightarrow> byte list \<Rightarrow> byte list \<Rightarrow> bool"
  EVP_set_padding :: bool
  EVP_iv_length :: "evp_cipher \<Rightarrow> nat"
  EVP_key_length :: "evp_cipher \<Rightarrow> nat"
  EVP_DecryptUpdate :: "evp_cipher \<Rightarrow> byte list \<Rightarrow> byte list \<Rightarrow> byte list \<Rightarrow> bool \<times> byte list"
  EVP_DecryptFinal :: "evp_cipher \<Rightarrow> byte list \<Rightarrow> byte list \<Rightarrow> byte list \<Rightarrow> bool \<times> int"
  EVP_EncryptInit :: "evp_cipher \<Rightarrow> byte list \<Rightarrow> bool"
  EVP_EncryptUpdate :: "evp_cipher \<Rightarrow> byte list \<Rightarrow> byte list \<Rightarrow> bool \<times> byte list"
  EVP_EncryptFinal :: "evp_cipher \<Rightarrow> byte list \<Rightarrow> byte list \<Rightarrow> bool"
  system_state_app_loading_unlocked :: bool

text \<open>
  The status codes of the protocol by name (they are only assigned and compared), and
  any other 32-bit value, which \<open>get_key_handle\<close> produces when it returns the device's
  return code.
\<close>

datatype hwkey_status =
    HWKEY_NO_ERROR
  | HWKEY_ERR_GENERIC
  | HWKEY_ERR_BAD_LEN
  | HWKEY_ERR_NOT_IMPLEMENTED
  | HWKEY_ERR_NOT_FOUND
  | HWKEY_ERR_ALREADY_EXISTS
  | HWKEY_RAW u32

text \<open>The fields of \<open>struct hwkey_msg\<close> the service reads or writes.\<close>

record hwkey_msg =
  cmd :: u32
  status :: hwkey_status
  arg1 :: u32

text \<open>The numeric constants of the protocol header \<open>interface/hwkey/hwkey.h\<close>.\<close>

record hwkey_proto =
  HWKEY_GET_KEYSLOT :: u32
  HWKEY_DERIVE :: u32
  HWKEY_RESP_BIT :: u32
  HWKEY_KDF_VERSION_BEST :: u32
  HWKEY_KDF_VERSION_1 :: u32

record hwkey_env =
  crypto_env :: crypto
  node_calloc :: bool
  recv_res :: "int + hwkey_msg \<times> byte list"
  send_rc :: int
  chan_errors_abort :: bool
  port_errors_abort :: bool
  accept_res :: "int + handle_t \<times> uuid"
  ctx_calloc :: "nat option"
  set_cookie_rc :: int

section \<open>Key slots\<close>

text \<open>
  A slot handler or retriever gets the key buffer by its contents; \<open>kbuf_len\<close> is its
  length at every call. It returns the status, the buffer afterwards and what it stored
  to \<open>*klen\<close>, if anything.
\<close>

type_synonym hres = "(hwkey_status \<times> byte list \<times> nat option) res"

record hwkey_derived_keyslot_data =
  encrypted_key_data :: "byte list"
  encrypted_key_size :: nat
  dk_retriever :: "crypto \<Rightarrow> byte list \<Rightarrow> hres"

record apploader_key =
  ak_data :: "byte list"
  ak_size :: nat

datatype handle_priv =
    No_priv
  | Derived_priv hwkey_derived_keyslot_data
  | Apploader_priv apploader_key

record hwkey_opaque_handle_data =
  allowed_uuids :: "uuid list"
  oh_priv :: handle_priv
  oh_retriever :: "handle_priv \<Rightarrow> crypto \<Rightarrow> byte list \<Rightarrow> hres"

text \<open>The \<open>void*\<close> of a slot, tagged with the type of the object it points to.\<close>

datatype slot_priv =
    Null_priv
  | Handle_priv hwkey_opaque_handle_data
  | Key_priv handle_priv

text \<open>
  Handlers are function pointers; the service compares them with \<open>get_key_handle\<close>, which
  is therefore a constructor of its own.
\<close>

datatype slot_handler =
    Get_key_handle
  | Slot_handler "uuid \<Rightarrow> slot_priv \<Rightarrow> crypto \<Rightarrow> byte list \<Rightarrow> hres"

record hwkey_keyslot =
  key_id :: string
  slot_uuid :: uuid
  slot_priv :: slot_priv
  slot_handler :: "slot_handler option"

text \<open>What the service takes from the key provider at link time.\<close>

record hwkey_provider_ops =
  hwkey_client_allowed :: "uuid \<Rightarrow> bool"
  derive_key_v1 :: "crypto \<Rightarrow> uuid \<Rightarrow> byte list \<Rightarrow> byte list \<Rightarrow>
    (hwkey_status \<times> byte list \<times> nat) res"

section \<open>State\<close>

definition HWKEY_MAX_PAYLOAD_SIZE :: nat where
  [simp]: "HWKEY_MAX_PAYLOAD_SIZE = 2048"

definition HWKEY_DERIVED_KEY_MAX_SIZE :: nat where
  [simp]: "HWKEY_DERIVED_KEY_MAX_SIZE = 32"

record hwkey_chan_ctx =
  chan :: handle_t
  ctx_uuid :: uuid

text \<open>
  A node names its slot by the index in the slot table and its owner by the address of
  the channel context.
\<close>

record opaque_handle_node =
  key_slot :: nat
  owner :: nat
  token :: "byte list"

datatype hwkey_out =
    Sent handle_t hwkey_msg "byte list"
  | Closed handle_t

text \<open>
  The globals of the service. \<open>ctxs\<close> is the heap of live channel contexts by address;
  \<open>freed_nodes\<close> holds the bytes left in the memory of deleted handle nodes; \<open>outs\<close> lists
  the messages sent and handles closed so far; \<open>rng\<close> is the state of the random device.
\<close>

record 'r hwkey_state =
  opaque_handles :: "opaque_handle_node list"
  freed_nodes :: "opaque_handle_node list"
  req_data :: "byte list"
  key_data :: "byte list"
  key_slots :: "hwkey_keyslot list option"
  ctxs :: "nat \<rightharpoonup> hwkey_chan_ctx"
  rng :: 'r
  outs :: "hwkey_out list"

definition hwkey_initial :: "'r \<Rightarrow> 'r hwkey_state" where
  "hwkey_initial r =
     \<lparr>opaque_handles = [], freed_nodes = [],
      req_data = replicate (HWKEY_MAX_PAYLOAD_SIZE + 1) 0,
      key_data = replicate HWKEY_MAX_PAYLOAD_SIZE 0,
      key_slots = None, ctxs = Map.empty, rng = r, outs = []\<rparr>"

definition emit :: "hwkey_out \<Rightarrow> 'r hwkey_state \<Rightarrow> 'r hwkey_state" where
  "emit x s = s\<lparr>outs := outs s @ [x]\<rparr>"

section \<open>Opaque handles\<close>

definition is_opaque_handle :: "hwkey_keyslot \<Rightarrow> bool" where
  "is_opaque_handle sl = (case slot_handler sl of Some Get_key_handle \<Rightarrow> True | _ \<Rightarrow> False)"

text \<open>Zero the token, unlink the node (found by the predicate) and free it.\<close>

definition delete_opaque_handle ::
    "(opaque_handle_node \<Rightarrow> bool) \<Rightarrow> 'r hwkey_state \<Rightarrow> 'r hwkey_state res" where
  "delete_opaque_handle P s =
     (case find P (opaque_handles s) of
        None \<Rightarrow> Inl Assert_failed
      | Some node \<Rightarrow>
          Inr (s\<lparr>opaque_handles := remove_first P (opaque_handles s),
                 freed_nodes := node\<lparr>token := zero_token\<rparr> # freed_nodes s\<rparr>))"

text \<open>\<open>list_for_every_entry_safe\<close>: delete every node the context owns, in list order.\<close>

fun close_handles ::
    "nat \<Rightarrow> opaque_handle_node list \<Rightarrow> 'r hwkey_state \<Rightarrow> 'r hwkey_state res" where
  "close_handles c [] s = Inr s"
| "close_handles c (entry # rest) s =
     (if owner entry = c
      then bindr (delete_opaque_handle (\<lambda>e. e = entry) s) (close_handles c rest)
      else close_handles c rest s)"

definition hwkey_ctx_close :: "nat \<Rightarrow> 'r hwkey_state \<Rightarrow> 'r hwkey_state res" where
  "hwkey_ctx_close c s =
     (case ctxs s c of
        None \<Rightarrow> Inl Use_after_free
      | Some ctx \<Rightarrow>
          bindr (close_handles c (opaque_handles s) s) (\<lambda>s1.
            Inr ((emit (Closed (chan ctx)) s1)\<lparr>ctxs := (ctxs s1)(c := None)\<rparr>)))"

definition hwkey_send_rsp ::
    "hwkey_proto \<Rightarrow> hwkey_env \<Rightarrow> handle_t \<Rightarrow> hwkey_msg \<Rightarrow> byte list \<Rightarrow> 'r hwkey_state \<Rightarrow>
     int \<times> 'r hwkey_state" where
  "hwkey_send_rsp p env h rsp_hdr rsp_data s =
     (send_rc env,
      emit (Sent h (rsp_hdr\<lparr>cmd := cmd rsp_hdr OR HWKEY_RESP_BIT p\<rparr>) rsp_data) s)"

text \<open>The slot's private data read as \<open>struct hwkey_opaque_handle_data\<close>.\<close>

definition handle_data :: "slot_priv \<Rightarrow> hwkey_opaque_handle_data res" where
  "handle_data pr =
     (case pr of Null_priv \<Rightarrow> Inl Assert_failed
               | Handle_priv h \<Rightarrow> Inr h
               | Key_priv _ \<Rightarrow> Inl Type_confusion)"

definition is_allowed_to_read_opaque_key :: "uuid \<Rightarrow> hwkey_keyslot \<Rightarrow> bool res" where
  "is_allowed_to_read_opaque_key u slot =
     bindr (handle_data (slot_priv slot)) (\<lambda>handle.
       Inr (list_ex (\<lambda>a. a = u) (allowed_uuids handle)))"

definition find_opaque_handle_for_slot ::
    "nat \<Rightarrow> 'r hwkey_state \<Rightarrow> opaque_handle_node option" where
  "find_opaque_handle_for_slot slot s = find (\<lambda>entry. key_slot entry = slot) (opaque_handles s)"

definition insert_handle_node ::
    "hwkey_env \<Rightarrow> nat \<Rightarrow> nat \<Rightarrow> 'r hwkey_state \<Rightarrow> hwkey_status \<times> 'r hwkey_state" where
  "insert_handle_node env c slot s =
     (case find_opaque_handle_for_slot slot s of
        Some _ \<Rightarrow> (HWKEY_NO_ERROR, s)
      | None \<Rightarrow>
          if \<not> node_calloc env then (HWKEY_ERR_GENERIC, s)
          else (HWKEY_NO_ERROR,
                s\<lparr>opaque_handles := opaque_handles s @
                    [\<lparr>key_slot = slot, owner = c, token = zero_token\<rparr>]\<rparr>))"

definition set_token :: "nat \<Rightarrow> byte list \<Rightarrow> 'r hwkey_state \<Rightarrow> 'r hwkey_state" where
  "set_token slot t s = s\<lparr>opaque_handles :=
     update_first (\<lambda>e. key_slot e = slot) (\<lambda>e. e\<lparr>token := t\<rparr>) (opaque_handles s)\<rparr>"

definition get_key_handle ::
    "'r rng_dev \<Rightarrow> nat \<Rightarrow> hwkey_keyslot \<Rightarrow> 'r hwkey_state \<Rightarrow>
     (hwkey_status \<times> nat option \<times> 'r hwkey_state) res" where
  "get_key_handle dev slot sl s =
     assertr (slot_priv sl \<noteq> Null_priv)
      (assertr (length (key_data s) \<ge> HWKEY_OPAQUE_HANDLE_SIZE)
        (case find_opaque_handle_for_slot slot s of
           None \<Rightarrow> Inl Assert_failed
         | Some entry \<Rightarrow>
             bindr (is_empty_token (token entry)) (\<lambda>empty.
               if \<not> empty then Inr (HWKEY_ERR_ALREADY_EXISTS, None, s)
               else
                 (case token_loop dev (rng s) (token entry) of
                    None \<Rightarrow> Inl Diverges
                  | Some (rc, t, r') \<Rightarrow>
                      if rc \<noteq> NO_ERROR
                      then bindr (delete_opaque_handle (\<lambda>e. key_slot e = slot)
                                    (set_token slot t (s\<lparr>rng := r'\<rparr>)))
                             (\<lambda>s1. Inr (HWKEY_RAW (word_of_int rc), None, s1))
                      else
                        assertr (t ! (HWKEY_OPAQUE_HANDLE_SIZE - 1) = 0)
                         (bindr (memcpy_to (key_data s) 0 (take HWKEY_OPAQUE_HANDLE_SIZE t))
                           (\<lambda>kbuf. Inr (HWKEY_NO_ERROR, Some HWKEY_OPAQUE_HANDLE_SIZE,
                              (set_token slot t (s\<lparr>rng := r'\<rparr>))\<lparr>key_data := kbuf\<rparr>)))))))"

text \<open>
  \<open>get_opaque_key\<close> walks the list; \<open>slots\<close> is the slot table the nodes point into. The
  comparison reads \<open>HWKEY_OPAQUE_HANDLE_SIZE\<close> bytes of the request buffer, whatever the
  length of the request was.
\<close>

fun get_opaque_key ::
    "crypto \<Rightarrow> hwkey_keyslot list \<Rightarrow> uuid \<Rightarrow> byte list \<Rightarrow> byte list \<Rightarrow>
     opaque_handle_node list \<Rightarrow> hres" where
  "get_opaque_key C slots u access_token kbuf [] = Inr (HWKEY_ERR_NOT_FOUND, kbuf, None)"
| "get_opaque_key C slots u access_token kbuf (entry # rest) =
     bindr (is_empty_token (token entry)) (\<lambda>empty.
       assertr (\<not> empty)
         (if \<not> key_slot entry < length slots then Inl Out_of_bounds
          else
            bindr (is_allowed_to_read_opaque_key u (slots ! key_slot entry)) (\<lambda>allowed.
              if \<not> allowed then get_opaque_key C slots u access_token kbuf rest
              else
                bindr (mem_read access_token 0 HWKEY_OPAQUE_HANDLE_SIZE) (\<lambda>t.
                  if take HWKEY_OPAQUE_HANDLE_SIZE (token entry) = t
                  then bindr (handle_data (slot_priv (slots ! key_slot entry))) (\<lambda>handle.
                         oh_retriever handle (oh_priv handle) C kbuf)
                  else get_opaque_key C slots u access_token kbuf rest))))"

section \<open>Key retrieval\<close>

text \<open>The loop of \<open>_handle_slots\<close> from index \<open>i\<close> on, over the rest of the table.\<close>

fun handle_slots_from ::
    "'r rng_dev \<Rightarrow> hwkey_env \<Rightarrow> nat \<Rightarrow> uuid \<Rightarrow> byte list \<Rightarrow> hwkey_keyslot list \<Rightarrow> nat \<Rightarrow>
     hwkey_keyslot list \<Rightarrow> 'r hwkey_state \<Rightarrow> (hwkey_status \<times> nat option \<times> 'r hwkey_state) res" where
  "handle_slots_from dev env c u slot_id slots i [] s =
     bindr (get_opaque_key (crypto_env env) slots u slot_id (key_data s) (opaque_handles s))
       (\<lambda>(rc, kbuf, klen). Inr (rc, klen, s\<lparr>key_data := kbuf\<rparr>))"
| "handle_slots_from dev env c u slot_id slots i (sl # rest) s =
     bindr (strcmp_eq (key_id sl) slot_id) (\<lambda>same.
       if \<not> same then handle_slots_from dev env c u slot_id slots (Suc i) rest s
       else if u = slot_uuid sl then
         (case slot_handler sl of
            None \<Rightarrow> handle_slots_from dev env c u slot_id slots (Suc i) rest s
          | Some h \<Rightarrow>
              if is_opaque_handle sl then
                (case insert_handle_node env c i s of (rc, s1) \<Rightarrow>
                   if rc \<noteq> HWKEY_NO_ERROR then Inr (rc, None, s1)
                   else get_key_handle dev i sl s1)
              else
                (case h of
                   Get_key_handle \<Rightarrow> get_key_handle dev i sl s
                 | Slot_handler f \<Rightarrow>
                     bindr (f (slot_uuid sl) (slot_priv sl) (crypto_env env) (key_data s))
                       (\<lambda>(rc, kbuf, klen). Inr (rc, klen, s\<lparr>key_data := kbuf\<rparr>))))
       else handle_slots_from dev env c u slot_id slots (Suc i) rest s)"

definition handle_slots ::
    "'r rng_dev \<Rightarrow> hwkey_env \<Rightarrow> nat \<Rightarrow> uuid \<Rightarrow> byte list \<Rightarrow> 'r hwkey_state \<Rightarrow>
     (hwkey_status \<times> nat option \<times> 'r hwkey_state) res" where
  "handle_slots dev env c u slot_id s =
     (case key_slots s of
        None \<Rightarrow> Inr (HWKEY_ERR_NOT_FOUND, None, s)
      | Some slots \<Rightarrow> handle_slots_from dev env c u slot_id slots 0 slots s)"

definition derived_cipher :: "nat \<Rightarrow> evp_cipher option" where
  "derived_cipher key_len =
     (if key_len = 16 then Some EVP_aes_128_cbc
      else if key_len = 32 then Some EVP_aes_256_cbc else None)"

definition hwkey_get_derived_key ::
    "crypto \<Rightarrow> hwkey_derived_keyslot_data \<Rightarrow> byte list \<Rightarrow> hres" where
  "hwkey_get_derived_key C data kbuf =
     bindr (dk_retriever data C (replicate HWKEY_DERIVED_KEY_MAX_SIZE 0)) (\<lambda>(rc, key_buffer, kl).
       if rc \<noteq> HWKEY_NO_ERROR then Inr (rc, kbuf, None)
       else case kl of None \<Rightarrow> Inl Uninitialised | Some key_len \<Rightarrow>
         (case derived_cipher key_len of
            None \<Rightarrow> Inr (HWKEY_ERR_GENERIC, kbuf, None)
          | Some cipher \<Rightarrow>
              if \<not> EVP_CIPHER_CTX_new C then Inr (HWKEY_ERR_GENERIC, kbuf, None)
              else if \<not> EVP_DecryptInit C cipher then Inr (HWKEY_ERR_GENERIC, kbuf, None)
              else if EVP_iv_length C cipher \<ge> encrypted_key_size data
              then Inr (HWKEY_ERR_GENERIC, kbuf, None)
              else if length kbuf < encrypted_key_size data - EVP_iv_length C cipher
              then Inr (HWKEY_ERR_BAD_LEN, kbuf, None)
              else if length (encrypted_key_data data) < encrypted_key_size data
              then Inl Out_of_bounds
              else
                let iv_length = EVP_iv_length C cipher;
                    n = encrypted_key_size data - iv_length;
                    key = take key_len key_buffer;
                    iv = take iv_length (encrypted_key_data data);
                    ct = take n (drop iv_length (encrypted_key_data data))
                in if \<not> EVP_DecryptInit_key C cipher key iv then Inr (HWKEY_ERR_GENERIC, kbuf, None)
                   else if \<not> EVP_set_padding C then Inr (HWKEY_ERR_GENERIC, kbuf, None)
                   else
                     (case EVP_DecryptUpdate C cipher key iv ct of (ok, out) \<Rightarrow>
                        bindr (memcpy_to kbuf 0 out) (\<lambda>kbuf1.
                          if \<not> ok then Inr (HWKEY_ERR_GENERIC, kbuf1, None)
                          else assertr (length out = n)
                            (case EVP_DecryptFinal C cipher key iv ct of (ok2, out_len) \<Rightarrow>
                               if \<not> ok2 then Inr (HWKEY_ERR_GENERIC, kbuf1, None)
                               else assertr (out_len = 0)
                                 (Inr (HWKEY_NO_ERROR, kbuf1, Some n)))))))"

section \<open>Request handlers\<close>

definition hwkey_handle_get_keyslot_cmd ::
    "hwkey_proto \<Rightarrow> 'r rng_dev \<Rightarrow> hwkey_env \<Rightarrow> nat \<Rightarrow> hwkey_chan_ctx \<Rightarrow> hwkey_msg \<Rightarrow>
     byte list \<Rightarrow> 'r hwkey_state \<Rightarrow> (int \<times> 'r hwkey_state) res" where
  "hwkey_handle_get_keyslot_cmd p dev env c ctx hdr slot_id s =
     bindr (handle_slots dev env c (ctx_uuid ctx) slot_id s) (\<lambda>(st, kl, s1).
       let klen = (case kl of None \<Rightarrow> 0 | Some n \<Rightarrow> n) in
       bindr (mem_read (key_data s1) 0 klen) (\<lambda>rsp_data.
         case hwkey_send_rsp p env (chan ctx) (hdr\<lparr>status := st\<rparr>) rsp_data s1 of (rc, s2) \<Rightarrow>
           if klen \<noteq> 0
           then bindr (memset0 (key_data s2) klen) (\<lambda>kbuf. Inr (rc, s2\<lparr>key_data := kbuf\<rparr>))
           else Inr (rc, s2)))"

definition hwkey_handle_derive_key_cmd ::
    "hwkey_proto \<Rightarrow> hwkey_provider_ops \<Rightarrow> hwkey_env \<Rightarrow> hwkey_chan_ctx \<Rightarrow> hwkey_msg \<Rightarrow>
     byte list \<Rightarrow> 'r hwkey_state \<Rightarrow> (int \<times> 'r hwkey_state) res" where
  "hwkey_handle_derive_key_cmd p prov env ctx hdr ikm_data s =
     (let hdr1 = (if arg1 hdr = HWKEY_KDF_VERSION_BEST p
                  then hdr\<lparr>arg1 := HWKEY_KDF_VERSION_1 p\<rparr> else hdr) in
      bindr (if arg1 hdr1 = HWKEY_KDF_VERSION_1 p
             then derive_key_v1 prov (crypto_env env) (ctx_uuid ctx) ikm_data (key_data s)
             else Inr (HWKEY_ERR_NOT_IMPLEMENTED, key_data s, 0)) (\<lambda>(st, kbuf, key_len).
        bindr (mem_read kbuf 0 key_len) (\<lambda>rsp_data.
          case hwkey_send_rsp p env (chan ctx) (hdr1\<lparr>status := st\<rparr>) rsp_data (s\<lparr>key_data := kbuf\<rparr>)
          of (rc, s1) \<Rightarrow>
            if key_len \<noteq> 0
            then bindr (memset0 (key_data s1) key_len) (\<lambda>kb. Inr (rc, s1\<lparr>key_data := kb\<rparr>))
            else Inr (rc, s1))))"

definition hwkey_chan_handle_msg ::
    "hwkey_proto \<Rightarrow> hwkey_provider_ops \<Rightarrow> 'r rng_dev \<Rightarrow> hwkey_env \<Rightarrow> nat \<Rightarrow>
     hwkey_chan_ctx \<Rightarrow> 'r hwkey_state \<Rightarrow> (int \<times> 'r hwkey_state) res" where
  "hwkey_chan_handle_msg p prov dev env c ctx s =
     (case recv_res env of
        Inl rc \<Rightarrow> Inr (rc, s)
      | Inr (hdr, payload) \<Rightarrow>
          bindr (memcpy_to (req_data s) 0 payload) (\<lambda>req.
            let req_data_len = length payload; s1 = s\<lparr>req_data := req\<rparr> in
            if cmd hdr = HWKEY_GET_KEYSLOT p then
              bindr (memcpy_to req req_data_len [0]) (\<lambda>req1.
                hwkey_handle_get_keyslot_cmd p dev env c ctx hdr req1 (s1\<lparr>req_data := req1\<rparr>))
            else if cmd hdr = HWKEY_DERIVE p then
              bindr (hwkey_handle_derive_key_cmd p prov env ctx hdr (take req_data_len req) s1)
                (\<lambda>(rc, s2). bindr (memset0 (req_data s2) req_data_len)
                   (\<lambda>req2. Inr (rc, s2\<lparr>req_data := req2\<rparr>)))
            else
              Inr (hwkey_send_rsp p env (chan ctx)
                     (hdr\<lparr>status := HWKEY_ERR_NOT_IMPLEMENTED\<rparr>) [] s1)))"

section \<open>Event handlers\<close>

definition hwkey_chan_handler ::
    "hwkey_proto \<Rightarrow> hwkey_provider_ops \<Rightarrow> 'r rng_dev \<Rightarrow> hwkey_env \<Rightarrow> uevent \<Rightarrow> nat \<Rightarrow>
     'r hwkey_state \<Rightarrow> 'r hwkey_state res" where
  "hwkey_chan_handler p prov dev env ev c s =
     (case ctxs s c of
        None \<Rightarrow> Inl Use_after_free
      | Some ctx \<Rightarrow>
          assertr (ev_handle ev = chan ctx)
           (if chan_errors_abort env then Inl Aborted
            else if IPC_HANDLE_POLL_HUP \<in> ev_event ev then hwkey_ctx_close c s
            else if IPC_HANDLE_POLL_MSG \<in> ev_event ev then
              bindr (hwkey_chan_handle_msg p prov dev env c ctx s) (\<lambda>(rc, s1).
                if rc < 0 then hwkey_ctx_close c s1 else Inr s1)
            else Inr s))"

definition hwkey_port_handler ::
    "hwkey_provider_ops \<Rightarrow> hwkey_env \<Rightarrow> uevent \<Rightarrow> 'r hwkey_state \<Rightarrow> 'r hwkey_state res" where
  "hwkey_port_handler prov env ev s =
     (if port_errors_abort env then Inl Aborted
      else if IPC_HANDLE_POLL_READY \<in> ev_event ev then
        (case accept_res env of
           Inl rc \<Rightarrow> Inr s
         | Inr (ch, peer_uuid) \<Rightarrow>
             if \<not> hwkey_client_allowed prov peer_uuid then Inr (emit (Closed ch) s)
             else
               (case ctx_calloc env of
                  None \<Rightarrow> Inr (emit (Closed ch) s)
                | Some c \<Rightarrow>
                    let s1 = s\<lparr>ctxs := (ctxs s)(c \<mapsto> \<lparr>chan = ch, ctx_uuid = peer_uuid\<rparr>)\<rparr> in
                    if set_cookie_rc env < 0 then hwkey_ctx_close c s1 else Inr s1))
      else Inr s)"

definition hwkey_install_keys ::
    "hwkey_keyslot list \<Rightarrow> 'r hwkey_state \<Rightarrow> 'r hwkey_state res" where
  "hwkey_install_keys keys s =
     assertr (key_slots s = None) (assertr (keys \<noteq> []) (Inr (s\<lparr>key_slots := Some keys\<rparr>)))"

text \<open>
  \<open>hwkey_start_service\<close>: the return codes of \<open>port_create\<close> and \<open>set_cookie\<close> decide; the
  handle of the port is closed again when no event handler could be attached.
\<close>

definition hwkey_start_service :: "int \<Rightarrow> int \<Rightarrow> 'r hwkey_state \<Rightarrow> int \<times> 'r hwkey_state" where
  "hwkey_start_service port_create_rc cookie_rc s =
     (if port_create_rc < 0 then (port_create_rc, s)
      else if cookie_rc \<noteq> 0 then (cookie_rc, emit (Closed port_create_rc) s)
      else (NO_ERROR, s))"

end
