(* ===== verification/Hwkey_Inv.thy ===== *)
theory Hwkey_Inv
  imports Hwkey_Srv
begin

text \<open>
  What the operations of the hwkey service compute, branch by branch, on states that
  satisfy the service invariant; the contract of the key provider as a locale; and, in
  that locale, that no event makes the service fault and every event keeps the invariant.
\<close>

named_theorems hwkey_simps

section \<open>The invariant\<close>

text \<open>
  A handle node points to an opaque slot of the table, belongs to a live connection of the
  application the slot is for, and holds a complete token.
\<close>

definition node_ok ::
    "hwkey_keyslot list \<Rightarrow> (nat \<rightharpoonup> hwkey_chan_ctx) \<Rightarrow> opaque_handle_node \<Rightarrow> bool" where
  "node_ok slots cs e \<longleftrightarrow>
     key_slot e < length slots \<and>
     is_opaque_handle (slots ! key_slot e) \<and>
     (case cs (owner e) of None \<Rightarrow> False
      | Some ctx \<Rightarrow> ctx_uuid ctx = slot_uuid (slots ! key_slot e)) \<and>
     valid_token (token e)"

definition buffers_ok :: "'r hwkey_state \<Rightarrow> bool" where
  "buffers_ok s \<longleftrightarrow> length (req_data s) = 2049 \<and> length (key_data s) = 2048"

definition hwkey_inv :: "hwkey_provider_ops \<Rightarrow> hwkey_keyslot list \<Rightarrow> 'r hwkey_state \<Rightarrow> bool" where
  "hwkey_inv prov slots s \<longleftrightarrow>
     key_slots s = Some slots \<and>
     (\<forall>e \<in> set (opaque_handles s). node_ok slots (ctxs s) e) \<and>
     distinct (map key_slot (opaque_handles s)) \<and>
     buffers_ok s \<and>
     (\<forall>ctx \<in> ran (ctxs s). hwkey_client_allowed prov (ctx_uuid ctx)) \<and>
     (\<forall>n \<in> set (freed_nodes s). zeroed (token n))"

lemma hwkey_invD:
  assumes "hwkey_inv prov slots s"
  shows "key_slots s = Some slots"
    and "\<And>e. e \<in> set (opaque_handles s) \<Longrightarrow> node_ok slots (ctxs s) e"
    and "distinct (map key_slot (opaque_handles s))"
    and "length (req_data s) = 2049" and "length (key_data s) = 2048"
  using assms by (auto simp: hwkey_inv_def buffers_ok_def)

lemma hwkey_inv_frame [hwkey_simps]:
  "hwkey_inv prov slots (emit x s) \<longleftrightarrow> hwkey_inv prov slots s"
  "hwkey_inv prov slots (s\<lparr>rng := r\<rparr>) \<longleftrightarrow> hwkey_inv prov slots s"
  "length kb = 2048 \<Longrightarrow> hwkey_inv prov slots s \<Longrightarrow> hwkey_inv prov slots (s\<lparr>key_data := kb\<rparr>)"
  "length rq = 2049 \<Longrightarrow> hwkey_inv prov slots s \<Longrightarrow> hwkey_inv prov slots (s\<lparr>req_data := rq\<rparr>)"
  by (auto simp: hwkey_inv_def buffers_ok_def emit_def)

lemma emit_simps [hwkey_simps]:
  "opaque_handles (emit x s) = opaque_handles s" "freed_nodes (emit x s) = freed_nodes s"
  "req_data (emit x s) = req_data s" "key_data (emit x s) = key_data s"
  "key_slots (emit x s) = key_slots s" "ctxs (emit x s) = ctxs s" "rng (emit x s) = rng s"
  "outs (emit x s) = outs s @ [x]"
  by (simp_all add: emit_def)

section \<open>Closing a connection\<close>

lemma close_handles_eq:
  assumes "set es \<subseteq> set (opaque_handles s)" and "distinct es"
    and "distinct (opaque_handles s)"
  shows "close_handles c es s = Inr (s\<lparr>
      opaque_handles := filter (\<lambda>e. \<not> (e \<in> set es \<and> owner e = c)) (opaque_handles s),
      freed_nodes := rev (map (\<lambda>e. e\<lparr>token := zero_token\<rparr>) (filter (\<lambda>e. owner e = c) es)) @
        freed_nodes s\<rparr>)"
  using assms
proof (induction es arbitrary: s)
  case Nil
  then show ?case by simp
next
  case (Cons e es)
  show ?case
  proof (cases "owner e = c")
    case False
    have "filter (\<lambda>x. \<not> (x \<in> set (e # es) \<and> owner x = c)) (opaque_handles s) =
        filter (\<lambda>x. \<not> (x \<in> set es \<and> owner x = c)) (opaque_handles s)"
      using False by (intro filter_cong) auto
    with False Cons show ?thesis by simp
  next
    case True
    from Cons.prems have "find (\<lambda>x. x = e) (opaque_handles s) = Some e"
      by (auto simp: find_Some_iff in_set_conv_nth nth_eq_iff_index_eq)
    from update_first_decomp [OF this]
    obtain as bs where hs: "opaque_handles s = as @ e # bs" "remove_first (\<lambda>x. x = e) (opaque_handles s) = as @ bs"
      by blast
    define s1 where "s1 = s\<lparr>opaque_handles := as @ bs,
      freed_nodes := e\<lparr>token := zero_token\<rparr> # freed_nodes s\<rparr>"
    have d: "delete_opaque_handle (\<lambda>x. x = e) s = Inr s1"
      using \<open>find (\<lambda>x. x = e) (opaque_handles s) = Some e\<close> hs
      by (simp add: delete_opaque_handle_def s1_def)
    have IH: "close_handles c es s1 = Inr (s1\<lparr>
      opaque_handles := filter (\<lambda>x. \<not> (x \<in> set es \<and> owner x = c)) (opaque_handles s1),
      freed_nodes := rev (map (\<lambda>e. e\<lparr>token := zero_token\<rparr>) (filter (\<lambda>e. owner e = c) es)) @
        freed_nodes s1\<rparr>)"
      using Cons.prems hs by (intro Cons.IH) (auto simp: s1_def)
    have "filter (\<lambda>x. \<not> (x \<in> set (e # es) \<and> owner x = c)) (as @ e # bs) =
        filter (\<lambda>x. \<not> (x \<in> set es \<and> owner x = c)) (as @ bs)"
      using True Cons.prems hs by (auto intro!: arg_cong2 [where f = append] filter_cong)
    with True d IH hs show ?thesis by (simp add: s1_def)
  qed
qed

lemma hwkey_ctx_close_eq:
  assumes "ctxs s c = Some ctx" and "distinct (map key_slot (opaque_handles s))"
  shows "hwkey_ctx_close c s = Inr (s\<lparr>
      opaque_handles := filter (\<lambda>e. owner e \<noteq> c) (opaque_handles s),
      freed_nodes := rev (map (\<lambda>e. e\<lparr>token := zero_token\<rparr>)
        (filter (\<lambda>e. owner e = c) (opaque_handles s))) @ freed_nodes s,
      outs := outs s @ [Closed (chan ctx)],
      ctxs := (ctxs s)(c := None)\<rparr>)"
proof -
  have "distinct (opaque_handles s)" using assms(2) by (simp add: distinct_map)
  moreover have "filter (\<lambda>e. \<not> (e \<in> set (opaque_handles s) \<and> owner e = c)) (opaque_handles s) =
      filter (\<lambda>e. owner e \<noteq> c) (opaque_handles s)"
    by (intro filter_cong) auto
  ultimately show ?thesis
    using close_handles_eq [of "opaque_handles s" s c] assms(1)
    by (simp add: hwkey_ctx_close_def emit_def)
qed

lemma zeroed_zero_token [simp]: "zeroed zero_token"
  by (simp add: zero_token_def)

lemma hwkey_ctx_close_inv:
  assumes "hwkey_inv prov slots s" and "ctxs s c = Some ctx"
  obtains s' where "hwkey_ctx_close c s = Inr s'" and "hwkey_inv prov slots s'"
proof
  note inv = hwkey_invD [OF assms(1)]
  show "hwkey_ctx_close c s = Inr (s\<lparr>
      opaque_handles := filter (\<lambda>e. owner e \<noteq> c) (opaque_handles s),
      freed_nodes := rev (map (\<lambda>e. e\<lparr>token := zero_token\<rparr>)
        (filter (\<lambda>e. owner e = c) (opaque_handles s))) @ freed_nodes s,
      outs := outs s @ [Closed (chan ctx)],
      ctxs := (ctxs s)(c := None)\<rparr>)"
    by (rule hwkey_ctx_close_eq [OF assms(2) inv(3)])
  show "hwkey_inv prov slots (s\<lparr>
      opaque_handles := filter (\<lambda>e. owner e \<noteq> c) (opaque_handles s),
      freed_nodes := rev (map (\<lambda>e. e\<lparr>token := zero_token\<rparr>)
        (filter (\<lambda>e. owner e = c) (opaque_handles s))) @ freed_nodes s,
      outs := outs s @ [Closed (chan ctx)],
      ctxs := (ctxs s)(c := None)\<rparr>)"
    using assms(1)
    by (auto simp: hwkey_inv_def buffers_ok_def node_ok_def distinct_map_filter ran_def)
qed

section \<open>Creating an opaque handle\<close>

lemma find_slot_SomeD:
  "find_opaque_handle_for_slot i s = Some e \<Longrightarrow> e \<in> set (opaque_handles s) \<and> key_slot e = i"
  by (auto simp: find_opaque_handle_for_slot_def dest: find_SomeD)

lemma find_slot_NoneD:
  "find_opaque_handle_for_slot i s = None \<Longrightarrow> e \<in> set (opaque_handles s) \<Longrightarrow> key_slot e \<noteq> i"
  by (auto simp: find_opaque_handle_for_slot_def find_None_iff')

text \<open>A slot that has a node gives out no second token and changes nothing.\<close>

lemma get_key_handle_existing:
  assumes "find_opaque_handle_for_slot i s = Some e" and "valid_token (token e)"
    and "slot_priv sl \<noteq> Null_priv" and "length (key_data s) = 2048"
  shows "get_key_handle dev i sl s = Inr (HWKEY_ERR_ALREADY_EXISTS, None, s)"
  using assms by (simp add: get_key_handle_def is_empty_valid_token)

text \<open>
  A slot without a node: the node inserted before the call is completed with the token,
  or unlinked and cleared if the device failed.
\<close>

definition with_node :: "nat \<Rightarrow> nat \<Rightarrow> byte list \<Rightarrow> 'r hwkey_state \<Rightarrow> 'r hwkey_state" where
  "with_node i c t s = s\<lparr>opaque_handles := opaque_handles s @
     [\<lparr>key_slot = i, owner = c, token = t\<rparr>]\<rparr>"

lemma find_slot_append:
  "find_opaque_handle_for_slot i s = None \<Longrightarrow>
    find (\<lambda>e. key_slot e = i) (opaque_handles s @ [\<lparr>key_slot = i, owner = c, token = t\<rparr>]) =
      Some \<lparr>key_slot = i, owner = c, token = t\<rparr>"
  by (simp add: find_opaque_handle_for_slot_def find_append)

lemma update_first_new:
  "find P xs = None \<Longrightarrow> P y \<Longrightarrow> update_first P f (xs @ [y]) = xs @ [f y]"
  by (induction xs) (auto split: if_splits)

lemma remove_first_new: "find P xs = None \<Longrightarrow> P y \<Longrightarrow> remove_first P (xs @ [y]) = xs"
  by (induction xs) (auto split: if_splits)

lemma get_key_handle_new:
  assumes none: "find_opaque_handle_for_slot i s = None"
    and priv: "slot_priv sl \<noteq> Null_priv" and len: "length (key_data s) = 2048"
    and loop: "token_loop dev (rng s) zero_token = Some (rc, t, r')"
  shows "get_key_handle dev i sl (with_node i c zero_token s) =
    (if rc \<noteq> NO_ERROR
     then Inr (HWKEY_RAW (word_of_int rc), None, s\<lparr>rng := r',
       freed_nodes := \<lparr>key_slot = i, owner = c, token = zero_token\<rparr> # freed_nodes s\<rparr>)
     else Inr (HWKEY_NO_ERROR, Some 32,
       (with_node i c t s)\<lparr>rng := r', key_data := t @ drop 32 (key_data s)\<rparr>))"
proof -
  have tb: "token_buffer t" and vt: "rc = NO_ERROR \<Longrightarrow> valid_token t"
    using token_loop_result [OF loop zero_token_buffer] by auto
  then have "length t = 32" "t ! 31 = 0"
    by (auto simp: token_buffer_def nth_append)
  with assms show ?thesis
    by (simp add: get_key_handle_def find_opaque_handle_for_slot_def with_node_def set_token_def
        delete_opaque_handle_def find_append is_empty_zero_token update_first_new remove_first_new
        memcpy_to_def)
qed

text \<open>The two steps \<open>_handle_slots\<close> takes for an opaque slot, together.\<close>

definition open_handle ::
    "'r rng_dev \<Rightarrow> hwkey_env \<Rightarrow> nat \<Rightarrow> nat \<Rightarrow> hwkey_keyslot \<Rightarrow> 'r hwkey_state \<Rightarrow>
     (hwkey_status \<times> nat option \<times> 'r hwkey_state) res" where
  "open_handle dev env c i sl s = (case insert_handle_node env c i s of (rc, s1) \<Rightarrow>
     if rc \<noteq> HWKEY_NO_ERROR then Inr (rc, None, s1) else get_key_handle dev i sl s1)"

lemma insert_handle_node_simps:
  "find_opaque_handle_for_slot i s = Some e \<Longrightarrow>
    insert_handle_node env c i s = (HWKEY_NO_ERROR, s)"
  "find_opaque_handle_for_slot i s = None \<Longrightarrow> \<not> node_calloc env \<Longrightarrow>
    insert_handle_node env c i s = (HWKEY_ERR_GENERIC, s)"
  "find_opaque_handle_for_slot i s = None \<Longrightarrow> node_calloc env \<Longrightarrow>
    insert_handle_node env c i s = (HWKEY_NO_ERROR, with_node i c zero_token s)"
  by (simp_all add: insert_handle_node_def with_node_def)

lemma open_handle_cases:
  assumes inv: "hwkey_inv prov slots s"
    and priv: "slot_priv sl \<noteq> Null_priv"
    and loop: "token_loop dev (rng s) zero_token = Some (rc, t, r')"
  obtains (existing) e where "e \<in> set (opaque_handles s)" "key_slot e = i"
      "open_handle dev env c i sl s = Inr (HWKEY_ERR_ALREADY_EXISTS, None, s)"
  | (no_memory) "open_handle dev env c i sl s = Inr (HWKEY_ERR_GENERIC, None, s)"
  | (no_random) "\<forall>e \<in> set (opaque_handles s). key_slot e \<noteq> i" "rc \<noteq> NO_ERROR"
      "open_handle dev env c i sl s = Inr (HWKEY_RAW (word_of_int rc), None, s\<lparr>rng := r',
         freed_nodes := \<lparr>key_slot = i, owner = c, token = zero_token\<rparr> # freed_nodes s\<rparr>)"
  | (created) "\<forall>e \<in> set (opaque_handles s). key_slot e \<noteq> i" "rc = NO_ERROR" "valid_token t"
      "open_handle dev env c i sl s = Inr (HWKEY_NO_ERROR, Some 32,
         (with_node i c t s)\<lparr>rng := r', key_data := t @ drop 32 (key_data s)\<rparr>)"
proof (cases "find_opaque_handle_for_slot i s")
  case (Some e)
  then have e: "e \<in> set (opaque_handles s)" "key_slot e = i"
    by (auto dest: find_slot_SomeD)
  then have "valid_token (token e)"
    using hwkey_invD(2) [OF inv] by (auto simp: node_ok_def)
  with Some priv hwkey_invD(5) [OF inv]
  have "open_handle dev env c i sl s = Inr (HWKEY_ERR_ALREADY_EXISTS, None, s)"
    by (simp add: open_handle_def insert_handle_node_simps get_key_handle_existing)
  with e existing show ?thesis by blast
next
  case None
  then have fresh: "\<forall>e \<in> set (opaque_handles s). key_slot e \<noteq> i"
    by (auto dest: find_slot_NoneD)
  show ?thesis
  proof (cases "node_calloc env")
    case False
    with None no_memory show ?thesis
      by (simp add: open_handle_def insert_handle_node_simps)
  next
    case True
    with None priv loop hwkey_invD(5) [OF inv]
    have o: "open_handle dev env c i sl s =
      (if rc \<noteq> NO_ERROR
       then Inr (HWKEY_RAW (word_of_int rc), None, s\<lparr>rng := r',
         freed_nodes := \<lparr>key_slot = i, owner = c, token = zero_token\<rparr> # freed_nodes s\<rparr>)
       else Inr (HWKEY_NO_ERROR, Some 32,
         (with_node i c t s)\<lparr>rng := r', key_data := t @ drop 32 (key_data s)\<rparr>))"
      by (simp add: open_handle_def insert_handle_node_simps get_key_handle_new)
    show ?thesis
    proof (cases "rc = NO_ERROR")
      case True
      with o fresh token_loop_result [OF loop zero_token_buffer] created show ?thesis by simp
    next
      case False
      with o fresh no_random show ?thesis by simp
    qed
  qed
qed

lemma hwkey_inv_with_node:
  assumes "hwkey_inv prov slots s" and "\<forall>e \<in> set (opaque_handles s). key_slot e \<noteq> i"
    and "node_ok slots (ctxs s) \<lparr>key_slot = i, owner = c, token = t\<rparr>"
  shows "hwkey_inv prov slots (with_node i c t s)"
  using assms by (auto simp: hwkey_inv_def with_node_def buffers_ok_def)

section \<open>Reading a key through a token\<close>

definition node_matches ::
    "hwkey_keyslot list \<Rightarrow> uuid \<Rightarrow> byte list \<Rightarrow> opaque_handle_node \<Rightarrow> bool" where
  "node_matches slots u access_token e \<longleftrightarrow>
     (case slot_priv (slots ! key_slot e) of
        Handle_priv h \<Rightarrow> u \<in> set (allowed_uuids h) | _ \<Rightarrow> False) \<and>
     token e = take 32 access_token"

definition retrieve :: "crypto \<Rightarrow> hwkey_keyslot \<Rightarrow> byte list \<Rightarrow> hres" where
  "retrieve C sl kbuf = bindr (handle_data (slot_priv sl)) (\<lambda>h. oh_retriever h (oh_priv h) C kbuf)"

text \<open>
  On nodes of the invariant the list walk is a search for the first node whose slot the
  caller may read and whose token is the given one.
\<close>

lemma get_opaque_key_eq:
  assumes "\<And>e. e \<in> set es \<Longrightarrow> key_slot e < length slots \<and> valid_token (token e) \<and>
      (\<exists>h. slot_priv (slots ! key_slot e) = Handle_priv h)"
    and "32 \<le> length access_token"
  shows "get_opaque_key C slots u access_token kbuf es =
    (case find (node_matches slots u access_token) es of
       None \<Rightarrow> Inr (HWKEY_ERR_NOT_FOUND, kbuf, None)
     | Some e \<Rightarrow> retrieve C (slots ! key_slot e) kbuf)"
  using assms
proof (induction es)
  case Nil
  then show ?case by simp
next
  case (Cons e es)
  then obtain h where h: "slot_priv (slots ! key_slot e) = Handle_priv h" by auto
  have e: "key_slot e < length slots" "valid_token (token e)" using Cons.prems(1) by auto
  have IH: "get_opaque_key C slots u access_token kbuf es =
    (case find (node_matches slots u access_token) es of
       None \<Rightarrow> Inr (HWKEY_ERR_NOT_FOUND, kbuf, None)
     | Some e \<Rightarrow> retrieve C (slots ! key_slot e) kbuf)"
    using Cons by simp
  have "list_ex (\<lambda>a. a = u) (allowed_uuids h) \<longleftrightarrow> u \<in> set (allowed_uuids h)"
    by (auto simp: list_ex_iff)
  with e h IH Cons.prems(2) show ?case
    by (simp add: is_empty_valid_token is_allowed_to_read_opaque_key_def handle_data_def
        mem_read_def node_matches_def [of slots u access_token e] retrieve_def)
qed

section \<open>Looking a slot up\<close>

definition slot_serves :: "uuid \<Rightarrow> byte list \<Rightarrow> hwkey_keyslot \<Rightarrow> bool" where
  "slot_serves u slot_id sl \<longleftrightarrow>
     bytes_of (key_id sl) = cstr slot_id \<and> u = slot_uuid sl \<and> slot_handler sl \<noteq> None"

definition serve_slot ::
    "'r rng_dev \<Rightarrow> hwkey_env \<Rightarrow> nat \<Rightarrow> nat \<Rightarrow> hwkey_keyslot \<Rightarrow> 'r hwkey_state \<Rightarrow>
     (hwkey_status \<times> nat option \<times> 'r hwkey_state) res" where
  "serve_slot dev env c i sl s =
     (case slot_handler sl of
        Some (Slot_handler f) \<Rightarrow>
          bindr (f (slot_uuid sl) (slot_priv sl) (crypto_env env) (key_data s))
            (\<lambda>(rc, kbuf, klen). Inr (rc, klen, s\<lparr>key_data := kbuf\<rparr>))
      | _ \<Rightarrow> open_handle dev env c i sl s)"

text \<open>The loop serves the first slot with the key id, for this caller, with a handler.\<close>

lemma handle_slots_from_eq:
  assumes "0 \<in> set slot_id"
  shows "handle_slots_from dev env c u slot_id slots i rest s =
    (case find (\<lambda>(j, sl). slot_serves u slot_id sl) (enumerate i rest) of
       Some (j, sl) \<Rightarrow> serve_slot dev env c j sl s
     | None \<Rightarrow> bindr (get_opaque_key (crypto_env env) slots u slot_id (key_data s) (opaque_handles s))
         (\<lambda>(rc, kbuf, klen). Inr (rc, klen, s\<lparr>key_data := kbuf\<rparr>)))"
proof (induction rest arbitrary: i)
  case Nil
  then show ?case by simp
next
  case (Cons sl rest)
  show ?case
  proof (cases "slot_serves u slot_id sl")
    case False
    with assms Cons show ?thesis
      by (auto simp: slot_serves_def strcmp_eq_def split: option.splits)
  next
    case True
    with assms show ?thesis
      by (auto simp: slot_serves_def strcmp_eq_def serve_slot_def open_handle_def is_opaque_handle_def
          split: option.splits slot_handler.splits)
  qed
qed

lemma handle_slots_eq:
  assumes "0 \<in> set slot_id" and "key_slots s = Some slots"
  shows "handle_slots dev env c u slot_id s =
    (case find (\<lambda>(j, sl). slot_serves u slot_id sl) (enumerate 0 slots) of
       Some (j, sl) \<Rightarrow> serve_slot dev env c j sl s
     | None \<Rightarrow> bindr (get_opaque_key (crypto_env env) slots u slot_id (key_data s) (opaque_handles s))
         (\<lambda>(rc, kbuf, klen). Inr (rc, klen, s\<lparr>key_data := kbuf\<rparr>)))"
  using assms handle_slots_from_eq [OF assms(1)] by (simp add: handle_slots_def)

lemma find_enumerate_SomeD:
  assumes "find (\<lambda>(j, sl). P sl) (enumerate 0 slots) = Some (j, sl)"
  shows "j < length slots" and "slots ! j = sl" and "P sl"
  using find_SomeD [OF assms] by (auto simp: in_set_enumerate_eq)

section \<open>The provider's contract and the service's guarantee\<close>

text \<open>
  What a slot handler or retriever promises on a buffer: it returns, keeps the buffer's
  size, reports no key bytes unless it succeeds, and on success reports a length within
  the buffer and leaves the bytes after it alone.
\<close>

definition klen_of :: "nat option \<Rightarrow> nat" where
  "klen_of kl = (case kl of None \<Rightarrow> 0 | Some n \<Rightarrow> n)"

lemma klen_of_simps [simp]: "klen_of None = 0" "klen_of (Some n) = n"
  by (simp_all add: klen_of_def)

definition klen_post :: "byte list \<Rightarrow> hwkey_status \<Rightarrow> byte list \<Rightarrow> nat option \<Rightarrow> bool" where
  "klen_post kbuf st kb kl \<longleftrightarrow>
     length kb = length kbuf \<and> klen_of kl \<le> length kbuf \<and>
     (if st = HWKEY_NO_ERROR then kl \<noteq> None \<and> drop (klen_of kl) kb = drop (klen_of kl) kbuf
      else klen_of kl = 0)"

definition handler_post :: "byte list \<Rightarrow> hres \<Rightarrow> bool" where
  "handler_post kbuf r \<longleftrightarrow> (\<exists>st kb kl. r = Inr (st, kb, kl) \<and> klen_post kbuf st kb kl)"

lemma handler_postI: "r = Inr (st, kb, kl) \<Longrightarrow> klen_post kbuf st kb kl \<Longrightarrow> handler_post kbuf r"
  by (auto simp: handler_post_def)

lemma handler_post_Inr [simp]: "handler_post kbuf (Inr (st, kb, kl)) \<longleftrightarrow> klen_post kbuf st kb kl"
  by (simp add: handler_post_def)

text \<open>
  What the service relies on in one event: the crypto library keeps its contract, a
  received payload fits the space given to \<open>tipc_recv_hdr_payload\<close>, a failed receive is a
  negative code, \<open>calloc\<close> returns memory that is not in use, and the IPC library does not
  abort on the event.
\<close>

definition env_ok :: "(crypto \<Rightarrow> bool) \<Rightarrow> (nat \<rightharpoonup> hwkey_chan_ctx) \<Rightarrow> hwkey_env \<Rightarrow> bool" where
  "env_ok crypto_ok cs env \<longleftrightarrow>
     crypto_ok (crypto_env env) \<and>
     (case recv_res env of Inl rc \<Rightarrow> rc < 0 | Inr (hdr, payload) \<Rightarrow> length payload \<le> 2048) \<and>
     (case ctx_calloc env of None \<Rightarrow> True | Some c \<Rightarrow> cs c = None) \<and>
     \<not> chan_errors_abort env \<and> \<not> port_errors_abort env"

text \<open>The outcome of serving one request, before the response is sent.\<close>

definition served ::
    "hwkey_provider_ops \<Rightarrow> hwkey_keyslot list \<Rightarrow> 'r hwkey_state \<Rightarrow> hwkey_status \<Rightarrow> nat option \<Rightarrow> 'r hwkey_state \<Rightarrow> bool" where
  "served prov keys s st kl s' \<longleftrightarrow> hwkey_inv prov keys s' \<and> ctxs s' = ctxs s \<and> outs s' = outs s \<and>
     req_data s' = req_data s \<and> klen_post (key_data s) st (key_data s') kl"

locale hwkey_service = hwrng_supply dev for dev :: "'r rng_dev" +
  fixes prov :: hwkey_provider_ops and keys :: "hwkey_keyslot list"
    and crypto_ok :: "crypto \<Rightarrow> bool"
  assumes handlers: "sl \<in> set keys \<Longrightarrow> slot_handler sl = Some (Slot_handler f) \<Longrightarrow> crypto_ok C \<Longrightarrow>
      length kbuf = 2048 \<Longrightarrow> handler_post kbuf (f (slot_uuid sl) (slot_priv sl) C kbuf)"
    and opaque_priv: "sl \<in> set keys \<Longrightarrow> is_opaque_handle sl \<Longrightarrow>
      \<exists>h. slot_priv sl = Handle_priv h"
    and retrievers: "sl \<in> set keys \<Longrightarrow> slot_priv sl = Handle_priv h \<Longrightarrow> crypto_ok C \<Longrightarrow>
      length kbuf = 2048 \<Longrightarrow> handler_post kbuf (oh_retriever h (oh_priv h) C kbuf)"
    and derive: "crypto_ok C \<Longrightarrow> length ikm \<le> 2048 \<Longrightarrow> length kbuf = 2048 \<Longrightarrow>
      \<exists>st kb n. derive_key_v1 prov C u ikm kbuf = Inr (st, kb, n) \<and> length kb = 2048 \<and>
        n \<le> 2048 \<and> (zeroed kbuf \<longrightarrow> zeroed (drop n kb)) \<and> (n \<noteq> 0 \<longleftrightarrow> st = HWKEY_NO_ERROR)"
begin

lemma served_handler:
  assumes "hwkey_inv prov keys s" and "handler_post (key_data s) r"
  shows "\<exists>st kl s'. bindr r (\<lambda>(rc, kbuf, klen). Inr (rc, klen, s\<lparr>key_data := kbuf\<rparr>)) =
    Inr (st, kl, s') \<and> served prov keys s st kl s'"
proof -
  from assms(2) obtain st kb kl where r: "r = Inr (st, kb, kl)"
    and kb: "klen_post (key_data s) st kb kl"
    by (auto simp: handler_post_def)
  then have "length kb = 2048"
    using hwkey_invD(5) [OF assms(1)] by (simp add: klen_post_def)
  with kb assms(1) have "served prov keys s st kl (s\<lparr>key_data := kb\<rparr>)"
    by (simp add: served_def hwkey_inv_frame)
  with r show ?thesis by auto
qed

lemma open_handle_served:
  assumes inv: "hwkey_inv prov keys s" and j: "j < length keys" "is_opaque_handle (keys ! j)"
    and ctx: "ctxs s c = Some ctx" "ctx_uuid ctx = slot_uuid (keys ! j)"
  shows "\<exists>st kl s'. open_handle dev env c j (keys ! j) s = Inr (st, kl, s') \<and> served prov keys s st kl s'"
proof -
  obtain rc t r' where loop: "token_loop dev (rng s) zero_token = Some (rc, t, r')"
    using token_loop_total [OF zero_token_buffer] by metis
  have priv: "slot_priv (keys ! j) \<noteq> Null_priv"
    using opaque_priv [of "keys ! j"] j by auto
  note len = hwkey_invD(5) [OF inv]
  show ?thesis
  proof (cases rule: open_handle_cases [OF inv priv loop, where i = j and c = c and env = env,
      consumes 0, case_names existing no_memory no_random created])
    case (existing e)
    with inv show ?thesis by (auto simp: served_def klen_post_def)
  next
    case no_memory
    with inv show ?thesis by (auto simp: served_def klen_post_def)
  next
    case no_random
    have "hwkey_inv prov keys (s\<lparr>rng := r',
        freed_nodes := \<lparr>key_slot = j, owner = c, token = zero_token\<rparr> # freed_nodes s\<rparr>)"
      using inv by (auto simp: hwkey_inv_def buffers_ok_def)
    with no_random show ?thesis by (auto simp: served_def klen_post_def)
  next
    case created
    have "hwkey_inv prov keys (with_node j c t s)"
      using inv created j ctx by (intro hwkey_inv_with_node) (auto simp: node_ok_def)
    with len created(3) have "hwkey_inv prov keys
        ((with_node j c t s)\<lparr>rng := r', key_data := t @ drop 32 (key_data s)\<rparr>)"
      by (auto intro: hwkey_inv_frame simp: hwkey_inv_def buffers_ok_def)
    with len created show ?thesis by (auto simp: served_def klen_post_def with_node_def)
  qed
qed

lemma handle_slots_served:
  assumes inv: "hwkey_inv prov keys s" and crypto: "crypto_ok (crypto_env env)"
    and ctx: "ctxs s c = Some ctx" and z: "0 \<in> set slot_id" "32 \<le> length slot_id"
  shows "\<exists>st kl s'. handle_slots dev env c (ctx_uuid ctx) slot_id s = Inr (st, kl, s') \<and>
    served prov keys s st kl s'"
proof (cases "find (\<lambda>(j, sl). slot_serves (ctx_uuid ctx) slot_id sl) (enumerate 0 keys)")
  case (Some x)
  then obtain j sl where x: "x = (j, sl)" by (cases x)
  note f = find_enumerate_SomeD [OF Some [unfolded x]]
  then have sl: "sl \<in> set keys" by auto
  from f obtain h where h: "slot_handler sl = Some h" by (auto simp: slot_serves_def)
  show ?thesis
  proof (cases h)
    case Get_key_handle
    from f(2,3) h Get_key_handle have "is_opaque_handle (keys ! j)" "ctx_uuid ctx = slot_uuid (keys ! j)"
      by (auto simp: slot_serves_def is_opaque_handle_def)
    from open_handle_served [OF inv f(1) this(1) ctx this(2)] h Get_key_handle f(2) show ?thesis
      by (simp add: handle_slots_eq [OF z(1) hwkey_invD(1) [OF inv]] Some x serve_slot_def)
  next
    case (Slot_handler g)
    with h have "handler_post (key_data s) (g (slot_uuid sl) (slot_priv sl) (crypto_env env) (key_data s))"
      using handlers [OF sl _ crypto] hwkey_invD(5) [OF inv] by simp
    from served_handler [OF inv this] h Slot_handler show ?thesis
      by (simp add: handle_slots_eq [OF z(1) hwkey_invD(1) [OF inv]] Some x serve_slot_def)
  qed
next
  case None
  have nodes: "key_slot e < length keys \<and> valid_token (token e) \<and>
      (\<exists>h. slot_priv (keys ! key_slot e) = Handle_priv h)" if "e \<in> set (opaque_handles s)" for e
    using hwkey_invD(2) [OF inv that] opaque_priv by (auto simp: node_ok_def)
  have "handler_post (key_data s)
      (get_opaque_key (crypto_env env) keys (ctx_uuid ctx) slot_id (key_data s) (opaque_handles s))"
  proof (cases "find (node_matches keys (ctx_uuid ctx) slot_id) (opaque_handles s)")
    case None
    with z nodes show ?thesis by (simp add: get_opaque_key_eq klen_post_def)
  next
    case (Some e)
    from find_SomeD [OF Some] nodes obtain h where
      "slot_priv (keys ! key_slot e) = Handle_priv h" "keys ! key_slot e \<in> set keys"
      by fastforce
    with Some z nodes retrievers crypto hwkey_invD(5) [OF inv] show ?thesis
      by (simp add: get_opaque_key_eq retrieve_def handle_data_def)
  qed
  from served_handler [OF inv this] None show ?thesis
    by (simp add: handle_slots_eq [OF z(1) hwkey_invD(1) [OF inv]])
qed

end

section \<open>Responses\<close>

definition response :: "hwkey_proto \<Rightarrow> hwkey_msg \<Rightarrow> hwkey_status \<Rightarrow> hwkey_msg" where
  "response p hdr st = hdr\<lparr>status := st, cmd := cmd hdr OR HWKEY_RESP_BIT p\<rparr>"

lemma get_keyslot_cmd_eq:
  assumes "handle_slots dev env c (ctx_uuid ctx) slot_id s = Inr (st, kl, s1)"
    and "klen_of kl \<le> length (key_data s1)"
  shows "hwkey_handle_get_keyslot_cmd p dev env c ctx hdr slot_id s =
    Inr (send_rc env,
      (emit (Sent (chan ctx) (response p hdr st) (take (klen_of kl) (key_data s1))) s1)
        \<lparr>key_data := replicate (klen_of kl) 0 @ drop (klen_of kl) (key_data s1)\<rparr>)"
  using assms
  by (simp add: hwkey_handle_get_keyslot_cmd_def klen_of_def [symmetric] mem_read_def
      Let_def hwkey_send_rsp_def emit_def memset0_ok response_def)

definition kdf_hdr :: "hwkey_proto \<Rightarrow> hwkey_msg \<Rightarrow> hwkey_msg" where
  "kdf_hdr p hdr = (if arg1 hdr = HWKEY_KDF_VERSION_BEST p
     then hdr\<lparr>arg1 := HWKEY_KDF_VERSION_1 p\<rparr> else hdr)"

lemma derive_cmd_eq:
  assumes "arg1 (kdf_hdr p hdr) = HWKEY_KDF_VERSION_1 p"
    and "derive_key_v1 prov (crypto_env env) (ctx_uuid ctx) ikm (key_data s) = Inr (st, kb, n)"
    and "n \<le> length kb"
  shows "hwkey_handle_derive_key_cmd p prov env ctx hdr ikm s =
    Inr (send_rc env,
      (emit (Sent (chan ctx) (response p (kdf_hdr p hdr) st) (take n kb)) s)
        \<lparr>key_data := replicate n 0 @ drop n kb\<rparr>)"
  using assms
  by (simp add: hwkey_handle_derive_key_cmd_def kdf_hdr_def [symmetric] mem_read_def
      Let_def hwkey_send_rsp_def emit_def memset0_ok response_def)

lemma derive_cmd_unsupported:
  assumes "arg1 (kdf_hdr p hdr) \<noteq> HWKEY_KDF_VERSION_1 p"
  shows "hwkey_handle_derive_key_cmd p prov env ctx hdr ikm s =
    Inr (send_rc env,
      emit (Sent (chan ctx) (response p (kdf_hdr p hdr) HWKEY_ERR_NOT_IMPLEMENTED) []) s)"
  using assms
  by (simp add: hwkey_handle_derive_key_cmd_def kdf_hdr_def [symmetric] mem_read_def
      Let_def hwkey_send_rsp_def emit_def response_def)

text \<open>The request buffer after a request was received and, for key slots, terminated.\<close>

definition received :: "byte list \<Rightarrow> byte list \<Rightarrow> byte list" where
  "received payload req = payload @ drop (length payload) req"

definition terminated :: "byte list \<Rightarrow> byte list \<Rightarrow> byte list" where
  "terminated payload req = payload @ 0 # drop (Suc (length payload)) req"

lemma received_simps [hwkey_simps]:
  "length payload \<le> 2048 \<Longrightarrow> length req = 2049 \<Longrightarrow>
     memcpy_to req 0 payload = Inr (received payload req)"
  "length payload \<le> 2048 \<Longrightarrow> length req = 2049 \<Longrightarrow>
     memcpy_to (received payload req) (length payload) [0] = Inr (terminated payload req)"
  "length payload \<le> 2048 \<Longrightarrow> length req = 2049 \<Longrightarrow> length (received payload req) = 2049"
  "length payload \<le> 2048 \<Longrightarrow> length req = 2049 \<Longrightarrow> length (terminated payload req) = 2049"
  "take (length payload) (received payload req) = payload"
  by (auto simp: received_def terminated_def memcpy_to_def)

lemma zero_in_terminated [hwkey_simps]: "0 \<in> set (terminated payload req)"
  by (simp add: terminated_def)

text \<open>Only the bytes the client sent decide which key id it asked for.\<close>

lemma cstr_terminated [hwkey_simps]: "cstr (terminated payload req) = cstr payload"
  by (simp add: terminated_def cstr_def takeWhile_tail)

text \<open>A buffer that starts with a token holds its 31 bytes inside the request.\<close>

lemma token_in_request:
  assumes "valid_token t" and "t = take 32 (terminated payload req)"
  shows "31 \<le> length payload \<and> take 31 payload = butlast t"
proof -
  from assms(1) obtain nz where t: "t = nz @ [0]" "length nz = 31" "0 \<notin> set nz"
    by (auto simp: valid_token_def)
  have nz: "nz = take 31 (terminated payload req)"
    using arg_cong [OF assms(2), of "take 31"] t by simp
  have len: "31 \<le> length payload"
  proof (rule ccontr)
    assume "\<not> 31 \<le> length payload"
    then have "0 \<in> set (take 31 (terminated payload req))"
      by (auto simp: terminated_def take_Cons' )
    with nz t(3) show False by simp
  qed
  with nz t show ?thesis by (simp add: terminated_def)
qed

lemma chan_handle_msg_keyslot:
  assumes "recv_res env = Inr (hdr, payload)" and "cmd hdr = HWKEY_GET_KEYSLOT p"
    and "length payload \<le> 2048" and "length (req_data s) = 2049"
  shows "hwkey_chan_handle_msg p prov dev env c ctx s =
    hwkey_handle_get_keyslot_cmd p dev env c ctx hdr (terminated payload (req_data s))
      (s\<lparr>req_data := terminated payload (req_data s)\<rparr>)"
  using assms by (simp add: hwkey_chan_handle_msg_def received_simps Let_def)

lemma chan_handle_msg_derive:
  assumes "recv_res env = Inr (hdr, payload)" and "cmd hdr = HWKEY_DERIVE p"
    and "HWKEY_GET_KEYSLOT p \<noteq> HWKEY_DERIVE p"
    and "length payload \<le> 2048" and "length (req_data s) = 2049"
  shows "hwkey_chan_handle_msg p prov dev env c ctx s =
    bindr (hwkey_handle_derive_key_cmd p prov env ctx hdr payload
        (s\<lparr>req_data := received payload (req_data s)\<rparr>))
      (\<lambda>(rc, s2). bindr (memset0 (req_data s2) (length payload))
         (\<lambda>req2. Inr (rc, s2\<lparr>req_data := req2\<rparr>)))"
  using assms by (simp add: hwkey_chan_handle_msg_def received_simps Let_def)

lemma chan_handle_msg_unsupported:
  assumes "recv_res env = Inr (hdr, payload)" and "cmd hdr \<noteq> HWKEY_DERIVE p"
    and "cmd hdr \<noteq> HWKEY_GET_KEYSLOT p"
    and "length payload \<le> 2048" and "length (req_data s) = 2049"
  shows "hwkey_chan_handle_msg p prov dev env c ctx s =
    Inr (send_rc env, emit (Sent (chan ctx) (response p hdr HWKEY_ERR_NOT_IMPLEMENTED) [])
      (s\<lparr>req_data := received payload (req_data s)\<rparr>))"
  using assms
  by (simp add: hwkey_chan_handle_msg_def received_simps Let_def hwkey_send_rsp_def response_def emit_def)

section \<open>Steps and reachable states\<close>

text \<open>
  One event of the main loop: on a connection, on the port, or a use of the random device
  by the rest of the application.
\<close>

inductive hwkey_step ::
    "hwkey_proto \<Rightarrow> hwkey_provider_ops \<Rightarrow> 'r rng_dev \<Rightarrow> (crypto \<Rightarrow> bool) \<Rightarrow>
     'r hwkey_state \<Rightarrow> 'r hwkey_state \<Rightarrow> bool"
  for p :: hwkey_proto and prov :: hwkey_provider_ops and dev :: "'r rng_dev"
    and crypto_ok :: "crypto \<Rightarrow> bool" where
  chan_event: "env_ok crypto_ok (ctxs s) env \<Longrightarrow> ctxs s c = Some ctx \<Longrightarrow> ev_handle ev = chan ctx \<Longrightarrow>
     hwkey_chan_handler p prov dev env ev c s = Inr s' \<Longrightarrow> hwkey_step p prov dev crypto_ok s s'"
| port_event: "env_ok crypto_ok (ctxs s) env \<Longrightarrow> hwkey_port_handler prov env ev s = Inr s' \<Longrightarrow>
     hwkey_step p prov dev crypto_ok s s'"
| rng_used: "hwkey_step p prov dev crypto_ok s (s\<lparr>rng := r\<rparr>)"

inductive hwkey_reach ::
    "hwkey_proto \<Rightarrow> hwkey_provider_ops \<Rightarrow> 'r rng_dev \<Rightarrow> (crypto \<Rightarrow> bool) \<Rightarrow> hwkey_keyslot list \<Rightarrow>
     'r hwkey_state \<Rightarrow> bool"
  for p :: hwkey_proto and prov :: hwkey_provider_ops and dev :: "'r rng_dev"
    and crypto_ok :: "crypto \<Rightarrow> bool" and keys :: "hwkey_keyslot list" where
  started: "hwkey_install_keys keys (hwkey_initial r) = Inr s \<Longrightarrow>
     hwkey_start_service port_rc cookie_rc s = (rc, s') \<Longrightarrow>
     hwkey_reach p prov dev crypto_ok keys s'"
| stepped: "hwkey_reach p prov dev crypto_ok keys s \<Longrightarrow> hwkey_step p prov dev crypto_ok s s' \<Longrightarrow>
     hwkey_reach p prov dev crypto_ok keys s'"

lemma hwkey_install_inv:
  "hwkey_install_keys keys (hwkey_initial r) = Inr s \<Longrightarrow>
    hwkey_start_service port_rc cookie_rc s = (rc, s') \<Longrightarrow> hwkey_inv prov keys s'"
  by (auto simp: hwkey_install_keys_def hwkey_initial_def hwkey_inv_def buffers_ok_def
      hwkey_start_service_def emit_def split: if_splits)

lemma env_okD:
  assumes "env_ok crypto_ok cs env"
  shows "crypto_ok (crypto_env env)" and "\<And>rc. recv_res env = Inl rc \<Longrightarrow> rc < 0"
    and "\<And>hdr payload. recv_res env = Inr (hdr, payload) \<Longrightarrow> length payload \<le> 2048"
    and "\<And>c. ctx_calloc env = Some c \<Longrightarrow> cs c = None"
    and "\<not> chan_errors_abort env" and "\<not> port_errors_abort env"
  using assms by (auto simp: env_ok_def)

text \<open>What a message handler leaves: the invariant and the same connections.\<close>

definition handled ::
    "hwkey_provider_ops \<Rightarrow> hwkey_keyslot list \<Rightarrow> 'r hwkey_state \<Rightarrow> 'r hwkey_state \<Rightarrow> bool" where
  "handled prov keys s s' \<longleftrightarrow> hwkey_inv prov keys s' \<and> ctxs s' = ctxs s"

context hwkey_service
begin

lemma get_keyslot_cmd_handled:
  assumes inv: "hwkey_inv prov keys s" and crypto: "crypto_ok (crypto_env env)"
    and ctx: "ctxs s c = Some ctx" and z: "0 \<in> set slot_id" "32 \<le> length slot_id"
  shows "\<exists>s'. hwkey_handle_get_keyslot_cmd p dev env c ctx hdr slot_id s = Inr (send_rc env, s') \<and>
    handled prov keys s s'"
proof -
  from handle_slots_served [OF assms] obtain st kl s1
    where h: "handle_slots dev env c (ctx_uuid ctx) slot_id s = Inr (st, kl, s1)"
      and sv: "served prov keys s st kl s1" by blast
  then have inv1: "hwkey_inv prov keys s1" "ctxs s1 = ctxs s" by (auto simp: served_def klen_post_def)
  have k: "klen_of kl \<le> length (key_data s1)"
    using sv hwkey_invD(5) [OF inv1(1)] by (auto simp: served_def klen_post_def)
  with inv1 hwkey_invD(5) [OF inv1(1)] show ?thesis
    by (auto simp: get_keyslot_cmd_eq [OF h k] handled_def hwkey_simps intro!: hwkey_inv_frame(3))
qed

lemma derive_cmd_handled:
  assumes inv: "hwkey_inv prov keys s" and crypto: "crypto_ok (crypto_env env)"
    and ikm: "length ikm \<le> 2048"
  shows "\<exists>s'. hwkey_handle_derive_key_cmd p prov env ctx hdr ikm s = Inr (send_rc env, s') \<and>
    handled prov keys s s' \<and> req_data s' = req_data s"
proof (cases "arg1 (kdf_hdr p hdr) = HWKEY_KDF_VERSION_1 p")
  case True
  from derive [OF crypto ikm hwkey_invD(5) [OF inv]] obtain st kb n where
    d: "derive_key_v1 prov (crypto_env env) (ctx_uuid ctx) ikm (key_data s) = Inr (st, kb, n)"
      "length kb = 2048" "n \<le> 2048" by blast
  then show ?thesis
    using inv by (auto simp: derive_cmd_eq [OF True d(1)] handled_def hwkey_simps intro!: hwkey_inv_frame(3))
next
  case False
  then show ?thesis using inv by (simp add: derive_cmd_unsupported handled_def hwkey_simps)
qed

lemma chan_handle_msg_handled:
  assumes inv: "hwkey_inv prov keys s" and env: "env_ok crypto_ok (ctxs s) env"
    and ctx: "ctxs s c = Some ctx"
  shows "\<exists>rc s'. hwkey_chan_handle_msg p prov dev env c ctx s = Inr (rc, s') \<and> handled prov keys s s'"
proof (cases "recv_res env")
  case (Inl rc)
  with inv show ?thesis by (simp add: hwkey_chan_handle_msg_def handled_def)
next
  case (Inr m)
  then obtain hdr payload where m: "recv_res env = Inr (hdr, payload)" by (cases m) auto
  note len = env_okD(3) [OF env m] hwkey_invD(4) [OF inv]
  note crypto = env_okD(1) [OF env]
  consider "cmd hdr = HWKEY_GET_KEYSLOT p"
    | "cmd hdr = HWKEY_DERIVE p" "HWKEY_GET_KEYSLOT p \<noteq> HWKEY_DERIVE p"
    | "cmd hdr \<noteq> HWKEY_GET_KEYSLOT p" "cmd hdr \<noteq> HWKEY_DERIVE p" by metis
  then show ?thesis
  proof cases
    case 1
    let ?req = "terminated payload (req_data s)" and ?s = "s\<lparr>req_data := terminated payload (req_data s)\<rparr>"
    have "hwkey_inv prov keys ?s" using inv len by (auto simp: received_simps intro: hwkey_inv_frame(4))
    from get_keyslot_cmd_handled [OF this crypto, of c ctx ?req p hdr] ctx len show ?thesis
      by (auto simp: chan_handle_msg_keyslot [OF m 1 len] received_simps zero_in_terminated handled_def)
  next
    case 2
    let ?s = "s\<lparr>req_data := received payload (req_data s)\<rparr>"
    have "hwkey_inv prov keys ?s" using inv len by (auto simp: received_simps intro: hwkey_inv_frame(4))
    from derive_cmd_handled [OF this crypto len(1)] obtain s' where
      s': "hwkey_handle_derive_key_cmd p prov env ctx hdr payload ?s = Inr (send_rc env, s')"
        "handled prov keys ?s s'" "req_data s' = received payload (req_data s)" by fastforce
    with len show ?thesis
      by (auto simp: chan_handle_msg_derive [OF m 2 len] memset0_ok received_simps handled_def
          intro!: hwkey_inv_frame(4))
  next
    case 3
    with inv len show ?thesis
      by (auto simp: chan_handle_msg_unsupported [OF m] handled_def hwkey_simps
          intro!: hwkey_inv_frame(4))
  qed
qed

lemma chan_handler_total:
  assumes inv: "hwkey_inv prov keys s" and env: "env_ok crypto_ok (ctxs s) env"
    and ctx: "ctxs s c = Some ctx" and ev: "ev_handle ev = chan ctx"
  shows "\<exists>s'. hwkey_chan_handler p prov dev env ev c s = Inr s' \<and> hwkey_inv prov keys s'"
proof -
  from chan_handle_msg_handled [OF inv env ctx] obtain rc s1 where
    m: "hwkey_chan_handle_msg p prov dev env c ctx s = Inr (rc, s1)" "hwkey_inv prov keys s1"
      "ctxs s1 = ctxs s" unfolding handled_def by blast
  from hwkey_ctx_close_inv [OF inv ctx] hwkey_ctx_close_inv [OF m(2), of c ctx] ctx m(3)
  have "\<exists>s'. hwkey_ctx_close c s = Inr s' \<and> hwkey_inv prov keys s'"
    "\<exists>s'. hwkey_ctx_close c s1 = Inr s' \<and> hwkey_inv prov keys s'" by metis+
  with ctx ev env_okD(5) [OF env] m inv show ?thesis
    by (auto simp: hwkey_chan_handler_def)
qed

lemma port_handler_total:
  assumes inv: "hwkey_inv prov keys s" and env: "env_ok crypto_ok (ctxs s) env"
  shows "\<exists>s'. hwkey_port_handler prov env ev s = Inr s' \<and> hwkey_inv prov keys s'"
proof (cases "\<exists>ch u c. accept_res env = Inr (ch, u) \<and> hwkey_client_allowed prov u \<and>
    ctx_calloc env = Some c \<and> IPC_HANDLE_POLL_READY \<in> ev_event ev")
  case False
  with inv env_okD(6) [OF env] show ?thesis
    by (auto simp: hwkey_port_handler_def hwkey_simps split: sum.splits option.splits)
next
  case True
  then obtain ch u c where a: "accept_res env = Inr (ch, u)" "hwkey_client_allowed prov u"
    "ctx_calloc env = Some c" "IPC_HANDLE_POLL_READY \<in> ev_event ev" by blast
  let ?s = "s\<lparr>ctxs := (ctxs s)(c \<mapsto> \<lparr>chan = ch, ctx_uuid = u\<rparr>)\<rparr>"
  have fresh: "ctxs s c = None" using env_okD(4) [OF env a(3)] .
  then have inv1: "hwkey_inv prov keys ?s"
    using inv a(2) by (auto simp: hwkey_inv_def buffers_ok_def node_ok_def ran_def split: option.splits)
  moreover obtain s' where "hwkey_ctx_close c ?s = Inr s'" "hwkey_inv prov keys s'"
    by (rule hwkey_ctx_close_inv [OF inv1, of c]) simp_all
  ultimately show ?thesis
    using a env_okD(6) [OF env] by (auto simp: hwkey_port_handler_def Let_def)
qed

lemma step_inv:
  assumes "hwkey_step p prov dev crypto_ok s s'" and "hwkey_inv prov keys s"
  shows "hwkey_inv prov keys s'"
  using assms
proof cases
  case (chan_event env c ctx ev)
  with chan_handler_total [OF assms(2) chan_event(1,2,3), of p] show ?thesis by auto
next
  case (port_event env ev)
  with port_handler_total [OF assms(2) port_event(1), of ev] show ?thesis by auto
next
  case (rng_used r)
  with assms(2) show ?thesis by (simp add: hwkey_simps)
qed

lemma reach_inv: "hwkey_reach p prov dev crypto_ok keys s \<Longrightarrow> hwkey_inv prov keys s"
proof (induction rule: hwkey_reach.induct)
  case (started r s port_rc cookie_rc rc s')
  then show ?case by (rule hwkey_install_inv)
next
  case (stepped s s')
  then show ?case by (blast intro: step_inv)
qed

end

end
