(* ===== verification/Hwkey_Provider.thy ===== *)
theory Hwkey_Provider
  imports Hwkey_Inv
begin

text \<open>
  The fake key provider (\<open>hwcrypto/hwkey_srv_fake_provider.c\<close>): the device key, the key
  derivation, the slot handlers, the slot table and the client list, for every build
  configuration of \<open>hwcrypto/rules.mk\<close>; and that it keeps the contract the service
  relies on.
\<close>

section \<open>Build configuration\<close>

text \<open>
  The preprocessor symbols: the unit test flag, the signing keys (with whether the build
  restricts them to the unlocked state) and the encryption keys of the apploader. Key
  files are included at build time, so their contents are data of the configuration.
\<close>

record hwkey_config =
  WITH_HWCRYPTO_UNITTEST :: bool
  apploader_sign_key_0 :: "(apploader_key \<times> bool) option"
  apploader_sign_key_1 :: "(apploader_key \<times> bool) option"
  apploader_encrypt_key_0 :: "apploader_key option"
  apploader_encrypt_key_1 :: "apploader_key option"

definition APPLOADER_HAS_SIGNING_KEYS :: "hwkey_config \<Rightarrow> bool" where
  "APPLOADER_HAS_SIGNING_KEYS cfg \<longleftrightarrow>
     apploader_sign_key_0 cfg \<noteq> None \<or> apploader_sign_key_1 cfg \<noteq> None"

definition APPLOADER_HAS_ENCRYPTION_KEYS :: "hwkey_config \<Rightarrow> bool" where
  "APPLOADER_HAS_ENCRYPTION_KEYS cfg \<longleftrightarrow>
     apploader_encrypt_key_0 cfg \<noteq> None \<or> apploader_encrypt_key_1 cfg \<noteq> None"

section \<open>Identities\<close>

definition hwcrypto_unittest_uuid :: uuid where
  "hwcrypto_unittest_uuid = ''ab742471-d6e6-4806-85f6-0555b024f4da''"

definition ss_uuid :: uuid where
  "ss_uuid = ''cea8706d-6cb4-49f3-b994-29e0e478bd29''"

definition km_uuid :: uuid where
  "km_uuid = ''5f902ace-5e5c-4cd8-ae54-87b88c22ddaf''"

definition apploader_uuid :: uuid where
  "apploader_uuid = ''081ba88f-f1ee-452e-b5e8-a7e9ef173a97''"

definition hwaes_uuid :: uuid where
  "hwaes_uuid = ''6f4a2303-f4f8-431d-82d1-3ec52aebbb89''"

definition hwaes_unittest_uuid :: uuid where
  "hwaes_unittest_uuid = ''ab8a6820-1cc2-44d5-bee0-22b51befa835''"

definition gatekeeper_uuid :: uuid where
  "gatekeeper_uuid = ''38ba0cdc-df0e-11e4-9869-233fb6ae4795''"

definition hwbcc_uuid :: uuid where
  "hwbcc_uuid = ''f758d162-3481-4bb4-ab54-5ed41652f44e''"

definition hwbcc_unittest_uuid :: uuid where
  "hwbcc_unittest_uuid = ''0e109d31-8bbe-47d6-bb47-e1dd08910e16''"

lemmas uuid_defs = hwcrypto_unittest_uuid_def ss_uuid_def km_uuid_def apploader_uuid_def
  hwaes_uuid_def hwaes_unittest_uuid_def gatekeeper_uuid_def hwbcc_uuid_def hwbcc_unittest_uuid_def

section \<open>Key derivation and self test\<close>

definition fake_device_key :: "byte list" where
  "fake_device_key = bytes_of ''this is a fake unique device key''"

definition IKM :: "byte list" where
  "IKM = replicate 22 0x0b"

definition salt :: "byte list" where
  "salt = [0x00, 0x01, 0x02, 0x03, 0x04, 0x05, 0x06,
           0x07, 0x08, 0x09, 0x0a, 0x0b, 0x0c]"

definition info :: "byte list" where
  "info = [0xf0, 0xf1, 0xf2, 0xf3, 0xf4, 0xf5, 0xf6, 0xf7, 0xf8, 0xf9]"

definition exp_OKM :: "byte list" where
  "exp_OKM =
     [0x3c, 0xb2, 0x5f, 0x25, 0xfa, 0xac, 0xd5, 0x7a, 0x90, 0x43, 0x4f,
      0x64, 0xd0, 0x36, 0x2f, 0x2a, 0x2d, 0x2d, 0x0a, 0x90, 0xcf, 0x1a,
      0x5a, 0x4c, 0x5d, 0xb0, 0x2d, 0x56, 0xec, 0xc4, 0xc5, 0xbf, 0x34,
      0x00, 0x72, 0x08, 0xd5, 0xb8, 0x87, 0x18, 0x58, 0x65]"

text \<open>The output buffer starts filled with \<open>0x55\<close> and \<open>HKDF\<close> writes into it.\<close>

definition hkdf_self_test :: "crypto \<Rightarrow> bool res" where
  "hkdf_self_test C =
     (case HKDF C (length exp_OKM) IKM salt info of (ok, out) \<Rightarrow>
        bindr (memcpy_to (replicate (length exp_OKM) 0x55) 0 out) (\<lambda>okm.
          Inr (if \<not> ok then False else okm = exp_OKM)))"

definition fake_derive_key_v1 ::
    "crypto \<Rightarrow> uuid \<Rightarrow> byte list \<Rightarrow> byte list \<Rightarrow> (hwkey_status \<times> byte list \<times> nat) res" where
  "fake_derive_key_v1 C u ikm_data key_buf =
     (if length ikm_data = 0 then Inr (HWKEY_ERR_BAD_LEN, key_buf, 0)
      else
        (case HKDF C (length ikm_data) fake_device_key (uuid_bytes C u) ikm_data of (ok, out) \<Rightarrow>
           bindr (memcpy_to key_buf 0 out) (\<lambda>kb.
             if \<not> ok
             then bindr (memset0 kb (length ikm_data)) (\<lambda>kb2. Inr (HWKEY_ERR_GENERIC, kb2, 0))
             else Inr (HWKEY_NO_ERROR, kb, length ikm_data))))"

section \<open>Unit test keys\<close>

definition unittest_key32 :: "byte list" where
  "unittest_key32 = bytes_of ''unittestkeyslotunittestkeyslotun''"

definition get_unittest_key32 :: "byte list \<Rightarrow> hres" where
  "get_unittest_key32 kbuf =
     assertr (length kbuf \<ge> length unittest_key32)
       (bindr (memcpy_to kbuf 0 unittest_key32) (\<lambda>kb.
          Inr (HWKEY_NO_ERROR, kb, Some (length unittest_key32))))"

definition get_unittest_key32_handler ::
    "uuid \<Rightarrow> slot_priv \<Rightarrow> crypto \<Rightarrow> byte list \<Rightarrow> hres" where
  "get_unittest_key32_handler u pr C kbuf = get_unittest_key32 kbuf"

definition unittest_encrypted_key32 :: "byte list" where
  "unittest_encrypted_key32 =
     [0x00, 0x00, 0x00, 0x00, 0x00, 0x00, 0x00, 0x00, 0x00, 0x00, 0x00, 0x00,
      0x00, 0x00, 0x00, 0x00, 0x3e, 0x2b, 0x02, 0x54, 0x54, 0x8c, 0xa7, 0xb8,
      0xa3, 0xfa, 0xf5, 0xd0, 0xbc, 0x1d, 0x40, 0x11, 0xac, 0x68, 0xbb, 0xf0,
      0x55, 0xa3, 0xc5, 0x49, 0x3e, 0x77, 0x4a, 0x8b, 0x3f, 0x33, 0x56, 0x07]"

definition get_unittest_key32_derived :: "crypto \<Rightarrow> byte list \<Rightarrow> hres" where
  "get_unittest_key32_derived C kbuf = get_unittest_key32 kbuf"

definition hwcrypto_unittest_derived_data :: hwkey_derived_keyslot_data where
  "hwcrypto_unittest_derived_data =
     \<lparr>encrypted_key_data = unittest_encrypted_key32,
      encrypted_key_size = length unittest_encrypted_key32,
      dk_retriever = get_unittest_key32_derived\<rparr>"

text \<open>\<open>slot->priv\<close> read as \<open>struct hwkey_derived_keyslot_data\<close>; a null pointer fails an assertion.\<close>

definition derived_data :: "handle_priv \<Rightarrow> hwkey_derived_keyslot_data res" where
  "derived_data pr =
     (case pr of No_priv \<Rightarrow> Inl Assert_failed
               | Derived_priv d \<Rightarrow> Inr d
               | Apploader_priv _ \<Rightarrow> Inl Type_confusion)"

definition key_priv :: "slot_priv \<Rightarrow> handle_priv res" where
  "key_priv pr =
     (case pr of Null_priv \<Rightarrow> Inr No_priv
               | Handle_priv _ \<Rightarrow> Inl Type_confusion
               | Key_priv k \<Rightarrow> Inr k)"

definition derived_keyslot_handler :: "uuid \<Rightarrow> slot_priv \<Rightarrow> crypto \<Rightarrow> byte list \<Rightarrow> hres" where
  "derived_keyslot_handler u pr C kbuf =
     bindr (key_priv pr) (\<lambda>k. bindr (derived_data k) (\<lambda>d. hwkey_get_derived_key C d kbuf))"

definition unittest_allowed_opaque_key_uuids :: "uuid list" where
  "unittest_allowed_opaque_key_uuids = [hwcrypto_unittest_uuid]"

definition get_unittest_key32_opaque :: "handle_priv \<Rightarrow> crypto \<Rightarrow> byte list \<Rightarrow> hres" where
  "get_unittest_key32_opaque pr C kbuf = get_unittest_key32 kbuf"

definition unittest_opaque_handle_data :: hwkey_opaque_handle_data where
  "unittest_opaque_handle_data =
     \<lparr>allowed_uuids = unittest_allowed_opaque_key_uuids, oh_priv = No_priv,
      oh_retriever = get_unittest_key32_opaque\<rparr>"

definition unittest_opaque_handle_data2 :: hwkey_opaque_handle_data where
  "unittest_opaque_handle_data2 =
     \<lparr>allowed_uuids = unittest_allowed_opaque_key_uuids, oh_priv = No_priv,
      oh_retriever = get_unittest_key32_opaque\<rparr>"

definition unittest_opaque_handle_data_noaccess :: hwkey_opaque_handle_data where
  "unittest_opaque_handle_data_noaccess =
     \<lparr>allowed_uuids = [], oh_priv = No_priv, oh_retriever = get_unittest_key32_opaque\<rparr>"

definition get_derived_key_opaque :: "handle_priv \<Rightarrow> crypto \<Rightarrow> byte list \<Rightarrow> hres" where
  "get_derived_key_opaque pr C kbuf =
     bindr (derived_data pr) (\<lambda>d. hwkey_get_derived_key C d kbuf)"

definition unittest_opaque_derived_data :: hwkey_opaque_handle_data where
  "unittest_opaque_derived_data =
     \<lparr>allowed_uuids = unittest_allowed_opaque_key_uuids,
      oh_priv = Derived_priv hwcrypto_unittest_derived_data,
      oh_retriever = get_derived_key_opaque\<rparr>"

definition hwaes_unittest_opaque_handle_data :: hwkey_opaque_handle_data where
  "hwaes_unittest_opaque_handle_data =
     \<lparr>allowed_uuids = [hwaes_uuid], oh_priv = No_priv,
      oh_retriever = get_unittest_key32_opaque\<rparr>"

section \<open>RPMB, Keymint and apploader keys\<close>

definition RPMB_SS_AUTH_KEY_SIZE :: nat where
  [simp]: "RPMB_SS_AUTH_KEY_SIZE = 32"

definition rpmb_salt :: "byte list" where
  "rpmb_salt =
     [0x42, 0x18, 0xa9, 0xf2, 0xf6, 0xb1, 0xf5, 0x35, 0x06, 0x37, 0x9f,
      0xba, 0xcc, 0x1a, 0xc9, 0x36, 0xf4, 0x83, 0x04, 0xd4, 0xf1, 0x65,
      0x91, 0x32, 0xa6, 0xae, 0xda, 0x27, 0x4d, 0x21, 0xdb, 0x40]"

definition get_rpmb_ss_auth_key :: "uuid \<Rightarrow> slot_priv \<Rightarrow> crypto \<Rightarrow> byte list \<Rightarrow> hres" where
  "get_rpmb_ss_auth_key u pr C kbuf =
     (if \<not> EVP_EncryptInit C EVP_aes_256_cbc fake_device_key
      then Inr (HWKEY_ERR_GENERIC, kbuf, None)
      else if \<not> EVP_set_padding C then Inr (HWKEY_ERR_GENERIC, kbuf, None)
      else if length kbuf < RPMB_SS_AUTH_KEY_SIZE + EVP_key_length C EVP_aes_256_cbc
      then Inr (HWKEY_ERR_GENERIC, kbuf, None)
      else
        (case EVP_EncryptUpdate C EVP_aes_256_cbc fake_device_key rpmb_salt of (ok, out) \<Rightarrow>
           bindr (memcpy_to kbuf 0 out) (\<lambda>kb.
             if \<not> ok then Inr (HWKEY_ERR_GENERIC, kb, None)
             else if length out \<noteq> RPMB_SS_AUTH_KEY_SIZE then Inr (HWKEY_ERR_GENERIC, kb, None)
             else if \<not> EVP_EncryptFinal C EVP_aes_256_cbc fake_device_key rpmb_salt
             then Inr (HWKEY_ERR_GENERIC, kb, None)
             else Inr (HWKEY_NO_ERROR, kb, Some RPMB_SS_AUTH_KEY_SIZE))))"

definition KM_KAK_SIZE :: nat where
  [simp]: "KM_KAK_SIZE = 32"

definition kak_salt :: "byte list" where
  "kak_salt =
     [0x70, 0xc4, 0x7c, 0xfa, 0x2c, 0xb1, 0xee, 0xdc, 0xa5, 0xdf, 0xbc,
      0x8d, 0xd4, 0xf7, 0x0d, 0x42, 0x93, 0x3b, 0x7f, 0x7b, 0xc2, 0x9e,
      0x6d, 0xa5, 0xb2, 0x92, 0x7a, 0x21, 0x8e, 0xc9, 0xe6, 0x9a]"

definition get_km_kak_key :: "uuid \<Rightarrow> slot_priv \<Rightarrow> crypto \<Rightarrow> byte list \<Rightarrow> hres" where
  "get_km_kak_key u pr C kbuf =
     (if length kbuf < KM_KAK_SIZE then Inr (HWKEY_ERR_BAD_LEN, kbuf, None)
      else bindr (fake_derive_key_v1 C u kak_salt kbuf) (\<lambda>(st, kb, n). Inr (st, kb, Some n)))"

definition apploader_data :: "handle_priv \<Rightarrow> apploader_key res" where
  "apploader_data pr =
     (case pr of No_priv \<Rightarrow> Inl Assert_failed
               | Derived_priv _ \<Rightarrow> Inl Type_confusion
               | Apploader_priv k \<Rightarrow> Inr k)"

definition get_apploader_key :: "handle_priv \<Rightarrow> byte list \<Rightarrow> hres" where
  "get_apploader_key pr kbuf =
     bindr (apploader_data pr) (\<lambda>key.
       assertr (length kbuf \<ge> ak_size key)
         (bindr (mem_read (ak_data key) 0 (ak_size key)) (\<lambda>data.
            bindr (memcpy_to kbuf 0 data) (\<lambda>kb.
              Inr (HWKEY_NO_ERROR, kb, Some (ak_size key))))))"

definition get_apploader_sign_key :: "uuid \<Rightarrow> slot_priv \<Rightarrow> crypto \<Rightarrow> byte list \<Rightarrow> hres" where
  "get_apploader_sign_key u pr C kbuf = bindr (key_priv pr) (\<lambda>k. get_apploader_key k kbuf)"

definition get_apploader_sign_unlocked_key ::
    "uuid \<Rightarrow> slot_priv \<Rightarrow> crypto \<Rightarrow> byte list \<Rightarrow> hres" where
  "get_apploader_sign_unlocked_key u pr C kbuf =
     (if system_state_app_loading_unlocked C
      then bindr (key_priv pr) (\<lambda>k. get_apploader_key k kbuf)
      else Inr (HWKEY_ERR_NOT_FOUND, kbuf, None))"

definition apploader_allowed_opaque_key_uuids :: "uuid list" where
  "apploader_allowed_opaque_key_uuids = [hwaes_uuid]"

definition get_apploader_key_opaque :: "handle_priv \<Rightarrow> crypto \<Rightarrow> byte list \<Rightarrow> hres" where
  "get_apploader_key_opaque pr C kbuf = get_apploader_key pr kbuf"

definition apploader_encrypt_opaque_handle_data :: "apploader_key \<Rightarrow> hwkey_opaque_handle_data" where
  "apploader_encrypt_opaque_handle_data key =
     \<lparr>allowed_uuids = apploader_allowed_opaque_key_uuids, oh_priv = Apploader_priv key,
      oh_retriever = get_apploader_key_opaque\<rparr>"

section \<open>Clients and the slot table\<close>

definition allowed_clients :: "hwkey_config \<Rightarrow> uuid list" where
  "allowed_clients cfg =
     [ss_uuid, km_uuid, hwaes_uuid, gatekeeper_uuid] @
     (if APPLOADER_HAS_SIGNING_KEYS cfg \<or> APPLOADER_HAS_ENCRYPTION_KEYS cfg
      then [apploader_uuid] else []) @
     [hwcrypto_unittest_uuid] @
     (if WITH_HWCRYPTO_UNITTEST cfg then [hwaes_unittest_uuid] else []) @
     [hwbcc_uuid, hwbcc_unittest_uuid]"

definition fake_client_allowed :: "hwkey_config \<Rightarrow> uuid \<Rightarrow> bool" where
  "fake_client_allowed cfg u = list_ex (\<lambda>a. a = u) (allowed_clients cfg)"

definition sign_key_slot :: "string \<Rightarrow> (apploader_key \<times> bool) option \<Rightarrow> hwkey_keyslot list" where
  "sign_key_slot key_name k =
     (case k of
        None \<Rightarrow> []
      | Some (key, unlocked_only) \<Rightarrow>
          [\<lparr>key_id = key_name, slot_uuid = apploader_uuid,
            slot_priv = Key_priv (Apploader_priv key),
            slot_handler = Some (Slot_handler
              (if unlocked_only then get_apploader_sign_unlocked_key else get_apploader_sign_key))\<rparr>])"

definition encrypt_key_slot :: "string \<Rightarrow> apploader_key option \<Rightarrow> hwkey_keyslot list" where
  "encrypt_key_slot key_name k =
     (case k of
        None \<Rightarrow> []
      | Some key \<Rightarrow>
          [\<lparr>key_id = key_name, slot_uuid = apploader_uuid,
            slot_priv = Handle_priv (apploader_encrypt_opaque_handle_data key),
            slot_handler = Some Get_key_handle\<rparr>])"

definition unittest_slots :: "hwkey_keyslot list" where
  "unittest_slots =
     [\<lparr>key_id = ''com.android.trusty.hwcrypto.unittest.key32'',
       slot_uuid = hwcrypto_unittest_uuid, slot_priv = Null_priv,
       slot_handler = Some (Slot_handler get_unittest_key32_handler)\<rparr>,
      \<lparr>key_id = ''com.android.trusty.hwcrypto.unittest.derived_key32'',
       slot_uuid = hwcrypto_unittest_uuid,
       slot_priv = Key_priv (Derived_priv hwcrypto_unittest_derived_data),
       slot_handler = Some (Slot_handler derived_keyslot_handler)\<rparr>,
      \<lparr>key_id = ''com.android.trusty.hwcrypto.unittest.opaque_handle'',
       slot_uuid = hwcrypto_unittest_uuid, slot_priv = Handle_priv unittest_opaque_handle_data,
       slot_handler = Some Get_key_handle\<rparr>,
      \<lparr>key_id = ''com.android.trusty.hwcrypto.unittest.opaque_handle2'',
       slot_uuid = hwcrypto_unittest_uuid, slot_priv = Handle_priv unittest_opaque_handle_data2,
       slot_handler = Some Get_key_handle\<rparr>,
      \<lparr>key_id = ''com.android.trusty.hwcrypto.unittest.opaque_handle_noaccess'',
       slot_uuid = hwcrypto_unittest_uuid,
       slot_priv = Handle_priv unittest_opaque_handle_data_noaccess,
       slot_handler = Some Get_key_handle\<rparr>,
      \<lparr>key_id = ''com.android.trusty.hwcrypto.unittest.opaque_derived'',
       slot_uuid = hwcrypto_unittest_uuid, slot_priv = Handle_priv unittest_opaque_derived_data,
       slot_handler = Some Get_key_handle\<rparr>,
      \<lparr>key_id = ''com.android.trusty.hwaes.unittest.opaque_handle'',
       slot_uuid = hwaes_unittest_uuid,
       slot_priv = Handle_priv hwaes_unittest_opaque_handle_data,
       slot_handler = Some Get_key_handle\<rparr>]"

definition key_table :: "hwkey_config \<Rightarrow> hwkey_keyslot list" where
  "key_table cfg =
     [\<lparr>key_id = ''com.android.trusty.storage_auth.rpmb'', slot_uuid = ss_uuid,
       slot_priv = Null_priv, slot_handler = Some (Slot_handler get_rpmb_ss_auth_key)\<rparr>,
      \<lparr>key_id = ''com.android.trusty.keymint.kak'', slot_uuid = km_uuid,
       slot_priv = Null_priv, slot_handler = Some (Slot_handler get_km_kak_key)\<rparr>] @
     sign_key_slot ''com.android.trusty.apploader.sign.key.0'' (apploader_sign_key_0 cfg) @
     sign_key_slot ''com.android.trusty.apploader.sign.key.1'' (apploader_sign_key_1 cfg) @
     encrypt_key_slot ''com.android.trusty.apploader.encrypt.key.0'' (apploader_encrypt_key_0 cfg) @
     encrypt_key_slot ''com.android.trusty.apploader.encrypt.key.1'' (apploader_encrypt_key_1 cfg) @
     (if WITH_HWCRYPTO_UNITTEST cfg then unittest_slots else [])"

definition fake_provider :: "hwkey_config \<Rightarrow> hwkey_provider_ops" where
  "fake_provider cfg =
     \<lparr>hwkey_client_allowed = fake_client_allowed cfg, derive_key_v1 = fake_derive_key_v1\<rparr>"

definition hwkey_self_test :: "crypto \<Rightarrow> bool res" where
  "hwkey_self_test C = hkdf_self_test C"

definition hwkey_init_srv_provider ::
    "hwkey_config \<Rightarrow> crypto \<Rightarrow> int \<Rightarrow> int \<Rightarrow> 'r hwkey_state \<Rightarrow> 'r hwkey_state res" where
  "hwkey_init_srv_provider cfg C port_create_rc cookie_rc s =
     bindr (hwkey_self_test C) (\<lambda>passed.
       if \<not> passed then Inl Aborted
       else bindr (hwkey_install_keys (key_table cfg) s) (\<lambda>s1.
         Inr (snd (hwkey_start_service port_create_rc cookie_rc s1))))"

section \<open>The crypto library's contract\<close>

text \<open>
  The documented behaviour of BoringSSL the provider relies on: \<open>HKDF\<close> fills exactly the
  requested output; AES-CBC has 16-byte IVs and AES-256 32-byte keys; an update writes at
  most the input length plus a block minus one byte; without padding a decryption of whole
  blocks gives as many bytes as it read, and the final call adds none.
\<close>

definition bssl_ok :: "crypto \<Rightarrow> bool" where
  "bssl_ok C \<longleftrightarrow>
     (\<forall>n k s i. length (snd (HKDF C n k s i)) \<le> n) \<and>
     (\<forall>n k s i. fst (HKDF C n k s i) \<longrightarrow> length (snd (HKDF C n k s i)) = n) \<and>
     EVP_iv_length C EVP_aes_128_cbc = 16 \<and> EVP_iv_length C EVP_aes_256_cbc = 16 \<and>
     EVP_key_length C EVP_aes_256_cbc = 32 \<and>
     (\<forall>c k iv ct. length (snd (EVP_DecryptUpdate C c k iv ct)) \<le> length ct + 15) \<and>
     (\<forall>c k iv ct. fst (EVP_DecryptUpdate C c k iv ct) \<longrightarrow> 16 dvd length ct \<longrightarrow>
        length (snd (EVP_DecryptUpdate C c k iv ct)) = length ct) \<and>
     (\<forall>c k iv ct. fst (EVP_DecryptFinal C c k iv ct) \<longrightarrow> snd (EVP_DecryptFinal C c k iv ct) = 0) \<and>
     (\<forall>c k pt. length (snd (EVP_EncryptUpdate C c k pt)) \<le> length pt + 15)"

lemma bssl_HKDF:
  assumes "bssl_ok C" and "HKDF C n k s i = (ok, out)"
  shows "length out \<le> n" and "ok \<Longrightarrow> length out = n"
  using assms unfolding bssl_ok_def by (metis fst_conv snd_conv)+

lemma bssl_DecryptUpdate:
  assumes "bssl_ok C" and "EVP_DecryptUpdate C c k iv ct = (ok, out)"
  shows "length out \<le> length ct + 15" and "ok \<Longrightarrow> 16 dvd length ct \<Longrightarrow> length out = length ct"
  using assms unfolding bssl_ok_def by (metis fst_conv snd_conv)+

lemma bssl_DecryptFinal:
  assumes "bssl_ok C" and "EVP_DecryptFinal C c k iv ct = (True, n)"
  shows "n = 0"
  using assms unfolding bssl_ok_def by (metis fst_conv snd_conv)

lemma bssl_EncryptUpdate:
  assumes "bssl_ok C" and "EVP_EncryptUpdate C c k pt = (ok, out)"
  shows "length out \<le> length pt + 15"
  using assms unfolding bssl_ok_def by (metis snd_conv)

lemma bssl_lengths:
  assumes "bssl_ok C"
  shows "EVP_iv_length C EVP_aes_128_cbc = 16" and "EVP_iv_length C EVP_aes_256_cbc = 16"
    and "EVP_key_length C EVP_aes_256_cbc = 32"
  using assms unfolding bssl_ok_def by blast+

section \<open>Every handler keeps the contract\<close>

lemma bytes_of_length [simp]: "length (bytes_of s) = length s"
  by (simp add: bytes_of_def)

lemma unittest_key32_length [simp]: "length unittest_key32 = 32"
  by (simp add: unittest_key32_def)

lemma data_lengths [simp]:
  "length unittest_encrypted_key32 = 48" "length rpmb_salt = 32" "length kak_salt = 32"
  "length exp_OKM = 42" "length fake_device_key = 32"
  by (simp_all add: unittest_encrypted_key32_def rpmb_salt_def kak_salt_def exp_OKM_def
      fake_device_key_def)

lemma klen_post_memcpy:
  "memcpy_to kbuf 0 d = Inr kb \<Longrightarrow> klen_post kbuf HWKEY_NO_ERROR kb (Some (length d))"
  by (auto simp: klen_post_def mem_simps)

lemma klen_post_error: "st \<noteq> HWKEY_NO_ERROR \<Longrightarrow> length kb = length kbuf \<Longrightarrow> klen_post kbuf st kb None"
  by (simp add: klen_post_def)

lemma get_unittest_key32_eq:
  "32 \<le> length kbuf \<Longrightarrow>
    get_unittest_key32 kbuf = Inr (HWKEY_NO_ERROR, unittest_key32 @ drop 32 kbuf, Some 32)"
  by (simp add: get_unittest_key32_def memcpy_to_def)

lemma get_unittest_key32_post: "32 \<le> length kbuf \<Longrightarrow> handler_post kbuf (get_unittest_key32 kbuf)"
  by (simp add: get_unittest_key32_eq klen_post_def)

lemma fake_derive_cases:
  assumes C: "bssl_ok C" and len: "length ikm \<le> length kbuf"
  obtains "ikm = []" "fake_derive_key_v1 C u ikm kbuf = Inr (HWKEY_ERR_BAD_LEN, kbuf, 0)"
  | out where "ikm \<noteq> []" "HKDF C (length ikm) fake_device_key (uuid_bytes C u) ikm = (False, out)"
      "fake_derive_key_v1 C u ikm kbuf =
        Inr (HWKEY_ERR_GENERIC, replicate (length ikm) 0 @ drop (length ikm) kbuf, 0)"
  | out where "ikm \<noteq> []" "HKDF C (length ikm) fake_device_key (uuid_bytes C u) ikm = (True, out)"
      "length out = length ikm"
      "fake_derive_key_v1 C u ikm kbuf =
        Inr (HWKEY_NO_ERROR, out @ drop (length ikm) kbuf, length ikm)"
proof (cases "ikm = []")
  case True
  with that(1) show ?thesis by (simp add: fake_derive_key_v1_def)
next
  case False
  obtain ok out where h: "HKDF C (length ikm) fake_device_key (uuid_bytes C u) ikm = (ok, out)"
    by fastforce
  note o = bssl_HKDF [OF C h]
  show ?thesis
  proof (cases ok)
    case True
    with h o len False that(3) show ?thesis by (simp add: fake_derive_key_v1_def memcpy_to_def)
  next
    case ok: False
    have "drop (length ikm) (out @ drop (length out) kbuf) = drop (length ikm) kbuf"
      using o(1) by simp
    with ok h o len False that(2) show ?thesis
      by (simp add: fake_derive_key_v1_def memcpy_to_def memset0_ok)
  qed
qed

lemma get_km_kak_key_post:
  assumes "bssl_ok C" and "32 \<le> length kbuf"
  shows "handler_post kbuf (get_km_kak_key u pr C kbuf)"
proof -
  have len: "length kak_salt \<le> length kbuf" using assms(2) by simp
  show ?thesis
    by (rule fake_derive_cases [OF assms(1) len, of u])
       (use assms(2) in \<open>auto simp: get_km_kak_key_def klen_post_def\<close>)
qed

lemma get_rpmb_ss_auth_key_post:
  assumes C: "bssl_ok C"
  shows "handler_post kbuf (get_rpmb_ss_auth_key u pr C kbuf)"
proof -
  obtain ok out where e: "EVP_EncryptUpdate C EVP_aes_256_cbc fake_device_key rpmb_salt = (ok, out)"
    by fastforce
  have "length out \<le> 47" using bssl_EncryptUpdate [OF C e] by simp
  with e bssl_lengths(3) [OF C] show ?thesis
    by (auto simp: get_rpmb_ss_auth_key_def memcpy_to_def klen_post_def)
qed

lemma get_apploader_key_post:
  assumes "ak_size k \<le> length (ak_data k)" and "ak_size k \<le> length kbuf"
  shows "handler_post kbuf (get_apploader_key (Apploader_priv k) kbuf)"
  using assms by (simp add: get_apploader_key_def apploader_data_def mem_read_def memcpy_to_def klen_post_def)

text \<open>
  Derived keys: the data must hold an IV and whole cipher blocks, and the buffer must have
  room for one block more than the key.
\<close>

lemma hwkey_get_derived_key_post:
  assumes C: "bssl_ok C"
    and ret: "handler_post (replicate 32 0) (dk_retriever d C (replicate 32 0))"
    and size: "encrypted_key_size d = length (encrypted_key_data d)"
      "16 dvd encrypted_key_size d" "encrypted_key_size d \<le> length kbuf"
  shows "handler_post kbuf (hwkey_get_derived_key C d kbuf)"
proof -
  from ret obtain st kb kl where r: "dk_retriever d C (replicate 32 0) = Inr (st, kb, kl)"
    "klen_post (replicate 32 0) st kb kl" by (auto simp: handler_post_def)
  show ?thesis
  proof (cases "st = HWKEY_NO_ERROR \<and> derived_cipher (klen_of kl) \<noteq> None \<and>
      16 < encrypted_key_size d")
    case False
    with r C show ?thesis
      by (auto simp: hwkey_get_derived_key_def klen_post_def derived_cipher_def bssl_lengths
          split: option.splits if_splits)
  next
    case True
    then obtain cipher where ci: "derived_cipher (klen_of kl) = Some cipher" by auto
    then have iv: "EVP_iv_length C cipher = 16"
      using bssl_lengths [OF C] by (auto simp: derived_cipher_def split: if_splits)
    obtain n where n: "kl = Some n" using r True by (auto simp: klen_post_def)
    define ct where "ct = drop 16 (encrypted_key_data d)"
    have ct: "length ct = encrypted_key_size d - 16" using size by (simp add: ct_def)
    have div: "16 dvd length ct" using size(2) by (simp add: ct dvd_diff_nat)
    obtain ok out where u: "EVP_DecryptUpdate C cipher (take n kb) (take 16 (encrypted_key_data d)) ct =
      (ok, out)" by fastforce
    obtain ok2 m where f: "EVP_DecryptFinal C cipher (take n kb) (take 16 (encrypted_key_data d)) ct =
      (ok2, m)" by fastforce
    have out: "length out \<le> length kbuf" "ok \<Longrightarrow> length out = encrypted_key_size d - 16"
      using bssl_DecryptUpdate [OF C u] ct div size True by auto
    have m: "ok2 \<Longrightarrow> m = 0" using bssl_DecryptFinal [OF C] f by auto
    show ?thesis
      using True r n ci iv u [unfolded ct_def] f [unfolded ct_def] out m size
      by (auto simp: hwkey_get_derived_key_def Let_def memcpy_to_def klen_post_def)
  qed
qed

section \<open>The table keeps the service's contract\<close>

text \<open>The key files included by a build: their size symbol is right and they fit a response.\<close>

definition key_file_ok :: "apploader_key \<Rightarrow> bool" where
  "key_file_ok k \<longleftrightarrow> ak_size k \<le> length (ak_data k) \<and> ak_size k \<le> 2048"

definition config_ok :: "hwkey_config \<Rightarrow> bool" where
  "config_ok cfg \<longleftrightarrow>
     (\<forall>k b. apploader_sign_key_0 cfg = Some (k, b) \<or> apploader_sign_key_1 cfg = Some (k, b) \<longrightarrow>
        key_file_ok k) \<and>
     (\<forall>k. apploader_encrypt_key_0 cfg = Some k \<or> apploader_encrypt_key_1 cfg = Some k \<longrightarrow>
        key_file_ok k)"

lemma set_sign_key_slot:
  "sl \<in> set (sign_key_slot nm k) \<longleftrightarrow> (\<exists>key b. k = Some (key, b) \<and>
     sl = \<lparr>key_id = nm, slot_uuid = apploader_uuid, slot_priv = Key_priv (Apploader_priv key),
       slot_handler = Some (Slot_handler
         (if b then get_apploader_sign_unlocked_key else get_apploader_sign_key))\<rparr>)"
  by (auto simp: sign_key_slot_def split: option.splits)

lemma set_encrypt_key_slot:
  "sl \<in> set (encrypt_key_slot nm k) \<longleftrightarrow> (\<exists>key. k = Some key \<and>
     sl = \<lparr>key_id = nm, slot_uuid = apploader_uuid,
       slot_priv = Handle_priv (apploader_encrypt_opaque_handle_data key),
       slot_handler = Some Get_key_handle\<rparr>)"
  by (auto simp: encrypt_key_slot_def split: option.splits)

lemmas key_table_sets = key_table_def unittest_slots_def set_sign_key_slot set_encrypt_key_slot

lemma unittest_derived_post:
  assumes "bssl_ok C" and "length kbuf = 2048"
  shows "handler_post kbuf (hwkey_get_derived_key C hwcrypto_unittest_derived_data kbuf)"
  using assms
  by (intro hwkey_get_derived_key_post)
     (simp_all add: hwcrypto_unittest_derived_data_def get_unittest_key32_derived_def
       get_unittest_key32_post)

lemma key_table_handlers:
  assumes cfg: "config_ok cfg" and sl: "sl \<in> set (key_table cfg)"
    and h: "slot_handler sl = Some (Slot_handler f)"
    and C: "bssl_ok C" and len: "length kbuf = 2048"
  shows "handler_post kbuf (f (slot_uuid sl) (slot_priv sl) C kbuf)"
proof -
  have sign: "handler_post kbuf (get_apploader_sign_key u (Key_priv (Apploader_priv k)) C kbuf)"
    "handler_post kbuf (get_apploader_sign_unlocked_key u (Key_priv (Apploader_priv k)) C kbuf)"
    if "key_file_ok k" for k u
    using that len get_apploader_key_post [of k kbuf]
    by (auto simp: get_apploader_sign_key_def get_apploader_sign_unlocked_key_def key_priv_def
        klen_post_error key_file_ok_def)
  have keys: "\<And>k b. apploader_sign_key_0 cfg = Some (k, b) \<Longrightarrow> key_file_ok k"
    "\<And>k b. apploader_sign_key_1 cfg = Some (k, b) \<Longrightarrow> key_file_ok k"
    using cfg by (auto simp: config_ok_def)
  from sl h show ?thesis
    using get_rpmb_ss_auth_key_post [OF C, of kbuf] get_km_kak_key_post [OF C, of kbuf]
      get_unittest_key32_post [of kbuf] unittest_derived_post [OF C len] len
    by (auto simp: key_table_sets get_unittest_key32_handler_def derived_keyslot_handler_def
        key_priv_def derived_data_def sign dest: keys split: if_splits)
qed

lemma key_table_retrievers:
  assumes cfg: "config_ok cfg" and sl: "sl \<in> set (key_table cfg)"
    and h: "slot_priv sl = Handle_priv h"
    and C: "bssl_ok C" and len: "length kbuf = 2048"
  shows "handler_post kbuf (oh_retriever h (oh_priv h) C kbuf)"
proof -
  have keys: "\<And>k. apploader_encrypt_key_0 cfg = Some k \<Longrightarrow> key_file_ok k"
    "\<And>k. apploader_encrypt_key_1 cfg = Some k \<Longrightarrow> key_file_ok k"
    using cfg by (auto simp: config_ok_def)
  have enc: "handler_post kbuf (get_apploader_key (Apploader_priv k) kbuf)" if "key_file_ok k" for k
    using that len get_apploader_key_post [of k kbuf] by (simp add: key_file_ok_def)
  from sl h show ?thesis
    using get_unittest_key32_post [of kbuf] unittest_derived_post [OF C len] len keys enc
    by (auto simp: key_table_sets unittest_opaque_handle_data_def unittest_opaque_handle_data2_def
        unittest_opaque_handle_data_noaccess_def unittest_opaque_derived_data_def
        hwaes_unittest_opaque_handle_data_def apploader_encrypt_opaque_handle_data_def
        get_unittest_key32_opaque_def get_derived_key_opaque_def derived_data_def
        get_apploader_key_opaque_def split: if_splits)
qed

lemma key_table_opaque:
  "sl \<in> set (key_table cfg) \<Longrightarrow> is_opaque_handle sl \<Longrightarrow> \<exists>h. slot_priv sl = Handle_priv h"
  by (auto simp: key_table_sets is_opaque_handle_def split: if_splits)

lemma fake_derive_contract:
  assumes "bssl_ok C" and "length ikm \<le> 2048" and "length kbuf = 2048"
  shows "\<exists>st kb n. derive_key_v1 (fake_provider cfg) C u ikm kbuf = Inr (st, kb, n) \<and>
    length kb = 2048 \<and> n \<le> 2048 \<and> (zeroed kbuf \<longrightarrow> zeroed (drop n kb)) \<and>
    (n \<noteq> 0 \<longleftrightarrow> st = HWKEY_NO_ERROR)"
proof -
  have "length ikm \<le> length kbuf" using assms by simp
  from assms(1) this show ?thesis
    by (rule fake_derive_cases [where u = u])
       (use assms in \<open>auto simp: fake_provider_def zeroed_drop\<close>)
qed

text \<open>A build of the application with a random device and well-formed key files.\<close>

locale hwkey_build = hwrng_supply dev for dev :: "'r rng_dev" +
  fixes cfg :: hwkey_config
  assumes config: "config_ok cfg"

sublocale hwkey_build \<subseteq> hwkey_service dev "fake_provider cfg" "key_table cfg" bssl_ok
proof
  show "handler_post kbuf (f (slot_uuid sl) (slot_priv sl) C kbuf)"
    if "sl \<in> set (key_table cfg)" "slot_handler sl = Some (Slot_handler f)" "bssl_ok C"
      "length kbuf = 2048" for sl f C kbuf
    using key_table_handlers [OF config that] .
  show "\<exists>h. slot_priv sl = Handle_priv h" if "sl \<in> set (key_table cfg)" "is_opaque_handle sl" for sl
    using key_table_opaque that .
  show "handler_post kbuf (oh_retriever h (oh_priv h) C kbuf)"
    if "sl \<in> set (key_table cfg)" "slot_priv sl = Handle_priv h" "bssl_ok C" "length kbuf = 2048"
    for sl h C kbuf
    using key_table_retrievers [OF config that] .
  show "\<exists>st kb n. derive_key_v1 (fake_provider cfg) C u ikm kbuf = Inr (st, kb, n) \<and>
      length kb = 2048 \<and> n \<le> 2048 \<and> (zeroed kbuf \<longrightarrow> zeroed (drop n kb)) \<and>
      (n \<noteq> 0 \<longleftrightarrow> st = HWKEY_NO_ERROR)"
    if "bssl_ok C" "length ikm \<le> 2048" "length kbuf = 2048" for C ikm kbuf u
    using fake_derive_contract [OF that] .
qed

text \<open>The configuration of the unit test builds, on both counter widths of the fake device.\<close>

definition unittest_config :: hwkey_config where
  "unittest_config = \<lparr>WITH_HWCRYPTO_UNITTEST = True, apploader_sign_key_0 = None,
     apploader_sign_key_1 = None, apploader_encrypt_key_0 = None, apploader_encrypt_key_1 = None\<rparr>"

lemma unittest_config_ok: "config_ok unittest_config"
  by (simp add: config_ok_def unittest_config_def)

interpretation hk64: hwkey_build "hwrng_dev_get_rng_data :: (64 word) rng_dev" unittest_config
  by unfold_locales (rule unittest_config_ok)

interpretation hk32: hwkey_build "hwrng_dev_get_rng_data :: (32 word) rng_dev" unittest_config
  by unfold_locales (rule unittest_config_ok)

text \<open>The same for any well-formed configuration, on the 64-bit device.\<close>

lemma hwkey_build_fake64:
  "config_ok cfg \<Longrightarrow> hwkey_build (hwrng_dev_get_rng_data :: (64 word) rng_dev) cfg"
  by unfold_locales

end
