(* ===== verification/Hwkey_Props.thy ===== *)
theory Hwkey_Props
  imports Hwkey_Provider "HOL-Library.Sublist"
begin

text \<open>
  The guarantees of the hwkey service with the fake provider: which request is answered
  with key material, what a token gives access to and when it stops doing so, what stays
  in the buffers, and a refinement of the handle list to a map from slots to their holders.
  The lemmas are proved for every provider that keeps the contract of \<open>hwkey_service\<close>; the
  theorems state them for the provider and the random device of the repository.
\<close>

section \<open>Who gets key material\<close>

text \<open>
  The two grounds on which a request with the given payload may be answered with bytes:
  a slot of the caller's own with the requested id, or a live token presented by an
  application that may read the slot behind it.
\<close>

definition own_slot :: "hwkey_keyslot list \<Rightarrow> uuid \<Rightarrow> byte list \<Rightarrow> byte list \<Rightarrow> bool" where
  "own_slot slots u payload d \<longleftrightarrow>
     (\<exists>sl \<in> set slots. slot_uuid sl = u \<and> bytes_of (key_id sl) = cstr payload \<and>
        (is_opaque_handle sl \<longrightarrow> valid_token d))"

definition live_token ::
    "hwkey_keyslot list \<Rightarrow> opaque_handle_node list \<Rightarrow> uuid \<Rightarrow> byte list \<Rightarrow> bool" where
  "live_token slots es u payload \<longleftrightarrow>
     (\<exists>e \<in> set es. \<exists>h. slot_priv (slots ! key_slot e) = Handle_priv h \<and>
        u \<in> set (allowed_uuids h) \<and> 31 \<le> length payload \<and> take 31 payload = butlast (token e))"

context hwkey_service
begin

lemma open_handle_data:
  assumes inv: "hwkey_inv prov keys s" and j: "j < length keys" "is_opaque_handle (keys ! j)"
    and o: "open_handle dev env c j (keys ! j) s = Inr (st, kl, s1)" and k: "klen_of kl \<noteq> 0"
  shows "valid_token (take (klen_of kl) (key_data s1))"
proof -
  obtain rc t r' where loop: "token_loop dev (rng s) zero_token = Some (rc, t, r')"
    using token_loop_total [OF zero_token_buffer] by metis
  have priv: "slot_priv (keys ! j) \<noteq> Null_priv"
    using opaque_priv [of "keys ! j"] j by auto
  show ?thesis
    by (cases rule: open_handle_cases [OF inv priv loop, where i = j and c = c and env = env,
        consumes 0, case_names existing no_memory no_random created])
       (use o k in auto)
qed

lemma handle_slots_data:
  assumes inv: "hwkey_inv prov keys s" and ctx: "ctxs s c = Some ctx"
    and len: "length payload \<le> 2048" "length req = 2049"
    and h: "handle_slots dev env c (ctx_uuid ctx) (terminated payload req) s = Inr (st, kl, s1)"
    and k: "klen_of kl \<noteq> 0"
  shows "own_slot keys (ctx_uuid ctx) payload (take (klen_of kl) (key_data s1)) \<or>
    live_token keys (opaque_handles s) (ctx_uuid ctx) payload"
proof (cases "find (\<lambda>(j, sl). slot_serves (ctx_uuid ctx) (terminated payload req) sl) (enumerate 0 keys)")
  case (Some x)
  then obtain j sl where x: "x = (j, sl)" by (cases x)
  note f = find_enumerate_SomeD [OF Some [unfolded x]]
  have "valid_token (take (klen_of kl) (key_data s1))" if "is_opaque_handle sl"
  proof (rule open_handle_data [OF inv f(1)])
    show "is_opaque_handle (keys ! j)" using that f(2) by simp
    show "open_handle dev env c j (keys ! j) s = Inr (st, kl, s1)"
      using h that f(2) Some x
      by (simp add: handle_slots_eq [OF zero_in_terminated hwkey_invD(1) [OF inv]] serve_slot_def
          is_opaque_handle_def split: option.splits slot_handler.splits)
  qed (rule k)
  with f have "own_slot keys (ctx_uuid ctx) payload (take (klen_of kl) (key_data s1))"
    unfolding own_slot_def by (intro bexI [of _ sl]) (auto simp: slot_serves_def cstr_terminated)
  then show ?thesis ..
next
  case None
  have nodes: "key_slot e < length keys \<and> valid_token (token e) \<and>
      (\<exists>h. slot_priv (keys ! key_slot e) = Handle_priv h)" if "e \<in> set (opaque_handles s)" for e
    using hwkey_invD(2) [OF inv that] opaque_priv by (auto simp: node_ok_def)
  have "32 \<le> length (terminated payload req)" using len by (simp add: received_simps)
  with None h k obtain e where
    "find (node_matches keys (ctx_uuid ctx) (terminated payload req)) (opaque_handles s) = Some e"
    by (auto simp: handle_slots_eq [OF zero_in_terminated hwkey_invD(1) [OF inv]]
        get_opaque_key_eq nodes split: option.splits)
  then have e: "e \<in> set (opaque_handles s)"
    "node_matches keys (ctx_uuid ctx) (terminated payload req) e" by (auto dest: find_SomeD)
  then have tok: "token e = take 32 (terminated payload req)" by (simp add: node_matches_def)
  from token_in_request [OF _ tok] nodes [OF e(1)] e
  have "live_token keys (opaque_handles s) (ctx_uuid ctx) payload"
    unfolding live_token_def
    by (intro bexI [of _ e]) (auto simp: node_matches_def split: slot_priv.splits)
  then show ?thesis ..
qed

lemma keyslot_response:
  assumes inv: "hwkey_inv prov keys s" and env: "env_ok crypto_ok (ctxs s) env"
    and ctx: "ctxs s c = Some ctx"
    and m: "recv_res env = Inr (hdr, payload)" and cmd: "cmd hdr = HWKEY_GET_KEYSLOT p"
  obtains st d s' where "hwkey_chan_handle_msg p prov dev env c ctx s = Inr (send_rc env, s')"
    and "outs s' = outs s @ [Sent (chan ctx) (response p hdr st) d]"
    and "d \<noteq> [] \<Longrightarrow> st = HWKEY_NO_ERROR \<and>
      (own_slot keys (ctx_uuid ctx) payload d \<or> live_token keys (opaque_handles s) (ctx_uuid ctx) payload)"
    and "st = HWKEY_NO_ERROR \<Longrightarrow> zeroed (key_data s) \<Longrightarrow> zeroed (key_data s')"
proof -
  note len = env_okD(3) [OF env m] hwkey_invD(4) [OF inv]
  let ?req = "terminated payload (req_data s)"
  let ?s = "s\<lparr>req_data := terminated payload (req_data s)\<rparr>"
  have inv1: "hwkey_inv prov keys ?s" using inv len by (auto simp: received_simps intro: hwkey_inv_frame(4))
  obtain st kl s1 where h: "handle_slots dev env c (ctx_uuid ctx) ?req ?s = Inr (st, kl, s1)"
    and sv: "served prov keys ?s st kl s1"
    using handle_slots_served [OF inv1 env_okD(1) [OF env], of c ctx ?req] ctx len
    by (auto simp: received_simps zero_in_terminated)
  then have k: "klen_of kl \<le> length (key_data s1)"
    using hwkey_invD(5) [of prov keys s1] by (auto simp: served_def klen_post_def)
  show ?thesis
  proof (rule that)
    show "hwkey_chan_handle_msg p prov dev env c ctx s = Inr (send_rc env,
      (emit (Sent (chan ctx) (response p hdr st) (take (klen_of kl) (key_data s1))) s1)
        \<lparr>key_data := replicate (klen_of kl) 0 @ drop (klen_of kl) (key_data s1)\<rparr>)"
      by (simp add: chan_handle_msg_keyslot [OF m cmd len] get_keyslot_cmd_eq [OF h k])
  next
    assume "take (klen_of kl) (key_data s1) \<noteq> []"
    then have "klen_of kl \<noteq> 0" by auto
    with sv have "st = HWKEY_NO_ERROR" by (auto simp: served_def klen_post_def split: if_splits)
    with handle_slots_data [OF inv1 _ len h] ctx \<open>klen_of kl \<noteq> 0\<close>
    show "st = HWKEY_NO_ERROR \<and>
      (own_slot keys (ctx_uuid ctx) payload (take (klen_of kl) (key_data s1)) \<or>
       live_token keys (opaque_handles s) (ctx_uuid ctx) payload)" by auto
  next
    assume "st = HWKEY_NO_ERROR" "zeroed (key_data s)"
    with sv show "zeroed (key_data ((emit (Sent (chan ctx) (response p hdr st)
        (take (klen_of kl) (key_data s1))) s1)
        \<lparr>key_data := replicate (klen_of kl) 0 @ drop (klen_of kl) (key_data s1)\<rparr>))"
      by (auto simp: served_def klen_post_def zeroed_drop)
  qed (use sv in \<open>simp add: served_def emit_simps\<close>)
qed

end

section \<open>The service as it is built\<close>

abbreviation fake_dev :: "(64 word) rng_dev" where
  "fake_dev \<equiv> hwrng_dev_get_rng_data"

abbreviation hwcrypto_reach :: "hwkey_proto \<Rightarrow> hwkey_config \<Rightarrow> (64 word) hwkey_state \<Rightarrow> bool" where
  "hwcrypto_reach p cfg \<equiv> hwkey_reach p (fake_provider cfg) fake_dev bssl_ok (key_table cfg)"

context hwkey_build
begin

lemma build_service: "hwkey_service dev (fake_provider cfg) (key_table cfg) bssl_ok"
  by unfold_locales

end

lemmas fake_service = hwkey_build.build_service [OF hwkey_build_fake64]

lemmas fake_reach_inv = hwkey_service.reach_inv [OF fake_service]

section \<open>A concrete run\<close>

text \<open>
  A crypto library that keeps the contract, protocol constants and a run of the unit test
  build: keys installed, a client connected, an opaque handle issued to it.
\<close>

definition run_crypto :: crypto where
  "run_crypto =
     \<lparr>HKDF = (\<lambda>n k s i. (True, replicate n 7)), uuid_bytes = bytes_of,
      EVP_CIPHER_CTX_new = True, EVP_DecryptInit = (\<lambda>_. True),
      EVP_DecryptInit_key = (\<lambda>_ _ _. True), EVP_set_padding = True,
      EVP_iv_length = (\<lambda>_. 16), EVP_key_length = (\<lambda>_. 32),
      EVP_DecryptUpdate = (\<lambda>_ _ _ ct. (True, ct)), EVP_DecryptFinal = (\<lambda>_ _ _ _. (True, 0)),
      EVP_EncryptInit = (\<lambda>_ _. True), EVP_EncryptUpdate = (\<lambda>_ _ pt. (True, pt)),
      EVP_EncryptFinal = (\<lambda>_ _ _. True), system_state_app_loading_unlocked = False\<rparr>"

definition run_proto :: hwkey_proto where
  "run_proto = \<lparr>HWKEY_GET_KEYSLOT = 2, HWKEY_DERIVE = 4, HWKEY_RESP_BIT = 1,
     HWKEY_KDF_VERSION_BEST = 0, HWKEY_KDF_VERSION_1 = 1\<rparr>"

definition run_env :: "u32 \<Rightarrow> byte list \<Rightarrow> hwkey_env" where
  "run_env command payload =
     \<lparr>crypto_env = run_crypto, node_calloc = True,
      recv_res = Inr (\<lparr>cmd = command, status = HWKEY_NO_ERROR, arg1 = 0\<rparr>, payload), send_rc = 0,
      chan_errors_abort = False, port_errors_abort = False,
      accept_res = Inr (9, hwcrypto_unittest_uuid), ctx_calloc = Some 100, set_cookie_rc = 0\<rparr>"

definition run_ctx :: hwkey_chan_ctx where
  "run_ctx = \<lparr>chan = 9, ctx_uuid = hwcrypto_unittest_uuid\<rparr>"

definition run_started :: "(64 word) hwkey_state" where
  "run_started = (hwkey_initial initial_counter)\<lparr>key_slots := Some (key_table unittest_config)\<rparr>"

definition run_connected :: "(64 word) hwkey_state" where
  "run_connected = run_started\<lparr>ctxs := [100 \<mapsto> run_ctx]\<rparr>"

lemma run_crypto_ok: "bssl_ok run_crypto"
  by (simp add: bssl_ok_def run_crypto_def)

lemma run_env_ok: "length payload \<le> 2048 \<Longrightarrow> cs 100 = None \<Longrightarrow> env_ok bssl_ok cs (run_env x payload)"
  by (simp add: env_ok_def run_env_def run_crypto_ok)

lemma run_started_reach: "hwcrypto_reach run_proto unittest_config run_started"
  by (rule hwkey_reach.started [where r = initial_counter and port_rc = 1 and cookie_rc = 0])
     (simp_all add: hwkey_install_keys_def hwkey_initial_def run_started_def key_table_def
       hwkey_start_service_def)

lemma run_connect_step:
  "hwkey_step run_proto (fake_provider unittest_config) fake_dev bssl_ok run_started run_connected"
proof (rule hwkey_step.port_event [where env = "run_env 0 []" and
      ev = "\<lparr>ev_handle = 1, ev_event = {IPC_HANDLE_POLL_READY}\<rparr>"])
  show "env_ok bssl_ok (ctxs run_started) (run_env 0 [])"
    by (rule run_env_ok) (simp_all add: run_started_def hwkey_initial_def)
  show "hwkey_port_handler (fake_provider unittest_config) (run_env 0 [])
      \<lparr>ev_handle = 1, ev_event = {IPC_HANDLE_POLL_READY}\<rparr> run_started = Inr run_connected"
    by (simp add: hwkey_port_handler_def run_env_def fake_provider_def fake_client_allowed_def
        allowed_clients_def run_connected_def run_started_def hwkey_initial_def run_ctx_def Let_def)
qed

lemma run_connected_reach: "hwcrypto_reach run_proto unittest_config run_connected"
  by (rule hwkey_reach.stepped [OF run_started_reach run_connect_step])

text \<open>The token the counter device gives first: the bytes 1 to 31.\<close>

definition run_token :: "byte list" where
  "run_token = map of_nat [1..<32] @ [0]"

lemma run_token_valid: "valid_token run_token"
  by (auto simp: valid_token_def run_token_def upt_rec)

lemma run_token_loop: "token_loop fake_dev initial_counter zero_token = Some (NO_ERROR, run_token, 35)"
proof -
  have d: "fake_dev initial_counter (HWKEY_OPAQUE_HANDLE_SIZE + 2) = (NO_ERROR, map of_nat [1..<35], 35)"
    by code_simp
  have f: "fill_token (map of_nat [1..<35]) zero_token 0 = (run_token, 31)"
    by code_simp
  show ?thesis
    by (subst token_loop.simps) (simp only: d f prod.case if_True, simp)
qed

section \<open>Lookups in the slot table\<close>

lemma bytes_of_inj: "bytes_of a = bytes_of b \<longleftrightarrow> a = b"
proof -
  have "inj (of_char :: char \<Rightarrow> byte)"
  proof (rule injI)
    fix a b assume "(of_char a :: byte) = of_char b"
    then have "(of_nat (of_char a) :: byte) = of_nat (of_char b)" by (simp only: of_nat_of_char)
    then have "unat (of_nat (of_char a) :: byte) = unat (of_nat (of_char b) :: byte)" by (rule arg_cong)
    then show "a = b" by (simp add: unat_of_nat del: of_nat_of_char)
  qed
  then show ?thesis by (simp add: bytes_of_def inj_map_eq_map)
qed

text \<open>The slot a request for its key id by its application is served from.\<close>

lemma find_own_slot:
  assumes "distinct (map key_id keys)" and "j < length keys" and "slot_handler (keys ! j) \<noteq> None"
    and "cstr slot_id = bytes_of (key_id (keys ! j))"
  shows "find (\<lambda>(i, sl). slot_serves (slot_uuid (keys ! j)) slot_id sl) (enumerate 0 keys) =
    Some (j, keys ! j)"
proof -
  have "i = j" if "i < j" "bytes_of (key_id (keys ! i)) = bytes_of (key_id (keys ! j))" for i
    using that assms(1,2) by (auto simp: bytes_of_inj distinct_conv_nth)
  with assms(2-4) show ?thesis
    unfolding find_Some_iff
    by (intro exI [of _ j]) (auto simp: slot_serves_def nth_enumerate_eq)
qed

lemma subseq_distinct: "subseq xs ys \<Longrightarrow> distinct ys \<Longrightarrow> distinct xs"
  by (induction rule: list_emb.induct) (auto dest: list_emb_set)

lemma key_table_distinct: "distinct (map key_id (key_table cfg))"
proof (rule subseq_distinct)
  have k: "subseq (map key_id (sign_key_slot nm k)) [nm]" "subseq (map key_id (encrypt_key_slot nm k')) [nm]"
    for nm k k' by (simp_all add: sign_key_slot_def encrypt_key_slot_def split: option.split)
  show "subseq (map key_id (key_table cfg))
    ([''com.android.trusty.storage_auth.rpmb'', ''com.android.trusty.keymint.kak''] @
     [''com.android.trusty.apploader.sign.key.0''] @ [''com.android.trusty.apploader.sign.key.1''] @
     [''com.android.trusty.apploader.encrypt.key.0''] @ [''com.android.trusty.apploader.encrypt.key.1''] @
     map key_id unittest_slots)"
    unfolding key_table_def map_append by (intro list_emb_append_mono k) auto
qed (simp add: unittest_slots_def)

lemma key_table_handler: "sl \<in> set (key_table cfg) \<Longrightarrow> slot_handler sl \<noteq> None"
  by (auto simp: key_table_sets split: if_splits)

text \<open>No key id of the table has the length of a token, or holds a zero byte.\<close>

lemma key_table_ids:
  "sl \<in> set (key_table cfg) \<Longrightarrow> length (key_id sl) \<noteq> 31 \<and> cstr (bytes_of (key_id sl)) = bytes_of (key_id sl)"
  by (auto simp: key_table_sets cstr_def bytes_of_def split: if_splits)

section \<open>The four outcomes of a request for a slot or a token\<close>

text \<open>
  A request state: the invariant holds, the event's answers keep their contracts, and the
  message is a request for a key slot on a live connection.
\<close>

definition keyslot_request ::
    "hwkey_proto \<Rightarrow> hwkey_provider_ops \<Rightarrow> hwkey_keyslot list \<Rightarrow> (crypto \<Rightarrow> bool) \<Rightarrow> hwkey_env \<Rightarrow>
     nat \<Rightarrow> hwkey_chan_ctx \<Rightarrow> hwkey_msg \<Rightarrow> byte list \<Rightarrow> 'r hwkey_state \<Rightarrow> bool" where
  "keyslot_request p prov keys crypto_ok env c ctx hdr payload s \<longleftrightarrow>
     hwkey_inv prov keys s \<and> env_ok crypto_ok (ctxs s) env \<and> ctxs s c = Some ctx \<and>
     recv_res env = Inr (hdr, payload) \<and> cmd hdr = HWKEY_GET_KEYSLOT p"

context hwkey_service
begin

lemma keyslot_msg_eq:
  assumes r: "keyslot_request p prov keys crypto_ok env c ctx hdr payload s"
    and h: "handle_slots dev env c (ctx_uuid ctx) (terminated payload (req_data s))
      (s\<lparr>req_data := terminated payload (req_data s)\<rparr>) = Inr (st, kl, s1)"
    and k: "klen_of kl \<le> length (key_data s1)"
  shows "hwkey_chan_handle_msg p prov dev env c ctx s = Inr (send_rc env,
      (emit (Sent (chan ctx) (response p hdr st) (take (klen_of kl) (key_data s1))) s1)
        \<lparr>key_data := replicate (klen_of kl) 0 @ drop (klen_of kl) (key_data s1)\<rparr>)"
proof -
  from r have m: "recv_res env = Inr (hdr, payload)" "cmd hdr = HWKEY_GET_KEYSLOT p"
    and len: "length payload \<le> 2048" "length (req_data s) = 2049"
    using env_okD(3) hwkey_invD(4) by (auto simp: keyslot_request_def)
  show ?thesis by (simp add: chan_handle_msg_keyslot [OF m len] get_keyslot_cmd_eq [OF h k])
qed

text \<open>A request for an opaque slot, given the slot the table serves it from.\<close>

lemma keyslot_open_handle:
  assumes r: "keyslot_request p prov keys crypto_ok env c ctx hdr payload s"
    and j: "is_opaque_handle (keys ! j)"
    and f: "find (\<lambda>(j, sl). slot_serves (ctx_uuid ctx) (terminated payload (req_data s)) sl)
      (enumerate 0 keys) = Some (j, keys ! j)"
    and o: "open_handle dev env c j (keys ! j) (s\<lparr>req_data := terminated payload (req_data s)\<rparr>) =
      Inr (st, kl, s1)"
    and k: "klen_of kl \<le> length (key_data s1)"
  shows "hwkey_chan_handle_msg p prov dev env c ctx s = Inr (send_rc env,
      (emit (Sent (chan ctx) (response p hdr st) (take (klen_of kl) (key_data s1))) s1)
        \<lparr>key_data := replicate (klen_of kl) 0 @ drop (klen_of kl) (key_data s1)\<rparr>)"
proof (rule keyslot_msg_eq [OF r _ k])
  have ks: "key_slots (s\<lparr>req_data := terminated payload (req_data s)\<rparr>) = Some keys"
    using r by (simp add: keyslot_request_def hwkey_inv_def)
  show "handle_slots dev env c (ctx_uuid ctx) (terminated payload (req_data s))
      (s\<lparr>req_data := terminated payload (req_data s)\<rparr>) = Inr (st, kl, s1)"
    using j f o
    by (simp add: handle_slots_eq [OF zero_in_terminated ks] serve_slot_def is_opaque_handle_def
        split: option.splits slot_handler.splits)
qed

lemma request_priv:
  assumes "j < length keys" and "is_opaque_handle (keys ! j)"
  shows "slot_priv (keys ! j) \<noteq> Null_priv"
  using opaque_priv [of "keys ! j"] assms by auto

lemma keyslot_existing:
  assumes r: "keyslot_request p prov keys crypto_ok env c ctx hdr payload s"
    and j: "j < length keys" "is_opaque_handle (keys ! j)"
    and f: "find (\<lambda>(j, sl). slot_serves (ctx_uuid ctx) (terminated payload (req_data s)) sl)
      (enumerate 0 keys) = Some (j, keys ! j)"
    and e: "e \<in> set (opaque_handles s)" "key_slot e = j"
  shows "\<exists>s'. hwkey_chan_handle_msg p prov dev env c ctx s = Inr (send_rc env, s') \<and>
    outs s' = outs s @ [Sent (chan ctx) (response p hdr HWKEY_ERR_ALREADY_EXISTS) []] \<and>
    opaque_handles s' = opaque_handles s \<and> rng s' = rng s \<and> key_data s' = key_data s \<and> ctxs s' = ctxs s"
proof -
  let ?s = "s\<lparr>req_data := terminated payload (req_data s)\<rparr>"
  have inv: "hwkey_inv prov keys s" using r by (simp add: keyslot_request_def)
  obtain e' where e': "find_opaque_handle_for_slot j ?s = Some e'"
    using e by (cases "find_opaque_handle_for_slot j ?s") (auto dest: find_slot_NoneD)
  then have "valid_token (token e')"
    using find_slot_SomeD [OF e'] hwkey_invD(2) [OF inv] by (auto simp: node_ok_def)
  with e' request_priv [OF j] hwkey_invD(5) [OF inv]
  have "open_handle dev env c j (keys ! j) ?s = Inr (HWKEY_ERR_ALREADY_EXISTS, None, ?s)"
    by (simp add: open_handle_def insert_handle_node_simps get_key_handle_existing)
  from keyslot_open_handle [OF r j(2) f this] show ?thesis by (simp add: hwkey_simps)
qed

lemma keyslot_issue:
  assumes r: "keyslot_request p prov keys crypto_ok env c ctx hdr payload s"
    and j: "j < length keys" "is_opaque_handle (keys ! j)"
    and f: "find (\<lambda>(j, sl). slot_serves (ctx_uuid ctx) (terminated payload (req_data s)) sl)
      (enumerate 0 keys) = Some (j, keys ! j)"
    and fresh: "\<forall>e \<in> set (opaque_handles s). key_slot e \<noteq> j"
    and mem: "node_calloc env"
    and loop: "token_loop dev (rng s) zero_token = Some (NO_ERROR, t, r')"
  shows "\<exists>s'. hwkey_chan_handle_msg p prov dev env c ctx s = Inr (send_rc env, s') \<and> valid_token t \<and>
    outs s' = outs s @ [Sent (chan ctx) (response p hdr HWKEY_NO_ERROR) t] \<and>
    opaque_handles s' = opaque_handles s @ [\<lparr>key_slot = j, owner = c, token = t\<rparr>] \<and>
    ctxs s' = ctxs s \<and> key_data s' = replicate 32 0 @ drop 32 (key_data s) \<and> rng s' = r'"
proof -
  let ?s = "s\<lparr>req_data := terminated payload (req_data s)\<rparr>"
  have inv: "hwkey_inv prov keys s" using r by (simp add: keyslot_request_def)
  have none: "find_opaque_handle_for_slot j ?s = None"
    using fresh by (simp add: find_opaque_handle_for_slot_def find_None_iff')
  have t: "valid_token t" using token_loop_result [OF loop zero_token_buffer] by simp
  have "open_handle dev env c j (keys ! j) ?s = Inr (HWKEY_NO_ERROR, Some 32,
      (with_node j c t ?s)\<lparr>rng := r', key_data := t @ drop 32 (key_data ?s)\<rparr>)"
    using none mem request_priv [OF j] hwkey_invD(5) [OF inv] loop
    by (simp add: open_handle_def insert_handle_node_simps get_key_handle_new)
  from keyslot_open_handle [OF r j(2) f this] t show ?thesis
    by (simp add: hwkey_simps with_node_def)
qed

text \<open>
  A request that carries a token, with or without its terminator, and is no key id of the caller:
  a search of the list of handles.
\<close>

lemma keyslot_by_token:
  assumes r: "keyslot_request p prov keys crypto_ok env c ctx hdr payload s"
    and none: "\<forall>sl \<in> set keys. slot_uuid sl = ctx_uuid ctx \<longrightarrow> bytes_of (key_id sl) \<noteq> cstr payload"
    and g: "(case find (node_matches keys (ctx_uuid ctx) (terminated payload (req_data s))) (opaque_handles s) of
        None \<Rightarrow> Inr (HWKEY_ERR_NOT_FOUND, key_data s, None)
      | Some e \<Rightarrow> retrieve (crypto_env env) (keys ! key_slot e) (key_data s)) = Inr (st, kb, kl)"
  shows "\<exists>s'. hwkey_chan_handle_msg p prov dev env c ctx s = Inr (send_rc env, s') \<and>
    outs s' = outs s @ [Sent (chan ctx) (response p hdr st) (take (klen_of kl) kb)] \<and>
    opaque_handles s' = opaque_handles s \<and> ctxs s' = ctxs s \<and> rng s' = rng s"
proof -
  let ?req = "terminated payload (req_data s)" and ?s = "s\<lparr>req_data := terminated payload (req_data s)\<rparr>"
  have inv: "hwkey_inv prov keys s" and env: "env_ok crypto_ok (ctxs s) env"
    and m: "recv_res env = Inr (hdr, payload)"
    using r by (auto simp: keyslot_request_def)
  have nodes: "key_slot e < length keys \<and> valid_token (token e) \<and>
      (\<exists>h. slot_priv (keys ! key_slot e) = Handle_priv h)" if "e \<in> set (opaque_handles s)" for e
    using hwkey_invD(2) [OF inv that] opaque_priv by (auto simp: node_ok_def)
  have len: "32 \<le> length ?req"
    using env_okD(3) [OF env m] hwkey_invD(4) [OF inv] by (simp add: received_simps)
  have none': "find (\<lambda>(j, sl). slot_serves (ctx_uuid ctx) ?req sl) (enumerate 0 keys) = None"
    using none by (auto simp: find_None_iff' slot_serves_def cstr_terminated in_set_enumerate_eq)
  have g': "get_opaque_key (crypto_env env) keys (ctx_uuid ctx) ?req (key_data s) (opaque_handles s) = Inr (st, kb, kl)"
    using g len nodes by (simp add: get_opaque_key_eq)
  have "handler_post (key_data s) (Inr (st, kb, kl))"
  proof (cases "find (node_matches keys (ctx_uuid ctx) ?req) (opaque_handles s)")
    case None
    with g show ?thesis by (simp add: klen_post_def)
  next
    case (Some e)
    then obtain h where h: "slot_priv (keys ! key_slot e) = Handle_priv h" "keys ! key_slot e \<in> set keys"
      using find_SomeD [OF Some] nodes by fastforce
    from retrievers [OF h(2,1) env_okD(1) [OF env] hwkey_invD(5) [OF inv]] Some g h(1) show ?thesis
      by (simp add: retrieve_def handle_data_def)
  qed
  then have k: "klen_of kl \<le> length kb" by (simp add: klen_post_def)
  have ks: "key_slots ?s = Some keys" using hwkey_invD(1) [OF inv] by simp
  show ?thesis
    using keyslot_msg_eq [OF r, of st kl "?s\<lparr>key_data := kb\<rparr>"] g' k none'
    by (simp add: handle_slots_eq [OF zero_in_terminated ks] hwkey_simps)
qed

text \<open>A live token the caller may use.\<close>

lemma keyslot_fetch:
  assumes r: "keyslot_request p prov keys crypto_ok env c ctx hdr payload s"
    and e: "e \<in> set (opaque_handles s)" "\<forall>e' \<in> set (opaque_handles s). token e' = token e \<longrightarrow> e' = e"
    and h: "slot_priv (keys ! key_slot e) = Handle_priv h" "ctx_uuid ctx \<in> set (allowed_uuids h)"
    and pl: "payload = token e \<or> payload = butlast (token e)"
    and none: "\<forall>sl \<in> set keys. slot_uuid sl = ctx_uuid ctx \<longrightarrow> bytes_of (key_id sl) \<noteq> butlast (token e)"
    and ret: "oh_retriever h (oh_priv h) (crypto_env env) (key_data s) = Inr (st, kb, kl)"
  shows "\<exists>s'. hwkey_chan_handle_msg p prov dev env c ctx s = Inr (send_rc env, s') \<and>
    outs s' = outs s @ [Sent (chan ctx) (response p hdr st) (take (klen_of kl) kb)] \<and>
    opaque_handles s' = opaque_handles s \<and> ctxs s' = ctxs s \<and> rng s' = rng s"
proof (rule keyslot_by_token [OF r])
  let ?req = "terminated payload (req_data s)"
  have "hwkey_inv prov keys s" using r by (simp add: keyslot_request_def)
  then have "valid_token (token e)" using hwkey_invD(2) e(1) by (auto simp: node_ok_def)
  then obtain nz where nz: "token e = nz @ [0]" "length nz = 31" "0 \<notin> set nz"
    by (auto simp: valid_token_def)
  then have t: "take 32 ?req = token e" "cstr payload = butlast (token e)"
    using pl by (auto simp: terminated_def cstr_def takeWhile_tail takeWhile_nonzero)
  show "\<forall>sl \<in> set keys. slot_uuid sl = ctx_uuid ctx \<longrightarrow> bytes_of (key_id sl) \<noteq> cstr payload"
    using none t(2) by simp
  have "node_matches keys (ctx_uuid ctx) ?req e'  \<longleftrightarrow> e' = e" if "e' \<in> set (opaque_handles s)" for e'
    using that e h t by (auto simp: node_matches_def)
  with e(1) have "find (node_matches keys (ctx_uuid ctx) ?req) (opaque_handles s) = Some e"
    by (metis find_None_iff' find_SomeD not_None_eq)
  with h ret show "(case find (node_matches keys (ctx_uuid ctx) ?req) (opaque_handles s) of
        None \<Rightarrow> Inr (HWKEY_ERR_NOT_FOUND, key_data s, None)
      | Some e \<Rightarrow> retrieve (crypto_env env) (keys ! key_slot e) (key_data s)) = Inr (st, kb, kl)"
    by (simp add: retrieve_def handle_data_def)
qed

lemma keyslot_read:
  assumes "keyslot_request p prov keys crypto_ok env c ctx hdr payload s"
    and "e \<in> set (opaque_handles s)" "\<forall>e' \<in> set (opaque_handles s). token e' = token e \<longrightarrow> e' = e"
    and "slot_priv (keys ! key_slot e) = Handle_priv h" "ctx_uuid ctx \<in> set (allowed_uuids h)"
    and "payload = token e"
    and "\<forall>sl \<in> set keys. slot_uuid sl = ctx_uuid ctx \<longrightarrow> bytes_of (key_id sl) \<noteq> butlast (token e)"
    and "oh_retriever h (oh_priv h) (crypto_env env) (key_data s) = Inr (st, kb, kl)"
  shows "\<exists>s'. hwkey_chan_handle_msg p prov dev env c ctx s = Inr (send_rc env, s') \<and>
    outs s' = outs s @ [Sent (chan ctx) (response p hdr st) (take (klen_of kl) kb)] \<and>
    opaque_handles s' = opaque_handles s"
  using keyslot_fetch [OF assms(1-5) disjI1 [OF assms(6)] assms(7,8)] by blast

text \<open>A request that matches no handle the caller may use.\<close>

lemma keyslot_refused:
  assumes r: "keyslot_request p prov keys crypto_ok env c ctx hdr payload s"
    and none: "\<forall>sl \<in> set keys. slot_uuid sl = ctx_uuid ctx \<longrightarrow> bytes_of (key_id sl) \<noteq> cstr payload"
    and no: "\<And>e h. e \<in> set (opaque_handles s) \<Longrightarrow> slot_priv (keys ! key_slot e) = Handle_priv h \<Longrightarrow>
      ctx_uuid ctx \<in> set (allowed_uuids h) \<Longrightarrow> token e \<noteq> take 32 (terminated payload (req_data s))"
  shows "\<exists>s'. hwkey_chan_handle_msg p prov dev env c ctx s = Inr (send_rc env, s') \<and>
    outs s' = outs s @ [Sent (chan ctx) (response p hdr HWKEY_ERR_NOT_FOUND) []] \<and>
    opaque_handles s' = opaque_handles s \<and> ctxs s' = ctxs s \<and> rng s' = rng s"
proof -
  have "find (node_matches keys (ctx_uuid ctx) (terminated payload (req_data s))) (opaque_handles s) = None"
    using no by (auto simp: find_None_iff' node_matches_def split: slot_priv.splits)
  with keyslot_by_token [OF r none] show ?thesis by simp
qed

text \<open>A request for a slot whose handler gives the key at once.\<close>

lemma keyslot_plain:
  assumes r: "keyslot_request p prov keys crypto_ok env c ctx hdr payload s"
    and f: "find (\<lambda>(j, sl). slot_serves (ctx_uuid ctx) (terminated payload (req_data s)) sl) (enumerate 0 keys) = Some (j, sl)"
    and h: "slot_handler sl = Some (Slot_handler g)" "g (slot_uuid sl) (slot_priv sl) (crypto_env env) (key_data s) = Inr (st, kb, kl)"
    and k: "klen_of kl \<le> length kb"
  shows "\<exists>s'. hwkey_chan_handle_msg p prov dev env c ctx s = Inr (send_rc env, s') \<and>
    outs s' = outs s @ [Sent (chan ctx) (response p hdr st) (take (klen_of kl) kb)] \<and>
    opaque_handles s' = opaque_handles s \<and> ctxs s' = ctxs s \<and> rng s' = rng s"
proof -
  let ?s = "s\<lparr>req_data := terminated payload (req_data s)\<rparr>"
  have ks: "key_slots ?s = Some keys" using r by (simp add: keyslot_request_def hwkey_inv_def)
  have "handle_slots dev env c (ctx_uuid ctx) (terminated payload (req_data s)) ?s = Inr (st, kl, ?s\<lparr>key_data := kb\<rparr>)"
    using f h by (simp add: handle_slots_eq [OF zero_in_terminated ks] serve_slot_def)
  from keyslot_msg_eq [OF r this] k show ?thesis by (simp add: hwkey_simps)
qed

end

section \<open>Guarantees\<close>

lemma fake_request:
  assumes "config_ok cfg" and "hwcrypto_reach p cfg s" and "env_ok bssl_ok (ctxs s) env"
    and "ctxs s c = Some ctx" and "recv_res env = Inr (hdr, payload)"
    and "cmd hdr = HWKEY_GET_KEYSLOT p"
  shows "keyslot_request p (fake_provider cfg) (key_table cfg) bssl_ok env c ctx hdr payload s"
  using assms fake_reach_inv by (auto simp: keyslot_request_def)

text \<open>A request for the key id of a slot by the slot's application, as the table serves it.\<close>

lemma find_table_slot:
  assumes "j < length (key_table cfg)"
  shows "find (\<lambda>(j', sl). slot_serves (slot_uuid (key_table cfg ! j))
      (terminated (bytes_of (key_id (key_table cfg ! j))) req) sl)
    (enumerate 0 (key_table cfg)) = Some (j, key_table cfg ! j)"
  using assms key_table_ids [OF nth_mem [OF assms]] key_table_handler [OF nth_mem [OF assms]]
  by (intro find_own_slot key_table_distinct) (simp_all add: cstr_terminated)

text \<open>The unit test run goes on: a request of the connected client.\<close>

abbreviation run_hdr :: hwkey_msg where
  "run_hdr \<equiv> \<lparr>cmd = 2, status = HWKEY_NO_ERROR, arg1 = 0\<rparr>"

definition run_msg :: "byte list \<Rightarrow> hwkey_env" where
  "run_msg payload = (run_env 2 payload)\<lparr>ctx_calloc := None\<rparr>"

lemma run_msg_simps [simp]:
  "recv_res (run_msg payload) = Inr (run_hdr, payload)" "node_calloc (run_msg payload)"
  "send_rc (run_msg payload) = 0" "crypto_env (run_msg payload) = run_crypto"
  "HWKEY_GET_KEYSLOT run_proto = 2"
  by (simp_all add: run_msg_def run_env_def run_proto_def)

lemma run_msg_ok: "length payload \<le> 2048 \<Longrightarrow> env_ok bssl_ok cs (run_msg payload)"
  by (simp add: env_ok_def run_msg_def run_env_def run_crypto_ok)

definition run_slot_id :: "byte list" where
  "run_slot_id = bytes_of ''com.android.trusty.hwcrypto.unittest.opaque_handle''"

lemma run_slot:
  "4 < length (key_table unittest_config)" "is_opaque_handle (key_table unittest_config ! 4)"
  "key_id (key_table unittest_config ! 4) = ''com.android.trusty.hwcrypto.unittest.opaque_handle''"
  "slot_uuid (key_table unittest_config ! 4) = hwcrypto_unittest_uuid"
  "slot_priv (key_table unittest_config ! 4) = Handle_priv unittest_opaque_handle_data"
  by (simp_all add: key_table_def unittest_config_def sign_key_slot_def encrypt_key_slot_def
      unittest_slots_def is_opaque_handle_def)

definition run_node :: opaque_handle_node where
  "run_node = \<lparr>key_slot = 4, owner = 100, token = run_token\<rparr>"

lemma run_connected_ctx: "ctxs run_connected 100 = Some run_ctx" "chan run_ctx = 9"
  "ctx_uuid run_ctx = hwcrypto_unittest_uuid" "opaque_handles run_connected = []"
  "rng run_connected = initial_counter" "key_data run_connected = replicate 2048 0"
  by (simp_all add: run_connected_def run_ctx_def run_started_def hwkey_initial_def)

lemma run_connected_request:
  "length payload \<le> 2048 \<Longrightarrow> keyslot_request run_proto (fake_provider unittest_config)
    (key_table unittest_config) bssl_ok (run_msg payload) 100 run_ctx run_hdr payload run_connected"
  by (rule fake_request [OF unittest_config_ok run_connected_reach run_msg_ok])
     (simp_all add: run_connected_ctx)

lemma run_slot_id_length: "length run_slot_id = 50"
  by (simp add: run_slot_id_def)

lemma run_issue:
  "\<exists>s'. hwkey_chan_handle_msg run_proto (fake_provider unittest_config) fake_dev (run_msg run_slot_id)
      100 run_ctx run_connected = Inr (0, s') \<and> valid_token run_token \<and>
    outs s' = outs run_connected @ [Sent 9 (response run_proto run_hdr HWKEY_NO_ERROR) run_token] \<and>
    opaque_handles s' = [run_node] \<and> ctxs s' = ctxs run_connected \<and>
    key_data s' = replicate 2048 0"
  using hwkey_service.keyslot_issue [OF fake_service [OF unittest_config_ok]
      run_connected_request [of run_slot_id] run_slot(1,2), of run_token 35]
    find_table_slot [OF run_slot(1), of "req_data run_connected"] run_token_loop
  by (simp add: run_slot run_connected_ctx run_slot_id_length flip: run_slot_id_def run_node_def)
     (auto simp: replicate_add [symmetric])

lemma run_issued:
  "\<exists>s. hwcrypto_reach run_proto unittest_config s \<and> opaque_handles s = [run_node] \<and>
    ctxs s 100 = Some run_ctx \<and> key_data s = replicate 2048 0"
proof -
  let ?ev = "\<lparr>ev_handle = 9, ev_event = {IPC_HANDLE_POLL_MSG}\<rparr>"
  obtain s where s: "hwkey_chan_handle_msg run_proto (fake_provider unittest_config) fake_dev
      (run_msg run_slot_id) 100 run_ctx run_connected = Inr (0, s)" "opaque_handles s = [run_node]"
    "ctxs s = ctxs run_connected" "key_data s = replicate 2048 0" using run_issue by blast
  have e: "env_ok bssl_ok (ctxs run_connected) (run_msg run_slot_id)"
    by (rule run_msg_ok) (simp add: run_slot_id_length)
  have "hwkey_chan_handler run_proto (fake_provider unittest_config) fake_dev (run_msg run_slot_id)
      ?ev 100 run_connected = Inr s"
    using s(1) env_okD(5) [OF e] by (simp add: hwkey_chan_handler_def run_connected_ctx)
  from hwkey_step.chan_event [OF e run_connected_ctx(1) _ this]
  have "hwcrypto_reach run_proto unittest_config s"
    by (intro hwkey_reach.stepped [OF run_connected_reach]) (simp add: run_connected_ctx)
  with s run_connected_ctx show ?thesis by auto
qed

text \<open>C1: From every reachable state, every event on a live connection and every event on
  the port is handled to the end: no assertion fails, no buffer is overrun, nothing freed is
  used, and the loop that draws a token returns.\<close>

theorem hwkey_no_fault:
  assumes "config_ok cfg" and "hwcrypto_reach p cfg s" and "env_ok bssl_ok (ctxs s) env"
    and "ctxs s c = Some ctx" and "ev_handle ev = chan ctx"
  shows "(\<exists>s'. hwkey_chan_handler p (fake_provider cfg) fake_dev env ev c s = Inr s' \<and>
        hwcrypto_reach p cfg s') \<and>
    (\<exists>s'. hwkey_port_handler (fake_provider cfg) env port_ev s = Inr s' \<and> hwcrypto_reach p cfg s')"
  using hwkey_service.chan_handler_total [OF fake_service, OF assms(1) fake_reach_inv [OF assms(1,2)] assms(3-5)]
    hwkey_service.port_handler_total [OF fake_service, OF assms(1) fake_reach_inv [OF assms(1,2)] assms(3)]
    hwkey_reach.stepped [OF assms(2)] hwkey_step.chan_event [OF assms(3-5)] hwkey_step.port_event [OF assms(3)]
  by metis

theorem hwkey_no_fault_witness:
  "\<exists>s'. hwkey_chan_handler run_proto (fake_provider unittest_config) fake_dev (run_msg run_slot_id)
     \<lparr>ev_handle = 9, ev_event = {IPC_HANDLE_POLL_MSG}\<rparr> 100 run_connected = Inr s'"
  using hwkey_no_fault [OF unittest_config_ok run_connected_reach run_msg_ok run_connected_ctx(1),
      where payload1 = run_slot_id and ev = "\<lparr>ev_handle = 9, ev_event = {IPC_HANDLE_POLL_MSG}\<rparr>"]
  by (auto simp: run_connected_ctx run_slot_id_length)

text \<open>C2: A request for a key slot is answered with bytes only with status \<open>HWKEY_NO_ERROR\<close>
  and on one of two grounds: the id is that of a slot of the caller, and then an opaque slot
  gives a token and not the key; or the request carries the token of a live handle whose slot
  lists the caller as a reader. Every other request gets no bytes.\<close>

theorem keyslot_access:
  assumes "config_ok cfg" and "hwcrypto_reach p cfg s" and "env_ok bssl_ok (ctxs s) env"
    and "ctxs s c = Some ctx" and "recv_res env = Inr (hdr, payload)"
    and "cmd hdr = HWKEY_GET_KEYSLOT p"
  shows "\<exists>st d s'. hwkey_chan_handle_msg p (fake_provider cfg) fake_dev env c ctx s =
      Inr (send_rc env, s') \<and>
    outs s' = outs s @ [Sent (chan ctx) (response p hdr st) d] \<and>
    (d \<noteq> [] \<longrightarrow> st = HWKEY_NO_ERROR \<and>
      (own_slot (key_table cfg) (ctx_uuid ctx) payload d \<or>
       live_token (key_table cfg) (opaque_handles s) (ctx_uuid ctx) payload))"
  by (rule hwkey_service.keyslot_response [OF fake_service, OF assms(1) fake_reach_inv [OF assms(1,2)]
        assms(3-6)]) blast

theorem keyslot_access_witness:
  "\<exists>st d s'. hwkey_chan_handle_msg run_proto (fake_provider unittest_config) fake_dev
      (run_msg [1, 2, 3]) 100 run_ctx run_connected = Inr (0, s') \<and>
    outs s' = outs run_connected @ [Sent 9 (response run_proto run_hdr st) d] \<and>
    (d \<noteq> [] \<longrightarrow> st = HWKEY_NO_ERROR \<and>
      (own_slot (key_table unittest_config) hwcrypto_unittest_uuid [1, 2, 3] d \<or>
       live_token (key_table unittest_config) [] hwcrypto_unittest_uuid [1, 2, 3]))"
  using keyslot_access [OF unittest_config_ok run_connected_reach run_msg_ok run_connected_ctx(1),
      of "[1, 2, 3]" run_hdr "[1, 2, 3]"] by (simp add: run_connected_ctx)

text \<open>C10: Every reachable state keeps the service invariant: each handle points to an opaque
  slot, belongs to a live connection of that slot's application and holds a complete token; a
  slot has at most one handle; the buffers keep their sizes; every connected client is an
  allowed one; the memory of deleted handles holds no token bytes.\<close>

theorem hwkey_reachable_inv:
  assumes "config_ok cfg" and "hwcrypto_reach p cfg s"
  shows "hwkey_inv (fake_provider cfg) (key_table cfg) s"
  by (rule hwkey_service.reach_inv [OF fake_service [OF assms(1)] assms(2)])

theorem hwkey_reachable_inv_witness:
  "hwkey_inv (fake_provider unittest_config) (key_table unittest_config) run_connected"
  by (rule hwkey_reachable_inv [OF unittest_config_ok run_connected_reach])

text \<open>C5: A token opens the slot it was issued for: the holder of an unambiguous live token
  whose slot lists it as a reader gets exactly what the slot's retriever produced.\<close>

theorem token_opens_slot:
  assumes "config_ok cfg" and "hwcrypto_reach p cfg s" and "env_ok bssl_ok (ctxs s) env"
    and "ctxs s c = Some ctx" and "recv_res env = Inr (hdr, token e)"
    and "cmd hdr = HWKEY_GET_KEYSLOT p"
    and "e \<in> set (opaque_handles s)" and "\<forall>e' \<in> set (opaque_handles s). token e' = token e \<longrightarrow> e' = e"
    and "slot_priv (key_table cfg ! key_slot e) = Handle_priv h"
    and "ctx_uuid ctx \<in> set (allowed_uuids h)"
    and "oh_retriever h (oh_priv h) (crypto_env env) (key_data s) = Inr (st, kb, kl)"
  shows "\<exists>s'. hwkey_chan_handle_msg p (fake_provider cfg) fake_dev env c ctx s = Inr (send_rc env, s') \<and>
    outs s' = outs s @ [Sent (chan ctx) (response p hdr st) (take (klen_of kl) kb)] \<and>
    opaque_handles s' = opaque_handles s"
proof (rule hwkey_service.keyslot_read [OF fake_service, OF assms(1) fake_request [OF assms(1-6)]
      assms(7-10) refl _ assms(11)])
  have "length (butlast (token e)) = 31"
    using hwkey_invD(2) [OF fake_reach_inv [OF assms(1,2)] assms(7)] by (simp add: node_ok_def)
  then show "\<forall>sl \<in> set (key_table cfg). slot_uuid sl = ctx_uuid ctx \<longrightarrow> bytes_of (key_id sl) \<noteq> butlast (token e)"
    using key_table_ids by (metis bytes_of_length)
qed

theorem token_opens_slot_witness:
  "\<exists>s s'. opaque_handles s = [run_node] \<and>
    hwkey_chan_handle_msg run_proto (fake_provider unittest_config) fake_dev
      (run_msg run_token) 100 run_ctx s = Inr (0, s') \<and>
    outs s' = outs s @ [Sent 9 (response run_proto run_hdr HWKEY_NO_ERROR) unittest_key32] \<and>
    opaque_handles s' = opaque_handles s"
proof -
  obtain s where s: "hwcrypto_reach run_proto unittest_config s" "opaque_handles s = [run_node]"
    "ctxs s 100 = Some run_ctx" "key_data s = replicate 2048 0" using run_issued by blast
  have "oh_retriever unittest_opaque_handle_data (oh_priv unittest_opaque_handle_data) run_crypto
      (key_data s) = Inr (HWKEY_NO_ERROR, unittest_key32 @ replicate 2016 0, Some 32)"
    by (simp add: unittest_opaque_handle_data_def get_unittest_key32_opaque_def s get_unittest_key32_eq)
  with token_opens_slot [OF unittest_config_ok s(1) run_msg_ok s(3), of run_token run_hdr run_node
      unittest_opaque_handle_data] s run_token_valid
  show ?thesis
    by - (rule exI [of _ s], simp add: run_node_def run_slot run_connected_ctx
        unittest_opaque_handle_data_def unittest_allowed_opaque_key_uuids_def)
qed

text \<open>C6: Closing a connection revokes its handles and nothing else: exactly the handles of
  other connections survive, the memory of the deleted ones is cleared, the connection is gone,
  and its channel is closed.\<close>

theorem close_revokes:
  assumes "config_ok cfg" and "hwcrypto_reach p cfg s" and "ctxs s c = Some ctx"
  shows "\<exists>s'. hwkey_ctx_close c s = Inr s' \<and>
    opaque_handles s' = filter (\<lambda>e. owner e \<noteq> c) (opaque_handles s) \<and>
    length (freed_nodes s') = length (freed_nodes s) + length (filter (\<lambda>e. owner e = c) (opaque_handles s)) \<and>
    (\<forall>n \<in> set (freed_nodes s'). zeroed (token n)) \<and>
    ctxs s' = (ctxs s)(c := None) \<and> outs s' = outs s @ [Closed (chan ctx)]"
proof -
  have inv: "hwkey_inv (fake_provider cfg) (key_table cfg) s" using fake_reach_inv assms(1,2) .
  show ?thesis
    using inv by (auto simp: hwkey_ctx_close_eq [OF assms(3) hwkey_invD(3) [OF inv]] hwkey_inv_def)
qed

theorem close_revokes_witness:
  "\<exists>(s :: (64 word) hwkey_state) s'. opaque_handles s = [run_node] \<and> hwkey_ctx_close 100 s = Inr s' \<and> opaque_handles s' = []"
proof -
  obtain s where s: "hwcrypto_reach run_proto unittest_config s" "opaque_handles s = [run_node]"
    "ctxs s 100 = Some run_ctx" using run_issued by blast
  note close_revokes [OF unittest_config_ok s(1,3)]
  with s(2) show ?thesis
    by - (rule exI [of _ s], auto simp: run_node_def)
qed

end
