(* ===== verification/Hwkey_Leases.thy ===== *)
theory Hwkey_Leases
  imports Hwkey_Props
begin

text \<open>
  A specification of the handle list of the hwkey service as leases of slots to
  connections, and the refinement: every step of the service is a sequence of lease steps.
\<close>

section \<open>Handles as leases\<close>

text \<open>
  The specification of the handle list: connections of applications, and for each slot at
  most one lease, which names the connection that holds it and the token. A lease is granted
  only to a connection of the slot's application while the slot is free, and ends exactly when
  its connection does.
\<close>

record lease_state =
  conns :: "nat \<rightharpoonup> uuid"
  leases :: "nat \<rightharpoonup> nat \<times> byte list"

inductive lease_step ::
    "(uuid \<Rightarrow> bool) \<Rightarrow> hwkey_keyslot list \<Rightarrow> lease_state \<Rightarrow> lease_state \<Rightarrow> bool"
  for allowed :: "uuid \<Rightarrow> bool" and keys :: "hwkey_keyslot list" where
  connect: "conns a c = None \<Longrightarrow> allowed u \<Longrightarrow>
     lease_step allowed keys a (a\<lparr>conns := (conns a)(c \<mapsto> u)\<rparr>)"
| grant: "i < length keys \<Longrightarrow> is_opaque_handle (keys ! i) \<Longrightarrow> leases a i = None \<Longrightarrow>
     conns a c = Some (slot_uuid (keys ! i)) \<Longrightarrow> valid_token t \<Longrightarrow>
     lease_step allowed keys a (a\<lparr>leases := (leases a)(i \<mapsto> (c, t))\<rparr>)"
| disconnect: "conns a c \<noteq> None \<Longrightarrow>
     lease_step allowed keys a (a\<lparr>conns := (conns a)(c := None),
       leases := (\<lambda>i. case leases a i of Some (c', t) \<Rightarrow> if c' = c then None else Some (c', t) | None \<Rightarrow> None)\<rparr>)"

definition lease_abs :: "'r hwkey_state \<Rightarrow> lease_state" where
  "lease_abs s = \<lparr>conns = map_option ctx_uuid \<circ> ctxs s,
     leases = map_of (map (\<lambda>e. (key_slot e, (owner e, token e))) (opaque_handles s))\<rparr>"

lemma lease_abs_frame [simp]:
  "lease_abs (emit x s) = lease_abs s" "lease_abs (s\<lparr>rng := r\<rparr>) = lease_abs s"
  "lease_abs (s\<lparr>key_data := kb\<rparr>) = lease_abs s" "lease_abs (s\<lparr>req_data := rq\<rparr>) = lease_abs s"
  by (simp_all add: lease_abs_def hwkey_simps)

lemma lease_abs_cong:
  "ctxs s = ctxs s' \<Longrightarrow> opaque_handles s = opaque_handles s' \<Longrightarrow> lease_abs s = lease_abs s'"
  by (simp add: lease_abs_def)

lemma map_of_filter_owner:
  assumes "distinct (map key_slot es)"
  shows "map_of (map (\<lambda>e. (key_slot e, (owner e, token e))) (filter (\<lambda>e. owner e \<noteq> c) es)) i =
    (case map_of (map (\<lambda>e. (key_slot e, (owner e, token e))) es) i of
       Some (c', t) \<Rightarrow> if c' = c then None else Some (c', t) | None \<Rightarrow> None)"
  using assms
proof (induction es)
  case Nil
  then show ?case by simp
next
  case (Cons e es)
  have "map_of (map (\<lambda>e. (key_slot e, (owner e, token e))) (filter (\<lambda>e. owner e \<noteq> c) es)) i = None"
    if "i = key_slot e"
    using that Cons.prems by (auto simp: map_of_eq_None_iff)
  with Cons show ?case by (auto split: option.splits)
qed

lemma ctx_close_lease:
  assumes inv: "hwkey_inv prov keys s" and ctx: "ctxs s c = Some ctx"
    and close: "hwkey_ctx_close c s = Inr s'"
  shows "lease_step allowed keys (lease_abs s) (lease_abs s')"
proof -
  have eq: "lease_abs s' = (lease_abs s)\<lparr>conns := (conns (lease_abs s))(c := None),
    leases := (\<lambda>i. case leases (lease_abs s) i of
      Some (c', t) \<Rightarrow> if c' = c then None else Some (c', t) | None \<Rightarrow> None)\<rparr>"
    using close
    unfolding hwkey_ctx_close_eq [OF ctx hwkey_invD(3) [OF inv]] sum.inject
    by (elim subst) (simp add: lease_abs_def fun_eq_iff map_of_filter_owner [OF hwkey_invD(3) [OF inv]])
  have "conns (lease_abs s) c \<noteq> None" using ctx by (simp add: lease_abs_def)
  then show ?thesis unfolding eq by (rule lease_step.disconnect)
qed

context hwkey_service
begin

lemma open_handle_lease:
  assumes inv: "hwkey_inv prov keys s" and j: "j < length keys" "is_opaque_handle (keys ! j)"
    and ctx: "ctxs s c = Some ctx" "ctx_uuid ctx = slot_uuid (keys ! j)"
    and o: "open_handle dev env c j (keys ! j) s = Inr (st, kl, s1)"
  shows "(lease_step allowed keys)\<^sup>*\<^sup>* (lease_abs s) (lease_abs s1)"
proof -
  obtain rc t r' where loop: "token_loop dev (rng s) zero_token = Some (rc, t, r')"
    using token_loop_total [OF zero_token_buffer] by metis
  show ?thesis
  proof (cases rule: open_handle_cases [OF inv request_priv [OF j] loop, where i = j and c = c and env = env,
      consumes 0, case_names existing no_memory no_random created])
    case no_random
    then have "lease_abs s1 = lease_abs s" using o by (auto intro: lease_abs_cong)
    then show ?thesis by simp
  next
    case created
    have free: "leases (lease_abs s) j = None"
      using created(1) by (auto simp: lease_abs_def map_of_eq_None_iff)
    have "lease_abs s1 = (lease_abs s)\<lparr>leases := (leases (lease_abs s))(j \<mapsto> (c, t))\<rparr>"
      using created o free
      by (auto simp: lease_abs_def with_node_def map_add_def split: option.splits)
    with lease_step.grant [OF j free _ created(3), of c allowed] ctx show ?thesis
      by (auto simp: lease_abs_def)
  qed (use o in auto)
qed

lemma handle_slots_lease:
  assumes inv: "hwkey_inv prov keys s" and ctx: "ctxs s c = Some ctx"
    and z: "0 \<in> set slot_id" and h: "handle_slots dev env c (ctx_uuid ctx) slot_id s = Inr (st, kl, s1)"
  shows "(lease_step allowed keys)\<^sup>*\<^sup>* (lease_abs s) (lease_abs s1)"
proof (cases "find (\<lambda>(j, sl). slot_serves (ctx_uuid ctx) slot_id sl) (enumerate 0 keys)")
  case None
  with h show ?thesis by (auto simp: handle_slots_eq [OF z hwkey_invD(1) [OF inv]])
next
  case (Some x)
  then obtain j sl where x: "x = (j, sl)" by (cases x)
  note f = find_enumerate_SomeD [OF Some [unfolded x]]
  show ?thesis
  proof (cases "is_opaque_handle sl")
    case True
    with f h Some x show ?thesis
      by (intro open_handle_lease [OF inv f(1) _ ctx])
         (auto simp: handle_slots_eq [OF z hwkey_invD(1) [OF inv]] serve_slot_def slot_serves_def
           is_opaque_handle_def split: option.splits slot_handler.splits)
  next
    case False
    with f h Some x show ?thesis
      by (auto simp: handle_slots_eq [OF z hwkey_invD(1) [OF inv]] serve_slot_def slot_serves_def
          is_opaque_handle_def split: option.splits slot_handler.splits)
  qed
qed

lemma keyslot_cmd_lease:
  assumes "hwkey_inv prov keys s" and "ctxs s c = Some ctx" and "0 \<in> set slot_id"
    and "hwkey_handle_get_keyslot_cmd p dev env c ctx hdr slot_id s = Inr (rc, s')"
  shows "(lease_step allowed keys)\<^sup>*\<^sup>* (lease_abs s) (lease_abs s')"
proof -
  from assms(4) obtain st kl s1 where h: "handle_slots dev env c (ctx_uuid ctx) slot_id s = Inr (st, kl, s1)"
    and "lease_abs s' = lease_abs s1"
    by (auto simp: hwkey_handle_get_keyslot_cmd_def hwkey_send_rsp_def Let_def mem_simps split: if_splits)
  with handle_slots_lease [OF assms(1-3) h] show ?thesis by simp
qed

lemma derive_cmd_lease:
  "hwkey_handle_derive_key_cmd p prov env ctx hdr ikm s = Inr (rc, s') \<Longrightarrow> lease_abs s' = lease_abs s"
  by (auto simp: hwkey_handle_derive_key_cmd_def hwkey_send_rsp_def Let_def mem_simps split: if_splits)

lemma chan_handle_msg_lease:
  assumes inv: "hwkey_inv prov keys s" and env: "env_ok crypto_ok (ctxs s) env"
    and ctx: "ctxs s c = Some ctx"
    and h: "hwkey_chan_handle_msg p prov dev env c ctx s = Inr (rc, s')"
  shows "(lease_step allowed keys)\<^sup>*\<^sup>* (lease_abs s) (lease_abs s')"
proof (cases "recv_res env")
  case (Inl rc)
  with h show ?thesis by (simp add: hwkey_chan_handle_msg_def)
next
  case (Inr m)
  then obtain hdr payload where m: "recv_res env = Inr (hdr, payload)" by (cases m) auto
  note len = env_okD(3) [OF env m] hwkey_invD(4) [OF inv]
  show ?thesis
  proof (cases "cmd hdr = HWKEY_GET_KEYSLOT p")
    case True
    have "hwkey_inv prov keys (s\<lparr>req_data := terminated payload (req_data s)\<rparr>)"
      using inv len by (auto simp: received_simps intro: hwkey_inv_frame(4))
    from keyslot_cmd_lease [OF this _ zero_in_terminated, of c ctx] ctx h show ?thesis
      by (simp add: chan_handle_msg_keyslot [OF m True len])
  next
    case False
    have "lease_abs s' = lease_abs s"
      using h m False
      by (auto simp: hwkey_chan_handle_msg_def hwkey_send_rsp_def Let_def mem_simps
          dest!: derive_cmd_lease split: if_splits)
    then show ?thesis by simp
  qed
qed

lemma step_lease:
  assumes "hwkey_step p prov dev crypto_ok s s'" and inv: "hwkey_inv prov keys s"
  shows "(lease_step (hwkey_client_allowed prov) keys)\<^sup>*\<^sup>* (lease_abs s) (lease_abs s')"
  using assms(1)
proof cases
  case (chan_event env c ctx ev)
  obtain rc s1 where m: "hwkey_chan_handle_msg p prov dev env c ctx s = Inr (rc, s1)"
    "hwkey_inv prov keys s1" "ctxs s1 = ctxs s"
    using chan_handle_msg_handled [OF inv chan_event(1,2), of p] by (auto simp: handled_def)
  note c1 = ctx_close_lease [OF inv chan_event(2), of s' "hwkey_client_allowed prov"]
  note c2 = ctx_close_lease [OF m(2), of c ctx s' "hwkey_client_allowed prov"]
  note l = chan_handle_msg_lease [OF inv chan_event(1,2) m(1), of "hwkey_client_allowed prov"]
  from chan_event c1 c2 l m show ?thesis
    by (auto simp: hwkey_chan_handler_def split: if_splits intro: rtranclp.rtrancl_into_rtrancl)
next
  case (port_event env ev)
  show ?thesis
  proof (cases "\<exists>ch u c. accept_res env = Inr (ch, u) \<and> hwkey_client_allowed prov u \<and>
      ctx_calloc env = Some c \<and> IPC_HANDLE_POLL_READY \<in> ev_event ev")
    case False
    then have "lease_abs s' = lease_abs s"
      using port_event(2) by (auto simp: hwkey_port_handler_def Let_def split: sum.splits option.splits if_splits)
    then show ?thesis by simp
  next
    case True
    then obtain ch u c where a: "accept_res env = Inr (ch, u)" "hwkey_client_allowed prov u"
      "ctx_calloc env = Some c" "IPC_HANDLE_POLL_READY \<in> ev_event ev" by blast
    let ?s = "s\<lparr>ctxs := (ctxs s)(c \<mapsto> \<lparr>chan = ch, ctx_uuid = u\<rparr>)\<rparr>"
    have fresh: "ctxs s c = None" using env_okD(4) [OF port_event(1) a(3)] .
    then have inv1: "hwkey_inv prov keys ?s"
      using inv a(2) by (auto simp: hwkey_inv_def buffers_ok_def node_ok_def ran_def split: option.splits)
    have "lease_abs ?s = (lease_abs s)\<lparr>conns := (conns (lease_abs s))(c \<mapsto> u)\<rparr>"
      by (auto simp: lease_abs_def)
    moreover have "conns (lease_abs s) c = None" using fresh by (simp add: lease_abs_def)
    ultimately have l: "lease_step (hwkey_client_allowed prov) keys (lease_abs s) (lease_abs ?s)"
      using lease_step.connect [of "lease_abs s" c "hwkey_client_allowed prov" u keys] a(2) by simp
    note c2 = ctx_close_lease [OF inv1, of c _ s' "hwkey_client_allowed prov"]
    from port_event(2) a l c2 show ?thesis
      by (auto simp: hwkey_port_handler_def Let_def split: if_splits
          intro: rtranclp.rtrancl_into_rtrancl r_into_rtranclp)
  qed
next
  case (rng_used r)
  then show ?thesis by simp
qed

end

text \<open>C3: Every step of the service refines the lease specification: seen through the map
  from slots to their holders and tokens, the handle list changes only by granting a free
  opaque slot to a connection of the slot's application, and by ending all leases of a
  connection together with the connection.\<close>

theorem hwkey_refines_leases:
  assumes "config_ok cfg" and "hwcrypto_reach p cfg s"
    and "hwkey_step p (fake_provider cfg) fake_dev bssl_ok s s'"
  shows "(lease_step (fake_client_allowed cfg) (key_table cfg))\<^sup>*\<^sup>* (lease_abs s) (lease_abs s')"
  using hwkey_service.step_lease [OF fake_service, OF assms(1,3) fake_reach_inv [OF assms(1,2)]]
  by (simp add: fake_provider_def)

theorem hwkey_refines_leases_witness:
  "(lease_step (fake_client_allowed unittest_config) (key_table unittest_config))\<^sup>*\<^sup>*
     (lease_abs run_started) (lease_abs run_connected)"
  by (rule hwkey_refines_leases [OF unittest_config_ok run_started_reach run_connect_step])

end
