(* ===== verification/Hwkey_Requests.thy ===== *)
theory Hwkey_Requests
  imports Hwkey_Props
begin

text \<open>
  What single requests to the hwkey service do: stale bytes of the request buffer have no
  influence, key material is cleared after a response, key derivation, one handle per slot,
  admission of clients, keys for the unlocked state, and what a failed decryption leaves
  behind.
\<close>

section \<open>Stale request bytes\<close>

text \<open>Which token a terminated request matches does not depend on the bytes after it.\<close>

lemma token_match_stale:
  assumes "valid_token t" and "length req = 2049" and "length req' = 2049"
    and "t = take 32 (terminated payload req)"
  shows "t = take 32 (terminated payload req')"
proof -
  have len: "31 \<le> length payload" using token_in_request [OF assms(1,4)] by simp
  show ?thesis
  proof (cases "length payload = 31")
    case True
    with assms(4) show ?thesis by (simp add: terminated_def)
  next
    case False
    with len assms(4) show ?thesis by (simp add: terminated_def)
  qed
qed

definition with_req :: "byte list \<Rightarrow> ('a \<times> 'b \<times> 'r hwkey_state) res \<Rightarrow> ('a \<times> 'b \<times> 'r hwkey_state) res" where
  "with_req q r = bindr r (\<lambda>(st, kl, s). Inr (st, kl, s\<lparr>req_data := q\<rparr>))"

lemma with_req_simps [simp]:
  "with_req q (Inl e) = Inl e" "with_req q (Inr (st, kl, s)) = Inr (st, kl, s\<lparr>req_data := q\<rparr>)"
  "with_req q (bindr m f) = bindr m (\<lambda>x. with_req q (f x))"
  "with_req q (assertr b r) = assertr b (with_req q r)"
  "with_req q (if b then r else r') = (if b then with_req q r else with_req q r')"
  by (simp_all add: with_req_def bindr_assoc assertr_def)

lemma find_slot_req [simp]:
  "find_opaque_handle_for_slot i (s\<lparr>req_data := q\<rparr>) = find_opaque_handle_for_slot i s"
  by (simp add: find_opaque_handle_for_slot_def)

lemma get_key_handle_req:
  "get_key_handle dev i sl (s\<lparr>req_data := q\<rparr>) = with_req q (get_key_handle dev i sl s)"
  by (cases s) (simp add: get_key_handle_def set_token_def delete_opaque_handle_def
      find_opaque_handle_for_slot_def cong: if_cong split: option.split prod.split)

lemma open_handle_req:
  "open_handle dev env c i sl (s\<lparr>req_data := q\<rparr>) = with_req q (open_handle dev env c i sl s)"
proof -
  have "insert_handle_node env c i (s\<lparr>req_data := q\<rparr>) =
    (fst (insert_handle_node env c i s), (snd (insert_handle_node env c i s))\<lparr>req_data := q\<rparr>)"
    by (cases s) (simp add: insert_handle_node_def find_opaque_handle_for_slot_def split: option.split)
  then show ?thesis
    by (simp add: open_handle_def get_key_handle_req split: prod.split)
qed

lemma serve_slot_req:
  "serve_slot dev env c i sl (s\<lparr>req_data := q\<rparr>) = with_req q (serve_slot dev env c i sl s)"
  by (auto simp: serve_slot_def open_handle_req intro!: arg_cong2 [where f = bindr]
      split: option.split slot_handler.split)

lemma find_cong': "(\<And>x. x \<in> set xs \<Longrightarrow> P x = Q x) \<Longrightarrow> find P xs = find Q xs"
  by (induction xs) auto

context hwkey_service
begin

lemma handle_slots_stale:
  assumes inv: "hwkey_inv prov keys s" and len: "length payload \<le> 2048"
    and req: "length req = 2049" "length req' = 2049"
  shows "handle_slots dev env c u (terminated payload req') (s\<lparr>req_data := q'\<rparr>) =
    with_req q' (handle_slots dev env c u (terminated payload req) s)"
proof -
  have nodes: "key_slot e < length keys \<and> valid_token (token e) \<and>
      (\<exists>h. slot_priv (keys ! key_slot e) = Handle_priv h)" if "e \<in> set (opaque_handles s)" for e
    using hwkey_invD(2) [OF inv that] opaque_priv by (auto simp: node_ok_def)
  have m: "find (node_matches keys u (terminated payload req)) (opaque_handles s) =
      find (node_matches keys u (terminated payload req')) (opaque_handles s)"
    by (rule find_cong') (use nodes token_match_stale req in \<open>unfold node_matches_def, blast\<close>)
  have g: "get_opaque_key (crypto_env env) keys u (terminated payload req') (key_data s) (opaque_handles s) =
      get_opaque_key (crypto_env env) keys u (terminated payload req) (key_data s) (opaque_handles s)"
    using len req by (simp add: get_opaque_key_eq nodes m received_simps)
  have f: "slot_serves u (terminated payload req) = slot_serves u (terminated payload req')"
    by (auto simp: slot_serves_def cstr_terminated fun_eq_iff)
  have ks: "key_slots (s\<lparr>req_data := q'\<rparr>) = Some keys" using hwkey_invD(1) [OF inv] by simp
  show ?thesis
    unfolding handle_slots_eq [OF zero_in_terminated hwkey_invD(1) [OF inv]]
      handle_slots_eq [OF zero_in_terminated ks] f
    by (auto simp: serve_slot_req g intro!: arg_cong2 [where f = bindr] split: option.split)
qed

lemma keyslot_stale:
  assumes r: "keyslot_request p prov keys crypto_ok env c ctx hdr payload s"
    and req: "length req' = 2049"
  shows "\<exists>s1 s2. hwkey_chan_handle_msg p prov dev env c ctx s = Inr (send_rc env, s1) \<and>
    hwkey_chan_handle_msg p prov dev env c ctx (s\<lparr>req_data := req'\<rparr>) = Inr (send_rc env, s2) \<and>
    s1\<lparr>req_data := []\<rparr> = s2\<lparr>req_data := []\<rparr>"
proof -
  from r have inv: "hwkey_inv prov keys s" and env: "env_ok crypto_ok (ctxs s) env"
    and ctx: "ctxs s c = Some ctx" and m: "recv_res env = Inr (hdr, payload)"
    by (auto simp: keyslot_request_def)
  note len = env_okD(3) [OF env m] hwkey_invD(4) [OF inv]
  let ?q = "terminated payload (req_data s)" and ?q' = "terminated payload req'"
  have inv1: "hwkey_inv prov keys (s\<lparr>req_data := ?q\<rparr>)"
    using inv len by (auto simp: received_simps intro: hwkey_inv_frame(4))
  have r': "keyslot_request p prov keys crypto_ok env c ctx hdr payload (s\<lparr>req_data := req'\<rparr>)"
    using r req by (auto simp: keyslot_request_def intro: hwkey_inv_frame(4))
  obtain st kl s1 where h: "handle_slots dev env c (ctx_uuid ctx) ?q (s\<lparr>req_data := ?q\<rparr>) = Inr (st, kl, s1)"
    and sv: "served prov keys (s\<lparr>req_data := ?q\<rparr>) st kl s1"
    using handle_slots_served [OF inv1 env_okD(1) [OF env], of c ctx ?q] ctx len
    by (auto simp: received_simps zero_in_terminated)
  have k: "klen_of kl \<le> length (key_data s1)"
    using sv hwkey_invD(5) [of prov keys s1] by (auto simp: served_def klen_post_def)
  have "handle_slots dev env c (ctx_uuid ctx) ?q' (s\<lparr>req_data := req', req_data := ?q'\<rparr>) =
      Inr (st, kl, s1\<lparr>req_data := ?q'\<rparr>)"
    using handle_slots_stale [OF inv1 len(1,2) req, of env c "ctx_uuid ctx" ?q'] h by simp
  with keyslot_msg_eq [OF r h k] keyslot_msg_eq [OF r', of st kl "s1\<lparr>req_data := ?q'\<rparr>"] k
  show ?thesis by (simp add: emit_def) 
qed

end

text \<open>C7: The answer to a request for a key slot depends only on the bytes the client sent:
  although a token is compared with 32 bytes of the shared request buffer whatever the length of
  the request, bytes that an earlier request of another client left there change neither the
  response nor the state, the buffer itself apart.\<close>

theorem stale_request_bytes:
  assumes "config_ok cfg" and "hwcrypto_reach p cfg s" and "env_ok bssl_ok (ctxs s) env"
    and "ctxs s c = Some ctx" and "recv_res env = Inr (hdr, payload)"
    and "cmd hdr = HWKEY_GET_KEYSLOT p" and "length req' = 2049"
  shows "\<exists>s1 s2. hwkey_chan_handle_msg p (fake_provider cfg) fake_dev env c ctx s = Inr (send_rc env, s1) \<and>
    hwkey_chan_handle_msg p (fake_provider cfg) fake_dev env c ctx (s\<lparr>req_data := req'\<rparr>) =
      Inr (send_rc env, s2) \<and>
    s1\<lparr>req_data := []\<rparr> = s2\<lparr>req_data := []\<rparr>"
  by (rule hwkey_service.keyslot_stale [OF fake_service, OF assms(1) fake_request [OF assms(1-6)] assms(7)])

theorem stale_request_bytes_witness:
  "\<exists>s1 s2. hwkey_chan_handle_msg run_proto (fake_provider unittest_config) fake_dev (run_msg run_slot_id)
      100 run_ctx run_connected = Inr (0, s1) \<and>
    hwkey_chan_handle_msg run_proto (fake_provider unittest_config) fake_dev (run_msg run_slot_id)
      100 run_ctx (run_connected\<lparr>req_data := replicate 2049 65\<rparr>) = Inr (0, s2) \<and>
    s1\<lparr>req_data := []\<rparr> = s2\<lparr>req_data := []\<rparr>"
  using stale_request_bytes [OF unittest_config_ok run_connected_reach run_msg_ok run_connected_ctx(1),
      of run_slot_id run_hdr run_slot_id "replicate 2049 65"]
  by (simp add: run_slot_id_length)

section \<open>Clearing and derivation\<close>

text \<open>A request for a key slot that succeeds leaves no key bytes behind: the shared key
  buffer, clear before the request, is clear again when the response has been sent.\<close>

theorem key_buffer_cleared:
  assumes "config_ok cfg" and "hwcrypto_reach p cfg s" and "env_ok bssl_ok (ctxs s) env"
    and "ctxs s c = Some ctx" and "recv_res env = Inr (hdr, payload)"
    and "cmd hdr = HWKEY_GET_KEYSLOT p" and "zeroed (key_data s)"
  shows "\<exists>st d s'. hwkey_chan_handle_msg p (fake_provider cfg) fake_dev env c ctx s =
      Inr (send_rc env, s') \<and>
    outs s' = outs s @ [Sent (chan ctx) (response p hdr st) d] \<and>
    (st = HWKEY_NO_ERROR \<longrightarrow> zeroed (key_data s'))"
  by (rule hwkey_service.keyslot_response [OF fake_service, OF assms(1) fake_reach_inv [OF assms(1,2)]
        assms(3-6)]) (use assms(7) in blast)

theorem key_buffer_cleared_witness:
  "\<exists>st d s'. hwkey_chan_handle_msg run_proto (fake_provider unittest_config) fake_dev
      (run_msg run_slot_id) 100 run_ctx run_connected = Inr (0, s') \<and>
    outs s' = outs run_connected @ [Sent 9 (response run_proto run_hdr st) d] \<and>
    (st = HWKEY_NO_ERROR \<longrightarrow> zeroed (key_data s'))"
  using key_buffer_cleared [OF unittest_config_ok run_connected_reach run_msg_ok run_connected_ctx(1),
      of run_slot_id run_hdr run_slot_id]
  by (simp add: run_slot_id_length run_connected_ctx)

definition derived_response :: "hwkey_proto \<Rightarrow> crypto \<Rightarrow> hwkey_msg \<Rightarrow> uuid \<Rightarrow> byte list \<Rightarrow> hwkey_status \<times> byte list" where
  "derived_response p C hdr u ikm =
     (if arg1 (kdf_hdr p hdr) \<noteq> HWKEY_KDF_VERSION_1 p then (HWKEY_ERR_NOT_IMPLEMENTED, [])
      else if ikm = [] then (HWKEY_ERR_BAD_LEN, [])
      else case HKDF C (length ikm) fake_device_key (uuid_bytes C u) ikm of
        (ok, out) \<Rightarrow> if ok then (HWKEY_NO_ERROR, out) else (HWKEY_ERR_GENERIC, []))"

lemma derive_cmd_response:
  assumes inv: "hwkey_inv (fake_provider cfg) keys s" and C: "bssl_ok (crypto_env env)"
    and ikm: "length ikm \<le> 2048"
  shows "\<exists>kb. hwkey_handle_derive_key_cmd p (fake_provider cfg) env ctx hdr ikm s =
    Inr (send_rc env,
      (emit (Sent (chan ctx)
         (response p (kdf_hdr p hdr) (fst (derived_response p (crypto_env env) hdr (ctx_uuid ctx) ikm)))
         (snd (derived_response p (crypto_env env) hdr (ctx_uuid ctx) ikm))) s)\<lparr>key_data := kb\<rparr>) \<and>
    (zeroed (key_data s) \<longrightarrow> zeroed kb)"
proof (cases "arg1 (kdf_hdr p hdr) = HWKEY_KDF_VERSION_1 p")
  case False
  then show ?thesis
    by (intro exI [of _ "key_data s"]) (simp add: derive_cmd_unsupported derived_response_def emit_def)
next
  case True
  have len: "length ikm \<le> length (key_data s)" using hwkey_invD(5) [OF inv] ikm by simp
  have eq: "derive_key_v1 (fake_provider cfg) = fake_derive_key_v1" by (simp add: fake_provider_def)
  show ?thesis
    by (rule fake_derive_cases [OF C len, of "ctx_uuid ctx"])
       (use True in \<open>auto simp: derive_cmd_eq [OF True] eq derived_response_def zeroed_drop len\<close>)
qed

text \<open>The whole request, from a state of the invariant; nothing but buffers and messages changes.\<close>

lemma derive_msg_response:
  assumes inv: "hwkey_inv (fake_provider cfg) (key_table cfg) s" and env: "env_ok bssl_ok (ctxs s) env"
    and m: "recv_res env = Inr (hdr, payload)"
    and "cmd hdr = HWKEY_DERIVE p" and "HWKEY_GET_KEYSLOT p \<noteq> HWKEY_DERIVE p"
    and r: "derived_response p (crypto_env env) hdr (ctx_uuid ctx) payload = (st, d)"
  obtains s' where "hwkey_chan_handle_msg p (fake_provider cfg) fake_dev env c ctx s = Inr (send_rc env, s')"
    "outs s' = outs s @ [Sent (chan ctx) (response p (kdf_hdr p hdr) st) d]"
    "st = HWKEY_NO_ERROR \<Longrightarrow> length d = length payload"
    "take (length payload) (req_data s') = replicate (length payload) 0"
    "zeroed (key_data s) \<Longrightarrow> zeroed (key_data s')"
    "opaque_handles s' = opaque_handles s" "ctxs s' = ctxs s" "rng s' = rng s"
proof -
  note len = env_okD(3) [OF env m] hwkey_invD(4) [OF inv]
  note C = env_okD(1) [OF env]
  have inv1: "hwkey_inv (fake_provider cfg) (key_table cfg) (s\<lparr>req_data := received payload (req_data s)\<rparr>)"
    using inv len by (auto simp: received_simps intro: hwkey_inv_frame(4))
  have "st = HWKEY_NO_ERROR \<Longrightarrow> length d = length payload"
    using r bssl_HKDF(2) [OF C] by (auto simp: derived_response_def split: if_splits prod.splits)
  with derive_cmd_response [OF inv1 C len(1), of p ctx hdr] r len that show ?thesis
    by (auto simp: chan_handle_msg_derive [OF m assms(4,5) len] memset0_ok received_simps hwkey_simps)
qed

text \<open>C11: Key derivation answers with \<open>HKDF\<close> of the device key, the caller's application id
  and the sent data, as many bytes as the data has; an unknown version, empty data and a
  failing \<open>HKDF\<close> each give their error and no bytes. The sent data and the key are cleared
  from the shared buffers.\<close>

theorem derive_key_response:
  assumes "config_ok cfg" and "hwcrypto_reach p cfg s" and "env_ok bssl_ok (ctxs s) env"
    and "ctxs s c = Some ctx" and "recv_res env = Inr (hdr, payload)"
    and "cmd hdr = HWKEY_DERIVE p" and "HWKEY_GET_KEYSLOT p \<noteq> HWKEY_DERIVE p"
  shows "\<exists>s' st d. derived_response p (crypto_env env) hdr (ctx_uuid ctx) payload = (st, d) \<and>
    hwkey_chan_handle_msg p (fake_provider cfg) fake_dev env c ctx s = Inr (send_rc env, s') \<and>
    outs s' = outs s @ [Sent (chan ctx) (response p (kdf_hdr p hdr) st) d] \<and>
    (st = HWKEY_NO_ERROR \<longrightarrow> length d = length payload) \<and>
    take (length payload) (req_data s') = replicate (length payload) 0 \<and>
    (zeroed (key_data s) \<longrightarrow> zeroed (key_data s'))"
proof -
  obtain st d where r: "derived_response p (crypto_env env) hdr (ctx_uuid ctx) payload = (st, d)"
    by fastforce
  show ?thesis
    by (rule derive_msg_response [OF fake_reach_inv [OF assms(1,2)] assms(3,5-7) r]) (use r in auto)
qed

theorem derive_key_response_witness:
  "\<exists>s'. hwkey_chan_handle_msg run_proto (fake_provider unittest_config) fake_dev
      ((run_env 4 [1, 2, 3])\<lparr>ctx_calloc := None\<rparr>) 100 run_ctx run_connected = Inr (0, s') \<and>
    outs s' = outs run_connected @
      [Sent 9 (response run_proto \<lparr>cmd = 4, status = HWKEY_NO_ERROR, arg1 = 1\<rparr> HWKEY_NO_ERROR) [7, 7, 7]]"
  using derive_key_response [OF unittest_config_ok run_connected_reach _ run_connected_ctx(1),
      of "(run_env 4 [1, 2, 3])\<lparr>ctx_calloc := None\<rparr>" "\<lparr>cmd = 4, status = HWKEY_NO_ERROR, arg1 = 0\<rparr>" "[1, 2, 3]"]
  by (simp add: env_ok_def run_env_def run_crypto_ok run_proto_def run_connected_ctx
      derived_response_def kdf_hdr_def) (auto simp: run_crypto_def numeral_eq_Suc)

section \<open>Slots, clients and keys\<close>

context hwkey_service
begin

text \<open>The whole state after a request for an opaque slot.\<close>

lemma keyslot_exact:
  assumes r: "keyslot_request p prov keys crypto_ok env c ctx hdr payload s"
    and j: "j < length keys" "is_opaque_handle (keys ! j)"
    and f: "find (\<lambda>(j, sl). slot_serves (ctx_uuid ctx) (terminated payload (req_data s)) sl)
      (enumerate 0 keys) = Some (j, keys ! j)"
    and loop: "token_loop dev (rng s) zero_token = Some (NO_ERROR, t, r')"
  shows "hwkey_chan_handle_msg p prov dev env c ctx s = Inr (send_rc env,
    (if j \<in> key_slot ` set (opaque_handles s)
     then emit (Sent (chan ctx) (response p hdr HWKEY_ERR_ALREADY_EXISTS) []) s
     else if \<not> node_calloc env then emit (Sent (chan ctx) (response p hdr HWKEY_ERR_GENERIC) []) s
     else (emit (Sent (chan ctx) (response p hdr HWKEY_NO_ERROR) t) s)
       \<lparr>opaque_handles := opaque_handles s @ [\<lparr>key_slot = j, owner = c, token = t\<rparr>], rng := r',
        key_data := replicate 32 0 @ drop 32 (key_data s)\<rparr>)
      \<lparr>req_data := terminated payload (req_data s)\<rparr>)"
proof -
  let ?s = "s\<lparr>req_data := terminated payload (req_data s)\<rparr>"
  have inv: "hwkey_inv prov keys s" using r by (simp add: keyslot_request_def)
  note open_def = open_handle_def insert_handle_node_simps
  note open_eq = keyslot_open_handle [OF r j(2) f]
  consider e where "find_opaque_handle_for_slot j ?s = Some e"
    | "find_opaque_handle_for_slot j ?s = None" by (cases "find_opaque_handle_for_slot j ?s") auto
  then show ?thesis
  proof cases
    case 1
    then have e: "e \<in> set (opaque_handles s)" "key_slot e = j" using find_slot_SomeD [OF 1] by auto
    then have "valid_token (token e)" using hwkey_invD(2) [OF inv] by (auto simp: node_ok_def)
    with 1 request_priv [OF j] hwkey_invD(5) [OF inv]
    have "open_handle dev env c j (keys ! j) ?s = Inr (HWKEY_ERR_ALREADY_EXISTS, None, ?s)"
      by (simp add: open_def get_key_handle_existing)
    from open_eq [OF this] e show ?thesis by (auto simp: hwkey_simps)
  next
    case 2
    then have n: "j \<notin> key_slot ` set (opaque_handles s)"
      using find_slot_NoneD [OF 2] by auto
    show ?thesis
    proof (cases "node_calloc env")
      case False
      then have "open_handle dev env c j (keys ! j) ?s = Inr (HWKEY_ERR_GENERIC, None, ?s)"
        using 2 request_priv [OF j] hwkey_invD(5) [OF inv] by (simp add: open_def)
      from open_eq [OF this] False n show ?thesis by (simp add: hwkey_simps)
    next
      case True
      then have "open_handle dev env c j (keys ! j) ?s = Inr (HWKEY_NO_ERROR, Some 32,
          (with_node j c t ?s)\<lparr>rng := r', key_data := t @ drop 32 (key_data ?s)\<rparr>)"
        using 2 request_priv [OF j] hwkey_invD(5) [OF inv] loop by (simp add: open_def get_key_handle_new)
      moreover have "length t = 32" using token_loop_result [OF loop zero_token_buffer] by (auto simp: valid_token_def)
      ultimately show ?thesis using open_eq True n by (simp add: hwkey_simps with_node_def)
    qed
  qed
qed

end

text \<open>C12: A slot has one handle at a time. The application of an opaque slot that asks for it gets, if
  no handle of the slot is live and memory is left, exactly the next complete token that the loop over
  the random device produces, recorded at the end of the list with the slot and the connection, and
  the key buffer is wiped. If a handle of the slot is live it gets \<open>HWKEY_ERR_ALREADY_EXISTS\<close>, and
  without memory \<open>HWKEY_ERR_GENERIC\<close>, with no bytes; then nothing of the service's state changes but
  the receive buffer and the answer: no handle, connection, key byte or device byte is touched.\<close>

theorem one_handle_per_slot:
  assumes "config_ok cfg" and "hwcrypto_reach p cfg s" and "env_ok bssl_ok (ctxs s) env"
    and "ctxs s c = Some ctx" and "recv_res env = Inr (hdr, bytes_of (key_id (key_table cfg ! j)))"
    and "cmd hdr = HWKEY_GET_KEYSLOT p"
    and "j < length (key_table cfg)" and "is_opaque_handle (key_table cfg ! j)"
    and "ctx_uuid ctx = slot_uuid (key_table cfg ! j)"
  shows "\<exists>t r'. token_loop fake_dev (rng s) zero_token = Some (NO_ERROR, t, r') \<and> valid_token t \<and>
    hwkey_chan_handle_msg p (fake_provider cfg) fake_dev env c ctx s = Inr (send_rc env,
      (if j \<in> key_slot ` set (opaque_handles s)
       then emit (Sent (chan ctx) (response p hdr HWKEY_ERR_ALREADY_EXISTS) []) s
       else if \<not> node_calloc env then emit (Sent (chan ctx) (response p hdr HWKEY_ERR_GENERIC) []) s
       else (emit (Sent (chan ctx) (response p hdr HWKEY_NO_ERROR) t) s)
         \<lparr>opaque_handles := opaque_handles s @ [\<lparr>key_slot = j, owner = c, token = t\<rparr>], rng := r',
          key_data := replicate 32 0 @ drop 32 (key_data s)\<rparr>)
        \<lparr>req_data := terminated (bytes_of (key_id (key_table cfg ! j))) (req_data s)\<rparr>)"
proof -
  note req = fake_request [OF assms(1-6)]
  have f: "find (\<lambda>(i, sl). slot_serves (ctx_uuid ctx)
      (terminated (bytes_of (key_id (key_table cfg ! j))) (req_data s)) sl)
    (enumerate 0 (key_table cfg)) = Some (j, key_table cfg ! j)"
    using find_table_slot [OF assms(7)] assms(9) by simp
  obtain rc t r' where loop: "token_loop fake_dev (rng s) zero_token = Some (rc, t, r')"
    using fake64.token_loop_total [OF zero_token_buffer] by metis
  then have rc: "rc = NO_ERROR"
    using fake_round_ends [of "rng s"]
      token_loop_step [where dev = fake_dev and r = "rng s", OF zero_token_buffer fake_get_eq surjective_pairing]
    by simp
  note loop = loop [unfolded rc]
  have "valid_token t" using token_loop_result [OF loop zero_token_buffer] by simp
  with loop hwkey_service.keyslot_exact [OF fake_service [OF assms(1)] req assms(7,8) f loop] show ?thesis by blast
qed

theorem one_handle_per_slot_witness:
  "\<exists>t r' s'. token_loop fake_dev (rng run_connected) zero_token = Some (NO_ERROR, t, r') \<and> valid_token t \<and>
    hwkey_chan_handle_msg run_proto (fake_provider unittest_config) fake_dev
      (run_msg run_slot_id) 100 run_ctx run_connected = Inr (0, s') \<and>
    outs s' = outs run_connected @ [Sent 9 (response run_proto run_hdr HWKEY_NO_ERROR) t] \<and>
    opaque_handles s' = [\<lparr>key_slot = 4, owner = 100, token = t\<rparr>] \<and> rng s' = r'"
  using one_handle_per_slot [OF unittest_config_ok run_connected_reach run_msg_ok run_connected_ctx(1),
      of run_slot_id run_hdr 4]
  by (auto simp: run_slot run_connected_ctx run_slot_id_length emit_def simp flip: run_slot_id_def)

text \<open>C14: Only a client of the provider's list gets a connection. Any other client's channel
  is closed at once and the service keeps nothing about it; an allowed one is recorded with its
  application id and its channel, unless memory or the event cookie fails, and then its channel
  is closed.\<close>

theorem client_admission:
  assumes "config_ok cfg" and "hwcrypto_reach p cfg s" and "env_ok bssl_ok (ctxs s) env"
    and "IPC_HANDLE_POLL_READY \<in> ev_event ev" and "accept_res env = Inr (ch, u)"
  shows "\<exists>s'. hwkey_port_handler (fake_provider cfg) env ev s = Inr s' \<and>
    opaque_handles s' = opaque_handles s \<and>
    (if u \<in> set (allowed_clients cfg) \<and> 0 \<le> set_cookie_rc env \<and> ctx_calloc env \<noteq> None
     then ctxs s' = (ctxs s)(the (ctx_calloc env) \<mapsto> \<lparr>chan = ch, ctx_uuid = u\<rparr>) \<and> outs s' = outs s
     else ctxs s' = ctxs s \<and> outs s' = outs s @ [Closed ch])"
proof -
  note inv = fake_reach_inv [OF assms(1,2)]
  have al: "hwkey_client_allowed (fake_provider cfg) u \<longleftrightarrow> u \<in> set (allowed_clients cfg)"
    by (auto simp: fake_provider_def fake_client_allowed_def list_ex_iff)
  show ?thesis
  proof (cases "ctx_calloc env")
    case None
    with assms al env_okD(6) [OF assms(3)] show ?thesis
      by (simp add: hwkey_port_handler_def hwkey_simps)
  next
    case (Some c)
    then have fresh: "ctxs s c = None" using env_okD(4) [OF assms(3)] by simp
    have own: "owner e \<noteq> c" if "e \<in> set (opaque_handles s)" for e
      using hwkey_invD(2) [OF inv that] fresh by (auto simp: node_ok_def)
    have keep: "filter (\<lambda>e. owner e \<noteq> c) (opaque_handles s) = opaque_handles s"
      using own by (auto intro: filter_True)
    have upd: "(ctxs s)(c := None) = ctxs s" using fresh by (simp add: fun_upd_idem)
    show ?thesis
      using Some assms al env_okD(6) [OF assms(3)] hwkey_invD(3) [OF inv] keep upd
      by (simp add: hwkey_port_handler_def hwkey_simps Let_def
          hwkey_ctx_close_eq [where ctx = "\<lparr>chan = ch, ctx_uuid = u\<rparr>"])
  qed
qed

theorem client_admission_witness:
  "\<exists>s'. hwkey_port_handler (fake_provider unittest_config)
      ((run_env 0 [])\<lparr>accept_res := Inr (33, ''00000000-0000-0000-0000-000000000000'')\<rparr>)
      \<lparr>ev_handle = 1, ev_event = {IPC_HANDLE_POLL_READY}\<rparr> run_started = Inr s' \<and>
    ctxs s' = ctxs run_started \<and> outs s' = outs run_started @ [Closed 33]"
proof -
  let ?env = "(run_env 0 [])\<lparr>accept_res := Inr (33, ''00000000-0000-0000-0000-000000000000'')\<rparr>"
  have "env_ok bssl_ok (ctxs run_started) ?env"
    by (simp add: env_ok_def run_env_def run_crypto_ok run_started_def hwkey_initial_def)
  moreover have "''00000000-0000-0000-0000-000000000000'' \<notin> set (allowed_clients unittest_config)"
    by code_simp
  ultimately show ?thesis
    using client_admission [OF unittest_config_ok run_started_reach, of ?env
        "\<lparr>ev_handle = 1, ev_event = {IPC_HANDLE_POLL_READY}\<rparr>" 33 "''00000000-0000-0000-0000-000000000000''"]
    by auto
qed

context hwkey_service
begin

text \<open>A request for a slot with a handler of its own is answered with what the handler produced.\<close>

lemma keyslot_handler:
  assumes r: "keyslot_request p prov keys crypto_ok env c ctx hdr payload s"
    and f: "find (\<lambda>(i, sl). slot_serves (ctx_uuid ctx) (terminated payload (req_data s)) sl)
      (enumerate 0 keys) = Some (j, sl)"
    and h: "slot_handler sl = Some (Slot_handler g)"
    and g: "g (slot_uuid sl) (slot_priv sl) (crypto_env env) (key_data s) = Inr (st, kb, kl)"
    and k: "klen_of kl \<le> length kb"
  shows "hwkey_chan_handle_msg p prov dev env c ctx s = Inr (send_rc env,
      (emit (Sent (chan ctx) (response p hdr st) (take (klen_of kl) kb)) s)
        \<lparr>req_data := terminated payload (req_data s), key_data := replicate (klen_of kl) 0 @ drop (klen_of kl) kb\<rparr>)"
proof -
  let ?s = "s\<lparr>req_data := terminated payload (req_data s)\<rparr>"
  have ks: "key_slots ?s = Some keys" using r by (simp add: keyslot_request_def hwkey_inv_def)
  show ?thesis
    using keyslot_msg_eq [OF r, of st kl "?s\<lparr>key_data := kb\<rparr>"] f h g k
    by (simp add: handle_slots_eq [OF zero_in_terminated ks] serve_slot_def emit_def)
qed

end

text \<open>A signing key that the build marks for the unlocked state is given out only in that
  state: to the application loader's request for it the service answers with exactly the key file
  when application loading is unlocked, and with \<open>HWKEY_ERR_NOT_FOUND\<close> and no bytes otherwise.\<close>

theorem unlocked_signing_key:
  assumes "config_ok cfg" and "hwcrypto_reach p cfg s" and "env_ok bssl_ok (ctxs s) env"
    and "ctxs s c = Some ctx"
    and "recv_res env = Inr (hdr, bytes_of ''com.android.trusty.apploader.sign.key.0'')"
    and "cmd hdr = HWKEY_GET_KEYSLOT p" and "ctx_uuid ctx = apploader_uuid"
    and "apploader_sign_key_0 cfg = Some (key, True)"
  shows "\<exists>s'. hwkey_chan_handle_msg p (fake_provider cfg) fake_dev env c ctx s = Inr (send_rc env, s') \<and>
    outs s' = outs s @ [
      if system_state_app_loading_unlocked (crypto_env env)
      then Sent (chan ctx) (response p hdr HWKEY_NO_ERROR) (take (ak_size key) (ak_data key))
      else Sent (chan ctx) (response p hdr HWKEY_ERR_NOT_FOUND) []]"
proof -
  have j: "2 < length (key_table cfg)" using assms(8) by (simp add: key_table_def sign_key_slot_def)
  have sl: "key_table cfg ! 2 = \<lparr>key_id = ''com.android.trusty.apploader.sign.key.0'',
    slot_uuid = apploader_uuid, slot_priv = Key_priv (Apploader_priv key),
    slot_handler = Some (Slot_handler get_apploader_sign_unlocked_key)\<rparr>"
    using assms(8) by (simp add: key_table_def sign_key_slot_def)
  have f: "find (\<lambda>(i, sl). slot_serves (ctx_uuid ctx)
      (terminated (bytes_of ''com.android.trusty.apploader.sign.key.0'') (req_data s)) sl)
    (enumerate 0 (key_table cfg)) = Some (2, key_table cfg ! 2)"
    using find_table_slot [OF j, of "req_data s"] assms(7) sl by simp
  have key: "ak_size key \<le> length (ak_data key)" "ak_size key \<le> 2048"
    using assms(1,8) by (auto simp: config_ok_def key_file_ok_def)
  note len = hwkey_invD(5) [OF fake_reach_inv [OF assms(1,2)]]
  note k = hwkey_service.keyslot_handler [OF fake_service [OF assms(1)] fake_request [OF assms(1-6)] f,
      unfolded sl, simplified, OF refl]
  show ?thesis
  proof (cases "system_state_app_loading_unlocked (crypto_env env)")
    case True
    have "get_apploader_sign_unlocked_key apploader_uuid (Key_priv (Apploader_priv key)) (crypto_env env)
        (key_data s) = Inr (HWKEY_NO_ERROR, take (ak_size key) (ak_data key) @ drop (ak_size key) (key_data s),
          Some (ak_size key))"
      using True key len
      by (simp add: get_apploader_sign_unlocked_key_def key_priv_def get_apploader_key_def
          apploader_data_def mem_read_def memcpy_to_def)
    from k [OF this] True key len show ?thesis by (simp add: hwkey_simps)
  next
    case False
    then have "get_apploader_sign_unlocked_key apploader_uuid (Key_priv (Apploader_priv key)) (crypto_env env)
        (key_data s) = Inr (HWKEY_ERR_NOT_FOUND, key_data s, None)"
      by (simp add: get_apploader_sign_unlocked_key_def)
    from k [OF this] False show ?thesis by (simp add: hwkey_simps)
  qed
qed

definition run_sign_config :: hwkey_config where
  "run_sign_config = unittest_config\<lparr>apploader_sign_key_0 := Some (\<lparr>ak_data = [1, 2, 3], ak_size = 3\<rparr>, True)\<rparr>"

definition run_sign_state :: "(64 word) hwkey_state" where
  "run_sign_state = (hwkey_initial initial_counter)
     \<lparr>key_slots := Some (key_table run_sign_config), ctxs := [100 \<mapsto> \<lparr>chan = 9, ctx_uuid = apploader_uuid\<rparr>]\<rparr>"

lemma run_sign_config_ok: "config_ok run_sign_config"
  by (simp add: run_sign_config_def unittest_config_def config_ok_def key_file_ok_def)

lemma run_sign_reach: "hwcrypto_reach run_proto run_sign_config run_sign_state"
proof (rule hwkey_reach.stepped [OF hwkey_reach.started hwkey_step.port_event])
  let ?s = "(hwkey_initial initial_counter)\<lparr>key_slots := Some (key_table run_sign_config)\<rparr> :: (64 word) hwkey_state"
  let ?env = "(run_env 0 [])\<lparr>accept_res := Inr (9, apploader_uuid)\<rparr>"
  show "hwkey_install_keys (key_table run_sign_config) (hwkey_initial initial_counter) = Inr ?s"
    by (simp add: hwkey_install_keys_def hwkey_initial_def key_table_def)
  show "hwkey_start_service 1 0 ?s = (NO_ERROR, ?s)" by (simp add: hwkey_start_service_def)
  show "env_ok bssl_ok (ctxs ?s) ?env"
    by (simp add: env_ok_def run_env_def run_crypto_ok hwkey_initial_def)
  show "hwkey_port_handler (fake_provider run_sign_config) ?env
      \<lparr>ev_handle = 1, ev_event = {IPC_HANDLE_POLL_READY}\<rparr> ?s = Inr run_sign_state"
    by (simp add: hwkey_port_handler_def run_env_def fake_provider_def fake_client_allowed_def
        allowed_clients_def APPLOADER_HAS_SIGNING_KEYS_def run_sign_config_def run_sign_state_def
        hwkey_initial_def Let_def)
qed

theorem unlocked_signing_key_witness:
  "\<exists>s'. hwkey_chan_handle_msg run_proto (fake_provider run_sign_config) fake_dev
      (run_msg (bytes_of ''com.android.trusty.apploader.sign.key.0'')) 100
      \<lparr>chan = 9, ctx_uuid = apploader_uuid\<rparr> run_sign_state = Inr (0, s') \<and>
    outs s' = outs run_sign_state @ [Sent 9 (response run_proto run_hdr HWKEY_ERR_NOT_FOUND) []]"
  using unlocked_signing_key [OF run_sign_config_ok run_sign_reach run_msg_ok,
      of "bytes_of ''com.android.trusty.apploader.sign.key.0''" 100 "\<lparr>chan = 9, ctx_uuid = apploader_uuid\<rparr>"
        run_hdr "\<lparr>ak_data = [1, 2, 3], ak_size = 3\<rparr>"]
  by (simp add: run_sign_state_def run_sign_config_def) (simp add: run_crypto_def)

text \<open>What a failed decryption leaves behind. When the final step of the decryption of a
  derived key fails, the client gets \<open>HWKEY_ERR_GENERIC\<close> and no bytes, but the bytes decrypted
  so far stay in the shared key buffer, since it is only cleared for the reported key length.\<close>

definition failing_crypto :: crypto where
  "failing_crypto = run_crypto\<lparr>EVP_DecryptFinal := (\<lambda>_ _ _ _. (False, 0))\<rparr>"

theorem failed_decrypt_leaves_bytes:
  "bssl_ok failing_crypto \<and>
   (\<exists>s'. hwkey_chan_handle_msg run_proto (fake_provider unittest_config) fake_dev
      ((run_msg (bytes_of ''com.android.trusty.hwcrypto.unittest.derived_key32''))
        \<lparr>crypto_env := failing_crypto\<rparr>) 100 run_ctx run_connected = Inr (0, s') \<and>
    outs s' = outs run_connected @ [Sent 9 (response run_proto run_hdr HWKEY_ERR_GENERIC) []] \<and>
    take 32 (key_data s') = drop 16 unittest_encrypted_key32 \<and> \<not> zeroed (key_data s'))"
proof -
  let ?id = "''com.android.trusty.hwcrypto.unittest.derived_key32''"
  let ?env = "(run_msg (bytes_of ?id))\<lparr>crypto_env := failing_crypto\<rparr>"
  have C: "bssl_ok failing_crypto" by (simp add: bssl_ok_def failing_crypto_def run_crypto_def)
  have j: "3 < length (key_table unittest_config)" "key_table unittest_config ! 3 =
      \<lparr>key_id = ?id, slot_uuid = hwcrypto_unittest_uuid,
       slot_priv = Key_priv (Derived_priv hwcrypto_unittest_derived_data),
       slot_handler = Some (Slot_handler derived_keyslot_handler)\<rparr>"
    by (simp_all add: key_table_def unittest_config_def sign_key_slot_def encrypt_key_slot_def unittest_slots_def)
  have env: "env_ok bssl_ok (ctxs run_connected) ?env"
    by (simp add: env_ok_def run_msg_def run_env_def C)
  have g: "derived_keyslot_handler hwcrypto_unittest_uuid (Key_priv (Derived_priv hwcrypto_unittest_derived_data))
      failing_crypto (key_data run_connected) =
    Inr (HWKEY_ERR_GENERIC, drop 16 unittest_encrypted_key32 @ replicate 2016 0, None)"
    by (simp add: derived_keyslot_handler_def key_priv_def derived_data_def hwkey_get_derived_key_def
        hwcrypto_unittest_derived_data_def get_unittest_key32_derived_def get_unittest_key32_eq
        derived_cipher_def failing_crypto_def run_crypto_def Let_def memcpy_to_def run_connected_ctx)
  note r = fake_request [OF unittest_config_ok run_connected_reach env run_connected_ctx(1), of run_hdr "bytes_of ?id"]
  note k = hwkey_service.keyslot_handler [OF fake_service [OF unittest_config_ok] r, of 3 _ derived_keyslot_handler]
  have nz: "\<not> zeroed (drop 16 unittest_encrypted_key32)"
    by (simp add: unittest_encrypted_key32_def)
  show ?thesis
    using C k g nz find_table_slot [OF j(1), of "req_data run_connected"] j
    by (simp add: run_connected_ctx hwkey_simps)
qed

end
