(* ===== verification/Hwrng_Srv.thy ===== *)
theory Hwrng_Srv
  imports Hwrng_Dev Trusty_Env
begin

text \<open>
  The random number service (\<open>hwcrypto/hwrng_srv.c\<close>): channel contexts with a pending
  request size, the queue of pending requests, and the pass that serves the queue with
  messages of at most 4096 bytes. \<open>size_t\<close> is a word of any width.
\<close>

section \<open>State\<close>

definition MAX_HWRNG_MSG_SIZE :: nat where
  [simp]: "MAX_HWRNG_MSG_SIZE = 4096"

record 'n hwrng_chan_ctx =
  hr_chan :: handle_t
  req_size :: 'n
  send_blocked :: bool

datatype hwrng_out =
    Rng_sent handle_t "byte list"
  | Rng_closed handle_t

text \<open>
  \<open>hr_ctxs\<close> is the heap of live contexts by address and \<open>hwrng_req_list\<close> the queue, a list of
  addresses; \<open>list_in_list\<close> is membership in it. The state extends the globals of the file by the
  state of the random device; \<open>hr_outs\<close> records the messages that were accepted by the channel and the
  handles that were closed. The parameter \<open>'n\<close> of the records is \<open>size_t\<close>.
\<close>

record 'n hwrng_globals =
  hr_ctxs :: "nat \<rightharpoonup> 'n hwrng_chan_ctx"
  hwrng_req_list :: "nat list"
  rng_data :: "byte list"

record ('r, 'n) hwrng_state = "'n hwrng_globals" +
  hr_rng :: 'r
  hr_outs :: "hwrng_out list"

text \<open>
  The answers of the IPC layer during one event: the request read by \<open>tipc_recv1\<close> (its
  \<open>len\<close> converted to \<open>size_t\<close>), the result of \<open>tipc_send1\<close> for each channel, the accepted
  channel, the memory \<open>calloc\<close> returns and the result of \<open>set_cookie\<close>.
\<close>

record (overloaded) ('w::len) hwrng_env =
  hr_recv :: "int + 'w word"
  hr_send :: "handle_t \<Rightarrow> int"
  ERR_NOT_ENOUGH_BUFFER :: int
  hr_chan_errors_abort :: bool
  hr_port_errors_abort :: bool
  hr_accept :: "int + handle_t"
  hr_calloc :: "nat option"
  hr_set_cookie :: int

definition hwrng_initial :: "'r \<Rightarrow> ('r, 'w::len word) hwrng_state" where
  "hwrng_initial r = \<lparr>hr_ctxs = Map.empty, hwrng_req_list = [],
     rng_data = replicate MAX_HWRNG_MSG_SIZE 0, hr_rng = r, hr_outs = []\<rparr>"

definition rng_emit :: "hwrng_out \<Rightarrow> ('r, 'w::len word) hwrng_state \<Rightarrow> ('r, 'w word) hwrng_state" where
  "rng_emit x s = s\<lparr>hr_outs := hr_outs s @ [x]\<rparr>"

section \<open>Operations\<close>

definition hwrng_close_chan :: "nat \<Rightarrow> ('r, 'w::len word) hwrng_state \<Rightarrow> ('r, 'w word) hwrng_state res" where
  "hwrng_close_chan a s =
     (case hr_ctxs s a of
        None \<Rightarrow> Inl Use_after_free
      | Some ctx \<Rightarrow>
          Inr ((rng_emit (Rng_closed (hr_chan ctx)) s)
            \<lparr>hwrng_req_list := (if a \<in> set (hwrng_req_list s) then remove1 a (hwrng_req_list s)
                                else hwrng_req_list s),
             hr_ctxs := (hr_ctxs s)(a := None)\<rparr>))"

text \<open>One round of the loop in \<open>hwrng_handle_req_queue\<close>: whether it set \<open>need_more\<close>, and the state.\<close>

definition handle_req ::
    "'r rng_dev \<Rightarrow> 'w hwrng_env \<Rightarrow> nat \<Rightarrow> ('r, 'w::len word) hwrng_state \<Rightarrow> (bool \<times> ('r, 'w word) hwrng_state) res" where
  "handle_req dev env a s =
     (case hr_ctxs s a of
        None \<Rightarrow> Inl Use_after_free
      | Some ctx \<Rightarrow>
          if send_blocked ctx then Inr (False, s)
          else
            let len = (if req_size ctx > of_nat MAX_HWRNG_MSG_SIZE then of_nat MAX_HWRNG_MSG_SIZE
                       else req_size ctx)
            in (case dev (hr_rng s) (unat len) of (rc, bytes, r') \<Rightarrow>
                  bindr (memcpy_to (rng_data s) 0 bytes) (\<lambda>buf.
                    let s1 = s\<lparr>rng_data := buf, hr_rng := r'\<rparr> in
                    if rc \<noteq> NO_ERROR then bindr (hwrng_close_chan a s1) (\<lambda>s2. Inr (False, s2))
                    else
                      bindr (mem_read buf 0 (unat len)) (\<lambda>msg.
                        let rc = hr_send env (hr_chan ctx) in
                        if rc < 0 then
                          if rc = ERR_NOT_ENOUGH_BUFFER env
                          then Inr (False, s1\<lparr>hr_ctxs := (hr_ctxs s1)(a \<mapsto> ctx\<lparr>send_blocked := True\<rparr>)\<rparr>)
                          else bindr (hwrng_close_chan a s1) (\<lambda>s2. Inr (False, s2))
                        else
                          let ctx1 = ctx\<lparr>req_size := req_size ctx - len\<rparr>;
                              s2 = (rng_emit (Rng_sent (hr_chan ctx) msg) s1)
                                     \<lparr>hr_ctxs := (hr_ctxs s1)(a \<mapsto> ctx1)\<rparr>
                          in if req_size ctx1 = 0
                             then Inr (False, s2\<lparr>hwrng_req_list := remove1 a (hwrng_req_list s2)\<rparr>)
                             else Inr (True, s2)))))"

text \<open>\<open>list_for_every_entry_safe\<close>: a round unlinks at most the entry it is at.\<close>

fun handle_reqs ::
    "'r rng_dev \<Rightarrow> 'w hwrng_env \<Rightarrow> nat list \<Rightarrow> bool \<Rightarrow> ('r, 'w::len word) hwrng_state \<Rightarrow>
     (bool \<times> ('r, 'w word) hwrng_state) res" where
  "handle_reqs dev env [] need_more s = Inr (need_more, s)"
| "handle_reqs dev env (a # rest) need_more s =
     bindr (handle_req dev env a s) (\<lambda>(more, s1).
       handle_reqs dev env rest (need_more \<or> more) s1)"

definition hwrng_handle_req_queue ::
    "'r rng_dev \<Rightarrow> 'w hwrng_env \<Rightarrow> ('r, 'w::len word) hwrng_state \<Rightarrow> (bool \<times> ('r, 'w word) hwrng_state) res" where
  "hwrng_handle_req_queue dev env s = handle_reqs dev env (hwrng_req_list s) False s"

definition hwrng_kick_req_queue ::
    "'r rng_dev \<Rightarrow> 'w hwrng_env \<Rightarrow> ('r, 'w::len word) hwrng_state \<Rightarrow> ('r, 'w word) hwrng_state res" where
  "hwrng_kick_req_queue dev env s = bindr (hwrng_handle_req_queue dev env s) (\<lambda>(need_more, s1). Inr s1)"

definition hwrng_chan_handle_msg ::
    "'w hwrng_env \<Rightarrow> nat \<Rightarrow> ('r, 'w::len word) hwrng_state \<Rightarrow> (int \<times> ('r, 'w word) hwrng_state) res" where
  "hwrng_chan_handle_msg env a s =
     (case hr_ctxs s a of
        None \<Rightarrow> Inl Use_after_free
      | Some ctx \<Rightarrow>
          (case hr_recv env of
             Inl rc \<Rightarrow> Inr (rc, s)
           | Inr len \<Rightarrow>
               if a \<in> set (hwrng_req_list s)
               then Inr (0, s\<lparr>hr_ctxs := (hr_ctxs s)(a \<mapsto> ctx\<lparr>req_size := req_size ctx + len\<rparr>)\<rparr>)
               else Inr (0, s\<lparr>hr_ctxs := (hr_ctxs s)(a \<mapsto> ctx\<lparr>req_size := len\<rparr>),
                              hwrng_req_list := hwrng_req_list s @ [a]\<rparr>)))"

definition hwrng_chan_handler ::
    "'r rng_dev \<Rightarrow> 'w hwrng_env \<Rightarrow> uevent \<Rightarrow> nat \<Rightarrow> ('r, 'w::len word) hwrng_state \<Rightarrow>
     ('r, 'w word) hwrng_state res" where
  "hwrng_chan_handler dev env ev a s =
     (case hr_ctxs s a of
        None \<Rightarrow> Inl Use_after_free
      | Some ctx \<Rightarrow>
          assertr (ev_handle ev = hr_chan ctx)
           (if hr_chan_errors_abort env then Inl Aborted
            else
              bindr
                (if IPC_HANDLE_POLL_HUP \<in> ev_event ev then hwrng_close_chan a s
                 else
                   let s1 = (if IPC_HANDLE_POLL_SEND_UNBLOCKED \<in> ev_event ev
                             then s\<lparr>hr_ctxs := (hr_ctxs s)(a \<mapsto> ctx\<lparr>send_blocked := False\<rparr>)\<rparr>
                             else s)
                   in if IPC_HANDLE_POLL_MSG \<in> ev_event ev
                      then bindr (hwrng_chan_handle_msg env a s1) (\<lambda>(rc, s2).
                             if rc \<noteq> 0 then hwrng_close_chan a s2 else Inr s2)
                      else Inr s1)
                (hwrng_kick_req_queue dev env)))"

definition hwrng_port_handler ::
    "'w hwrng_env \<Rightarrow> uevent \<Rightarrow> ('r, 'w::len word) hwrng_state \<Rightarrow> ('r, 'w word) hwrng_state res" where
  "hwrng_port_handler env ev s =
     (if hr_port_errors_abort env then Inl Aborted
      else if IPC_HANDLE_POLL_READY \<in> ev_event ev then
        (case hr_accept env of
           Inl rc \<Rightarrow> Inr s
         | Inr ch \<Rightarrow>
             (case hr_calloc env of
                None \<Rightarrow> Inr (rng_emit (Rng_closed ch) s)
              | Some a \<Rightarrow>
                  if hr_set_cookie env \<noteq> 0 then Inr (rng_emit (Rng_closed ch) s)
                  else Inr (s\<lparr>hr_ctxs := (hr_ctxs s)
                         (a \<mapsto> \<lparr>hr_chan = ch, req_size = 0, send_blocked = False\<rparr>)\<rparr>)))
      else Inr s)"

definition hwrng_start_service ::
    "int \<Rightarrow> int \<Rightarrow> ('r, 'w::len word) hwrng_state \<Rightarrow> int \<times> ('r, 'w word) hwrng_state" where
  "hwrng_start_service port_create_rc dev_init_rc s =
     (if port_create_rc < 0 then (port_create_rc, s)
      else if dev_init_rc \<noteq> NO_ERROR then (dev_init_rc, rng_emit (Rng_closed port_create_rc) s)
      else (NO_ERROR, s))"

end
