(* ===== verification/Hwrng_Props.thy ===== *)
theory Hwrng_Props
  imports Hwrng_Srv
begin

text \<open>
  What the random number service guarantees: no event faults, a pass over the queue treats
  every pending request on its own and never sends more than one message of at most 4096
  bytes for it, requests are accounted exactly, and repeated passes complete a request.
\<close>

section \<open>Invariant and one round\<close>

definition rng_inv :: "('r, 'w::len word) hwrng_state \<Rightarrow> bool" where
  "rng_inv s \<longleftrightarrow> distinct (hwrng_req_list s) \<and>
     (\<forall>a \<in> set (hwrng_req_list s). hr_ctxs s a \<noteq> None) \<and> length (rng_data s) = 4096"

definition chunk :: "'w::len word \<Rightarrow> 'w word" where
  "chunk n = (if n > of_nat MAX_HWRNG_MSG_SIZE then of_nat MAX_HWRNG_MSG_SIZE else n)"

lemma chunk_bounds:
  fixes n :: "'a::len word"
  shows "unat (chunk n) \<le> 4096" "unat (chunk n) \<le> unat n"
  using take_bit_nat_less_eq_self [of "LENGTH('a)" 4096]
  by (auto simp: chunk_def word_less_nat_alt not_less intro: order_trans)

lemma unat_sub_chunk: "unat (n - chunk n) = unat n - unat (chunk n)"
  using chunk_bounds(2) [of n] by (simp add: unat_sub_if')

text \<open>The context after a message for it was accepted.\<close>

definition paid :: "'w::len word hwrng_chan_ctx \<Rightarrow> 'w word hwrng_chan_ctx" where
  "paid ctx = ctx\<lparr>req_size := req_size ctx - chunk (req_size ctx)\<rparr>"

definition close_state :: "nat \<Rightarrow> 'w word hwrng_chan_ctx \<Rightarrow> ('r, 'w::len word) hwrng_state \<Rightarrow> ('r, 'w word) hwrng_state" where
  "close_state a ctx s = s\<lparr>hr_outs := hr_outs s @ [Rng_closed (hr_chan ctx)],
     hwrng_req_list := remove1 a (hwrng_req_list s), hr_ctxs := (hr_ctxs s)(a := None)\<rparr>"

definition pay_state ::
    "nat \<Rightarrow> 'w word hwrng_chan_ctx \<Rightarrow> byte list \<Rightarrow> ('r, 'w::len word) hwrng_state \<Rightarrow> ('r, 'w word) hwrng_state" where
  "pay_state a ctx msg s = s\<lparr>hr_outs := hr_outs s @ [Rng_sent (hr_chan ctx) msg],
     hr_ctxs := (hr_ctxs s)(a \<mapsto> paid ctx),
     hwrng_req_list := (if req_size (paid ctx) = 0 then remove1 a (hwrng_req_list s) else hwrng_req_list s)\<rparr>"

lemma close_chan_eq: "hr_ctxs s a = Some ctx \<Longrightarrow> hwrng_close_chan a s = Inr (close_state a ctx s)"
  by (simp add: hwrng_close_chan_def close_state_def rng_emit_def remove1_idem)

context hwrng_device
begin

lemma handle_req_cases:
  assumes inv: "rng_inv s" and ctx: "hr_ctxs s a = Some ctx"
  obtains (blocked) "send_blocked ctx" "handle_req get_rng_data env a s = Inr (False, s)"
  | (closed) buf r' where "\<not> send_blocked ctx" "length buf = 4096"
      "r' = snd (snd (get_rng_data (hr_rng s) (unat (chunk (req_size ctx)))))"
      "fst (get_rng_data (hr_rng s) (unat (chunk (req_size ctx)))) \<noteq> NO_ERROR \<or>
        hr_send env (hr_chan ctx) < 0 \<and> hr_send env (hr_chan ctx) \<noteq> ERR_NOT_ENOUGH_BUFFER env"
      "handle_req get_rng_data env a s =
        Inr (False, close_state a ctx (s\<lparr>rng_data := buf, hr_rng := r'\<rparr>))"
  | (stalled) buf r' where "\<not> send_blocked ctx" "length buf = 4096"
      "r' = snd (snd (get_rng_data (hr_rng s) (unat (chunk (req_size ctx)))))" "hr_send env (hr_chan ctx) < 0"
      "hr_send env (hr_chan ctx) = ERR_NOT_ENOUGH_BUFFER env"
      "handle_req get_rng_data env a s = Inr (False, s\<lparr>rng_data := buf, hr_rng := r',
         hr_ctxs := (hr_ctxs s)(a \<mapsto> ctx\<lparr>send_blocked := True\<rparr>)\<rparr>)"
  | (sent) buf msg r' where "\<not> send_blocked ctx" "length buf = 4096"
      "get_rng_data (hr_rng s) (unat (chunk (req_size ctx))) = (NO_ERROR, msg, r')"
      "length msg = unat (chunk (req_size ctx))" "0 \<le> hr_send env (hr_chan ctx)"
      "handle_req get_rng_data env a s = Inr (req_size (paid ctx) \<noteq> 0,
         pay_state a ctx msg (s\<lparr>rng_data := buf, hr_rng := r'\<rparr>))"
proof (cases "send_blocked ctx")
  case True
  with ctx blocked show ?thesis by (simp add: handle_req_def)
next
  case False
  obtain rc bytes r' where d: "get_rng_data (hr_rng s) (unat (chunk (req_size ctx))) = (rc, bytes, r')"
    using prod_cases3 by blast
  have len: "length bytes = unat (chunk (req_size ctx))" by (rule rng_length [OF d])
  let ?buf = "bytes @ drop (length bytes) (rng_data s)"
  have b: "length bytes \<le> 4096" "length (rng_data s) = 4096"
    using len chunk_bounds(1) [of "req_size ctx"] inv by (auto simp: rng_inv_def)
  note eq = handle_req_def [of get_rng_data env a s, unfolded chunk_def [symmetric] ctx option.case Let_def]
  have cl: "hwrng_close_chan a (s\<lparr>rng_data := ?buf, hr_rng := r'\<rparr>) =
      Inr (close_state a ctx (s\<lparr>rng_data := ?buf, hr_rng := r'\<rparr>))"
    by (rule close_chan_eq) (simp add: ctx)
  consider "rc \<noteq> NO_ERROR \<or> hr_send env (hr_chan ctx) < 0 \<and> hr_send env (hr_chan ctx) \<noteq> ERR_NOT_ENOUGH_BUFFER env"
    | "rc = NO_ERROR" "hr_send env (hr_chan ctx) < 0" "hr_send env (hr_chan ctx) = ERR_NOT_ENOUGH_BUFFER env"
    | "rc = NO_ERROR" "0 \<le> hr_send env (hr_chan ctx)" by linarith
  then show ?thesis
  proof cases
    case 1
    with False b d len cl show ?thesis
      by (intro closed [of ?buf r']) (auto simp: eq memcpy_to_def mem_read_def)
  next
    case 2
    with False b d len show ?thesis
      by (intro stalled [of ?buf r']) (auto simp: eq memcpy_to_def mem_read_def)
  next
    case 3
    with False b d len show ?thesis
      by (intro sent [of ?buf bytes r'])
         (auto simp: eq memcpy_to_def mem_read_def pay_state_def paid_def rng_emit_def)
  qed
qed

end

section \<open>A pass over the queue\<close>

text \<open>The pending requests that could still be served: queued and not blocked.\<close>

definition ready :: "('r, 'w::len word) hwrng_state \<Rightarrow> nat \<Rightarrow> bool" where
  "ready s a \<longleftrightarrow> a \<in> set (hwrng_req_list s) \<and>
     (case hr_ctxs s a of None \<Rightarrow> False | Some ctx \<Rightarrow> \<not> send_blocked ctx)"

text \<open>What a pass keeps, on any device: the invariant and what is not in the part of the queue it visits.\<close>

definition pass_done ::
    "nat list \<Rightarrow> ('r, 'w::len word) hwrng_state \<Rightarrow> ('r, 'w word) hwrng_state \<Rightarrow> bool" where
  "pass_done es s s' \<longleftrightarrow> rng_inv s' \<and>
     (\<forall>a. a \<notin> set es \<longrightarrow> hr_ctxs s' a = hr_ctxs s a \<and>
        (a \<in> set (hwrng_req_list s') \<longleftrightarrow> a \<in> set (hwrng_req_list s)))"

context hwrng_device
begin

lemma handle_req_done:
  assumes inv: "rng_inv s" and a: "a \<in> set (hwrng_req_list s)"
  shows "\<exists>s'. handle_req get_rng_data env a s = Inr (ready s' a, s') \<and> pass_done [a] s s'"
proof -
  from inv a obtain ctx where ctx: "hr_ctxs s a = Some ctx" by (auto simp: rng_inv_def)
  note d = pass_done_def ready_def
  show ?thesis
  proof (cases rule: handle_req_cases [OF inv ctx, of env, case_names blocked closed stalled sent])
    case blocked
    with inv ctx a show ?thesis by (intro exI [of _ s]) (simp add: d)
  next
    case (closed buf r')
    with inv ctx a show ?thesis
      by (intro exI [of _ "close_state a ctx (s\<lparr>rng_data := buf, hr_rng := r'\<rparr>)"])
         (auto simp: d close_state_def rng_inv_def)
  next
    case (stalled buf r')
    with inv ctx a show ?thesis
      by (intro exI [of _ "s\<lparr>rng_data := buf, hr_rng := r',
            hr_ctxs := (hr_ctxs s)(a \<mapsto> ctx\<lparr>send_blocked := True\<rparr>)\<rparr>"])
         (auto simp: d rng_inv_def)
  next
    case (sent buf msg r')
    with inv ctx a show ?thesis
      by (intro exI [of _ "pay_state a ctx msg (s\<lparr>rng_data := buf, hr_rng := r'\<rparr>)"])
         (auto simp: d pay_state_def rng_inv_def paid_def)
  qed
qed

lemma handle_reqs_done:
  assumes "rng_inv s" and "set es \<subseteq> set (hwrng_req_list s)" and "distinct es"
  shows "\<exists>s'. handle_reqs get_rng_data env es nm s = Inr (nm \<or> (\<exists>a \<in> set es. ready s' a), s') \<and> pass_done es s s'"
  using assms
proof (induction es arbitrary: s nm)
  case Nil
  then show ?case by (auto simp: pass_done_def)
next
  case (Cons a es)
  from handle_req_done [OF Cons.prems(1), of a env] Cons.prems(2) obtain s1 where
    h: "handle_req get_rng_data env a s = Inr (ready s1 a, s1)" and d1: "pass_done [a] s s1"
    by auto
  have sub: "set es \<subseteq> set (hwrng_req_list s1)"
    using d1 Cons.prems(2,3) by (auto simp: pass_done_def)
  obtain s2 where h2: "handle_reqs get_rng_data env es (nm \<or> ready s1 a) s1 =
      Inr ((nm \<or> ready s1 a) \<or> (\<exists>a \<in> set es. ready s2 a), s2)" and d2: "pass_done es s1 s2"
    using Cons.IH [of s1 "nm \<or> ready s1 a"] d1 sub Cons.prems(3) by (auto simp: pass_done_def)
  have "hr_ctxs s2 a = hr_ctxs s1 a" "a \<in> set (hwrng_req_list s2) \<longleftrightarrow> a \<in> set (hwrng_req_list s1)"
    using d2 Cons.prems(3) by (auto simp: pass_done_def)
  then have r: "ready s2 a = ready s1 a" by (simp add: ready_def)
  have "pass_done (a # es) s s2" using d1 d2 by (auto simp: pass_done_def)
  moreover have "handle_reqs get_rng_data env (a # es) nm s =
      Inr (nm \<or> (\<exists>a \<in> set (a # es). ready s2 a), s2)"
    using h h2 r by auto
  ultimately show ?case by blast
qed

lemma queue_done:
  assumes "rng_inv s"
  shows "\<exists>s'. hwrng_handle_req_queue get_rng_data env s = Inr (\<exists>a. ready s' a, s') \<and> pass_done (hwrng_req_list s) s s'"
proof -
  from handle_reqs_done [OF assms, of "hwrng_req_list s" env False] assms obtain s' where
    h: "handle_reqs get_rng_data env (hwrng_req_list s) False s =
      Inr (\<exists>a \<in> set (hwrng_req_list s). ready s' a, s')" and d: "pass_done (hwrng_req_list s) s s'"
    by (auto simp: rng_inv_def)
  have "ready s' a \<Longrightarrow> a \<in> set (hwrng_req_list s)" for a
    using d by (auto simp: pass_done_def ready_def)
  then have "(\<exists>a \<in> set (hwrng_req_list s). ready s' a) = (\<exists>a. ready s' a)" by blast
  with h d show ?thesis by (auto simp: hwrng_handle_req_queue_def)
qed

end

section \<open>Events\<close>

text \<open>What the service relies on: \<open>calloc\<close> returns unused memory, the IPC library does not abort.\<close>

definition hr_env_ok :: "('r, 'w::len word) hwrng_state \<Rightarrow> 'w hwrng_env \<Rightarrow> bool" where
  "hr_env_ok s env \<longleftrightarrow> \<not> hr_chan_errors_abort env \<and> \<not> hr_port_errors_abort env \<and>
     (case hr_calloc env of None \<Rightarrow> True | Some a \<Rightarrow> hr_ctxs s a = None)"

inductive hwrng_step :: "'r rng_dev \<Rightarrow> ('r, 'w::len word) hwrng_state \<Rightarrow> ('r, 'w word) hwrng_state \<Rightarrow> bool"
  for dev :: "'r rng_dev" where
  chan: "hr_env_ok s env \<Longrightarrow> hr_ctxs s a = Some ctx \<Longrightarrow> ev_handle ev = hr_chan ctx \<Longrightarrow>
     hwrng_chan_handler dev env ev a s = Inr s' \<Longrightarrow> hwrng_step dev s s'"
| port: "hr_env_ok s env \<Longrightarrow> hwrng_port_handler env ev s = Inr s' \<Longrightarrow> hwrng_step dev s s'"
| rng: "hwrng_step dev s (s\<lparr>hr_rng := r\<rparr>)"

inductive hwrng_reach :: "'r rng_dev \<Rightarrow> ('r, 'w::len word) hwrng_state \<Rightarrow> bool"
  for dev :: "'r rng_dev" where
  init: "hwrng_reach dev (hwrng_initial r)"
| step: "hwrng_reach dev s \<Longrightarrow> hwrng_step dev s s' \<Longrightarrow> hwrng_reach dev s'"

lemma close_state_inv: "rng_inv s \<Longrightarrow> rng_inv (close_state a ctx s)"
  by (auto simp: rng_inv_def close_state_def)

lemma rng_inv_ctx_update:
  "rng_inv s \<Longrightarrow> rng_inv (s\<lparr>hr_ctxs := (hr_ctxs s)(a \<mapsto> ctx)\<rparr>)"
  by (auto simp: rng_inv_def)

lemma handle_msg_inv:
  assumes "rng_inv s" and "hr_ctxs s a = Some ctx"
  shows "\<exists>rc s' ctx'. hwrng_chan_handle_msg env a s = Inr (rc, s') \<and> rng_inv s' \<and>
    hr_ctxs s' a = Some ctx'"
  using assms by (auto simp: hwrng_chan_handle_msg_def rng_inv_def split: sum.split)

context hwrng_device
begin

lemma kick_inv:
  assumes "rng_inv s"
  shows "\<exists>s'. hwrng_kick_req_queue get_rng_data env s = Inr s' \<and> rng_inv s'"
  using queue_done [OF assms, of env] by (auto simp: hwrng_kick_req_queue_def pass_done_def)

lemma hwrng_chan_total:
  assumes inv: "rng_inv s" and env: "hr_env_ok s env" and ctx: "hr_ctxs s a = Some ctx"
    and ev: "ev_handle ev = hr_chan ctx"
  shows "\<exists>s'. hwrng_chan_handler get_rng_data env ev a s = Inr s' \<and> rng_inv s'"
proof -
  let ?s1 = "if IPC_HANDLE_POLL_SEND_UNBLOCKED \<in> ev_event ev
    then s\<lparr>hr_ctxs := (hr_ctxs s)(a \<mapsto> ctx\<lparr>send_blocked := False\<rparr>)\<rparr> else s"
  have s1: "rng_inv ?s1" "\<exists>c. hr_ctxs ?s1 a = Some c" using inv ctx by (auto intro: rng_inv_ctx_update)
  then obtain c where c: "hr_ctxs ?s1 a = Some c" by blast
  obtain rc s2 ctx2 where m: "hwrng_chan_handle_msg env a ?s1 = Inr (rc, s2)" "rng_inv s2"
    "hr_ctxs s2 a = Some ctx2"
    using handle_msg_inv [OF s1(1) c, of env] by blast
  have "\<exists>s3. (if IPC_HANDLE_POLL_HUP \<in> ev_event ev then hwrng_close_chan a s
     else if IPC_HANDLE_POLL_MSG \<in> ev_event ev
       then bindr (hwrng_chan_handle_msg env a ?s1) (\<lambda>(rc, s2).
              if rc \<noteq> 0 then hwrng_close_chan a s2 else Inr s2)
       else Inr ?s1) = Inr s3 \<and> rng_inv s3"
    using m s1 inv close_chan_eq [OF ctx] close_chan_eq [OF m(3)]
    by (simp add: close_state_inv del: bindr_eq_Inr)
  with kick_inv env ctx ev show ?thesis
    by (fastforce simp: hwrng_chan_handler_def hr_env_ok_def Let_def)
qed

lemma hwrng_port_total:
  assumes "rng_inv s" and "hr_env_ok s env"
  shows "\<exists>s'. hwrng_port_handler env ev s = Inr s' \<and> rng_inv s'"
  using assms
  by (auto simp: hwrng_port_handler_def hr_env_ok_def rng_inv_def rng_emit_def
      split: sum.splits option.splits)

lemma hwrng_reach_inv: "hwrng_reach get_rng_data s \<Longrightarrow> rng_inv s"
proof (induction rule: hwrng_reach.induct)
  case (init r)
  then show ?case by (simp add: hwrng_initial_def rng_inv_def)
next
  case (step s s')
  from step.hyps(2) show ?case
  proof cases
    case (chan env a ctx ev)
    with hwrng_chan_total [OF step.IH chan(1-3)] show ?thesis by auto
  next
    case (port env ev)
    with hwrng_port_total [OF step.IH port(1), of ev] show ?thesis by auto
  next
    case (rng r)
    with step.IH show ?thesis by (simp add: rng_inv_def)
  qed
qed

end

section \<open>Repeated passes\<close>

fun hwrng_kicks ::
    "'r rng_dev \<Rightarrow> 'w hwrng_env \<Rightarrow> nat \<Rightarrow> ('r, 'w::len word) hwrng_state \<Rightarrow> ('r, 'w word) hwrng_state res" where
  "hwrng_kicks dev env 0 s = Inr s"
| "hwrng_kicks dev env (Suc n) s = bindr (hwrng_kick_req_queue dev env s) (hwrng_kicks dev env n)"

lemma kicks_empty: "hwrng_req_list s = [] \<Longrightarrow> hwrng_kicks dev env n s = Inr s"
  by (induction n) (simp_all add: hwrng_kick_req_queue_def hwrng_handle_req_queue_def)

definition fake_stream :: "'c::len word \<Rightarrow> nat \<Rightarrow> byte list" where
  "fake_stream c n = fst (snd (hwrng_dev_get_rng_data c n))"

lemma length_fake_stream [simp]: "length (fake_stream c n) = n"
  by (simp add: fake_stream_def fake_get_eq)

lemma fake_stream_append:
  "fake_stream c m @ fake_stream (c + of_nat m) n = fake_stream c (m + n)"
proof -
  have "map (\<lambda>i. f (c + of_nat m + of_nat i)) [0..<n] = map (\<lambda>i. f (c + of_nat i)) [m..<m + n]"
    for f :: "'a word \<Rightarrow> byte"
    by (rule nth_equalityI) (simp_all add: add.assoc)
  then show ?thesis
    by (simp add: fake_stream_def fake_get_eq upt_add_eq_append [of 0 m n])
qed

lemma kick_single:
  assumes inv: "rng_inv s" and q: "hwrng_req_list s = [a]" and ctx: "hr_ctxs s a = Some ctx"
    and nb: "\<not> send_blocked ctx" and send: "0 \<le> hr_send env (hr_chan ctx)"
  shows "\<exists>buf. length buf = 4096 \<and>
    hwrng_kick_req_queue hwrng_dev_get_rng_data env s =
      Inr (pay_state a ctx (fake_stream (hr_rng s) (unat (chunk (req_size ctx))))
        (s\<lparr>rng_data := buf, hr_rng := hr_rng s + of_nat (unat (chunk (req_size ctx)))\<rparr>))"
proof (cases rule: fake.handle_req_cases [OF inv ctx, of env, case_names blocked closed stalled sent])
  case (sent buf msg r')
  then have "msg = fake_stream (hr_rng s) (unat (chunk (req_size ctx)))"
    "r' = hr_rng s + of_nat (unat (chunk (req_size ctx)))"
    by (auto simp: fake_stream_def fake_get_eq)
  with sent q show ?thesis
    by (auto simp: hwrng_kick_req_queue_def hwrng_handle_req_queue_def)
qed (use nb send in \<open>auto simp: fake_get_eq\<close>)

lemma chunk_eq:
  fixes n :: "'w::len word"
  assumes "13 \<le> LENGTH('w)"
  shows "unat (chunk n) = min (unat n) 4096"
proof -
  have "(4096 :: nat) < 2 ^ 13" by simp
  also have "(2 :: nat) ^ 13 \<le> 2 ^ LENGTH('w)" using assms by (intro power_increasing) auto
  finally have "take_bit LENGTH('w) (4096 :: nat) = 4096" by (simp add: take_bit_nat_eq_self_iff)
  then show ?thesis by (auto simp: chunk_def word_less_nat_alt min_def)
qed

lemma kicks_complete:
  fixes s :: "('c::len word, 'w::len word) hwrng_state"
  assumes w: "13 \<le> LENGTH('w)"
    and "rng_inv s" "hwrng_req_list s = [a]" "hr_ctxs s a = Some ctx" "\<not> send_blocked ctx"
    and "0 \<le> hr_send env (hr_chan ctx)" and "unat (req_size ctx) \<le> Suc n * 4096"
  shows "\<exists>s' msgs. hwrng_kicks hwrng_dev_get_rng_data env (Suc n) s = Inr s' \<and>
    hwrng_req_list s' = [] \<and> hr_ctxs s' a = Some (ctx\<lparr>req_size := 0\<rparr>) \<and>
    hr_outs s' = hr_outs s @ map (Rng_sent (hr_chan ctx)) msgs \<and>
    (\<forall>m \<in> set msgs. length m \<le> 4096) \<and>
    concat msgs = fake_stream (hr_rng s) (unat (req_size ctx))"
  using assms(2-7)
proof (induction n arbitrary: s ctx)
  case 0
  have c: "unat (chunk (req_size ctx)) = unat (req_size ctx)"
    using 0 by (simp add: chunk_eq [OF w])
  then have "chunk (req_size ctx) = req_size ctx" by (simp only: word_unat_eq_iff)
  then have z: "req_size (paid ctx) = 0" "paid ctx = ctx\<lparr>req_size := 0\<rparr>" by (simp_all add: paid_def)
  from kick_single [OF 0(1-5)] 0 c z show ?case
    by (auto simp: pay_state_def intro!: exI [of _ "[fake_stream (hr_rng s) (unat (req_size ctx))]"])
next
  case (Suc n)
  let ?k = "unat (chunk (req_size ctx))"
  from kick_single [OF Suc.prems(1-5)] obtain buf where buf: "length buf = 4096" and
    k: "hwrng_kick_req_queue hwrng_dev_get_rng_data env s = Inr (pay_state a ctx
      (fake_stream (hr_rng s) ?k) (s\<lparr>rng_data := buf, hr_rng := hr_rng s + of_nat ?k\<rparr>))" by blast
  let ?s1 = "pay_state a ctx (fake_stream (hr_rng s) ?k) (s\<lparr>rng_data := buf, hr_rng := hr_rng s + of_nat ?k\<rparr>)"
  have len: "length (fake_stream (hr_rng s) ?k) \<le> 4096"
    using chunk_bounds(1) by simp
  show ?case
  proof (cases "req_size (paid ctx) = 0")
    case True
    then have "?k = unat (req_size ctx)" by (simp add: paid_def)
    moreover have "paid ctx = ctx\<lparr>req_size := 0\<rparr>" using True by (simp add: paid_def)
    ultimately show ?thesis
      using k True Suc.prems(2) len kicks_empty [of ?s1]
      by (auto simp: pay_state_def intro!: exI [of _ "[fake_stream (hr_rng s) ?k]"])
  next
    case False
    have inv1: "rng_inv ?s1" using Suc.prems(1,2) buf False by (auto simp: rng_inv_def pay_state_def)
    have sz: "unat (req_size (paid ctx)) = unat (req_size ctx) - ?k" by (simp add: paid_def unat_sub_chunk)
    have "unat (req_size (paid ctx)) \<le> Suc n * 4096"
      using Suc.prems(6) sz by (simp add: chunk_eq [OF w])
    with Suc.IH [OF inv1, of "paid ctx"] Suc.prems False obtain s' msgs where
      r: "hwrng_kicks hwrng_dev_get_rng_data env (Suc n) ?s1 = Inr s'" "hwrng_req_list s' = []"
        "hr_ctxs s' a = Some (ctx\<lparr>req_size := 0\<rparr>)"
        "hr_outs s' = hr_outs ?s1 @ map (Rng_sent (hr_chan ctx)) msgs" "\<forall>m \<in> set msgs. length m \<le> 4096"
        "concat msgs = fake_stream (hr_rng s + of_nat ?k) (unat (req_size ctx) - ?k)"
      by (auto simp: pay_state_def paid_def unat_sub_chunk simp del: hwrng_kicks.simps)
    have "fake_stream (hr_rng s) ?k @ concat msgs = fake_stream (hr_rng s) (unat (req_size ctx))"
      unfolding r(6) fake_stream_append using chunk_bounds(2) [of "req_size ctx"] by simp
    with r k len show ?thesis
      by (intro exI [of _ s'] exI [of _ "fake_stream (hr_rng s) ?k # msgs"])
         (simp add: pay_state_def del: hwrng_kicks.simps(2), simp)
  qed
qed

section \<open>The exact pass\<close>

text \<open>
  What a pass makes of one pending request on the fake device, which never fails. A blocked request
  is kept as it is. Else one chunk is drawn from the device and the answer of the channel decides:
  accepted, the chunk is counted as sent; refused for lack of room, the request is kept and marked
  blocked; refused with any other code, the connection is closed.
\<close>

definition served :: "'w hwrng_env \<Rightarrow> 'w word hwrng_chan_ctx \<Rightarrow> 'w::len word hwrng_chan_ctx option" where
  "served env ctx =
     (if send_blocked ctx then Some ctx
      else if 0 \<le> hr_send env (hr_chan ctx) then Some (paid ctx)
      else if hr_send env (hr_chan ctx) = ERR_NOT_ENOUGH_BUFFER env then Some (ctx\<lparr>send_blocked := True\<rparr>)
      else None)"

definition stays_queued :: "'w hwrng_env \<Rightarrow> 'w::len word hwrng_chan_ctx \<Rightarrow> bool" where
  "stays_queued env ctx \<longleftrightarrow>
     (if send_blocked ctx then True
      else if 0 \<le> hr_send env (hr_chan ctx) then req_size (paid ctx) \<noteq> 0
      else hr_send env (hr_chan ctx) = ERR_NOT_ENOUGH_BUFFER env)"

definition drawn :: "'w::len word hwrng_chan_ctx \<Rightarrow> nat" where
  "drawn ctx = (if send_blocked ctx then 0 else unat (chunk (req_size ctx)))"

definition said :: "'w hwrng_env \<Rightarrow> 'c::len word \<Rightarrow> 'w::len word hwrng_chan_ctx \<Rightarrow> hwrng_out list" where
  "said env c ctx =
     (if send_blocked ctx then []
      else if 0 \<le> hr_send env (hr_chan ctx) then [Rng_sent (hr_chan ctx) (fake_stream c (drawn ctx))]
      else if hr_send env (hr_chan ctx) = ERR_NOT_ENOUGH_BUFFER env then []
      else [Rng_closed (hr_chan ctx)])"

text \<open>The messages and closings of a whole pass, in the order of the queue, on consecutive device bytes.\<close>

fun pass_outs ::
    "'w hwrng_env \<Rightarrow> (nat \<rightharpoonup> 'w::len word hwrng_chan_ctx) \<Rightarrow> 'c::len word \<Rightarrow> nat list \<Rightarrow> hwrng_out list" where
  "pass_outs env ctxs c [] = []"
| "pass_outs env ctxs c (a # rest) =
     said env c (the (ctxs a)) @ pass_outs env ctxs (c + of_nat (drawn (the (ctxs a)))) rest"

lemma pass_outs_cong: "\<forall>a \<in> set es. f a = g a \<Longrightarrow> pass_outs env f c es = pass_outs env g c es"
  by (induction es arbitrary: c) simp_all

lemma handle_req_exact:
  fixes s :: "('c::len word, 'w::len word) hwrng_state"
  assumes inv: "rng_inv s" and ctx: "hr_ctxs s a = Some ctx"
  shows "\<exists>more s'. handle_req hwrng_dev_get_rng_data env a s = Inr (more, s') \<and>
    hr_ctxs s' = (hr_ctxs s)(a := served env ctx) \<and>
    hwrng_req_list s' = (if stays_queued env ctx then hwrng_req_list s else remove1 a (hwrng_req_list s)) \<and>
    hr_outs s' = hr_outs s @ said env (hr_rng s) ctx \<and> hr_rng s' = hr_rng s + of_nat (drawn ctx)"
proof (cases rule: fake.handle_req_cases [OF inv ctx, of env, case_names blocked closed stalled sent])
  case blocked
  with ctx show ?thesis by (auto simp: served_def stays_queued_def said_def drawn_def fun_upd_idem)
next
  case (closed buf r')
  then show ?thesis
    by (auto simp: served_def stays_queued_def said_def drawn_def close_state_def fake_get_eq)
next
  case (stalled buf r')
  then show ?thesis
    by (auto simp: served_def stays_queued_def said_def drawn_def fake_get_eq)
next
  case (sent buf msg r')
  then show ?thesis
    by (auto simp: served_def stays_queued_def said_def drawn_def pay_state_def fake_stream_def fake_get_eq)
qed

lemma handle_reqs_exact:
  fixes s :: "('c::len word, 'w::len word) hwrng_state"
  assumes "rng_inv s" and "set es \<subseteq> set (hwrng_req_list s)" and "distinct es"
    and "handle_reqs hwrng_dev_get_rng_data env es nm s = Inr (nm', s')"
  shows "hr_ctxs s' = (\<lambda>a. if a \<in> set es then served env (the (hr_ctxs s a)) else hr_ctxs s a) \<and>
    hwrng_req_list s' = filter (\<lambda>a. a \<in> set es \<longrightarrow> stays_queued env (the (hr_ctxs s a))) (hwrng_req_list s) \<and>
    hr_outs s' = hr_outs s @ pass_outs env (hr_ctxs s) (hr_rng s) es"
  using assms
proof (induction es arbitrary: s nm)
  case Nil
  then show ?case by simp
next
  case (Cons a es)
  from Cons.prems(1,2) obtain ctx where ctx: "hr_ctxs s a = Some ctx" by (auto simp: rng_inv_def)
  from handle_req_exact [OF Cons.prems(1) ctx, of env] obtain more s1 where
    h: "handle_req hwrng_dev_get_rng_data env a s = Inr (more, s1)"
    and c1: "hr_ctxs s1 = (hr_ctxs s)(a := served env ctx)"
    and q1: "hwrng_req_list s1 = (if stays_queued env ctx then hwrng_req_list s else remove1 a (hwrng_req_list s))"
    and o1: "hr_outs s1 = hr_outs s @ said env (hr_rng s) ctx" "hr_rng s1 = hr_rng s + of_nat (drawn ctx)"
    by blast
  have "rng_inv s1"
    using fake.handle_req_done [OF Cons.prems(1), of a env] Cons.prems(2) h by (auto simp: pass_done_def)
  moreover have "set es \<subseteq> set (hwrng_req_list s1)"
    using q1 Cons.prems(1-3) by (auto simp: rng_inv_def)
  ultimately have IH: "hr_ctxs s' = (\<lambda>b. if b \<in> set es then served env (the (hr_ctxs s1 b)) else hr_ctxs s1 b)"
    "hwrng_req_list s' = filter (\<lambda>b. b \<in> set es \<longrightarrow> stays_queued env (the (hr_ctxs s1 b))) (hwrng_req_list s1)"
    "hr_outs s' = hr_outs s1 @ pass_outs env (hr_ctxs s1) (hr_rng s1) es"
    using Cons.IH [of s1 "nm \<or> more"] Cons.prems(3,4) h by auto
  have a: "a \<notin> set es" using Cons.prems(3) by simp
  have q: "hwrng_req_list s1 = filter (\<lambda>b. b = a \<longrightarrow> stays_queued env ctx) (hwrng_req_list s)"
    using q1 Cons.prems(1) by (auto simp: rng_inv_def distinct_remove1_removeAll removeAll_filter_not_eq intro: filter_cong)
  have "pass_outs env (hr_ctxs s1) (hr_rng s1) es = pass_outs env (hr_ctxs s) (hr_rng s1) es"
    using a c1 by (intro pass_outs_cong) auto
  moreover have "filter (\<lambda>b. b \<in> set es \<longrightarrow> stays_queued env (the (hr_ctxs s1 b))) (hwrng_req_list s1) =
      filter (\<lambda>b. b \<in> set (a # es) \<longrightarrow> stays_queued env (the (hr_ctxs s b))) (hwrng_req_list s)"
    unfolding q filter_filter using a ctx c1 by (intro filter_cong) auto
  ultimately show ?case using IH a ctx c1 o1 by auto
qed

section \<open>Guarantees\<close>

abbreviation counter_dev :: "(64 word) rng_dev" where
  "counter_dev \<equiv> hwrng_dev_get_rng_data"

text \<open>A service with one connected client, and an event in which every send succeeds.\<close>

definition one_client :: "(64 word, 64 word) hwrng_state" where
  "one_client = (hwrng_initial initial_counter)
     \<lparr>hr_ctxs := [8 \<mapsto> \<lparr>hr_chan = 3, req_size = 0, send_blocked = False\<rparr>]\<rparr>"

definition good_env :: "64 word \<Rightarrow> 64 hwrng_env" where
  "good_env len = \<lparr>hr_recv = Inr len, hr_send = (\<lambda>_. 0), ERR_NOT_ENOUGH_BUFFER = -9,
     hr_chan_errors_abort = False, hr_port_errors_abort = False, hr_accept = Inr 3,
     hr_calloc = None, hr_set_cookie = 0\<rparr>"

lemma one_client_reach: "hwrng_reach counter_dev one_client"
proof (rule hwrng_reach.step [OF hwrng_reach.init [of _ initial_counter] hwrng_step.port])
  let ?env = "(good_env 0)\<lparr>hr_calloc := Some 8\<rparr>"
  show "hr_env_ok (hwrng_initial initial_counter) ?env"
    by (simp add: hr_env_ok_def good_env_def hwrng_initial_def)
  show "hwrng_port_handler ?env \<lparr>ev_handle = 1, ev_event = {IPC_HANDLE_POLL_READY}\<rparr>
      (hwrng_initial initial_counter) = Inr one_client"
    by (simp add: hwrng_port_handler_def good_env_def one_client_def hwrng_initial_def)
qed

lemma good_env_ok: "hr_env_ok s (good_env n)"
  by (simp add: hr_env_ok_def good_env_def)

text \<open>C18: From every reachable state of the random number service every event on a live
  channel and every event on the port is handled without a fault: contexts that were freed are
  not touched by the pass over the queue that follows, and the message buffer is not overrun.\<close>

theorem hwrng_no_fault:
  assumes "hwrng_reach counter_dev (s :: (64 word, 64 word) hwrng_state)" and "hr_env_ok s env"
    and "hr_ctxs s a = Some ctx" and "ev_handle ev = hr_chan ctx"
  shows "(\<exists>s'. hwrng_chan_handler counter_dev env ev a s = Inr s' \<and> hwrng_reach counter_dev s') \<and>
    (\<exists>s'. hwrng_port_handler env port_ev s = Inr s' \<and> hwrng_reach counter_dev s')"
  using fake.hwrng_chan_total [OF fake.hwrng_reach_inv [OF assms(1)] assms(2-4)]
    fake.hwrng_port_total [OF fake.hwrng_reach_inv [OF assms(1)] assms(2)]
    hwrng_reach.step [OF assms(1)] hwrng_step.chan [OF assms(2-4)] hwrng_step.port [OF assms(2)]
  by metis

theorem hwrng_no_fault_witness:
  "\<exists>s'. hwrng_chan_handler counter_dev (good_env 5000)
     \<lparr>ev_handle = 3, ev_event = {IPC_HANDLE_POLL_MSG, IPC_HANDLE_POLL_HUP}\<rparr> 8 one_client = Inr s'"
  using hwrng_no_fault [OF one_client_reach good_env_ok, of 8 "\<lparr>hr_chan = 3, req_size = 0, send_blocked = False\<rparr>"
      "\<lparr>ev_handle = 3, ev_event = {IPC_HANDLE_POLL_MSG, IPC_HANDLE_POLL_HUP}\<rparr>" 5000]
  by (auto simp: one_client_def)

text \<open>C9: A pass over the queue treats every pending request on its own, and does exactly this. A
  blocked one is left alone. For any other one chunk of the smaller of its size and 4096 bytes is drawn
  from the device, and the code of the channel decides: accepted, exactly one message with the chunk
  goes out, the size shrinks by it, and the request leaves the queue exactly when nothing is left;
  refused for lack of room, it is marked blocked with its request intact; refused with any other code,
  the connection is closed and freed. The messages go out in the order of the queue on consecutive
  device bytes and are the only ones, connections without a pending request are not affected, the
  order of the queue is kept, and the pass reports whether servable requests remain.\<close>

theorem queue_pass:
  assumes "hwrng_reach counter_dev (s :: (64 word, 64 word) hwrng_state)"
  shows "\<exists>s'. hwrng_handle_req_queue counter_dev env s = Inr (\<exists>a. ready s' a, s') \<and>
    hr_outs s' = hr_outs s @ pass_outs env (hr_ctxs s) (hr_rng s) (hwrng_req_list s) \<and>
    hr_ctxs s' = (\<lambda>a. if a \<in> set (hwrng_req_list s) then served env (the (hr_ctxs s a)) else hr_ctxs s a) \<and>
    hwrng_req_list s' = filter (\<lambda>a. stays_queued env (the (hr_ctxs s a))) (hwrng_req_list s) \<and>
    (\<forall>ctx :: 64 word hwrng_chan_ctx. drawn ctx = (if send_blocked ctx then 0 else min (unat (req_size ctx)) 4096))"
proof -
  have inv: "rng_inv s" by (rule fake.hwrng_reach_inv [OF assms])
  obtain s' where s': "hwrng_handle_req_queue counter_dev env s = Inr (\<exists>a. ready s' a, s')"
    using fake.queue_done [OF inv, of env] by blast
  have f: "filter (\<lambda>a. a \<in> set (hwrng_req_list s) \<longrightarrow> stays_queued env (the (hr_ctxs s a))) (hwrng_req_list s) =
      filter (\<lambda>a. stays_queued env (the (hr_ctxs s a))) (hwrng_req_list s)"
    by (rule filter_cong) auto
  from handle_reqs_exact [OF inv order_refl _ s' [unfolded hwrng_handle_req_queue_def]] inv
  have "hr_outs s' = hr_outs s @ pass_outs env (hr_ctxs s) (hr_rng s) (hwrng_req_list s)"
    "hr_ctxs s' = (\<lambda>a. if a \<in> set (hwrng_req_list s) then served env (the (hr_ctxs s a)) else hr_ctxs s a)"
    "hwrng_req_list s' = filter (\<lambda>a. stays_queued env (the (hr_ctxs s a))) (hwrng_req_list s)"
    unfolding f by (auto simp: rng_inv_def)
  with s' show ?thesis by (intro exI [of _ s']) (simp add: drawn_def chunk_eq)
qed

text \<open>A request of more than 4096 bytes on an idle channel, after its event.\<close>

lemma long_request_pending:
  assumes "hwrng_reach counter_dev (s :: (64 word, 64 word) hwrng_state)" and "hr_env_ok s env"
    and "hwrng_req_list s = []" and "hr_ctxs s a = Some ctx" and "\<not> send_blocked ctx"
    and "ev = \<lparr>ev_handle = hr_chan ctx, ev_event = {IPC_HANDLE_POLL_MSG}\<rparr>"
    and "hr_recv env = Inr len" and "4096 < unat len" and "0 \<le> hr_send env (hr_chan ctx)"
  shows "\<exists>s' msg. hwrng_chan_handler counter_dev env ev a s = Inr s' \<and>
    hr_outs s' = hr_outs s @ [Rng_sent (hr_chan ctx) msg] \<and> length msg = 4096 \<and>
    hwrng_req_list s' = [a] \<and> hr_ctxs s' a = Some (ctx\<lparr>req_size := len - 4096\<rparr>)"
proof -
  let ?ctx = "ctx\<lparr>req_size := len\<rparr>"
  let ?s = "s\<lparr>hr_ctxs := (hr_ctxs s)(a \<mapsto> ?ctx), hwrng_req_list := [a]\<rparr>"
  have inv: "rng_inv ?s" using fake.hwrng_reach_inv [OF assms(1)] by (simp add: rng_inv_def)
  have c: "chunk len = 4096" using assms(8) by (simp add: chunk_def word_less_nat_alt)
  have nz: "len - 4096 \<noteq> 0" using assms(8) by auto
  obtain buf where "hwrng_kick_req_queue counter_dev env ?s =
      Inr (pay_state a ?ctx (fake_stream (hr_rng s) 4096)
        (?s\<lparr>rng_data := buf, hr_rng := hr_rng s + 4096\<rparr>))"
    using kick_single [OF inv, of a ?ctx env] assms(5,9) c by auto
  with assms nz c show ?thesis
    by (auto simp: hwrng_chan_handler_def hr_env_ok_def hwrng_chan_handle_msg_def pay_state_def
        paid_def)
qed

lemma one_pending:
  "\<exists>s. hwrng_reach counter_dev s \<and> hwrng_req_list s = [8] \<and>
    hr_ctxs s 8 = Some (\<lparr>hr_chan = 3, req_size = 904, send_blocked = False\<rparr> :: 64 word hwrng_chan_ctx)"
proof -
  let ?ev = "\<lparr>ev_handle = 3, ev_event = {IPC_HANDLE_POLL_MSG}\<rparr>"
    and ?ctx = "\<lparr>hr_chan = 3, req_size = 0, send_blocked = False\<rparr> :: 64 word hwrng_chan_ctx"
  have ctx: "hr_ctxs one_client 8 = Some ?ctx" by (simp add: one_client_def)
  obtain s where h: "hwrng_chan_handler counter_dev (good_env 5000) ?ev 8 one_client = Inr s"
    and "hwrng_req_list s = [8]" "hr_ctxs s 8 = Some (?ctx\<lparr>req_size := 5000 - 4096\<rparr>)"
    using long_request_pending [OF one_client_reach good_env_ok _ ctx, of ?ev 5000 5000]
    by (auto simp: one_client_def good_env_def hwrng_initial_def)
  with hwrng_reach.step [OF one_client_reach hwrng_step.chan [OF good_env_ok ctx _ h]] show ?thesis
    by (intro exI [of _ s]) auto
qed

theorem queue_pass_witness:
  "\<exists>(s :: (64 word, 64 word) hwrng_state) s'. hwrng_req_list s = [8] \<and>
    hwrng_handle_req_queue counter_dev (good_env 0) s = Inr (\<exists>a. ready s' a, s') \<and> hwrng_req_list s' = [] \<and>
    hr_outs s' = hr_outs s @ [Rng_sent 3 (fake_stream (hr_rng s) 904)]"
proof -
  let ?ctx = "\<lparr>hr_chan = 3, req_size = 904, send_blocked = False\<rparr> :: 64 word hwrng_chan_ctx"
  obtain s where s: "hwrng_reach counter_dev s" "hwrng_req_list s = [8]" "hr_ctxs s 8 = Some ?ctx"
    using one_pending by blast
  have "drawn ?ctx = 904" "\<not> stays_queued (good_env 0) ?ctx" "hr_send (good_env 0) 3 = 0"
    by (simp_all add: drawn_def stays_queued_def paid_def chunk_def good_env_def)
  with queue_pass [OF s(1), of "good_env 0"] s show ?thesis by (auto simp: said_def)
qed

text \<open>C8: Enough passes complete a request: when the channel accepts messages, a request of
  \<open>n\<close> bytes that is alone in the queue is finished by any number of passes that covers it in
  steps of 4096, at least one; the messages together are the next \<open>n\<close> bytes of the device, in
  order and without a gap, as one read of \<open>n\<close> bytes would have returned them.\<close>

theorem request_completes:
  assumes "hwrng_reach counter_dev (s :: (64 word, 64 word) hwrng_state)"
    and "hwrng_req_list s = [a]" and "hr_ctxs s a = Some ctx" and "\<not> send_blocked ctx"
    and "0 \<le> hr_send env (hr_chan ctx)" and "unat (req_size ctx) \<le> Suc n * 4096"
  shows "\<exists>s' msgs. hwrng_kicks counter_dev env (Suc n) s = Inr s' \<and>
    hwrng_req_list s' = [] \<and> hr_ctxs s' a = Some (ctx\<lparr>req_size := 0\<rparr>) \<and>
    hr_outs s' = hr_outs s @ map (Rng_sent (hr_chan ctx)) msgs \<and>
    (\<forall>m \<in> set msgs. length m \<le> 4096) \<and>
    concat msgs = fst (snd (counter_dev (hr_rng s) (unat (req_size ctx))))"
  using kicks_complete [OF _ fake.hwrng_reach_inv [OF assms(1)] assms(2-6)]
  by (simp add: fake_stream_def)

theorem request_completes_witness:
  "\<exists>s s' msgs. hwrng_kicks counter_dev (good_env 0) 1 (s :: (64 word, 64 word) hwrng_state) = Inr s' \<and>
    hwrng_req_list s = [8] \<and> hwrng_req_list s' = [] \<and>
    hr_outs s' = hr_outs s @ map (Rng_sent 3) msgs \<and> length (concat msgs) = 904"
proof -
  obtain s where s: "hwrng_reach counter_dev s" "hwrng_req_list s = [8]"
    "hr_ctxs s 8 = Some (\<lparr>hr_chan = 3, req_size = 904, send_blocked = False\<rparr> :: 64 word hwrng_chan_ctx)"
    using one_pending by blast
  have send: "hr_send (good_env 0) 3 = 0" by (simp add: good_env_def)
  have len: "length (fst (snd (counter_dev c 904))) = 904" for c by (simp add: fake_get_eq)
  from request_completes [OF s, of "good_env 0" 0] s(2) send len show ?thesis
    by - (rule exI [of _ s], simp, metis)
qed

text \<open>C20: A pass that leaves servable requests is not repeated: a client that asks for more
  than 4096 bytes gets one message, and the handler returns with the rest of the request
  pending on a channel that is not blocked, where it waits for some other event.\<close>

theorem long_request_stalls:
  assumes "hwrng_reach counter_dev (s :: (64 word, 64 word) hwrng_state)" and "hr_env_ok s env"
    and "hwrng_req_list s = []" and "hr_ctxs s a = Some ctx" and "\<not> send_blocked ctx"
    and "ev = \<lparr>ev_handle = hr_chan ctx, ev_event = {IPC_HANDLE_POLL_MSG}\<rparr>"
    and "hr_recv env = Inr len" and "4096 < unat len" and "0 \<le> hr_send env (hr_chan ctx)"
  shows "\<exists>s' msg. hwrng_chan_handler counter_dev env ev a s = Inr s' \<and>
    hr_outs s' = hr_outs s @ [Rng_sent (hr_chan ctx) msg] \<and> length msg = 4096 \<and>
    ready s' a \<and> hr_ctxs s' a = Some (ctx\<lparr>req_size := len - 4096\<rparr>)"
  using long_request_pending [OF assms] assms(5) by (auto simp: ready_def)

theorem long_request_stalls_witness:
  "\<exists>s' msg. hwrng_chan_handler counter_dev (good_env 5000)
      \<lparr>ev_handle = 3, ev_event = {IPC_HANDLE_POLL_MSG}\<rparr> 8 one_client = Inr s' \<and>
    hr_outs s' = hr_outs one_client @ [Rng_sent 3 msg] \<and> length msg = 4096 \<and>
    ready s' 8 \<and> hr_ctxs s' 8 = Some \<lparr>hr_chan = 3, req_size = 904, send_blocked = False\<rparr>"
  using long_request_stalls [OF one_client_reach good_env_ok, of 8 "\<lparr>hr_chan = 3, req_size = 0, send_blocked = False\<rparr>"
      "\<lparr>ev_handle = 3, ev_event = {IPC_HANDLE_POLL_MSG}\<rparr>" 5000 5000]
  by (simp add: one_client_def good_env_def hwrng_initial_def)

end
