(* ===== verification/Keybox.thy ===== *)
theory Keybox
  imports Prelude Trusty_Env
begin

text \<open>
  The keybox service: the mock unwrapping of \<open>hwcrypto/keybox/keybox.c\<close> and the service
  around it, \<open>hwcrypto/keybox/srv.c\<close>. This theory holds the definitions.
\<close>

section \<open>Unwrapping\<close>

datatype keybox_status =
    KEYBOX_STATUS_SUCCESS
  | KEYBOX_STATUS_INVALID_REQUEST
  | KEYBOX_STATUS_UNWRAP_FAIL
  | KEYBOX_STATUS_INTERNAL_ERROR

text \<open>
  The checksum loop and the masking loop, from index \<open>i\<close> to \<open>n\<close>; reads and writes outside
  the buffers are faults.
\<close>

function checksum_loop :: "byte list \<Rightarrow> nat \<Rightarrow> nat \<Rightarrow> byte \<Rightarrow> byte res" where
  "checksum_loop wrapped_keybox n i checksum =
     (if i < n
      then if i < length wrapped_keybox
           then checksum_loop wrapped_keybox n (Suc i) (checksum XOR wrapped_keybox ! i)
           else Inl Out_of_bounds
      else Inr checksum)"
  by pat_completeness auto
termination by (relation "measure (\<lambda>(w, n, i, c). n - i)") auto

function unmask_loop :: "byte list \<Rightarrow> nat \<Rightarrow> nat \<Rightarrow> byte list \<Rightarrow> byte list res" where
  "unmask_loop wrapped_keybox n i keybox_plaintext =
     (if i < n
      then if i < length wrapped_keybox \<and> i < length keybox_plaintext
           then unmask_loop wrapped_keybox n (Suc i)
                  (keybox_plaintext[i := wrapped_keybox ! i XOR 0x42])
           else Inl Out_of_bounds
      else Inr keybox_plaintext)"
  by pat_completeness auto
termination by (relation "measure (\<lambda>(w, n, i, p). n - i)") auto

declare checksum_loop.simps [simp del] unmask_loop.simps [simp del]

text \<open>
  \<open>keybox_unwrap\<close> with the plaintext buffer by its contents: the status, the buffer
  afterwards and what was stored to \<open>*keybox_plaintext_len\<close>, if anything.
\<close>

definition keybox_unwrap ::
    "byte list \<Rightarrow> nat \<Rightarrow> byte list \<Rightarrow> (keybox_status \<times> byte list \<times> nat option) res" where
  "keybox_unwrap wrapped_keybox wrapped_keybox_len keybox_plaintext =
     (if wrapped_keybox_len < 1 then Inr (KEYBOX_STATUS_INVALID_REQUEST, keybox_plaintext, None)
      else if length keybox_plaintext < wrapped_keybox_len - 1
      then Inr (KEYBOX_STATUS_INVALID_REQUEST, keybox_plaintext, None)
      else
        bindr (checksum_loop wrapped_keybox (wrapped_keybox_len - 1) 0 0) (\<lambda>checksum.
          if \<not> wrapped_keybox_len - 1 < length wrapped_keybox then Inl Out_of_bounds
          else if checksum \<noteq> wrapped_keybox ! (wrapped_keybox_len - 1)
          then Inr (KEYBOX_STATUS_UNWRAP_FAIL, keybox_plaintext, None)
          else
            bindr (unmask_loop wrapped_keybox (wrapped_keybox_len - 1) 0 keybox_plaintext) (\<lambda>plain.
              Inr (KEYBOX_STATUS_SUCCESS, plain, Some (wrapped_keybox_len - 1)))))"

section \<open>The service\<close>

text \<open>
  The constants and struct sizes of \<open>interface/keybox/keybox.h\<close>: command codes, the maximal
  keybox, and the sizes of the request header and of the unwrap header (its only field is
  the 64-bit length).
\<close>

record keybox_proto =
  KEYBOX_CMD_UNWRAP :: u32
  KEYBOX_CMD_RSP_BIT :: u32
  KEYBOX_MAX_SIZE :: nat
  sizeof_header :: nat
  sizeof_unwrap_header :: nat

text \<open>
  A received message of \<open>rx_size\<close> bytes: the command and the length field as the structs
  overlay them, and the bytes of the keybox array of the request (\<open>KEYBOX_MAX_SIZE\<close> of them,
  as the struct on the stack has).
\<close>

record keybox_msg =
  rx_size :: nat
  rx_cmd :: u32
  wrapped_keybox_len :: u64
  wrapped_bytes :: "byte list"

text \<open>
  A response: the channel, the two fields of \<open>struct keybox_resp\<close>, the field
  \<open>unwrapped_keybox_len\<close> when the unwrap header is sent too, and the bytes after it.
\<close>

datatype keybox_out =
    Kb_sent handle_t u32 keybox_status "u64 option" "byte list"
  | Kb_closed handle_t

record keybox_state =
  kb_ctxs :: "nat \<rightharpoonup> handle_t"
  kb_outs :: "keybox_out list"

record keybox_env =
  kb_recv :: "int + keybox_msg"
  kb_send :: int
  kb_stack :: "byte list"
  kb_chan_errors_abort :: bool
  kb_port_errors_abort :: bool
  kb_accept :: "int + handle_t"
  kb_calloc :: "nat option"
  kb_set_cookie :: int

definition kb_emit :: "keybox_out \<Rightarrow> keybox_state \<Rightarrow> keybox_state" where
  "kb_emit x s = s\<lparr>kb_outs := kb_outs s @ [x]\<rparr>"

definition keybox_shutdown :: "nat \<Rightarrow> keybox_state \<Rightarrow> keybox_state res" where
  "keybox_shutdown c s =
     (case kb_ctxs s c of
        None \<Rightarrow> Inl Use_after_free
      | Some ch \<Rightarrow> Inr ((kb_emit (Kb_closed ch) s)\<lparr>kb_ctxs := (kb_ctxs s)(c := None)\<rparr>))"

text \<open>
  \<open>__builtin_add_overflow\<close> on \<open>uint64_t\<close>: whether the sum overflows, and the wrapped sum.
\<close>

definition add_overflow :: "u64 \<Rightarrow> u64 \<Rightarrow> bool \<times> u64" where
  "add_overflow a b = (a + b < a, a + b)"

definition keybox_handle_unwrap ::
    "keybox_proto \<Rightarrow> keybox_env \<Rightarrow> handle_t \<Rightarrow> keybox_msg \<Rightarrow> nat \<Rightarrow> keybox_state \<Rightarrow>
     (int \<times> keybox_state) res" where
  "keybox_handle_unwrap p env ch req req_size s =
     (let cmd = KEYBOX_CMD_UNWRAP p OR KEYBOX_CMD_RSP_BIT p;
          out = (\<lambda>st. Inr (kb_send env, kb_emit (Kb_sent ch cmd st None []) s))
      in if req_size < sizeof_unwrap_header p then out KEYBOX_STATUS_INVALID_REQUEST
         else
           (case add_overflow (wrapped_keybox_len req) (of_nat (sizeof_unwrap_header p)) of
              (overflow, computed_size) \<Rightarrow>
                if overflow then out KEYBOX_STATUS_INVALID_REQUEST
                else if computed_size \<noteq> of_nat req_size then out KEYBOX_STATUS_INVALID_REQUEST
                else
                  bindr (keybox_unwrap (wrapped_bytes req) (unat (wrapped_keybox_len req)) (kb_stack env))
                    (\<lambda>(st, output, len).
                      if st \<noteq> KEYBOX_STATUS_SUCCESS then out st
                      else case len of None \<Rightarrow> Inl Uninitialised | Some n \<Rightarrow>
                        bindr (mem_read output 0 n) (\<lambda>bytes.
                          Inr (kb_send env, kb_emit (Kb_sent ch cmd st (Some (of_nat n)) bytes) s)))))"

text \<open>
  \<open>tipc_recv1\<close> with a minimal size delivers at least the header, so the subtraction of its
  size does not wrap.
\<close>

definition keybox_handle_msg ::
    "keybox_proto \<Rightarrow> keybox_env \<Rightarrow> handle_t \<Rightarrow> keybox_state \<Rightarrow> (keybox_status \<times> keybox_state) res" where
  "keybox_handle_msg p env ch s =
     (case kb_recv env of
        Inl rc \<Rightarrow> Inr (KEYBOX_STATUS_INTERNAL_ERROR, s)
      | Inr req \<Rightarrow>
          bindr (if rx_cmd req = KEYBOX_CMD_UNWRAP p
                 then keybox_handle_unwrap p env ch req (rx_size req - sizeof_header p) s
                 else Inr (kb_send env, kb_emit (Kb_sent ch (rx_cmd req OR KEYBOX_CMD_RSP_BIT p)
                        KEYBOX_STATUS_INVALID_REQUEST None []) s))
            (\<lambda>(rc, s1). Inr (if rc < 0 then KEYBOX_STATUS_INTERNAL_ERROR else KEYBOX_STATUS_SUCCESS, s1)))"

text \<open>The two \<open>if\<close>s are independent: an event may run both shutdowns.\<close>

definition keybox_chan_handler ::
    "keybox_proto \<Rightarrow> keybox_env \<Rightarrow> uevent \<Rightarrow> nat \<Rightarrow> keybox_state \<Rightarrow> keybox_state res" where
  "keybox_chan_handler p env ev c s =
     (case kb_ctxs s c of
        None \<Rightarrow> Inl Use_after_free
      | Some ch \<Rightarrow>
          assertr (ev_handle ev = ch)
           (if kb_chan_errors_abort env then Inl Aborted
            else
              bindr (if IPC_HANDLE_POLL_MSG \<in> ev_event ev then keybox_handle_msg p env ch s
                     else Inr (KEYBOX_STATUS_SUCCESS, s)) (\<lambda>(rc, s1).
                bindr (if IPC_HANDLE_POLL_HUP \<in> ev_event ev then keybox_shutdown c s1 else Inr s1) (\<lambda>s2.
                  if rc \<noteq> KEYBOX_STATUS_SUCCESS then keybox_shutdown c s2 else Inr s2))))"

definition keybox_port_handler :: "keybox_env \<Rightarrow> uevent \<Rightarrow> keybox_state \<Rightarrow> keybox_state res" where
  "keybox_port_handler env ev s =
     (if kb_port_errors_abort env then Inl Aborted
      else if IPC_HANDLE_POLL_READY \<in> ev_event ev then
        (case kb_accept env of
           Inl rc \<Rightarrow> Inr s
         | Inr ch \<Rightarrow>
             (case kb_calloc env of
                None \<Rightarrow> Inr (kb_emit (Kb_closed ch) s)
              | Some c \<Rightarrow>
                  if kb_set_cookie env \<noteq> 0 then Inr (kb_emit (Kb_closed ch) s)
                  else Inr (s\<lparr>kb_ctxs := (kb_ctxs s)(c \<mapsto> ch)\<rparr>)))
      else Inr s)"

text \<open>
  \<open>keybox_start_service\<close>; on failure it closes \<open>keybox_port\<close>, which then still holds its
  initial value, the invalid handle.
\<close>

definition keybox_start_service ::
    "handle_t \<Rightarrow> int \<Rightarrow> keybox_state \<Rightarrow> int \<times> keybox_state" where
  "keybox_start_service invalid_handle port_create_rc s =
     (if port_create_rc < 0 then (port_create_rc, kb_emit (Kb_closed invalid_handle) s)
      else (NO_ERROR, s))"

end
