(* ===== verification/Keybox_Props.thy ===== *)
theory Keybox_Props
  imports Keybox
begin

text \<open>
  The mock wrapping does what its comment asks of it (a round trip, wrapped data that differs
  from the plaintext, detection of a changed byte), the service around it reads only what it
  received, and the one event on which it faults.
\<close>

section \<open>Wrapping as a specification\<close>

definition xor_all :: "byte list \<Rightarrow> byte" where
  "xor_all bs = foldr (XOR) bs 0"

definition wrap :: "byte list \<Rightarrow> byte list" where
  "wrap pt = (let masked = map (\<lambda>b. b XOR 0x42) pt in masked @ [xor_all masked])"

lemma xor_all_simps [simp]:
  "xor_all [] = 0" "xor_all (b # bs) = b XOR xor_all bs"
  "xor_all (as @ bs) = xor_all as XOR xor_all bs"
  by (simp_all add: xor_all_def) (induction as, simp_all add: xor.assoc)

lemma checksum_loop_eq:
  assumes "n \<le> length w"
  shows "checksum_loop w n i c = Inr (c XOR xor_all (take (n - i) (drop i w)))"
  using assms
proof (induction w n i c rule: checksum_loop.induct)
  case (1 w n i c)
  show ?case
  proof (cases "i < n")
    case True
    with "1.prems" have "take (n - i) (drop i w) = w ! i # take (n - Suc i) (drop (Suc i) w)"
      by (metis Cons_nth_drop_Suc Suc_diff_Suc order_less_le_trans take_Suc_Cons)
    with True 1 show ?thesis by (subst checksum_loop.simps) (simp add: xor.assoc)
  next
    case False
    then show ?thesis by (subst checksum_loop.simps) simp
  qed
qed

lemma unmask_loop_eq:
  assumes "n \<le> length w" and "n \<le> length p" and "i \<le> n"
  shows "unmask_loop w n i p = Inr (take i p @ map (\<lambda>b. b XOR 0x42) (take (n - i) (drop i w)) @ drop n p)"
  using assms
proof (induction w n i p rule: unmask_loop.induct)
  case (1 w n i p)
  show ?case
  proof (cases "i < n")
    case True
    with "1.prems" have "take (n - i) (drop i w) = w ! i # take (n - Suc i) (drop (Suc i) w)"
      by (metis Cons_nth_drop_Suc Suc_diff_Suc order_less_le_trans take_Suc_Cons)
    with True 1 show ?thesis
      by (subst unmask_loop.simps) (simp add: take_Suc_conv_app_nth)
  next
    case False
    with "1.prems" show ?thesis by (subst unmask_loop.simps) simp
  qed
qed

text \<open>The whole function on a wrapped keybox that is inside its buffer.\<close>

lemma keybox_unwrap_eq:
  assumes "n \<le> length w"
  shows "keybox_unwrap w n buf =
    (if n < 1 \<or> length buf < n - 1 then Inr (KEYBOX_STATUS_INVALID_REQUEST, buf, None)
     else if xor_all (take (n - 1) w) \<noteq> w ! (n - 1) then Inr (KEYBOX_STATUS_UNWRAP_FAIL, buf, None)
     else Inr (KEYBOX_STATUS_SUCCESS,
       map (\<lambda>b. b XOR 0x42) (take (n - 1) w) @ drop (n - 1) buf, Some (n - 1)))"
  using assms by (auto simp: keybox_unwrap_def checksum_loop_eq unmask_loop_eq)

lemma take_Suc_last: "0 < n \<Longrightarrow> n \<le> length w \<Longrightarrow> take n w = take (n - 1) w @ [w ! (n - 1)]"
  by (metis Suc_diff_1 less_eq_Suc_le take_Suc_conv_app_nth)

lemma wrap_length [simp]: "length (wrap pt) = Suc (length pt)"
  by (simp add: wrap_def Let_def)

section \<open>Guarantees of the wrapping\<close>

text \<open>C16: Unwrapping inverts wrapping: the wrapped form of any plaintext that fits the output
  buffer unwraps to that plaintext and its length, and the rest of the buffer is not written.\<close>

theorem unwrap_wrap:
  assumes "length pt \<le> length buf"
  shows "keybox_unwrap (wrap pt) (length (wrap pt)) buf =
    Inr (KEYBOX_STATUS_SUCCESS, pt @ drop (length pt) buf, Some (length pt))"
  using assms by (simp add: keybox_unwrap_eq) (simp add: wrap_def Let_def o_def xor_cancel nth_append)

theorem unwrap_wrap_witness:
  "keybox_unwrap (wrap [1, 2, 3]) 4 [0, 0, 0, 9] = Inr (KEYBOX_STATUS_SUCCESS, [1, 2, 3, 9], Some 3)"
  using unwrap_wrap [of "[1, 2, 3]" "[0, 0, 0, 9]"] by (simp add: eval_nat_numeral)

text \<open>Unwrapping accepts nothing but wrapped forms: when it succeeds, the input is exactly
  the wrapping of the plaintext it produced.\<close>

theorem unwrap_only_wrapped:
  assumes "n \<le> length w" and "keybox_unwrap w n buf = Inr (KEYBOX_STATUS_SUCCESS, out, Some m)"
  shows "take n w = wrap (take m out) \<and> m = n - 1 \<and> drop m out = drop m buf"
proof -
  from assms have n: "0 < n" and m: "m = n - 1" and x: "xor_all (take (n - 1) w) = w ! (n - 1)"
    and o: "out = map (\<lambda>b. b XOR 0x42) (take (n - 1) w) @ drop (n - 1) buf"
    by (auto simp: keybox_unwrap_eq split: if_splits)
  have len: "length (map (\<lambda>b. b XOR 0x42) (take (n - 1) w)) = m" using assms(1) m by simp
  have "take m out = map (\<lambda>b. b XOR 0x42) (take (n - 1) w)" "drop m out = drop m buf"
    unfolding o using len m by simp_all
  then show ?thesis
    using take_Suc_last [OF n assms(1)] x m by (simp add: wrap_def Let_def o_def xor_cancel)
qed

theorem unwrap_only_wrapped_witness:
  "take 4 (wrap [1, 2, 3]) = wrap (take 3 [1, 2, 3 :: byte])"
proof -
  have "keybox_unwrap (wrap [1, 2, 3]) 4 [0, 0, 0] = Inr (KEYBOX_STATUS_SUCCESS, [1, 2, 3], Some 3)"
    by (simp add: keybox_unwrap_eq) (simp add: wrap_def Let_def)
  from unwrap_only_wrapped [OF _ this] show ?thesis by simp
qed

text \<open>C17: A keybox in which one byte was changed is rejected with
  \<open>KEYBOX_STATUS_UNWRAP_FAIL\<close>, whichever byte it is, and nothing is written to the output.\<close>

theorem tampering_detected:
  assumes "i < length (wrap pt)" and "b \<noteq> wrap pt ! i" and "length pt \<le> length buf"
  shows "keybox_unwrap ((wrap pt)[i := b]) (length (wrap pt)) buf =
    Inr (KEYBOX_STATUS_UNWRAP_FAIL, buf, None)"
proof -
  define ms where "ms = map (\<lambda>b. b XOR 0x42) pt"
  have w: "wrap pt = ms @ [xor_all ms]" "length ms = length pt" by (simp_all add: wrap_def Let_def ms_def)
  have "xor_all (take (length pt) ((wrap pt)[i := b])) \<noteq> (wrap pt)[i := b] ! length pt"
  proof (cases "i = length pt")
    case True
    with assms(2) w show ?thesis by (simp add: nth_append)
  next
    case False
    with assms(1) have i: "i < length ms" using w by simp
    let ?x = "xor_all (take i ms)" and ?y = "xor_all (drop (Suc i) ms)"
    have "xor_all ms = ?x XOR ms ! i XOR ?y"
      using arg_cong [OF id_take_nth_drop [OF i], of xor_all] by simp
    moreover have "xor_all (ms[i := b]) = ?x XOR b XOR ?y"
      using i by (simp add: upd_conv_take_nth_drop xor.assoc)
    moreover have "b \<noteq> ms ! i" using assms(2) w i by (simp add: nth_append)
    ultimately have "xor_all (ms[i := b]) \<noteq> xor_all ms"
      by (simp add: xor_inject)
    with i w show ?thesis by (simp add: list_update_append nth_append)
  qed
  with assms(3) show ?thesis by (simp add: keybox_unwrap_eq)
qed

theorem tampering_detected_witness:
  "keybox_unwrap ((wrap [1, 2, 3])[1 := 0]) 4 [0, 0, 0] = Inr (KEYBOX_STATUS_UNWRAP_FAIL, [0, 0, 0], None)"
proof -
  have "0 \<noteq> wrap [1, 2, 3] ! 1" by (simp add: wrap_def Let_def)
  from tampering_detected [OF _ this, of "[0, 0, 0]"] show ?thesis by (simp add: eval_nat_numeral)
qed

section \<open>The service\<close>

text \<open>
  What the service relies on: a received message has at least the header and fits the request
  struct, whose keybox array and the output array have \<open>KEYBOX_MAX_SIZE\<close> bytes.
\<close>

definition kb_env_ok :: "keybox_proto \<Rightarrow> keybox_env \<Rightarrow> bool" where
  "kb_env_ok p env \<longleftrightarrow>
     \<not> kb_chan_errors_abort env \<and> length (kb_stack env) = KEYBOX_MAX_SIZE p \<and>
     sizeof_header p + sizeof_unwrap_header p + KEYBOX_MAX_SIZE p < 2 ^ 32 \<and>
     (case kb_recv env of Inl rc \<Rightarrow> rc < 0
      | Inr req \<Rightarrow> length (wrapped_bytes req) = KEYBOX_MAX_SIZE p \<and> sizeof_header p \<le> rx_size req \<and>
          rx_size req \<le> sizeof_header p + sizeof_unwrap_header p + KEYBOX_MAX_SIZE p)"

text \<open>
  The keybox bytes that arrived, if the message is long enough to have the unwrap header, and
  the answer to an unwrap request as a function of those bytes and of the length field.
\<close>

definition received_keybox :: "keybox_proto \<Rightarrow> keybox_msg \<Rightarrow> byte list option" where
  "received_keybox p req =
     (if rx_size req < sizeof_header p + sizeof_unwrap_header p then None
      else Some (take (rx_size req - sizeof_header p - sizeof_unwrap_header p) (wrapped_bytes req)))"

definition unwrap_response :: "u64 \<Rightarrow> byte list option \<Rightarrow> keybox_status \<times> byte list" where
  "unwrap_response len arrived =
     (case arrived of
        None \<Rightarrow> (KEYBOX_STATUS_INVALID_REQUEST, [])
      | Some w \<Rightarrow>
          if unat len \<noteq> length w \<or> w = [] then (KEYBOX_STATUS_INVALID_REQUEST, [])
          else if xor_all (butlast w) \<noteq> last w then (KEYBOX_STATUS_UNWRAP_FAIL, [])
          else (KEYBOX_STATUS_SUCCESS, map (\<lambda>b. b XOR 0x42) (butlast w)))"

text \<open>The overflow check and the size comparison together accept exactly the true length.\<close>

lemma unwrap_size_check:
  fixes len :: u64
  assumes "h < 2 ^ 32" and "n < 2 ^ 32" and "h \<le> n"
  shows "(\<not> fst (add_overflow len (of_nat h)) \<and> snd (add_overflow len (of_nat h)) = of_nat n) \<longleftrightarrow>
    unat len = n - h"
proof -
  have h: "unat (of_nat h :: u64) = h" "unat (of_nat n :: u64) = n"
    using assms by (simp_all add: unat_of_nat take_bit_nat_eq_self_iff)
  have s: "unat (len + of_nat h) = (unat len + h) mod 2 ^ 64"
    using h by (simp add: unat_word_ariths)
  have l: "unat len < 2 ^ 64" using unsigned_less [of len] by simp
  show ?thesis
  proof (cases "unat len + h < 2 ^ 64")
    case True
    with s h have "unat (len + of_nat h) = unat len + h" by simp
    with h assms(3) show ?thesis by (auto simp: add_overflow_def word_less_nat_alt word_unat_eq_iff)
  next
    case False
    with l assms have "unat (len + of_nat h) = unat len + h - 2 ^ 64"
      using s by (simp add: mod_if)
    with False l assms show ?thesis by (auto simp: add_overflow_def word_less_nat_alt)
  qed
qed

lemma take_butlast_last:
  assumes "w = take n bytes" and "n \<le> length bytes" and "0 < n"
  shows "take (n - 1) bytes = butlast w" and "bytes ! (n - 1) = last w"
  using assms take_Suc_last [of n bytes] by (simp_all add: butlast_take)

lemma handle_unwrap_response:
  assumes env: "kb_env_ok p env" and req: "kb_recv env = Inr req"
    and r: "unwrap_response (wrapped_keybox_len req) (received_keybox p req) = (st, bytes)"
  shows "keybox_handle_unwrap p env ch req (rx_size req - sizeof_header p) s =
    Inr (kb_send env, kb_emit (Kb_sent ch (KEYBOX_CMD_UNWRAP p OR KEYBOX_CMD_RSP_BIT p) st
      (if st = KEYBOX_STATUS_SUCCESS then Some (of_nat (length bytes)) else None) bytes) s)"
proof (cases "rx_size req < sizeof_header p + sizeof_unwrap_header p")
  case True
  with r env req show ?thesis
    by (auto simp: keybox_handle_unwrap_def received_keybox_def unwrap_response_def Let_def kb_env_ok_def)
next
  case False
  let ?h = "sizeof_unwrap_header p" and ?n = "rx_size req - sizeof_header p"
  define w where "w = take (?n - ?h) (wrapped_bytes req)"
  have e: "length (kb_stack env) = KEYBOX_MAX_SIZE p" "length (wrapped_bytes req) = KEYBOX_MAX_SIZE p"
    "?h < 2 ^ 32" "?n < 2 ^ 32" "?h \<le> ?n" "?n - ?h \<le> KEYBOX_MAX_SIZE p"
    using env req False by (auto simp: kb_env_ok_def)
  have lw: "length w = ?n - ?h" using e by (simp add: w_def)
  have r': "unwrap_response (wrapped_keybox_len req) (Some w) = (st, bytes)"
    using r False by (simp add: received_keybox_def w_def)
  note chk = unwrap_size_check [OF e(3-5), of "wrapped_keybox_len req"]
  obtain ov cs where a: "add_overflow (wrapped_keybox_len req) (of_nat ?h) = (ov, cs)" by fastforce
  show ?thesis
  proof (cases "unat (wrapped_keybox_len req) = ?n - ?h")
    case False
    with chk a lw r' e(5) show ?thesis
      by (auto simp: keybox_handle_unwrap_def unwrap_response_def Let_def)
  next
    case True
    with chk a have c: "\<not> ov" "cs = of_nat ?n" by auto
    have u: "keybox_unwrap (wrapped_bytes req) (?n - ?h) (kb_stack env) =
        (if w = [] then Inr (KEYBOX_STATUS_INVALID_REQUEST, kb_stack env, None)
         else if xor_all (butlast w) \<noteq> last w then Inr (KEYBOX_STATUS_UNWRAP_FAIL, kb_stack env, None)
         else Inr (KEYBOX_STATUS_SUCCESS, map (\<lambda>b. b XOR 0x42) (butlast w) @ drop (length w - 1) (kb_stack env),
           Some (length w - 1)))"
      using e lw take_butlast_last [OF w_def] by (subst keybox_unwrap_eq) auto
    show ?thesis
      using c a u True r' lw e
      by (auto simp: keybox_handle_unwrap_def unwrap_response_def Let_def mem_read_def split: if_splits)
  qed
qed

text \<open>C15: An unwrap request is answered from the bytes that arrived and from nothing else: the
  length field must be exactly the number of keybox bytes in the message, overflow of its sum
  with the header size included; then the answer is the unwrapped keybox or the failure of the
  checksum, with the length of what is sent in the length field of the answer. No byte beyond the message, and no byte of the uninitialised output array, is sent.\<close>

theorem keybox_unwrap_request:
  assumes "kb_env_ok p env" and "kb_recv env = Inr req" and "rx_cmd req = KEYBOX_CMD_UNWRAP p"
  shows "\<exists>st bytes. unwrap_response (wrapped_keybox_len req) (received_keybox p req) = (st, bytes) \<and>
    keybox_handle_msg p env ch s =
      Inr (if kb_send env < 0 then KEYBOX_STATUS_INTERNAL_ERROR else KEYBOX_STATUS_SUCCESS,
        kb_emit (Kb_sent ch (KEYBOX_CMD_UNWRAP p OR KEYBOX_CMD_RSP_BIT p) st
      (if st = KEYBOX_STATUS_SUCCESS then Some (of_nat (length bytes)) else None) bytes) s)"
proof -
  obtain st bytes where r: "unwrap_response (wrapped_keybox_len req) (received_keybox p req) = (st, bytes)"
    by fastforce
  with handle_unwrap_response [OF assms(1,2) r] assms(2,3) show ?thesis
    by (simp add: keybox_handle_msg_def)
qed

definition run_kb_proto :: keybox_proto where
  "run_kb_proto = \<lparr>KEYBOX_CMD_UNWRAP = 2, KEYBOX_CMD_RSP_BIT = 1, KEYBOX_MAX_SIZE = 6,
     sizeof_header = 8, sizeof_unwrap_header = 8\<rparr>"

definition run_kb_env :: keybox_env where
  "run_kb_env = \<lparr>kb_recv = Inr \<lparr>rx_size = 19, rx_cmd = 2, wrapped_keybox_len = 3,
       wrapped_bytes = [0x43, 0x40, 0x03, 7, 7, 7]\<rparr>,
     kb_send = 0, kb_stack = [9, 9, 9, 9, 9, 9], kb_chan_errors_abort = False,
     kb_port_errors_abort = False, kb_accept = Inr 4, kb_calloc = None, kb_set_cookie = 0\<rparr>"

theorem keybox_unwrap_request_witness:
  "keybox_handle_msg run_kb_proto run_kb_env 4 \<lparr>kb_ctxs = [1 \<mapsto> 4], kb_outs = []\<rparr> =
    Inr (KEYBOX_STATUS_SUCCESS, \<lparr>kb_ctxs = [1 \<mapsto> 4], kb_outs = [Kb_sent 4 3 KEYBOX_STATUS_SUCCESS (Some 2) [1, 2]]\<rparr>)"
proof -
  have "kb_env_ok run_kb_proto run_kb_env" by (simp add: kb_env_ok_def run_kb_proto_def run_kb_env_def)
  from keybox_unwrap_request [OF this, of _ 4 "\<lparr>kb_ctxs = [1 \<mapsto> 4], kb_outs = []\<rparr>"] show ?thesis
    by (simp add: run_kb_env_def run_kb_proto_def received_keybox_def unwrap_response_def kb_emit_def)
qed

lemma keybox_msg_total:
  assumes "kb_env_ok p env"
  shows "\<exists>s1. keybox_handle_msg p env ch s =
      Inr (if isl (kb_recv env) \<or> kb_send env < 0 then KEYBOX_STATUS_INTERNAL_ERROR
           else KEYBOX_STATUS_SUCCESS, s1) \<and> kb_ctxs s1 = kb_ctxs s"
proof (cases "kb_recv env")
  case (Inl rc)
  then show ?thesis by (simp add: keybox_handle_msg_def)
next
  case (Inr req)
  obtain st bytes where r: "unwrap_response (wrapped_keybox_len req) (received_keybox p req) = (st, bytes)"
    by fastforce
  from Inr handle_unwrap_response [OF assms Inr r] show ?thesis
    by (simp add: keybox_handle_msg_def kb_emit_def)
qed

lemma keybox_chan_total:
  assumes "kb_env_ok p env" and "kb_ctxs s c = Some ch" and "ev_handle ev = ch"
    and "\<not> (IPC_HANDLE_POLL_MSG \<in> ev_event ev \<and> IPC_HANDLE_POLL_HUP \<in> ev_event ev \<and>
       (isl (kb_recv env) \<or> kb_send env < 0))"
  shows "\<exists>s'. keybox_chan_handler p env ev c s = Inr s'"
  using keybox_msg_total [OF assms(1), of ch s] assms
  by (auto simp: keybox_chan_handler_def keybox_shutdown_def kb_env_ok_def simp del: bindr_eq_Inr)

lemma keybox_chan_faults:
  assumes "kb_env_ok p env" and "kb_ctxs s c = Some (ev_handle ev)"
    and "IPC_HANDLE_POLL_MSG \<in> ev_event ev" and "IPC_HANDLE_POLL_HUP \<in> ev_event ev"
    and "isl (kb_recv env) \<or> kb_send env < 0"
  shows "keybox_chan_handler p env ev c s = Inl Use_after_free"
  using assms keybox_msg_total [OF assms(1), of "ev_handle ev" s]
  by (auto simp: keybox_chan_handler_def keybox_shutdown_def kb_emit_def kb_env_ok_def simp del: bindr_eq_Inr)

text \<open>C19: When the channel handler of the keybox service faults. On a live channel it completes
  every event except one: if the event carries both a message and a hangup, and the message
  cannot be received or answered, it shuts the channel down twice, the second time on the freed
  context.\<close>

theorem keybox_double_shutdown:
  assumes "kb_env_ok p env" and "kb_ctxs s c = Some ch" and "ev_handle ev = ch"
  shows "(\<exists>s'. keybox_chan_handler p env ev c s = Inr s') \<longleftrightarrow>
    \<not> (IPC_HANDLE_POLL_MSG \<in> ev_event ev \<and> IPC_HANDLE_POLL_HUP \<in> ev_event ev \<and>
       (isl (kb_recv env) \<or> kb_send env < 0))"
  using keybox_chan_total [OF assms] keybox_chan_faults [OF assms(1), of s c ev] assms(2,3) by fastforce

theorem keybox_double_shutdown_witness:
  "\<not> (\<exists>s'. keybox_chan_handler run_kb_proto (run_kb_env\<lparr>kb_recv := Inl (-1)\<rparr>)
     \<lparr>ev_handle = 4, ev_event = {IPC_HANDLE_POLL_MSG, IPC_HANDLE_POLL_HUP}\<rparr> 1
     \<lparr>kb_ctxs = [1 \<mapsto> 4], kb_outs = []\<rparr> = Inr s')"
proof -
  have "kb_env_ok run_kb_proto (run_kb_env\<lparr>kb_recv := Inl (-1)\<rparr>)"
    by (simp add: kb_env_ok_def run_kb_proto_def run_kb_env_def)
  from keybox_double_shutdown [OF this, of "\<lparr>kb_ctxs = [1 \<mapsto> 4], kb_outs = []\<rparr>" 1 4
      "\<lparr>ev_handle = 4, ev_event = {IPC_HANDLE_POLL_MSG, IPC_HANDLE_POLL_HUP}\<rparr>"]
  show ?thesis by simp
qed

end
