(* ===== verification/Hwcrypto_Main.thy ===== *)
theory Hwcrypto_Main
  imports Hwkey_Props Hwrng_Props Keybox_Props
begin

text \<open>
  The hwcrypto application (\<open>hwcrypto/main.c\<close>): start of the three services, the event
  loop and the dispatch of events to their handlers, on a 64-bit build. The services share
  the random device and nothing else.
\<close>

section \<open>State and events\<close>

record hwcrypto_state =
  hwkey :: "(64 word) hwkey_state"
  hwrng :: "(64 word, 64 word) hwrng_state"
  keybox :: keybox_state
  main_closed :: "handle_t list"

text \<open>The handler an event cookie points to, with the context it is for.\<close>

datatype cookie =
    No_handler
  | Hwkey_port
  | Hwkey_chan nat
  | Hwrng_port
  | Hwrng_chan nat
  | Keybox_port
  | Keybox_chan nat

text \<open>The answers of the system during one event, for the service that handles it.\<close>

record hwcrypto_env =
  hwkey_env :: hwkey_env
  hwrng_env :: "64 hwrng_env"
  keybox_env :: keybox_env

text \<open>What is fixed at build time.\<close>

record hwcrypto_build =
  hwkey_protocol :: hwkey_proto
  keybox_protocol :: keybox_proto
  key_config :: hwkey_config

text \<open>The random device is one object: a service that used it leaves its state to the other.\<close>

definition put_hwkey :: "(64 word) hwkey_state \<Rightarrow> hwcrypto_state \<Rightarrow> hwcrypto_state" where
  "put_hwkey k s = s\<lparr>hwkey := k, hwrng := (hwrng s)\<lparr>hr_rng := rng k\<rparr>\<rparr>"

definition put_hwrng :: "(64 word, 64 word) hwrng_state \<Rightarrow> hwcrypto_state \<Rightarrow> hwcrypto_state" where
  "put_hwrng r s = s\<lparr>hwrng := r, hwkey := (hwkey s)\<lparr>rng := hr_rng r\<rparr>\<rparr>"

section \<open>Dispatch and the event loop\<close>

definition dispatch_event ::
    "hwcrypto_build \<Rightarrow> hwcrypto_env \<Rightarrow> uevent \<Rightarrow> cookie \<Rightarrow> hwcrypto_state \<Rightarrow> hwcrypto_state res" where
  "dispatch_event b env ev ck s =
     (if ev_event ev = {} then Inr s
      else case ck of
        No_handler \<Rightarrow> Inr (s\<lparr>main_closed := main_closed s @ [ev_handle ev]\<rparr>)
      | Hwkey_port \<Rightarrow>
          bindr (hwkey_port_handler (fake_provider (key_config b)) (hwkey_env env) ev (hwkey s))
            (\<lambda>k. Inr (put_hwkey k s))
      | Hwkey_chan c \<Rightarrow>
          bindr (hwkey_chan_handler (hwkey_protocol b) (fake_provider (key_config b)) fake_dev
                  (hwkey_env env) ev c (hwkey s)) (\<lambda>k. Inr (put_hwkey k s))
      | Hwrng_port \<Rightarrow>
          bindr (hwrng_port_handler (hwrng_env env) ev (hwrng s)) (\<lambda>r. Inr (put_hwrng r s))
      | Hwrng_chan a \<Rightarrow>
          bindr (hwrng_chan_handler fake_dev (hwrng_env env) ev a (hwrng s)) (\<lambda>r. Inr (put_hwrng r s))
      | Keybox_port \<Rightarrow>
          bindr (keybox_port_handler (keybox_env env) ev (keybox s)) (\<lambda>k. Inr (s\<lparr>keybox := k\<rparr>))
      | Keybox_chan c \<Rightarrow>
          bindr (keybox_chan_handler (keybox_protocol b) (keybox_env env) ev c (keybox s))
            (\<lambda>k. Inr (s\<lparr>keybox := k\<rparr>)))"

text \<open>
  The \<open>while (1)\<close> loop over the answers of \<open>wait_any\<close>: a negative answer ends the program
  with that code, \<open>NO_ERROR\<close> brings an event, any other answer is ignored. When the answers
  are used up the program is still waiting (\<open>None\<close>).
\<close>

type_synonym wait_answer = "int \<times> uevent \<times> cookie \<times> hwcrypto_env"

fun event_loop ::
    "hwcrypto_build \<Rightarrow> wait_answer list \<Rightarrow> hwcrypto_state \<Rightarrow> (int option \<times> hwcrypto_state) res" where
  "event_loop b [] s = Inr (None, s)"
| "event_loop b ((rc, ev, ck, env) # answers) s =
     (if rc < 0 then Inr (Some rc, s)
      else if rc = NO_ERROR
      then bindr (dispatch_event b env ev ck s) (event_loop b answers)
      else event_loop b answers s)"

text \<open>What the start-up calls return.\<close>

record start_env =
  hwrng_port_rc :: int
  start_crypto :: crypto
  hwkey_port_rc :: int
  hwkey_cookie_rc :: int
  keybox_port_rc :: int
  invalid_handle :: handle_t

definition hwcrypto_initial :: hwcrypto_state where
  "hwcrypto_initial = \<lparr>hwkey = hwkey_initial initial_counter, hwrng = hwrng_initial initial_counter,
     keybox = \<lparr>kb_ctxs = Map.empty, kb_outs = []\<rparr>, main_closed = []\<rparr>"

definition hwcrypto_main ::
    "hwcrypto_build \<Rightarrow> start_env \<Rightarrow> wait_answer list \<Rightarrow> (int option \<times> hwcrypto_state) res" where
  "hwcrypto_main b st answers =
     (let s0 = hwcrypto_initial in
      case hwrng_start_service (hwrng_port_rc st) hwrng_dev_init (hwrng s0) of (rc, r) \<Rightarrow>
        if rc \<noteq> NO_ERROR then Inr (Some rc, s0\<lparr>hwrng := r\<rparr>)
        else
          bindr (hwkey_init_srv_provider (key_config b) (start_crypto st) (hwkey_port_rc st)
                  (hwkey_cookie_rc st) (hwkey s0)) (\<lambda>k.
            case keybox_start_service (invalid_handle st) (keybox_port_rc st) (keybox s0) of (rc, kb) \<Rightarrow>
              let s1 = s0\<lparr>hwrng := r, hwkey := k, keybox := kb\<rparr> in
              if rc \<noteq> NO_ERROR then Inr (Some rc, s1) else event_loop b answers s1))"

section \<open>Contracts and invariant\<close>

text \<open>
  The state of the application between events: each service in a state it can reach by
  itself, and one state of the random device.
\<close>

definition main_inv :: "hwcrypto_build \<Rightarrow> hwcrypto_state \<Rightarrow> bool" where
  "main_inv b s \<longleftrightarrow> hwcrypto_reach (hwkey_protocol b) (key_config b) (hwkey s) \<and>
     hwrng_reach fake_dev (hwrng s) \<and> rng (hwkey s) = hr_rng (hwrng s)"

text \<open>
  What an event may be: the cookie is that of a live context and the handle is its channel; the
  answers keep the contract of the service that handles the event.
\<close>

definition event_ok :: "hwcrypto_build \<Rightarrow> hwcrypto_state \<Rightarrow> uevent \<Rightarrow> cookie \<Rightarrow> hwcrypto_env \<Rightarrow> bool" where
  "event_ok b s ev ck env \<longleftrightarrow>
     (case ck of
        No_handler \<Rightarrow> True
      | Hwkey_port \<Rightarrow> env_ok bssl_ok (ctxs (hwkey s)) (hwkey_env env)
      | Hwkey_chan c \<Rightarrow> env_ok bssl_ok (ctxs (hwkey s)) (hwkey_env env) \<and>
          map_option chan (ctxs (hwkey s) c) = Some (ev_handle ev)
      | Hwrng_port \<Rightarrow> hr_env_ok (hwrng s) (hwrng_env env)
      | Hwrng_chan a \<Rightarrow> hr_env_ok (hwrng s) (hwrng_env env) \<and>
          map_option hr_chan (hr_ctxs (hwrng s) a) = Some (ev_handle ev)
      | Keybox_port \<Rightarrow> \<not> kb_port_errors_abort (keybox_env env)
      | Keybox_chan c \<Rightarrow> kb_env_ok (keybox_protocol b) (keybox_env env) \<and>
          kb_ctxs (keybox s) c = Some (ev_handle ev))"

text \<open>
  The one event on which the application faults: a message together with a hangup on a channel of the
  keybox service, when the message cannot be received or answered.
\<close>

definition double_shutdown :: "uevent \<Rightarrow> cookie \<Rightarrow> hwcrypto_env \<Rightarrow> bool" where
  "double_shutdown ev ck env \<longleftrightarrow> (case ck of Keybox_chan c \<Rightarrow> True | _ \<Rightarrow> False) \<and>
     IPC_HANDLE_POLL_MSG \<in> ev_event ev \<and> IPC_HANDLE_POLL_HUP \<in> ev_event ev \<and>
     (isl (kb_recv (keybox_env env)) \<or> kb_send (keybox_env env) < 0)"

fun answers_ok :: "hwcrypto_build \<Rightarrow> wait_answer list \<Rightarrow> hwcrypto_state \<Rightarrow> bool" where
  "answers_ok b [] s \<longleftrightarrow> True"
| "answers_ok b ((rc, ev, ck, env) # answers) s \<longleftrightarrow>
     (if rc < 0 then True
      else if rc = NO_ERROR
      then event_ok b s ev ck env \<and>
        (case dispatch_event b env ev ck s of Inl _ \<Rightarrow> True | Inr s' \<Rightarrow> answers_ok b answers s')
      else answers_ok b answers s)"

text \<open>How the event loop ends: by the first failure of \<open>wait_any\<close>, by the event on which it faults, or not.\<close>

fun loop_outcome :: "wait_answer list \<Rightarrow> int option res" where
  "loop_outcome [] = Inr None"
| "loop_outcome ((rc, ev, ck, env) # answers) =
     (if rc < 0 then Inr (Some rc)
      else if rc = NO_ERROR \<and> double_shutdown ev ck env then Inl Use_after_free
      else loop_outcome answers)"

lemma put_hwkey_inv:
  assumes "main_inv b s" and "hwkey_step (hwkey_protocol b) (fake_provider (key_config b)) fake_dev bssl_ok (hwkey s) k"
  shows "main_inv b (put_hwkey k s)"
  using assms hwkey_reach.stepped hwrng_reach.step [OF _ hwrng_step.rng]
  by (auto simp: main_inv_def put_hwkey_def)

lemma put_hwrng_inv:
  assumes "main_inv b s" and "hwrng_step fake_dev (hwrng s) r"
  shows "main_inv b (put_hwrng r s)"
  using assms hwrng_reach.step hwkey_reach.stepped [OF _ hwkey_step.rng_used]
  by (auto simp: main_inv_def put_hwrng_def)

lemma dispatch_hwkey:
  assumes cfg: "config_ok (key_config b)" and inv: "main_inv b s" and env: "event_ok b s ev ck env"
    and ck: "ck \<in> {Hwkey_port} \<union> range Hwkey_chan" and ev: "ev_event ev \<noteq> {}"
  shows "\<exists>s'. dispatch_event b env ev ck s = Inr s' \<and> main_inv b s'"
proof -
  note ki = fake_reach_inv [OF cfg]
  have reach: "hwcrypto_reach (hwkey_protocol b) (key_config b) (hwkey s)" using inv by (simp add: main_inv_def)
  note svc = fake_service [OF cfg]
  have "\<exists>k. dispatch_event b env ev ck s = Inr (put_hwkey k s) \<and>
      hwkey_step (hwkey_protocol b) (fake_provider (key_config b)) fake_dev bssl_ok (hwkey s) k"
  proof (cases "ck = Hwkey_port")
    case True
    with env have e: "env_ok bssl_ok (ctxs (hwkey s)) (hwkey_env env)" by (simp add: event_ok_def)
    from hwkey_service.port_handler_total [OF svc ki [OF reach] e, of ev] hwkey_step.port_event [OF e]
    show ?thesis using True ev by (auto simp: dispatch_event_def)
  next
    case False
    then obtain c where c: "ck = Hwkey_chan c" using ck by auto
    with env obtain ctx where e: "env_ok bssl_ok (ctxs (hwkey s)) (hwkey_env env)"
      "ctxs (hwkey s) c = Some ctx" "ev_handle ev = chan ctx" by (auto simp: event_ok_def)
    from hwkey_service.chan_handler_total [OF svc ki [OF reach] e] hwkey_step.chan_event [OF e]
    show ?thesis using c ev by (fastforce simp: dispatch_event_def)
  qed
  with put_hwkey_inv [OF inv] show ?thesis by blast
qed

lemma dispatch_hwrng:
  assumes inv: "main_inv b s" and env: "event_ok b s ev ck env"
    and ck: "ck \<in> {Hwrng_port} \<union> range Hwrng_chan" and ev: "ev_event ev \<noteq> {}"
  shows "\<exists>s'. dispatch_event b env ev ck s = Inr s' \<and> main_inv b s'"
proof -
  have ri: "rng_inv (hwrng s)" using inv fake.hwrng_reach_inv by (auto simp: main_inv_def)
  have "\<exists>r. dispatch_event b env ev ck s = Inr (put_hwrng r s) \<and> hwrng_step fake_dev (hwrng s) r"
  proof (cases "ck = Hwrng_port")
    case True
    with env have e: "hr_env_ok (hwrng s) (hwrng_env env)" by (simp add: event_ok_def)
    from fake.hwrng_port_total [OF ri e, of ev] hwrng_step.port [OF e]
    show ?thesis using True ev by (auto simp: dispatch_event_def)
  next
    case False
    then obtain a where a: "ck = Hwrng_chan a" using ck by auto
    with env obtain ctx where e: "hr_env_ok (hwrng s) (hwrng_env env)"
      "hr_ctxs (hwrng s) a = Some ctx" "ev_handle ev = hr_chan ctx" by (auto simp: event_ok_def)
    from fake.hwrng_chan_total [OF ri e] hwrng_step.chan [OF e]
    show ?thesis using a ev by (fastforce simp: dispatch_event_def)
  qed
  with put_hwrng_inv [OF inv] show ?thesis by blast
qed

lemma dispatch_keybox:
  assumes inv: "main_inv b s" and env: "event_ok b s ev ck env"
    and ck: "ck \<in> {Keybox_port} \<union> range Keybox_chan" and ev: "ev_event ev \<noteq> {}" and n: "\<not> double_shutdown ev ck env"
  shows "\<exists>s'. dispatch_event b env ev ck s = Inr s' \<and> main_inv b s'"
proof -
  have "\<exists>kb. dispatch_event b env ev ck s = Inr (s\<lparr>keybox := kb\<rparr>)"
  proof (cases "ck = Keybox_port")
    case True
    with env have "\<exists>kb. keybox_port_handler (keybox_env env) ev (keybox s) = Inr kb"
      by (auto simp: event_ok_def keybox_port_handler_def split: sum.split option.split)
    with True ev show ?thesis by (auto simp: dispatch_event_def)
  next
    case False
    then obtain c where c: "ck = Keybox_chan c" using ck by auto
    with env n obtain kb where "keybox_chan_handler (keybox_protocol b) (keybox_env env) ev c (keybox s) = Inr kb"
      using keybox_chan_total [of "keybox_protocol b" "keybox_env env" "keybox s" c "ev_handle ev" ev]
      by (auto simp: event_ok_def double_shutdown_def)
    with c ev show ?thesis by (auto simp: dispatch_event_def)
  qed
  with inv show ?thesis by (auto simp: main_inv_def)
qed

lemma dispatch_total:
  assumes cfg: "config_ok (key_config b)" and inv: "main_inv b s" and env: "event_ok b s ev ck env"
    and n: "\<not> double_shutdown ev ck env"
  shows "\<exists>s'. dispatch_event b env ev ck s = Inr s' \<and> main_inv b s'"
proof (cases "ev_event ev = {} \<or> ck = No_handler")
  case True
  with inv show ?thesis by (auto simp: dispatch_event_def main_inv_def)
next
  case False
  then have ev: "ev_event ev \<noteq> {}" by simp
  consider "ck \<in> {Hwkey_port} \<union> range Hwkey_chan" | "ck \<in> {Hwrng_port} \<union> range Hwrng_chan"
    | "ck \<in> {Keybox_port} \<union> range Keybox_chan" using False by (cases ck) auto
  then show ?thesis
    using dispatch_hwkey [OF cfg inv env _ ev] dispatch_hwrng [OF inv env _ ev]
      dispatch_keybox [OF inv env _ ev n] by cases
qed

lemma dispatch_faults:
  assumes env: "event_ok b s ev ck env" and d: "double_shutdown ev ck env"
  shows "dispatch_event b env ev ck s = Inl Use_after_free"
proof -
  obtain c where c: "ck = Keybox_chan c" using d by (auto simp: double_shutdown_def split: cookie.splits)
  with env have "kb_env_ok (keybox_protocol b) (keybox_env env)" "kb_ctxs (keybox s) c = Some (ev_handle ev)"
    by (auto simp: event_ok_def)
  from keybox_chan_faults [OF this] d c show ?thesis by (auto simp: dispatch_event_def double_shutdown_def)
qed

lemma event_loop_outcome:
  assumes "config_ok (key_config b)" and "main_inv b s" and "answers_ok b answers s"
  shows "map_sum id fst (event_loop b answers s) = loop_outcome answers \<and>
    (\<forall>rc s'. event_loop b answers s = Inr (rc, s') \<longrightarrow> main_inv b s')"
  using assms(2,3)
proof (induction answers arbitrary: s)
  case Nil
  then show ?case by simp
next
  case (Cons a answers)
  obtain rc ev ck env where a: "a = (rc, ev, ck, env)" by (cases a) auto
  show ?case
  proof (cases "rc = NO_ERROR")
    case True
    with Cons.prems a have e: "event_ok b s ev ck env" by (simp add: NO_ERROR_def)
    show ?thesis
    proof (cases "double_shutdown ev ck env")
      case d: True
      with True a dispatch_faults [OF e d] show ?thesis by (simp add: NO_ERROR_def)
    next
      case False
      from dispatch_total [OF assms(1) Cons.prems(1) e False] obtain s1 where
        "dispatch_event b env ev ck s = Inr s1" "main_inv b s1" by blast
      with Cons a True False show ?thesis by (simp add: NO_ERROR_def)
    qed
  next
    case False
    with Cons a show ?thesis by (auto simp: NO_ERROR_def)
  qed
qed

text \<open>The unit test build and a start in which every call succeeds.\<close>

definition run_build :: hwcrypto_build where
  "run_build = \<lparr>hwkey_protocol = run_proto, keybox_protocol = run_kb_proto, key_config = unittest_config\<rparr>"

definition run_main_state :: hwcrypto_state where
  "run_main_state = hwcrypto_initial\<lparr>hwkey := run_started\<rparr>"

definition run_main_env :: hwcrypto_env where
  "run_main_env = \<lparr>hwkey_env = run_env 0 [], hwrng_env = (good_env 0)\<lparr>hr_calloc := Some 8\<rparr>, keybox_env = run_kb_env\<rparr>"

lemma run_main_inv: "main_inv run_build run_main_state"
  using run_started_reach hwrng_reach.init [of fake_dev initial_counter, where 'w = 64]
  by (simp add: main_inv_def run_build_def run_main_state_def hwcrypto_initial_def run_started_def
      hwkey_initial_def hwrng_initial_def)

lemma run_main_event_ok: "event_ok run_build run_main_state ev Hwrng_port run_main_env"
  by (simp add: event_ok_def run_main_env_def hr_env_ok_def good_env_def run_main_state_def
      hwcrypto_initial_def hwrng_initial_def)

text \<open>The state in which the event loop starts.\<close>

definition started_state :: "hwcrypto_build \<Rightarrow> start_env \<Rightarrow> hwcrypto_state" where
  "started_state b st = hwcrypto_initial\<lparr>hwkey := snd (hwkey_start_service (hwkey_port_rc st)
     (hwkey_cookie_rc st) ((hwkey hwcrypto_initial)\<lparr>key_slots := Some (key_table (key_config b))\<rparr>))\<rparr>"

text \<open>C4: The application as a whole. With well-formed keys and a crypto library that passes the
  self test, and on any sequence of answers of \<open>wait_any\<close> whose events carry the cookies of live
  contexts and keep the services' contracts, how \<open>main\<close> ends is known exactly: with the code of
  \<open>port_create\<close> if the port of the random number service or of the keybox service could not be
  created; else with the code of the first failing \<open>wait_any\<close>; else it is still waiting. The one
  exception is an event that faults: a message together with a hangup on a keybox channel whose
  message cannot be received or answered ends the run with a use after free, and nothing else
  does. Once started, it is in a state of the invariant whenever it waits or returns.\<close>

theorem hwcrypto_main_runs:
  assumes "config_ok (key_config b)" and "hwkey_self_test (start_crypto st) = Inr True"
    and "answers_ok b answers (started_state b st)"
  shows "map_sum id fst (hwcrypto_main b st answers) =
      (if hwrng_port_rc st < 0 then Inr (Some (hwrng_port_rc st))
       else if keybox_port_rc st < 0 then Inr (Some (keybox_port_rc st))
       else loop_outcome answers) \<and>
    (\<forall>rc s. hwcrypto_main b st answers = Inr (rc, s) \<and> 0 \<le> hwrng_port_rc st \<and> 0 \<le> keybox_port_rc st \<longrightarrow>
       main_inv b s)"
proof (cases "hwrng_port_rc st < 0")
  case True
  then show ?thesis
    by (auto simp: hwcrypto_main_def hwrng_start_service_def NO_ERROR_def)
next
  case False
  let ?k0 = "(hwkey_initial initial_counter :: (64 word) hwkey_state)\<lparr>key_slots := Some (key_table (key_config b))\<rparr>"
    and ?s = "started_state b st"
  have inst: "hwkey_install_keys (key_table (key_config b)) (hwkey_initial initial_counter) = Inr ?k0"
    by (simp add: hwkey_install_keys_def hwkey_initial_def key_table_def)
  obtain rc k where st: "hwkey_start_service (hwkey_port_rc st) (hwkey_cookie_rc st) ?k0 = (rc, k)" by fastforce
  have k: "hwcrypto_reach (hwkey_protocol b) (key_config b) k" "rng k = initial_counter"
    using hwkey_reach.started [OF inst st] st
    by (auto simp: hwkey_start_service_def emit_def hwkey_initial_def split: if_splits)
  have init: "hwkey_init_srv_provider (key_config b) (start_crypto st) (hwkey_port_rc st) (hwkey_cookie_rc st)
      (hwkey_initial initial_counter) = Inr k"
    using inst st assms(2) by (simp add: hwkey_init_srv_provider_def)
  have s: "started_state b st = hwcrypto_initial\<lparr>hwkey := k\<rparr>" using st by (simp add: started_state_def hwcrypto_initial_def)
  have inv: "main_inv b ?s"
    using k hwrng_reach.init [of fake_dev initial_counter, where 'w = 64]
    by (simp add: s main_inv_def hwcrypto_initial_def hwrng_initial_def)
  note l = event_loop_outcome [OF assms(1) inv assms(3)]
  show ?thesis
  proof (cases "keybox_port_rc st < 0")
    case True
    with False init show ?thesis
      by (simp add: hwcrypto_main_def hwrng_start_service_def keybox_start_service_def hwrng_dev_init_def
          hwcrypto_initial_def Let_def NO_ERROR_def)
  next
    case kb: False
    then have "hwcrypto_main b st answers = event_loop b answers ?s"
      using False init
      by (simp add: s hwcrypto_main_def hwrng_start_service_def keybox_start_service_def hwrng_dev_init_def
          hwcrypto_initial_def Let_def NO_ERROR_def)
    with l False kb show ?thesis by simp
  qed
qed

text \<open>A crypto library that passes the self test, and one event.\<close>

definition run_start :: start_env where
  "run_start = \<lparr>hwrng_port_rc = 1, start_crypto = run_crypto\<lparr>HKDF := (\<lambda>n k s i. (True, exp_OKM))\<rparr>,
     hwkey_port_rc = 2, hwkey_cookie_rc = 0, keybox_port_rc = 3, invalid_handle = -1\<rparr>"

theorem hwcrypto_main_runs_witness:
  "\<exists>s. hwcrypto_main run_build run_start
      [(0, \<lparr>ev_handle = 1, ev_event = {IPC_HANDLE_POLL_READY}\<rparr>, Hwrng_port, run_main_env),
       (-7, \<lparr>ev_handle = 1, ev_event = {}\<rparr>, No_handler, run_main_env)] = Inr (Some (-7), s) \<and> main_inv run_build s"
proof -
  let ?a = "[(0, \<lparr>ev_handle = 1, ev_event = {IPC_HANDLE_POLL_READY}\<rparr>, Hwrng_port, run_main_env),
    (-7, \<lparr>ev_handle = 1, ev_event = {}\<rparr>, No_handler, run_main_env)]"
  have "started_state run_build run_start = run_main_state"
    by (simp add: started_state_def run_start_def run_main_state_def run_build_def hwkey_start_service_def
        run_started_def hwcrypto_initial_def)
  moreover have "hwkey_self_test (start_crypto run_start) = Inr True"
    by (simp add: hwkey_self_test_def hkdf_self_test_def run_start_def memcpy_to_def)
  moreover have "config_ok (key_config run_build)" by (simp add: run_build_def unittest_config_ok)
  moreover have "answers_ok run_build ?a run_main_state"
    using run_main_event_ok by (simp split: sum.split)
  ultimately have "map_sum id fst (hwcrypto_main run_build run_start ?a) =
      (if hwrng_port_rc run_start < 0 then Inr (Some (hwrng_port_rc run_start))
       else if keybox_port_rc run_start < 0 then Inr (Some (keybox_port_rc run_start)) else loop_outcome ?a)"
    "\<forall>rc s. hwcrypto_main run_build run_start ?a = Inr (rc, s) \<and> 0 \<le> hwrng_port_rc run_start \<and>
      0 \<le> keybox_port_rc run_start \<longrightarrow> main_inv run_build s"
    using hwcrypto_main_runs [of run_build run_start ?a] by auto
  moreover have "loop_outcome ?a = Inr (Some (-7))" by (simp add: double_shutdown_def)
  ultimately show ?thesis
    by (cases "hwcrypto_main run_build run_start ?a") (auto simp: run_start_def)
qed

end
