(* ===== verification/Hwaes.thy ===== *)
theory Hwaes
  imports Prelude Trusty_Env
begin

text \<open>
  The AES service (\<open>hwaes/main.c\<close>): argument checks, resolution of opaque key handles
  through the hwkey client, choice of the cipher, and the sequence of cipher calls. The
  crypto library, the hwkey client library and the server loop are not part of the
  repository; their answers are arguments.
\<close>

section \<open>Arguments\<close>

datatype hwaes_err =
    HWAES_NO_ERROR
  | HWAES_ERR_GENERIC
  | HWAES_ERR_INVALID_ARGS
  | HWAES_ERR_IO
  | HWAES_ERR_NOT_IMPLEMENTED

datatype hwaes_padding = HWAES_NO_PADDING | Other_padding int

datatype hwaes_mode = HWAES_CBC_MODE | HWAES_GCM_MODE | Other_mode int

datatype hwaes_key_type = HWAES_OPAQUE_HANDLE | Other_key_type int

text \<open>A pointer with a length; the pointer is null or points to a buffer given by its contents.\<close>

record hwaes_arg =
  arg_len :: nat
  data_ptr :: "byte list option"

record hwaes_aes_op_args =
  key_arg :: hwaes_arg
  iv_arg :: hwaes_arg
  aad_arg :: hwaes_arg
  text_in :: hwaes_arg
  text_out :: hwaes_arg
  tag_in :: hwaes_arg
  tag_out :: hwaes_arg
  key_type :: hwaes_key_type
  padding :: hwaes_padding
  aes_mode :: hwaes_mode
  encrypt :: bool

text \<open>
  What the libraries answer during one operation. \<open>job\<close> collects what the cipher context has
  been told so far, so an answer may depend on all of it. The cipher calls take their lengths as
  \<open>int\<close>; the bytes they are given are those of that length, none when it is negative.
\<close>

record job =
  job_cipher :: evp_cipher
  job_encrypt :: bool
  job_key :: "byte list"
  job_iv :: "byte list option"
  job_aad :: "byte list option"
  job_tag :: "byte list option"

record hwaes_env =
  AES_KEY_MAX_SIZE :: nat
  HWKEY_OPAQUE_HANDLE_MAX_SIZE :: nat
  hwkey_open :: int
  hwkey_get_keyslot_data :: "byte list \<Rightarrow> nat \<Rightarrow> int \<times> byte list"
  CipherInit :: "evp_cipher \<Rightarrow> bool \<Rightarrow> bool"
  block_size :: "evp_cipher \<Rightarrow> nat"
  iv_length :: "evp_cipher \<Rightarrow> nat"
  CipherInit_key :: "job \<Rightarrow> bool"
  set_padding :: bool
  CipherUpdate_aad :: "job \<Rightarrow> int \<Rightarrow> bool"
  set_tag :: "job \<Rightarrow> int \<Rightarrow> bool"
  CipherUpdate :: "job \<Rightarrow> int \<Rightarrow> byte list \<Rightarrow> bool \<times> byte list"
  CipherFinal :: "job \<Rightarrow> byte list \<Rightarrow> bool"
  get_tag :: "job \<Rightarrow> byte list \<Rightarrow> int \<Rightarrow> bool \<times> byte list"

section \<open>Operations\<close>

definition hwaes_check_arg_helper :: "nat \<Rightarrow> byte list option \<Rightarrow> hwaes_err" where
  "hwaes_check_arg_helper len ptr =
     (if len = 0 \<or> ptr = None then HWAES_ERR_INVALID_ARGS else HWAES_NO_ERROR)"

definition hwaes_check_arg_in :: "hwaes_arg \<Rightarrow> hwaes_err" where
  "hwaes_check_arg_in arg = hwaes_check_arg_helper (arg_len arg) (data_ptr arg)"

definition hwaes_check_arg_out :: "hwaes_arg \<Rightarrow> hwaes_err" where
  "hwaes_check_arg_out arg = hwaes_check_arg_helper (arg_len arg) (data_ptr arg)"

text \<open>The bytes an argument stands for; reading through a null pointer or past the buffer is a fault.\<close>

definition arg_bytes :: "hwaes_arg \<Rightarrow> byte list res" where
  "arg_bytes arg =
     (case data_ptr arg of None \<Rightarrow> Inl Null_deref | Some buf \<Rightarrow> mem_read buf 0 (arg_len arg))"

text \<open>
  The argument as a call with an \<open>int\<close> length sees it: the \<open>size_t\<close> length is converted, so it loses
  its high bits and may become negative.
\<close>

definition c_int :: "nat \<Rightarrow> int" where
  "c_int n = (int n + 2 ^ 31) mod 2 ^ 32 - 2 ^ 31"

definition int_arg :: "hwaes_arg \<Rightarrow> hwaes_arg" where
  "int_arg arg = arg\<lparr>arg_len := nat (c_int (arg_len arg))\<rparr>"

text \<open>
  The opaque handle branch: the resolved key, or the error to return, and the hwkey sessions opened
  and closed on the way. The handle is passed on as a C string, so it is cut at its first zero byte.
\<close>

datatype session_op =
    Session_opened int
  | Session_closed int

definition fetch_key :: "hwaes_env \<Rightarrow> hwaes_arg \<Rightarrow> ((hwaes_err + byte list) \<times> session_op list) res" where
  "fetch_key env key =
     (if arg_len key > HWKEY_OPAQUE_HANDLE_MAX_SIZE env then Inr (Inl HWAES_ERR_INVALID_ARGS, [])
      else
        bindr (arg_bytes key) (\<lambda>handle.
          if handle ! (arg_len key - 1) \<noteq> 0 then Inr (Inl HWAES_ERR_INVALID_ARGS, [])
          else if hwkey_open env < 0 then Inr (Inl HWAES_ERR_GENERIC, [])
          else
            let session = hwkey_open env in
            (case hwkey_get_keyslot_data env (cstr handle) (AES_KEY_MAX_SIZE env) of (ret, bytes) \<Rightarrow>
               bindr (memcpy_to (replicate (AES_KEY_MAX_SIZE env) 0) 0 bytes) (\<lambda>key_buffer.
                 let sessions = [Session_opened session, Session_closed session] in
                 if ret \<noteq> NO_ERROR then Inr (Inl HWAES_ERR_IO, sessions)
                 else Inr (Inr (take (length bytes) key_buffer), sessions)))))"

definition cbc_cipher :: "nat \<Rightarrow> evp_cipher option" where
  "cbc_cipher len = (if len = 16 then Some EVP_aes_128_cbc else if len = 32 then Some EVP_aes_256_cbc else None)"

definition gcm_cipher :: "nat \<Rightarrow> evp_cipher option" where
  "gcm_cipher len = (if len = 16 then Some EVP_aes_128_gcm else if len = 32 then Some EVP_aes_256_gcm else None)"

text \<open>The mode branch: the cipher to use, or the error to return.\<close>

definition choose_cipher :: "hwaes_aes_op_args \<Rightarrow> nat \<Rightarrow> hwaes_err + evp_cipher" where
  "choose_cipher args key_len =
     (case aes_mode args of
        HWAES_CBC_MODE \<Rightarrow>
          (case cbc_cipher key_len of
             None \<Rightarrow> Inl HWAES_ERR_INVALID_ARGS
           | Some cipher \<Rightarrow>
               if hwaes_check_arg_in (aad_arg args) = HWAES_NO_ERROR then Inl HWAES_ERR_INVALID_ARGS
               else if hwaes_check_arg_in (tag_in args) = HWAES_NO_ERROR \<or>
                       hwaes_check_arg_out (tag_out args) = HWAES_NO_ERROR
               then Inl HWAES_ERR_INVALID_ARGS
               else Inr cipher)
      | HWAES_GCM_MODE \<Rightarrow>
          (case gcm_cipher key_len of
             None \<Rightarrow> Inl HWAES_ERR_INVALID_ARGS
           | Some cipher \<Rightarrow>
               if encrypt args then
                 if hwaes_check_arg_in (tag_in args) = HWAES_NO_ERROR then Inl HWAES_ERR_INVALID_ARGS
                 else if hwaes_check_arg_out (tag_out args) \<noteq> HWAES_NO_ERROR then Inl HWAES_ERR_INVALID_ARGS
                 else Inr cipher
               else
                 if hwaes_check_arg_in (tag_in args) \<noteq> HWAES_NO_ERROR then Inl HWAES_ERR_INVALID_ARGS
                 else if hwaes_check_arg_out (tag_out args) = HWAES_NO_ERROR then Inl HWAES_ERR_INVALID_ARGS
                 else Inr cipher)
      | Other_mode n \<Rightarrow> Inl HWAES_ERR_NOT_IMPLEMENTED)"

text \<open>The contents of the two output buffers (of a null pointer: none).\<close>

type_synonym outputs = "byte list option \<times> byte list option"

definition put_bytes :: "byte list option \<Rightarrow> byte list \<Rightarrow> byte list option res" where
  "put_bytes buf bytes =
     (case buf of None \<Rightarrow> Inl Null_deref | Some b \<Rightarrow> bindr (memcpy_to b 0 bytes) (\<lambda>b1. Inr (Some b1)))"

text \<open>An optional argument as the cipher context gets it.\<close>

definition opt_bytes :: "hwaes_arg \<Rightarrow> byte list option res" where
  "opt_bytes arg =
     (if hwaes_check_arg_in arg = HWAES_NO_ERROR then bindr (arg_bytes (int_arg arg)) (\<lambda>b. Inr (Some b)) else Inr None)"

text \<open>From the second \<open>EVP_CipherInit_ex\<close> on.\<close>

definition run_cipher ::
    "hwaes_env \<Rightarrow> hwaes_aes_op_args \<Rightarrow> evp_cipher \<Rightarrow> byte list \<Rightarrow> (hwaes_err \<times> outputs) res" where
  "run_cipher env args cipher key =
     (let same = (data_ptr (text_out args), data_ptr (tag_out args)) in
      bindr (case data_ptr (iv_arg args) of None \<Rightarrow> Inr None
             | Some b \<Rightarrow> bindr (mem_read b 0 (arg_len (iv_arg args))) (\<lambda>v. Inr (Some v))) (\<lambda>iv.
      let j0 = \<lparr>job_cipher = cipher, job_encrypt = encrypt args, job_key = key, job_iv = iv,
                job_aad = None, job_tag = None\<rparr> in
      if \<not> CipherInit_key env j0 then Inr (HWAES_ERR_GENERIC, same)
      else if \<not> set_padding env then Inr (HWAES_ERR_GENERIC, same)
      else
        bindr (opt_bytes (aad_arg args)) (\<lambda>aad.
        let j1 = j0\<lparr>job_aad := aad\<rparr> in
        if aad \<noteq> None \<and> \<not> CipherUpdate_aad env j1 (c_int (arg_len (aad_arg args))) then Inr (HWAES_ERR_GENERIC, same)
        else
          bindr (opt_bytes (tag_in args)) (\<lambda>tag.
          let j = j1\<lparr>job_tag := tag\<rparr> in
          if tag \<noteq> None \<and> \<not> set_tag env j (c_int (arg_len (tag_in args))) then Inr (HWAES_ERR_GENERIC, same)
          else
            bindr (arg_bytes (int_arg (text_in args))) (\<lambda>text.
            case CipherUpdate env j (c_int (arg_len (text_in args))) text of (ok, out) \<Rightarrow>
              bindr (put_bytes (data_ptr (text_out args)) out) (\<lambda>text'.
              if \<not> ok then Inr (HWAES_ERR_GENERIC, text', data_ptr (tag_out args))
              else assertr (int (length out) = c_int (arg_len (text_out args)))
                (if \<not> CipherFinal env j text then Inr (HWAES_ERR_GENERIC, text', data_ptr (tag_out args))
                 else if hwaes_check_arg_out (tag_out args) = HWAES_NO_ERROR then
                   (case get_tag env j text (c_int (arg_len (tag_out args))) of (ok, tagbytes) \<Rightarrow>
                      bindr (put_bytes (data_ptr (tag_out args)) tagbytes) (\<lambda>tag'.
                        if \<not> ok then Inr (HWAES_ERR_GENERIC, text', tag')
                        else Inr (HWAES_NO_ERROR, text', tag')))
                 else Inr (HWAES_NO_ERROR, text', data_ptr (tag_out args)))))))))"

text \<open>\<open>cipher_ctx\<close> is the global, true when it was created.\<close>

definition hwaes_aes_op ::
    "hwaes_env \<Rightarrow> bool \<Rightarrow> hwaes_aes_op_args \<Rightarrow> (hwaes_err \<times> outputs) res" where
  "hwaes_aes_op env cipher_ctx args =
     (let same = (data_ptr (text_out args), data_ptr (tag_out args)) in
      if padding args \<noteq> HWAES_NO_PADDING then Inr (HWAES_ERR_NOT_IMPLEMENTED, same)
      else if hwaes_check_arg_in (key_arg args) \<noteq> HWAES_NO_ERROR
      then Inr (hwaes_check_arg_in (key_arg args), same)
      else if hwaes_check_arg_in (text_in args) \<noteq> HWAES_NO_ERROR
      then Inr (hwaes_check_arg_in (text_in args), same)
      else if hwaes_check_arg_out (text_out args) \<noteq> HWAES_NO_ERROR
      then Inr (hwaes_check_arg_out (text_out args), same)
      else if arg_len (text_in args) \<noteq> arg_len (text_out args) then Inr (HWAES_ERR_INVALID_ARGS, same)
      else
        bindr (if key_type args = HWAES_OPAQUE_HANDLE then fetch_key env (key_arg args)
               else bindr (arg_bytes (key_arg args)) (\<lambda>b. Inr (Inr b, []))) (\<lambda>fetched.
        case fst fetched of
          Inl rc \<Rightarrow> Inr (rc, same)
        | Inr key \<Rightarrow>
            (case choose_cipher args (length key) of
               Inl rc \<Rightarrow> Inr (rc, same)
             | Inr cipher \<Rightarrow>
                 assertr cipher_ctx
                  (if \<not> CipherInit env cipher (encrypt args) then Inr (HWAES_ERR_GENERIC, same)
                   else if arg_len (text_in args) mod block_size env cipher \<noteq> 0
                   then Inr (HWAES_ERR_INVALID_ARGS, same)
                   else if iv_length env cipher \<noteq> arg_len (iv_arg args)
                   then Inr (HWAES_ERR_INVALID_ARGS, same)
                   else run_cipher env args cipher key))))"

section \<open>The application\<close>

definition hwaes_clients :: "uuid list" where
  "hwaes_clients = [''081ba88f-f1ee-452e-b5e8-a7e9ef173a97'', ''ab8a6820-1cc2-44d5-bee0-22b51befa835'']"

definition crypt_init :: "bool \<Rightarrow> bool \<Rightarrow> bool res" where
  "crypt_init new_ok cipher_ctx = assertr (\<not> cipher_ctx) (assertr new_ok (Inr new_ok))"

definition crypt_shutdown :: "bool \<Rightarrow> bool" where
  "crypt_shutdown cipher_ctx = False"

text \<open>
  \<open>main\<close>: the handle set, the service and the event loop are calls of the tipc library, given by
  their return codes; \<open>requests\<close> are the operations the loop calls the service with. The result is
  whether \<open>main\<close> returns success (it reaches the end of its body, which returns zero), the
  answers given, and the cipher context that is left.
\<close>

fun serve_requests ::
    "bool \<Rightarrow> (hwaes_env \<times> hwaes_aes_op_args) list \<Rightarrow> (hwaes_err \<times> outputs) list res" where
  "serve_requests cipher_ctx [] = Inr []"
| "serve_requests cipher_ctx ((env, args) # rest) =
     bindr (hwaes_aes_op env cipher_ctx args) (\<lambda>r.
       bindr (serve_requests cipher_ctx rest) (\<lambda>rs. Inr (r # rs)))"

definition hwaes_main ::
    "bool \<Rightarrow> int \<Rightarrow> bool \<Rightarrow> (hwaes_env \<times> hwaes_aes_op_args) list \<Rightarrow> int \<Rightarrow>
     (bool \<times> (hwaes_err \<times> outputs) list \<times> bool) res" where
  "hwaes_main hset_ok service_rc new_ok requests loop_rc =
     (if \<not> hset_ok then Inr (False, [], False)
      else if service_rc \<noteq> NO_ERROR then Inr (False, [], False)
      else
        bindr (crypt_init new_ok False) (\<lambda>cipher_ctx.
          bindr (serve_requests cipher_ctx requests) (\<lambda>answers.
            Inr (loop_rc = NO_ERROR, answers, crypt_shutdown cipher_ctx))))"

end
