(* ===== verification/Hwaes_Props.thy ===== *)
theory Hwaes_Props
  imports Hwaes
begin

text \<open>
  What the AES service guarantees: it never faults on arguments whose pointers are good, it
  succeeds only on well-formed requests and with the output of the cipher they ask for, and
  a rejected request leaves the output buffers alone.
\<close>

section \<open>Contracts\<close>

definition present :: "hwaes_arg \<Rightarrow> bool" where
  "present a \<longleftrightarrow> arg_len a \<noteq> 0 \<and> data_ptr a \<noteq> None"

lemma check_arg [simp]:
  "hwaes_check_arg_in a = HWAES_NO_ERROR \<longleftrightarrow> present a"
  "hwaes_check_arg_out a = HWAES_NO_ERROR \<longleftrightarrow> present a"
  "\<not> present a \<Longrightarrow> hwaes_check_arg_in a = HWAES_ERR_INVALID_ARGS"
  "\<not> present a \<Longrightarrow> hwaes_check_arg_out a = HWAES_ERR_INVALID_ARGS"
  by (auto simp: hwaes_check_arg_in_def hwaes_check_arg_out_def hwaes_check_arg_helper_def present_def)

text \<open>A pointer that is not null points to as many bytes as its length says.\<close>

definition good_ptr :: "hwaes_arg \<Rightarrow> bool" where
  "good_ptr a \<longleftrightarrow> (case data_ptr a of None \<Rightarrow> True | Some buf \<Rightarrow> arg_len a \<le> length buf)"

definition args_ok :: "hwaes_aes_op_args \<Rightarrow> bool" where
  "args_ok args \<longleftrightarrow> good_ptr (key_arg args) \<and> good_ptr (iv_arg args) \<and> good_ptr (aad_arg args) \<and>
     good_ptr (text_in args) \<and> good_ptr (text_out args) \<and> good_ptr (tag_in args) \<and> good_ptr (tag_out args)"

text \<open>
  The documented behaviour of the libraries: the hwkey client writes at most the given buffer
  size; a block size is a power of two; the cipher refuses a negative length, without padding it turns
  whole blocks into as many bytes, and writes no more than that when it fails; a tag is written in
  at most the requested length.
\<close>

definition hwaes_env_ok :: "hwaes_env \<Rightarrow> bool" where
  "hwaes_env_ok env \<longleftrightarrow>
     (\<forall>h n. length (snd (hwkey_get_keyslot_data env h n)) \<le> n) \<and>
     (\<forall>cipher. block_size env cipher dvd 2 ^ 32) \<and>
     (\<forall>j n text. length (snd (CipherUpdate env j n text)) \<le> length text) \<and>
     (\<forall>j n text. fst (CipherUpdate env j n text) \<longrightarrow> 0 \<le> n) \<and>
     (\<forall>j n text. fst (CipherUpdate env j n text) \<longrightarrow> length text mod block_size env (job_cipher j) = 0 \<longrightarrow>
        length (snd (CipherUpdate env j n text)) = length text) \<and>
     (\<forall>j text n. length (snd (get_tag env j text n)) \<le> nat n)"

lemma hwaes_env_okD:
  assumes "hwaes_env_ok env"
  shows "hwkey_get_keyslot_data env h n = (ret, bytes) \<Longrightarrow> length bytes \<le> n"
    and "CipherUpdate env j i text = (ok, out) \<Longrightarrow> length out \<le> length text"
    and "CipherUpdate env j i text = (True, out) \<Longrightarrow> length text mod block_size env (job_cipher j) = 0 \<Longrightarrow>
      length out = length text"
    and "get_tag env j text i = (ok, tag) \<Longrightarrow> length tag \<le> nat i"
    and "CipherUpdate env j i text = (True, out) \<Longrightarrow> 0 \<le> i"
    and "block_size env cipher dvd 2 ^ 32"
  using assms unfolding hwaes_env_ok_def by (metis fst_conv snd_conv)+

text \<open>The conversion of a length to \<open>int\<close> keeps it below \<open>2 ^ 31\<close>, never enlarges it and keeps its blocks.\<close>

lemma c_int_small: "n < 2 ^ 31 \<Longrightarrow> c_int n = int n"
  by (simp add: c_int_def)

lemma c_int_le: "nat (c_int n) \<le> n"
proof -
  have "(int n + 2 ^ 31) mod 2 ^ 32 \<le> int n + 2 ^ 31" by (rule zmod_le_nonneg_dividend) simp
  then show ?thesis unfolding c_int_def by linarith
qed

lemma c_int_mod:
  assumes "0 \<le> c_int n" and "b dvd 2 ^ 32" and "n mod b = 0"
  shows "nat (c_int n) mod b = 0"
proof -
  have "c_int n = int n - 2 ^ 32 * ((int n + 2 ^ 31) div 2 ^ 32)"
    unfolding c_int_def by (simp add: minus_div_mult_eq_mod [symmetric])
  moreover have "int b dvd 2 ^ 32" using assms(2) by (metis int_dvd_int_iff of_nat_numeral of_nat_power)
  moreover have "int b dvd int n" using assms(3) by auto
  ultimately have "int b dvd c_int n" by (simp add: dvd_mult2)
  then show ?thesis using assms(1) by (metis dvd_imp_mod_0 int_dvd_int_iff nat_0_le)
qed

lemma int_arg_sel [simp]: "arg_len (int_arg a) = nat (c_int (arg_len a))" "data_ptr (int_arg a) = data_ptr a"
  by (simp_all add: int_arg_def)

lemma int_arg_small: "arg_len a < 2 ^ 31 \<Longrightarrow> int_arg a = a"
  by (simp add: int_arg_def c_int_small)

lemma good_int_arg: "good_ptr a \<Longrightarrow> good_ptr (int_arg a)"
  using c_int_le [of "arg_len a"] by (auto simp: good_ptr_def split: option.splits)

lemma arg_bytes_good: "good_ptr a \<Longrightarrow> present a \<Longrightarrow> \<exists>b. arg_bytes a = Inr b \<and> length b = arg_len a"
  by (auto simp: good_ptr_def present_def arg_bytes_def mem_read_def)

lemma int_bytes_good:
  "good_ptr a \<Longrightarrow> present a \<Longrightarrow> \<exists>b. arg_bytes (int_arg a) = Inr b \<and> length b = nat (c_int (arg_len a))"
  using good_int_arg [of a] by (auto simp: good_ptr_def present_def arg_bytes_def mem_read_def)

lemma opt_bytes_good: "good_ptr a \<Longrightarrow> \<exists>b. opt_bytes a = Inr b \<and> (b \<noteq> None \<longleftrightarrow> present a)"
  using int_bytes_good [of a] by (auto simp: opt_bytes_def)

lemma put_bytes_good:
  "good_ptr a \<Longrightarrow> present a \<Longrightarrow> length bs \<le> arg_len a \<Longrightarrow> \<exists>b. put_bytes (data_ptr a) bs = Inr b"
  by (auto simp: good_ptr_def present_def put_bytes_def memcpy_to_def)

text \<open>A text of whole blocks that the cipher accepts keeps its converted length.\<close>

lemma update_length:
  assumes "hwaes_env_ok env" and "CipherUpdate env j (c_int n) text = (True, out)"
    and "length text = nat (c_int n)" and "n mod block_size env (job_cipher j) = 0"
  shows "int (length out) = c_int n"
proof -
  have "0 \<le> c_int n" using hwaes_env_okD(5) [OF assms(1,2)] .
  moreover from this have "length out = length text"
    using hwaes_env_okD(3) [OF assms(1,2)] c_int_mod hwaes_env_okD(6) [OF assms(1)] assms(3,4) by simp
  ultimately show ?thesis using assms(3) by simp
qed

lemma fetch_key_total:
  assumes "hwaes_env_ok env" and "good_ptr key" and "present key"
  shows "\<exists>r. fetch_key env key = Inr r"
proof -
  obtain h where h: "arg_bytes key = Inr h" using arg_bytes_good assms by blast
  obtain ret bytes where k: "hwkey_get_keyslot_data env (cstr h) (AES_KEY_MAX_SIZE env) = (ret, bytes)"
    by fastforce
  have "length bytes \<le> AES_KEY_MAX_SIZE env" using hwaes_env_okD(1) [OF assms(1) k] .
  with h k show ?thesis by (auto simp: fetch_key_def memcpy_to_def Let_def)
qed

lemma run_cipher_total:
  assumes env: "hwaes_env_ok env" and args: "args_ok args"
    and p: "present (text_in args)" "present (text_out args)"
    and len: "arg_len (text_in args) = arg_len (text_out args)"
      "arg_len (text_in args) mod block_size env cipher = 0"
  shows "\<exists>r. run_cipher env args cipher key = Inr r"
proof -
  note a = args [unfolded args_ok_def]
  obtain iv where iv: "(case data_ptr (iv_arg args) of None \<Rightarrow> Inr None
      | Some b \<Rightarrow> bindr (mem_read b 0 (arg_len (iv_arg args))) (\<lambda>v. Inr (Some v))) = Inr iv"
    using a by (auto simp: good_ptr_def mem_read_def split: option.splits)
  obtain aad where aad: "opt_bytes (aad_arg args) = Inr aad" using opt_bytes_good a by blast
  obtain tag where tag: "opt_bytes (tag_in args) = Inr tag" using opt_bytes_good a by blast
  obtain pt where pt: "arg_bytes (int_arg (text_in args)) = Inr pt" "length pt = nat (c_int (arg_len (text_in args)))"
    using int_bytes_good a p(1) by blast
  define j where "j = \<lparr>job_cipher = cipher, job_encrypt = encrypt args, job_key = key, job_iv = iv,
    job_aad = aad, job_tag = tag\<rparr>"
  obtain ok out where u: "CipherUpdate env j (c_int (arg_len (text_in args))) pt = (ok, out)" by fastforce
  obtain ok' tagbytes where t: "get_tag env j pt (c_int (arg_len (tag_out args))) = (ok', tagbytes)" by fastforce
  have "length out \<le> arg_len (text_out args)"
    using hwaes_env_okD(2) [OF env u] pt(2) len(1) c_int_le [of "arg_len (text_in args)"] by simp
  moreover have "ok \<Longrightarrow> int (length out) = c_int (arg_len (text_out args))"
    using update_length [OF env _ pt(2)] u len by (auto simp: j_def)
  ultimately have out: "length out \<le> arg_len (text_out args)" "ok \<Longrightarrow> int (length out) = c_int (arg_len (text_out args))"
    by auto
  then obtain pt' where pt': "put_bytes (data_ptr (text_out args)) out = Inr pt'"
    using put_bytes_good a p(2) by blast
  have "\<exists>tag'. present (tag_out args) \<longrightarrow> put_bytes (data_ptr (tag_out args)) tagbytes = Inr tag'"
    using put_bytes_good a hwaes_env_okD(4) [OF env t] c_int_le by (meson le_trans)
  then obtain tag' where tag': "present (tag_out args) \<longrightarrow> put_bytes (data_ptr (tag_out args)) tagbytes = Inr tag'"
    by blast
  show ?thesis
    unfolding run_cipher_def Let_def iv aad tag pt bindr_simps
    using u t out pt' tag'
    by (cases ok; cases aad; cases tag; cases "present (tag_out args)") (simp_all add: j_def)
qed

text \<open>C21: Whatever a client asks for, the operation returns: with good pointers and libraries that
  keep their documented behaviour no argument combination makes it read through a null pointer,
  overrun a buffer or fail an assertion.\<close>

theorem hwaes_no_fault:
  assumes "hwaes_env_ok env" and "args_ok args"
  shows "\<exists>r. hwaes_aes_op env True args = Inr r"
proof (cases "present (key_arg args) \<and> present (text_in args) \<and> present (text_out args)")
  case False
  then show ?thesis by (auto simp: hwaes_aes_op_def Let_def)
next
  case True
  obtain r1 where "fetch_key env (key_arg args) = Inr r1"
    using fetch_key_total [OF assms(1)] assms(2) True unfolding args_ok_def by blast
  moreover obtain k where "arg_bytes (key_arg args) = Inr k"
    using arg_bytes_good assms(2) True by (auto simp: args_ok_def)
  ultimately show ?thesis
    using True run_cipher_total [OF assms]
    by (auto simp: hwaes_aes_op_def Let_def split: sum.split simp del: bindr_eq_Inr)
qed

section \<open>Which requests succeed\<close>

text \<open>The key a request names: given in plain, or fetched for a terminated handle.\<close>

definition names_key :: "hwaes_env \<Rightarrow> hwaes_aes_op_args \<Rightarrow> byte list \<Rightarrow> bool" where
  "names_key env args key \<longleftrightarrow>
     (\<exists>bytes. arg_bytes (key_arg args) = Inr bytes \<and>
       (if key_type args = HWAES_OPAQUE_HANDLE
        then arg_len (key_arg args) \<le> HWKEY_OPAQUE_HANDLE_MAX_SIZE env \<and>
          bytes ! (arg_len (key_arg args) - 1) = 0 \<and> 0 \<le> hwkey_open env \<and>
          hwkey_get_keyslot_data env (cstr bytes) (AES_KEY_MAX_SIZE env) = (NO_ERROR, key)
        else key = bytes))"

text \<open>The cipher of a mode and a key length.\<close>

definition cipher_of :: "hwaes_mode \<Rightarrow> nat \<Rightarrow> evp_cipher \<Rightarrow> bool" where
  "cipher_of mode n cipher \<longleftrightarrow>
     (mode, n, cipher) \<in> {(HWAES_CBC_MODE, 16, EVP_aes_128_cbc), (HWAES_CBC_MODE, 32, EVP_aes_256_cbc),
       (HWAES_GCM_MODE, 16, EVP_aes_128_gcm), (HWAES_GCM_MODE, 32, EVP_aes_256_gcm)}"

definition well_formed :: "hwaes_env \<Rightarrow> hwaes_aes_op_args \<Rightarrow> byte list \<Rightarrow> evp_cipher \<Rightarrow> bool" where
  "well_formed env args key cipher \<longleftrightarrow>
     padding args = HWAES_NO_PADDING \<and>
     present (key_arg args) \<and> present (text_in args) \<and> present (text_out args) \<and>
     arg_len (text_in args) = arg_len (text_out args) \<and>
     cipher_of (aes_mode args) (length key) cipher \<and>
     (aes_mode args = HWAES_CBC_MODE \<longrightarrow>
        \<not> present (aad_arg args) \<and> \<not> present (tag_in args) \<and> \<not> present (tag_out args)) \<and>
     (aes_mode args = HWAES_GCM_MODE \<longrightarrow>
        present (tag_in args) = (\<not> encrypt args) \<and> present (tag_out args) = encrypt args) \<and>
     arg_len (text_in args) mod block_size env cipher = 0 \<and>
     arg_len (iv_arg args) = iv_length env cipher"

lemma choose_cipher_Inr:
  "choose_cipher args n = Inr cipher \<longleftrightarrow> cipher_of (aes_mode args) n cipher \<and>
     (aes_mode args = HWAES_CBC_MODE \<longrightarrow>
        \<not> present (aad_arg args) \<and> \<not> present (tag_in args) \<and> \<not> present (tag_out args)) \<and>
     (aes_mode args = HWAES_GCM_MODE \<longrightarrow>
        present (tag_in args) = (\<not> encrypt args) \<and> present (tag_out args) = encrypt args)"
  by (auto simp: choose_cipher_def cipher_of_def cbc_cipher_def gcm_cipher_def split: hwaes_mode.split)

lemma fetch_key_Inr:
  assumes "key_type args = HWAES_OPAQUE_HANDLE" and "hwaes_env_ok env"
  shows "(\<exists>ops. fetch_key env (key_arg args) = Inr (Inr key, ops)) \<longleftrightarrow> names_key env args key"
proof (cases "arg_bytes (key_arg args)")
  case (Inl e)
  then show ?thesis by (simp add: fetch_key_def names_key_def)
next
  case (Inr h)
  obtain ret bytes where k: "hwkey_get_keyslot_data env (cstr h) (AES_KEY_MAX_SIZE env) = (ret, bytes)"
    by fastforce
  show ?thesis
    using assms(1) hwaes_env_okD(1) [OF assms(2) k] Inr k
    by (auto simp: fetch_key_def names_key_def memcpy_to_def Let_def)
qed

text \<open>A session that the key resolution opens, it closes; it opens at most one.\<close>

lemma fetch_key_sessions:
  "fetch_key env key = Inr (r, ops) \<Longrightarrow>
    ops = [] \<and> r \<in> {Inl HWAES_ERR_INVALID_ARGS, Inl HWAES_ERR_GENERIC} \<or>
    ops = [Session_opened (hwkey_open env), Session_closed (hwkey_open env)] \<and> 0 \<le> hwkey_open env"
  by (auto simp: fetch_key_def Let_def split: if_splits prod.splits)

text \<open>The cipher context after everything it is told before the text.\<close>

definition job_of :: "hwaes_aes_op_args \<Rightarrow> evp_cipher \<Rightarrow> byte list \<Rightarrow> job" where
  "job_of args cipher key = \<lparr>job_cipher = cipher, job_encrypt = encrypt args, job_key = key,
     job_iv = map_option (take (arg_len (iv_arg args))) (data_ptr (iv_arg args)),
     job_aad = (if present (aad_arg args) then map_option (take (nat (c_int (arg_len (aad_arg args))))) (data_ptr (aad_arg args)) else None),
     job_tag = (if present (tag_in args) then map_option (take (nat (c_int (arg_len (tag_in args))))) (data_ptr (tag_in args)) else None)\<rparr>"

lemma opt_bytes_eq:
  "opt_bytes a = Inr b \<Longrightarrow> b = (if present a then map_option (take (nat (c_int (arg_len a)))) (data_ptr a) else None)"
  by (auto simp: opt_bytes_def arg_bytes_def mem_read_def present_def split: option.splits if_splits)

lemma arg_bytes_eq: "arg_bytes a = Inr b \<longleftrightarrow> (\<exists>buf. data_ptr a = Some buf \<and> arg_len a \<le> length buf \<and> b = take (arg_len a) buf)"
  by (auto simp: arg_bytes_def mem_read_def split: option.splits)

lemma run_cipher_success:
  assumes "run_cipher env args cipher key = Inr (HWAES_NO_ERROR, text', tag')"
  shows "\<exists>pt out buf. arg_bytes (int_arg (text_in args)) = Inr pt \<and>
    CipherUpdate env (job_of args cipher key) (c_int (arg_len (text_in args))) pt = (True, out) \<and>
    int (length out) = c_int (arg_len (text_out args)) \<and>
    data_ptr (text_out args) = Some buf \<and> text' = Some (out @ drop (length out) buf) \<and>
    CipherFinal env (job_of args cipher key) pt \<and>
    (\<not> present (tag_out args) \<longrightarrow> tag' = data_ptr (tag_out args)) \<and>
    (present (tag_out args) \<longrightarrow>
      (\<exists>t tbuf. get_tag env (job_of args cipher key) pt (c_int (arg_len (tag_out args))) = (True, t) \<and>
        data_ptr (tag_out args) = Some tbuf \<and> tag' = Some (t @ drop (length t) tbuf)))"
proof -
  from assms obtain iv aad tag pt where
    iv: "(case data_ptr (iv_arg args) of None \<Rightarrow> Inr None
      | Some b \<Rightarrow> bindr (mem_read b 0 (arg_len (iv_arg args))) (\<lambda>v. Inr (Some v))) = Inr iv"
    and aad: "opt_bytes (aad_arg args) = Inr aad" and tag: "opt_bytes (tag_in args) = Inr tag"
    and pt: "arg_bytes (int_arg (text_in args)) = Inr pt"
    by (auto simp: run_cipher_def Let_def split: if_splits)
  have "iv = map_option (take (arg_len (iv_arg args))) (data_ptr (iv_arg args))"
    using iv by (auto simp: mem_read_def split: option.splits if_splits)
  then have j: "\<lparr>job_cipher = cipher, job_encrypt = encrypt args, job_key = key, job_iv = iv,
      job_aad = aad, job_tag = tag\<rparr> = job_of args cipher key"
    using opt_bytes_eq [OF aad] opt_bytes_eq [OF tag] by (simp add: job_of_def)
  obtain ok out where u: "CipherUpdate env (job_of args cipher key) (c_int (arg_len (text_in args))) pt = (ok, out)"
    by fastforce
  obtain ok' t where g: "get_tag env (job_of args cipher key) pt (c_int (arg_len (tag_out args))) = (ok', t)"
    by fastforce
  from assms show ?thesis
    unfolding run_cipher_def Let_def iv aad tag pt bindr_simps job.update_convs j u prod.case g
    by (auto simp: put_bytes_def mem_simps u g split: if_splits option.splits)
qed

section \<open>An example\<close>

text \<open>A library that flips bits, and requests to it with a plain key of 16 bytes.\<close>

definition flip_env :: hwaes_env where
  "flip_env = \<lparr>AES_KEY_MAX_SIZE = 32, HWKEY_OPAQUE_HANDLE_MAX_SIZE = 128, hwkey_open = 1,
     hwkey_get_keyslot_data = (\<lambda>h n. (NO_ERROR, take n (replicate 16 5))),
     CipherInit = (\<lambda>_ _. True), block_size = (\<lambda>_. 2), iv_length = (\<lambda>_. 1), CipherInit_key = (\<lambda>_. True),
     set_padding = True, CipherUpdate_aad = (\<lambda>_ _. True), set_tag = (\<lambda>_ _. True),
     CipherUpdate = (\<lambda>j n text. (0 \<le> n, map (\<lambda>b. NOT b) text)),
     CipherFinal = (\<lambda>j text. job_tag j \<noteq> Some [0]), get_tag = (\<lambda>j text n. (True, replicate (nat n) 9))\<rparr>"

definition flip_args :: "hwaes_mode \<Rightarrow> bool \<Rightarrow> hwaes_arg \<Rightarrow> hwaes_aes_op_args" where
  "flip_args mode enc tag = \<lparr>key_arg = \<lparr>arg_len = 16, data_ptr = Some (replicate 16 1)\<rparr>,
     iv_arg = \<lparr>arg_len = 1, data_ptr = Some [3]\<rparr>, aad_arg = \<lparr>arg_len = 0, data_ptr = None\<rparr>,
     text_in = \<lparr>arg_len = 2, data_ptr = Some [1, 2]\<rparr>, text_out = \<lparr>arg_len = 2, data_ptr = Some [0, 0]\<rparr>,
     tag_in = tag, tag_out = \<lparr>arg_len = 0, data_ptr = None\<rparr>,
     key_type = Other_key_type 0, padding = HWAES_NO_PADDING, aes_mode = mode, encrypt = enc\<rparr>"

abbreviation no_arg :: hwaes_arg where
  "no_arg \<equiv> \<lparr>arg_len = 0, data_ptr = None\<rparr>"

lemma flip_env_ok: "hwaes_env_ok flip_env"
  by (simp add: hwaes_env_ok_def flip_env_def)

lemma flip_args_ok: "good_ptr tag \<Longrightarrow> args_ok (flip_args mode enc tag)"
  by (simp add: args_ok_def flip_args_def good_ptr_def)

theorem hwaes_no_fault_witness:
  "\<exists>r. hwaes_aes_op flip_env True (flip_args HWAES_CBC_MODE True no_arg) = Inr r"
  by (rule hwaes_no_fault [OF flip_env_ok flip_args_ok]) (simp add: good_ptr_def)

section \<open>Which requests are carried out\<close>

text \<open>The steps of a well-formed request up to the cipher calls.\<close>

lemma aes_op_eq:
  assumes env: "hwaes_env_ok env" and w: "well_formed env args key cipher" and k: "names_key env args key"
  shows "hwaes_aes_op env True args =
    (if CipherInit env cipher (encrypt args) then run_cipher env args cipher key
     else Inr (HWAES_ERR_GENERIC, data_ptr (text_out args), data_ptr (tag_out args)))"
proof -
  have "\<exists>ops. (if key_type args = HWAES_OPAQUE_HANDLE then fetch_key env (key_arg args)
      else bindr (arg_bytes (key_arg args)) (\<lambda>b. Inr (Inr b, []))) = Inr (Inr key, ops)"
    using fetch_key_Inr [OF _ env] k by (auto simp: names_key_def)
  then obtain ops where f: "(if key_type args = HWAES_OPAQUE_HANDLE then fetch_key env (key_arg args)
      else bindr (arg_bytes (key_arg args)) (\<lambda>b. Inr (Inr b, []))) = Inr (Inr key, ops)" by blast
  have c: "choose_cipher args (length key) = Inr cipher"
    using w by (simp add: choose_cipher_Inr well_formed_def)
  show ?thesis
    using w by (auto simp: hwaes_aes_op_def f c well_formed_def Let_def)
qed

lemma run_cipher_eq:
  assumes args: "args_ok args" and w: "well_formed env args key cipher"
    and j: "job_of args cipher key = j"
    and libs: "CipherInit_key env (j\<lparr>job_aad := None, job_tag := None\<rparr>)" "set_padding env"
      "present (aad_arg args) \<longrightarrow> CipherUpdate_aad env (j\<lparr>job_tag := None\<rparr>) (c_int (arg_len (aad_arg args)))"
      "present (tag_in args) \<longrightarrow> set_tag env j (c_int (arg_len (tag_in args)))"
    and pt: "arg_bytes (int_arg (text_in args)) = Inr pt"
      "CipherUpdate env j (c_int (arg_len (text_in args))) pt = (True, out)"
      "int (length out) = c_int (arg_len (text_out args))"
  shows "\<exists>buf. data_ptr (text_out args) = Some buf \<and> run_cipher env args cipher key =
    (let text' = Some (out @ drop (length out) buf) in
     if \<not> CipherFinal env j pt then Inr (HWAES_ERR_GENERIC, text', data_ptr (tag_out args))
     else if present (tag_out args) then
       (case get_tag env j pt (c_int (arg_len (tag_out args))) of (ok, t) \<Rightarrow>
          bindr (put_bytes (data_ptr (tag_out args)) t) (\<lambda>tag'.
            Inr (if ok then HWAES_NO_ERROR else HWAES_ERR_GENERIC, text', tag')))
     else Inr (HWAES_NO_ERROR, text', data_ptr (tag_out args)))"
proof -
  note a = args [unfolded args_ok_def]
  define v where "v = job_iv j"
  have iv: "(case data_ptr (iv_arg args) of None \<Rightarrow> Inr None
      | Some b \<Rightarrow> bindr (mem_read b 0 (arg_len (iv_arg args))) (\<lambda>v. Inr (Some v))) = Inr v"
    using a j by (auto simp: v_def good_ptr_def mem_read_def job_of_def split: option.splits)
  obtain aad where aad: "opt_bytes (aad_arg args) = Inr aad" "aad \<noteq> None \<longleftrightarrow> present (aad_arg args)"
    using opt_bytes_good a by blast
  obtain tag where tag: "opt_bytes (tag_in args) = Inr tag" "tag \<noteq> None \<longleftrightarrow> present (tag_in args)"
    using opt_bytes_good a by blast
  have jj: "j = \<lparr>job_cipher = cipher, job_encrypt = encrypt args, job_key = key, job_iv = v,
      job_aad = aad, job_tag = tag\<rparr>"
    using j opt_bytes_eq [OF aad(1)] opt_bytes_eq [OF tag(1)] by (auto simp: v_def job_of_def)
  have "length out \<le> arg_len (text_out args)" using pt(3) c_int_le [of "arg_len (text_out args)"] by linarith
  moreover obtain buf where buf: "data_ptr (text_out args) = Some buf" "arg_len (text_out args) \<le> length buf"
    using w a by (auto simp: well_formed_def present_def good_ptr_def)
  ultimately have out: "put_bytes (data_ptr (text_out args)) out = Inr (Some (out @ drop (length out) buf))"
    by (auto simp: put_bytes_def memcpy_to_def)
  have l: "CipherInit_key env \<lparr>job_cipher = cipher, job_encrypt = encrypt args, job_key = key, job_iv = v,
      job_aad = None, job_tag = None\<rparr>"
    "(aad \<noteq> None \<and> \<not> CipherUpdate_aad env \<lparr>job_cipher = cipher, job_encrypt = encrypt args, job_key = key,
      job_iv = v, job_aad = aad, job_tag = None\<rparr> (c_int (arg_len (aad_arg args)))) = False"
    "(tag \<noteq> None \<and> \<not> set_tag env j (c_int (arg_len (tag_in args)))) = False"
    using libs(1,3,4) aad(2) tag(2) by (simp_all add: jj)
  have "run_cipher env args cipher key =
    bindr (put_bytes (data_ptr (text_out args)) out) (\<lambda>text'.
      assertr (int (length out) = c_int (arg_len (text_out args)))
        (if \<not> CipherFinal env j pt then Inr (HWAES_ERR_GENERIC, text', data_ptr (tag_out args))
         else if hwaes_check_arg_out (tag_out args) = HWAES_NO_ERROR then
           (case get_tag env j pt (c_int (arg_len (tag_out args))) of (ok, tagbytes) \<Rightarrow>
              bindr (put_bytes (data_ptr (tag_out args)) tagbytes) (\<lambda>tag'.
                if \<not> ok then Inr (HWAES_ERR_GENERIC, text', tag')
                else Inr (HWAES_NO_ERROR, text', tag')))
         else Inr (HWAES_NO_ERROR, text', data_ptr (tag_out args))))"
    unfolding run_cipher_def Let_def iv aad(1) tag(1) pt(1) bindr_simps job.update_convs jj [symmetric]
    by (simp only: l libs(2) pt(2) prod.case if_False not_True_eq_False)
  with out buf(1) pt(3) show ?thesis
    by (auto simp: Let_def if_distrib [of Inr] intro!: arg_cong2 [where f = bindr] split: prod.split)
qed

text \<open>An operation that returns was rejected with the outputs untouched, or ran the cipher.\<close>

lemma aes_op_cases:
  assumes env: "hwaes_env_ok env" and r: "hwaes_aes_op env True args = Inr (st, outs)"
  obtains (rejected) "st \<noteq> HWAES_NO_ERROR" "outs = (data_ptr (text_out args), data_ptr (tag_out args))"
  | (run) key cipher where "names_key env args key" "well_formed env args key cipher"
      "CipherInit env cipher (encrypt args)" "run_cipher env args cipher key = Inr (st, outs)"
proof (cases "padding args = HWAES_NO_PADDING \<and> present (key_arg args) \<and> present (text_in args) \<and>
    present (text_out args) \<and> arg_len (text_in args) = arg_len (text_out args)")
  case False
  then show ?thesis by (intro rejected) (use r in \<open>auto simp: hwaes_aes_op_def Let_def split: if_splits\<close>)
next
  case True
  let ?fetch = "if key_type args = HWAES_OPAQUE_HANDLE then fetch_key env (key_arg args)
    else bindr (arg_bytes (key_arg args)) (\<lambda>b. Inr (Inr b, []))"
  from r True obtain fetched ops where f: "?fetch = Inr (fetched, ops)"
    by (cases ?fetch) (auto simp: hwaes_aes_op_def Let_def)
  show ?thesis
  proof (cases fetched)
    case (Inl rc)
    then have "rc \<noteq> HWAES_NO_ERROR"
      using f by (auto simp: fetch_key_def Let_def split: if_splits prod.splits)
    with r True f Inl show ?thesis by (intro rejected) (auto simp: hwaes_aes_op_def Let_def)
  next
    case (Inr key)
    have k: "names_key env args key"
      using f Inr fetch_key_Inr [OF _ env] by (auto simp: names_key_def split: if_splits)
    show ?thesis
    proof (cases "\<exists>cipher. well_formed env args key cipher \<and> CipherInit env cipher (encrypt args)")
      case True
      with aes_op_eq [OF env _ k] r k show ?thesis by (auto intro: run)
    next
      case False
      have c: "choose_cipher args (length key) = Inr cipher \<Longrightarrow> CipherInit env cipher (encrypt args) \<Longrightarrow>
        arg_len (text_in args) mod block_size env cipher = 0 \<Longrightarrow>
        iv_length env cipher = arg_len (iv_arg args) \<Longrightarrow> False" for cipher
      proof -
        assume "choose_cipher args (length key) = Inr cipher" "CipherInit env cipher (encrypt args)"
          "arg_len (text_in args) mod block_size env cipher = 0" "iv_length env cipher = arg_len (iv_arg args)"
        with True have "well_formed env args key cipher" by (simp add: well_formed_def choose_cipher_Inr)
        with False \<open>CipherInit env cipher (encrypt args)\<close> show False by blast
      qed
      have n: "choose_cipher args (length key) \<noteq> Inl HWAES_NO_ERROR"
        by (auto simp: choose_cipher_def split: hwaes_mode.split option.split)
      show ?thesis
        by (intro rejected) (use r True f Inr c n in
          \<open>auto simp: hwaes_aes_op_def Let_def split: sum.splits if_splits\<close>)
    qed
  qed
qed

text \<open>C22: The operation succeeds only on a well-formed request (padding off, equal text lengths of
  whole blocks, a key of 16 or 32 bytes, the right IV length, tags and associated data exactly as
  the mode wants them), and then both outputs are those of the cipher for the mode, with the key the
  request names: the text is what the cipher made of the text it was given, the tag buffer of a GCM
  encryption holds the tag read from the cipher and any other tag buffer is untouched; in GCM
  decryption the tag the client gave has been accepted. The text given to the cipher is the whole
  text when its length is below \<open>2 ^ 31\<close>; the length is converted to \<open>int\<close>, so of a longer one the
  cipher sees the remainder modulo \<open>2 ^ 32\<close> only.\<close>

theorem hwaes_success:
  assumes "hwaes_env_ok env" and "hwaes_aes_op env True args = Inr (HWAES_NO_ERROR, text', tag')"
  shows "\<exists>key cipher j pt out buf. names_key env args key \<and> well_formed env args key cipher \<and>
    j = job_of args cipher key \<and> arg_bytes (int_arg (text_in args)) = Inr pt \<and>
    CipherUpdate env j (c_int (arg_len (text_in args))) pt = (True, out) \<and>
    data_ptr (text_out args) = Some buf \<and> text' = Some (out @ drop (length out) buf) \<and>
    int (length out) = c_int (arg_len (text_out args)) \<and>
    (arg_len (text_in args) < 2 ^ 31 \<longrightarrow>
       arg_bytes (text_in args) = Inr pt \<and> length out = arg_len (text_out args)) \<and>
    CipherFinal env j pt \<and>
    (if aes_mode args = HWAES_GCM_MODE \<and> encrypt args
     then \<exists>t tbuf. get_tag env j pt (c_int (arg_len (tag_out args))) = (True, t) \<and>
       data_ptr (tag_out args) = Some tbuf \<and> tag' = Some (t @ drop (length t) tbuf)
     else tag' = data_ptr (tag_out args)) \<and>
    (aes_mode args = HWAES_GCM_MODE \<and> \<not> encrypt args \<longrightarrow> job_tag j \<noteq> None)"
proof (cases rule: aes_op_cases [OF assms, case_names rejected run])
  case rejected
  then show ?thesis by simp
next
  case (run key cipher)
  let ?j = "job_of args cipher key"
  obtain pt out buf where u: "arg_bytes (int_arg (text_in args)) = Inr pt"
    "CipherUpdate env ?j (c_int (arg_len (text_in args))) pt = (True, out)"
    "int (length out) = c_int (arg_len (text_out args))"
    "data_ptr (text_out args) = Some buf" "text' = Some (out @ drop (length out) buf)" "CipherFinal env ?j pt"
    and tag: "\<not> present (tag_out args) \<longrightarrow> tag' = data_ptr (tag_out args)"
      "present (tag_out args) \<longrightarrow> (\<exists>t tbuf. get_tag env ?j pt (c_int (arg_len (tag_out args))) = (True, t) \<and>
        data_ptr (tag_out args) = Some tbuf \<and> tag' = Some (t @ drop (length t) tbuf))"
    using run_cipher_success [OF run(4)] by blast
  have "arg_bytes (text_in args) = Inr pt \<and> length out = arg_len (text_out args)" if "arg_len (text_in args) < 2 ^ 31"
    using u(1,3) that run(2) int_arg_small [OF that] c_int_small [OF that] by (simp add: well_formed_def)
  then have whole: "arg_len (text_in args) < 2 ^ 31 \<longrightarrow> arg_bytes (text_in args) = Inr pt \<and> length out = arg_len (text_out args)"
    by blast
  have "present (tag_out args) \<longleftrightarrow> aes_mode args = HWAES_GCM_MODE \<and> encrypt args"
    using run(2) by (auto simp: well_formed_def cipher_of_def)
  with tag have t: "if aes_mode args = HWAES_GCM_MODE \<and> encrypt args
     then \<exists>t tbuf. get_tag env ?j pt (c_int (arg_len (tag_out args))) = (True, t) \<and>
       data_ptr (tag_out args) = Some tbuf \<and> tag' = Some (t @ drop (length t) tbuf)
     else tag' = data_ptr (tag_out args)" by (simp split: if_split)
  have jt: "aes_mode args = HWAES_GCM_MODE \<and> \<not> encrypt args \<longrightarrow> job_tag ?j \<noteq> None"
    using run(2) by (auto simp: job_of_def well_formed_def present_def)
  show ?thesis
    by (intro exI conjI) (rule run(1) run(2) refl u(1) u(2) u(4) u(5) u(3) whole u(6) t jt)+
qed

lemma c_int_eval [simp]: "c_int 0 = 0" "c_int (Suc 0) = 1" "c_int 1 = 1" "c_int 2 = 2" "c_int (Suc (Suc 0)) = 2"
  by (simp_all add: c_int_def)

text \<open>A GCM encryption: the second output is the tag.\<close>

definition flip_gcm_args :: hwaes_aes_op_args where
  "flip_gcm_args = (flip_args HWAES_GCM_MODE True no_arg)\<lparr>tag_out := \<lparr>arg_len = 2, data_ptr = Some [0, 0, 0]\<rparr>\<rparr>"

lemma flip_gcm: "hwaes_aes_op flip_env True flip_gcm_args = Inr (HWAES_NO_ERROR, Some [NOT 1, NOT 2], Some [9, 9, 0])"
  by (simp add: hwaes_aes_op_def flip_gcm_args_def flip_args_def flip_env_def present_def arg_bytes_def mem_read_def
      choose_cipher_def gcm_cipher_def run_cipher_def opt_bytes_def put_bytes_def memcpy_to_def Let_def numeral_2_eq_2)

theorem hwaes_success_witness:
  "\<exists>key cipher j. names_key flip_env flip_gcm_args key \<and> well_formed flip_env flip_gcm_args key cipher \<and>
    get_tag flip_env j [1, 2] 2 = (True, [9, 9])"
proof -
  have "aes_mode flip_gcm_args = HWAES_GCM_MODE" "encrypt flip_gcm_args"
    "arg_bytes (int_arg (text_in flip_gcm_args)) = Inr [1, 2]" "data_ptr (tag_out flip_gcm_args) = Some [0, 0, 0]"
    by (simp_all add: flip_gcm_args_def flip_args_def arg_bytes_def mem_read_def numeral_2_eq_2)
  moreover have "get_tag flip_env j [1, 2] 2 = (True, [9, 9])" for j by (simp add: flip_env_def numeral_2_eq_2)
  ultimately show ?thesis using hwaes_success [OF flip_env_ok flip_gcm] by blast
qed

text \<open>C24: A request that is rejected leaves the caller's output buffers as they were: the operation
  writes to them only when it succeeds or when it reports \<open>HWAES_ERR_GENERIC\<close>, the error of a
  failing cipher call.\<close>

theorem hwaes_rejected_untouched:
  assumes "hwaes_env_ok env" and "hwaes_aes_op env True args = Inr (st, outs)"
    and "st \<in> {HWAES_ERR_INVALID_ARGS, HWAES_ERR_NOT_IMPLEMENTED, HWAES_ERR_IO}"
  shows "outs = (data_ptr (text_out args), data_ptr (tag_out args))"
proof (cases rule: aes_op_cases [OF assms(1,2), case_names rejected run])
  case rejected
  then show ?thesis by simp
next
  case (run key cipher)
  from run(4) have "st \<in> {HWAES_NO_ERROR, HWAES_ERR_GENERIC}"
    by (auto simp: run_cipher_def Let_def case_prod_beta split: if_splits)
  with assms(3) show ?thesis by auto
qed

theorem hwaes_rejected_untouched_witness:
  "\<exists>outs. hwaes_aes_op flip_env True (flip_args (Other_mode 7) True no_arg) = Inr (HWAES_ERR_NOT_IMPLEMENTED, outs) \<and>
    outs = (Some [0, 0], None)"
proof -
  obtain outs where o: "hwaes_aes_op flip_env True (flip_args (Other_mode 7) True no_arg) =
      Inr (HWAES_ERR_NOT_IMPLEMENTED, outs)"
    by (simp add: hwaes_aes_op_def flip_args_def present_def arg_bytes_def mem_read_def choose_cipher_def Let_def)
  from hwaes_rejected_untouched [OF flip_env_ok o] o show ?thesis by (simp add: flip_args_def)
qed

text \<open>C23: A well-formed request whose cipher calls succeed is carried out: the operation reports no
  error, the output buffer holds what the cipher produced for it and the tag buffer of a GCM
  encryption the tag read from it. If only the final call fails (in GCM decryption: the tag does not
  fit), it reports \<open>HWAES_ERR_GENERIC\<close>, no tag is written, and the output buffer holds the decrypted
  text nevertheless.\<close>

theorem hwaes_completes:
  assumes "hwaes_env_ok env" and "args_ok args" and "names_key env args key"
    and "well_formed env args key cipher" and "CipherInit env cipher (encrypt args)"
    and "j = job_of args cipher key" and "CipherInit_key env (j\<lparr>job_aad := None, job_tag := None\<rparr>)"
    and "set_padding env"
    and "present (aad_arg args) \<longrightarrow> CipherUpdate_aad env (j\<lparr>job_tag := None\<rparr>) (c_int (arg_len (aad_arg args)))"
    and "present (tag_in args) \<longrightarrow> set_tag env j (c_int (arg_len (tag_in args)))"
    and "arg_bytes (int_arg (text_in args)) = Inr pt"
    and "CipherUpdate env j (c_int (arg_len (text_in args))) pt = (True, out)"
    and "get_tag env j pt (c_int (arg_len (tag_out args))) = (ok, t)" and "present (tag_out args) \<longrightarrow> ok"
  shows "\<exists>buf. data_ptr (text_out args) = Some buf \<and>
    hwaes_aes_op env True args =
      Inr (if CipherFinal env j pt then HWAES_NO_ERROR else HWAES_ERR_GENERIC,
        Some (out @ drop (length out) buf),
        if CipherFinal env j pt \<and> aes_mode args = HWAES_GCM_MODE \<and> encrypt args
        then map_option (\<lambda>tbuf. t @ drop (length t) tbuf) (data_ptr (tag_out args))
        else data_ptr (tag_out args))"
proof -
  have pt: "length pt = nat (c_int (arg_len (text_in args)))" using assms(11) by (auto simp: arg_bytes_eq)
  have len: "int (length out) = c_int (arg_len (text_out args))"
    using update_length [OF assms(1,12) pt] assms(4,6) by (auto simp: well_formed_def job_of_def)
  have tag: "present (tag_out args) \<longleftrightarrow> aes_mode args = HWAES_GCM_MODE \<and> encrypt args"
    using assms(4) by (auto simp: well_formed_def cipher_of_def)
  obtain buf where buf: "data_ptr (text_out args) = Some buf" and r: "run_cipher env args cipher key =
    (let text' = Some (out @ drop (length out) buf) in
     if \<not> CipherFinal env j pt then Inr (HWAES_ERR_GENERIC, text', data_ptr (tag_out args))
     else if present (tag_out args) then
       (case get_tag env j pt (c_int (arg_len (tag_out args))) of (ok, t) \<Rightarrow>
          bindr (put_bytes (data_ptr (tag_out args)) t) (\<lambda>tag'.
            Inr (if ok then HWAES_NO_ERROR else HWAES_ERR_GENERIC, text', tag')))
     else Inr (HWAES_NO_ERROR, text', data_ptr (tag_out args)))"
    using run_cipher_eq [OF assms(2,4) assms(6) [symmetric] assms(7-12) len] by blast
  have "length t \<le> arg_len (tag_out args)"
    using hwaes_env_okD(4) [OF assms(1,13)] c_int_le [of "arg_len (tag_out args)"] by linarith
  then have "put_bytes (data_ptr (tag_out args)) t =
      Inr (map_option (\<lambda>tbuf. t @ drop (length t) tbuf) (data_ptr (tag_out args)))" if "present (tag_out args)"
    using that assms(2) by (auto simp: args_ok_def good_ptr_def present_def put_bytes_def memcpy_to_def)
  then show ?thesis
    using buf r assms(5,13,14) aes_op_eq [OF assms(1,4,3)] tag by (auto simp: Let_def)
qed

theorem hwaes_completes_witness:
  "hwaes_aes_op flip_env True flip_gcm_args = Inr (HWAES_NO_ERROR, Some [NOT 1, NOT 2], Some [9, 9, 0])"
proof -
  let ?a = flip_gcm_args and ?k = "replicate 16 (1 :: byte)"
  define j where "j = job_of ?a EVP_aes_128_gcm ?k"
  have k: "names_key flip_env ?a ?k"
    by (simp add: names_key_def flip_gcm_args_def flip_args_def arg_bytes_def mem_read_def)
  have w: "well_formed flip_env ?a ?k EVP_aes_128_gcm"
    by (simp add: well_formed_def flip_gcm_args_def flip_args_def flip_env_def present_def cipher_of_def)
  have f: "CipherInit flip_env EVP_aes_128_gcm True" "CipherInit_key flip_env (j\<lparr>job_aad := None, job_tag := None\<rparr>)"
    "set_padding flip_env" "CipherUpdate flip_env j 2 [1, 2] = (True, [NOT 1, NOT 2])"
    "CipherFinal flip_env j [1, 2]" "get_tag flip_env j [1, 2] 2 = (True, [9, 9])"
    by (simp_all add: flip_env_def j_def job_of_def flip_gcm_args_def flip_args_def present_def numeral_2_eq_2)
  have p: "\<not> present (aad_arg ?a)" "\<not> present (tag_in ?a)" "arg_bytes (int_arg (text_in ?a)) = Inr [1, 2]"
    "encrypt ?a = True" "data_ptr (text_out ?a) = Some [0, 0]" "data_ptr (tag_out ?a) = Some [0, 0, 0]"
    "aes_mode ?a = HWAES_GCM_MODE" "arg_len (text_in ?a) = 2" "arg_len (tag_out ?a) = 2"
    by (simp_all add: flip_gcm_args_def flip_args_def present_def arg_bytes_def mem_read_def numeral_2_eq_2)
  have "args_ok ?a" by (simp add: args_ok_def flip_gcm_args_def flip_args_def good_ptr_def)
  from hwaes_completes [OF flip_env_ok this k w _ j_def, of "[1, 2]" "[NOT 1, NOT 2]" True "[9, 9]"] f p
  show ?thesis by simp
qed

end
