(* ===== verification/Lender.thy ===== *)
theory Lender
  imports Prelude
begin

text \<open>
  The memory lender (\<open>memref-test/lender/lender.c\<close>): three pages, of which it lends memory
  references, and one of which clients read and write by region. \<open>size_t\<close> is a word of any
  width.
\<close>

section \<open>Messages and state\<close>

datatype lender_command =
    LENDER_LEND_BSS
  | LENDER_LEND_RO
  | LENDER_LEND_RW
  | LENDER_SUICIDE
  | LENDER_READ_BSS
  | LENDER_WRITE_BSS
  | Bad_command int

record 'n lender_region =
  offset :: 'n
  region_size :: 'n

record 'n lender_msg =
  lender_cmd :: lender_command
  region :: "'n lender_region"

definition PAGE_SIZE :: nat where
  [simp]: "PAGE_SIZE = 0x1000"

definition MAX_WRITE :: nat where
  [simp]: "MAX_WRITE = 0x800"

text \<open>A memory reference is \<open>None\<close> while it is the invalid handle.\<close>

record lender_state =
  bss_page :: "byte list"
  bss_memref :: "handle_t option"
  ro_memref :: "handle_t option"
  rw_memref :: "handle_t option"

datatype lender_out =
    Lent handle_t
  | Sent_bytes "byte list"

text \<open>
  The answers of the IPC layer during one message: the message with the bytes after its header,
  what was in the data array on the stack, and the results of the sends.
\<close>

record (overloaded) ('w::len) lender_env =
  lender_recv :: "int + 'w word lender_msg \<times> byte list"
  stack_data :: "byte list"
  lender_send_msg :: int
  lender_send1 :: "nat \<Rightarrow> int"

definition lender_initial :: lender_state where
  "lender_initial = \<lparr>bss_page = replicate PAGE_SIZE 0, bss_memref = None, ro_memref = None, rw_memref = None\<rparr>"

text \<open>The port; \<open>msg_size\<close> is \<open>sizeof(struct lender_msg)\<close>.\<close>

definition LENDER_PORT :: string where
  "LENDER_PORT = ''com.android.memref.lender''"

definition lender_port_acl :: tipc_port_acl where
  "lender_port_acl = \<lparr>allow_ta_connect = True, allow_ns_connect = False, uuid_num = 0\<rparr>"

definition lender_port :: "nat \<Rightarrow> tipc_port" where
  "lender_port msg_size = \<lparr>port_name = LENDER_PORT, msg_max_size = msg_size + MAX_WRITE, msg_queue_len = 1,
     port_acl = lender_port_acl\<rparr>"

section \<open>Operations\<close>

text \<open>\<open>init\<close>: the results of the three calls of \<open>memref_create\<close>; only the read-only page may fail.\<close>

definition lender_init :: "int \<Rightarrow> int \<Rightarrow> int \<Rightarrow> lender_state \<Rightarrow> lender_state res" where
  "lender_init bss_rc ro_rc rw_rc s =
     (if bss_rc < 0 then Inl Aborted
      else
        let s1 = s\<lparr>bss_memref := Some bss_rc\<rparr>;
            s2 = (if ro_rc < 0 then s1 else s1\<lparr>ro_memref := Some ro_rc\<rparr>)
        in if rw_rc < 0 then Inl Aborted else Inr (s2\<lparr>rw_memref := Some rw_rc\<rparr>))"

definition lender_lend ::
    "'w::len lender_env \<Rightarrow> lender_command \<Rightarrow> lender_state \<Rightarrow> int \<times> lender_out list" where
  "lender_lend env command s =
     (let to_lend = (case command of
          LENDER_LEND_BSS \<Rightarrow> Some (bss_memref s)
        | LENDER_LEND_RO \<Rightarrow> Some (ro_memref s)
        | LENDER_LEND_RW \<Rightarrow> Some (rw_memref s)
        | _ \<Rightarrow> None)
      in case to_lend of
           None \<Rightarrow> (-1, [])
         | Some None \<Rightarrow> (-1, [])
         | Some (Some h) \<Rightarrow> (lender_send_msg env, [Lent h]))"

text \<open>\<open>__builtin_add_overflow\<close>: the sum wraps exactly when it is smaller than a summand.\<close>

definition lender_check_region :: "'w::len word lender_region \<Rightarrow> nat \<Rightarrow> int" where
  "lender_check_region r limit =
     (let fin = offset r + region_size r in
      if fin < offset r then -1
      else if unat fin > limit then -1
      else 0)"

definition lender_read_bss ::
    "'w::len lender_env \<Rightarrow> 'w word lender_region \<Rightarrow> lender_state \<Rightarrow> (int \<times> lender_out list) res" where
  "lender_read_bss env r s =
     (if lender_check_region r PAGE_SIZE \<noteq> 0 then Inr (-1, [])
      else
        bindr (mem_read (bss_page s) (unat (offset r)) (unat (region_size r))) (\<lambda>bytes.
          let rc = lender_send1 env (length bytes) in
          if rc \<noteq> int (unat (region_size r)) then Inr (-1, [Sent_bytes bytes])
          else Inr (0, [Sent_bytes bytes])))"

definition lender_write_bss ::
    "'w::len lender_env \<Rightarrow> 'w word lender_region \<Rightarrow> byte list \<Rightarrow> lender_state \<Rightarrow>
     (int \<times> lender_out list \<times> lender_state) res" where
  "lender_write_bss env r data s =
     (if lender_check_region r PAGE_SIZE \<noteq> 0 then Inr (-1, [], s)
      else
        bindr (mem_read data 0 (unat (region_size r))) (\<lambda>bytes.
          bindr (memcpy_to (bss_page s) (unat (offset r)) bytes) (\<lambda>page.
            Inr (lender_send1 env 0, [Sent_bytes []], s\<lparr>bss_page := page\<rparr>))))"

text \<open>
  The handler: \<open>None\<close> as return code is a process that exited. The result is the return code (a
  negative one makes the server close the channel), what was sent and the state.
\<close>

definition lender_on_message ::
    "'w::len lender_env \<Rightarrow> lender_state \<Rightarrow> (int option \<times> lender_out list \<times> lender_state) res" where
  "lender_on_message env s =
     (case lender_recv env of
        Inl rc \<Rightarrow> Inr (Some rc, [], s)
      | Inr (msg, payload) \<Rightarrow>
          bindr (memcpy_to (stack_data env) 0 payload) (\<lambda>data.
            case lender_cmd msg of
              LENDER_SUICIDE \<Rightarrow> Inr (None, [], s)
            | LENDER_READ_BSS \<Rightarrow>
                bindr (lender_read_bss env (region msg) s) (\<lambda>(rc, out).
                  Inr (Some (if rc < 0 then rc else 0), out, s))
            | LENDER_WRITE_BSS \<Rightarrow>
                if of_nat (length payload) \<noteq> region_size (region msg) then Inr (Some (-1), [], s)
                else
                  bindr (lender_write_bss env (region msg) data s) (\<lambda>(rc, out, s1).
                    Inr (Some (if rc < 0 then rc else 0), out, s1))
            | Bad_command n \<Rightarrow> Inr (Some (-1), [], s)
            | command \<Rightarrow>
                (case lender_lend env command s of (rc, out) \<Rightarrow>
                   Inr (Some (if rc < 0 then rc else 0), out, s))))"

text \<open>
  \<open>main\<close>: the handle set is tested against null only, although \<open>tipc_hset_create\<close> reports errors as
  error pointers; \<open>hset_null\<close> is that test, the other codes are those of the tipc library. The loop
  handles the given messages; a process that exits in the handler ends with the code of \<open>exit\<close>.
\<close>

fun lender_serve ::
    "'w::len lender_env list \<Rightarrow> lender_state \<Rightarrow> (int option \<times> lender_state) res" where
  "lender_serve [] s = Inr (None, s)"
| "lender_serve (env # envs) s =
     bindr (lender_on_message env s) (\<lambda>(rc, out, s1).
       case rc of None \<Rightarrow> Inr (Some 0, s1) | Some _ \<Rightarrow> lender_serve envs s1)"

definition lender_main ::
    "int \<times> int \<times> int \<Rightarrow> bool \<Rightarrow> int \<Rightarrow> 'w::len lender_env list \<Rightarrow> int \<Rightarrow> (int \<times> lender_state) res" where
  "lender_main memrefs hset_null service_rc envs loop_rc =
     (case memrefs of (bss_rc, ro_rc, rw_rc) \<Rightarrow>
        bindr (lender_init bss_rc ro_rc rw_rc lender_initial) (\<lambda>s.
          if hset_null then Inr (-1, s)
          else if service_rc < 0 then Inr (service_rc, s)
          else bindr (lender_serve envs s) (\<lambda>(exited, s1).
            Inr (case exited of None \<Rightarrow> loop_rc | Some code \<Rightarrow> code, s1))))"

end
