(* ===== verification/Lender_Props.thy ===== *)
theory Lender_Props
  imports Lender
begin

text \<open>
  What the memory lender guarantees: every message is served inside the page and the data array, the
  page behaves as memory, regions outside it are refused, and each command lends the reference it
  names.
\<close>

section \<open>The contract of the IPC layer\<close>

text \<open>
  \<open>tipc_recv2\<close> fills the message and at most the \<open>MAX_WRITE\<close> bytes of the data array, and fails
  with a negative code; no message of another size is delivered.
\<close>

definition lender_env_ok :: "'w::len lender_env \<Rightarrow> bool" where
  "lender_env_ok env \<longleftrightarrow>
     length (stack_data env) = MAX_WRITE \<and>
     (case lender_recv env of Inl rc \<Rightarrow> rc < 0 | Inr (msg, payload) \<Rightarrow> length payload \<le> MAX_WRITE)"

text \<open>The port admits exactly the messages whose payload fits the data array.\<close>

lemma lender_port_payload: "msg_size + length payload \<le> msg_max_size (lender_port msg_size) \<longleftrightarrow> length payload \<le> MAX_WRITE"
  by (simp add: lender_port_def)

definition lender_ok :: "lender_state \<Rightarrow> bool" where
  "lender_ok s \<longleftrightarrow> length (bss_page s) = PAGE_SIZE"

text \<open>The memory references of a state, which no message changes.\<close>

definition memrefs :: "lender_state \<Rightarrow> handle_t option \<times> handle_t option \<times> handle_t option" where
  "memrefs s = (bss_memref s, ro_memref s, rw_memref s)"

section \<open>Regions\<close>

lemma unat_add_no_wrap: "\<not> a + b < a \<Longrightarrow> unat (a + b) = unat a + unat b" for a b :: "'w::len word"
  by (simp add: unat_plus_simple [symmetric] not_less)

lemma add_wraps: "a + b < a \<Longrightarrow> 2 ^ LENGTH('w) \<le> unat a + unat b" for a b :: "'w::len word"
  by (metis not_le no_olen_add_nat not_less olen_add_eqv)

lemma check_region_iff:
  fixes r :: "'w::len word lender_region"
  assumes "limit < 2 ^ LENGTH('w)"
  shows "lender_check_region r limit = 0 \<longleftrightarrow> unat (offset r) + unat (region_size r) \<le> limit"
  using assms add_wraps [of "offset r" "region_size r"] unat_add_no_wrap [of "offset r" "region_size r"]
  by (auto simp: lender_check_region_def Let_def)

lemma check_region_bound:
  "lender_check_region r limit = 0 \<Longrightarrow> unat (offset r) + unat (region_size r) \<le> limit"
  using unat_add_no_wrap [of "offset r" "region_size r"]
  by (auto simp: lender_check_region_def Let_def split: if_splits)

section \<open>Every run\<close>

lemma read_total:
  assumes "lender_ok s"
  shows "\<exists>rc out. lender_read_bss env r s = Inr (rc, out)"
  using assms check_region_bound [of r PAGE_SIZE]
  by (auto simp: lender_read_bss_def lender_ok_def mem_read_def Let_def)

lemma write_total:
  assumes "lender_ok s" and "unat (region_size r) \<le> length data"
  shows "\<exists>rc out s'. lender_write_bss env r data s = Inr (rc, out, s') \<and> lender_ok s' \<and> memrefs s' = memrefs s"
  using assms check_region_bound [of r PAGE_SIZE]
  by (auto simp: lender_write_bss_def lender_ok_def mem_read_def memcpy_to_def memrefs_def Let_def)

lemma unat_of_nat_le: "unat (of_nat n :: 'w::len word) \<le> n"
  by (simp add: unat_of_nat)

lemma message_total:
  assumes "lender_env_ok env" and "lender_ok s"
  shows "\<exists>rc out s'. lender_on_message env s = Inr (rc, out, s') \<and> lender_ok s' \<and> memrefs s' = memrefs s"
proof (cases "lender_recv env")
  case (Inl rc)
  with assms show ?thesis by (simp add: lender_on_message_def)
next
  case (Inr p)
  obtain msg payload where p: "p = (msg, payload)" by fastforce
  have len: "length (stack_data env) = MAX_WRITE" "length payload \<le> MAX_WRITE"
    using assms(1) Inr p by (simp_all add: lender_env_ok_def)
  let ?data = "payload @ drop (length payload) (stack_data env)"
  have copy: "memcpy_to (stack_data env) 0 payload = Inr ?data" "length payload \<le> length ?data"
    using len by (simp_all add: memcpy_to_def)
  show ?thesis
  proof (cases "lender_cmd msg")
    case LENDER_READ_BSS
    moreover obtain rc out where "lender_read_bss env (region msg) s = Inr (rc, out)"
      using read_total [OF assms(2)] by blast
    ultimately show ?thesis using Inr p copy(1) assms(2) by (simp add: lender_on_message_def)
  next
    case LENDER_WRITE_BSS
    show ?thesis
    proof (cases "of_nat (length payload) = region_size (region msg)")
      case True
      then have "unat (region_size (region msg)) \<le> length ?data"
        using copy(2) unat_of_nat_le [of "length payload", where 'w = 'a] by (metis le_trans)
      then obtain rc out s' where "lender_write_bss env (region msg) ?data s = Inr (rc, out, s')"
        "lender_ok s'" "memrefs s' = memrefs s"
        using write_total [OF assms(2)] by blast
      with Inr p copy(1) LENDER_WRITE_BSS True show ?thesis by (simp add: lender_on_message_def)
    qed (use Inr p copy(1) LENDER_WRITE_BSS assms(2) in \<open>simp add: lender_on_message_def\<close>)
  qed (use Inr p copy(1) assms(2) in \<open>auto simp: lender_on_message_def split: prod.split\<close>)
qed

lemma serve_total:
  assumes "\<forall>env \<in> set envs. lender_env_ok env" and "lender_ok s"
  shows "\<exists>exited s'. lender_serve envs s = Inr (exited, s') \<and> lender_ok s' \<and> memrefs s' = memrefs s"
  using assms
proof (induction envs arbitrary: s)
  case (Cons env envs)
  obtain rc out s1 where "lender_on_message env s = Inr (rc, out, s1)" "lender_ok s1" "memrefs s1 = memrefs s"
    using message_total Cons.prems by (metis list.set_intros(1))
  moreover obtain e s' where "lender_serve envs s1 = Inr (e, s')" "lender_ok s'" "memrefs s' = memrefs s1"
    using Cons.IH Cons.prems(1) \<open>lender_ok s1\<close> by (meson list.set_intros(2))
  ultimately show ?case by (cases rc) simp_all
qed simp

lemma init_eq:
  "0 \<le> bss_rc \<Longrightarrow> 0 \<le> rw_rc \<Longrightarrow> lender_init bss_rc ro_rc rw_rc s =
    Inr (s\<lparr>bss_memref := Some bss_rc, ro_memref := (if ro_rc < 0 then ro_memref s else Some ro_rc),
           rw_memref := Some rw_rc\<rparr>)"
  by (cases s) (simp add: lender_init_def Let_def)

lemma main_total:
  assumes "0 \<le> bss_rc" and "0 \<le> rw_rc" and "\<forall>env \<in> set envs. lender_env_ok env"
  shows "\<exists>rc s. lender_main (bss_rc, ro_rc, rw_rc) hset_null service_rc envs loop_rc = Inr (rc, s) \<and>
    lender_ok s \<and> memrefs s = (Some bss_rc, if ro_rc < 0 then None else Some ro_rc, Some rw_rc)"
proof -
  let ?s = "lender_initial\<lparr>bss_memref := Some bss_rc,
    ro_memref := (if ro_rc < 0 then ro_memref lender_initial else Some ro_rc), rw_memref := Some rw_rc\<rparr>"
  have ok: "lender_ok ?s" by (simp add: lender_ok_def lender_initial_def)
  obtain e s' where "lender_serve envs ?s = Inr (e, s')" "lender_ok s'" "memrefs s' = memrefs ?s"
    using serve_total [OF assms(3) ok] by blast
  with ok assms(1,2) show ?thesis
    by (cases "ro_rc < 0") (auto simp: lender_main_def init_eq lender_ok_def memrefs_def lender_initial_def)
qed

text \<open>C26: The lender never accesses memory outside its page or its data array, whatever messages it is
  sent and however the regions in them wrap around: with its two writable references created, \<open>main\<close>
  serves any sequence of messages without a fault, keeps the page at its size, and at the end holds
  exactly the references it created, the read-only one only when its creation succeeded.\<close>

theorem lender_no_fault:
  assumes "0 \<le> bss_rc" and "0 \<le> rw_rc" and "\<forall>env \<in> set envs. lender_env_ok env"
  shows "\<exists>rc s. lender_main (bss_rc, ro_rc, rw_rc) hset_null service_rc envs loop_rc = Inr (rc, s) \<and>
    length (bss_page s) = PAGE_SIZE \<and> bss_memref s = Some bss_rc \<and> rw_memref s = Some rw_rc \<and>
    ro_memref s = (if ro_rc < 0 then None else Some ro_rc)"
  using main_total [OF assms, of ro_rc hset_null service_rc loop_rc]
  by (cases "ro_rc < 0") (auto simp: lender_ok_def memrefs_def)

section \<open>The shared page\<close>

text \<open>The message that asks for a command on the region from \<open>off\<close> of \<open>n\<close> bytes.\<close>

definition region_msg :: "lender_command \<Rightarrow> nat \<Rightarrow> nat \<Rightarrow> 'w::len word lender_msg" where
  "region_msg command off n = \<lparr>lender_cmd = command, region = \<lparr>offset = of_nat off, region_size = of_nat n\<rparr>\<rparr>"

lemma region_msg_sel [simp]:
  "lender_cmd (region_msg command off n) = command"
  "offset (region (region_msg command off n)) = of_nat off"
  "region_size (region (region_msg command off n)) = of_nat n"
  by (simp_all add: region_msg_def)

lemma unat_small: "n < 2 ^ LENGTH('w) \<Longrightarrow> unat (of_nat n :: 'w::len word) = n"
  by (simp add: unat_of_nat take_bit_nat_eq_self)

lemma page_lt: "16 \<le> LENGTH('w::len) \<Longrightarrow> n \<le> PAGE_SIZE \<Longrightarrow> n < 2 ^ LENGTH('w)"
  using power_increasing [of 16 "LENGTH('w)" "2::nat"] by simp

lemma write_message:
  fixes env :: "'w::len lender_env"
  assumes w: "16 \<le> LENGTH('w)" and "lender_env_ok env" and "lender_ok s"
    and recv: "lender_recv env = Inr (region_msg LENDER_WRITE_BSS off (length payload), payload)"
    and fits: "off + length payload \<le> PAGE_SIZE"
  shows "lender_on_message env s = Inr (Some (min (lender_send1 env 0) 0), [Sent_bytes []],
    s\<lparr>bss_page := take off (bss_page s) @ payload @ drop (off + length payload) (bss_page s)\<rparr>)"
proof -
  have u: "unat (of_nat off :: 'w word) = off" "unat (of_nat (length payload) :: 'w word) = length payload"
    using fits page_lt [OF w] unat_small by (metis add_leD1, metis add_leD2)
  have chk: "lender_check_region (region (region_msg LENDER_WRITE_BSS off (length payload) :: 'w word lender_msg)) PAGE_SIZE = 0"
    using fits u page_lt [OF w, of PAGE_SIZE] by (subst check_region_iff) simp_all
  have len: "length (stack_data env) = MAX_WRITE" "length payload \<le> MAX_WRITE"
    using assms(2) recv by (simp_all add: lender_env_ok_def)
  have "memcpy_to (stack_data env) 0 payload = Inr (payload @ drop (length payload) (stack_data env))"
    using len by (simp add: memcpy_to_def)
  with recv chk u len fits assms(3) show ?thesis
    by (simp add: lender_on_message_def lender_write_bss_def mem_read_def memcpy_to_def lender_ok_def)
qed

lemma read_message:
  fixes env :: "'w::len lender_env"
  assumes w: "16 \<le> LENGTH('w)" and "lender_env_ok env" and "lender_ok s"
    and recv: "lender_recv env = Inr (region_msg LENDER_READ_BSS off n, payload)"
    and fits: "off + n \<le> PAGE_SIZE"
  shows "lender_on_message env s =
    Inr (Some (if lender_send1 env n = int n then 0 else -1), [Sent_bytes (take n (drop off (bss_page s)))], s)"
proof -
  have u: "unat (of_nat off :: 'w word) = off" "unat (of_nat n :: 'w word) = n"
    using fits page_lt [OF w] unat_small by (metis add_leD1, metis add_leD2)
  have chk: "lender_check_region (region (region_msg LENDER_READ_BSS off n :: 'w word lender_msg)) PAGE_SIZE = 0"
    using fits u page_lt [OF w, of PAGE_SIZE] by (subst check_region_iff) simp_all
  have len: "length (stack_data env) = MAX_WRITE" "length payload \<le> MAX_WRITE"
    using assms(2) recv by (simp_all add: lender_env_ok_def)
  have "memcpy_to (stack_data env) 0 payload = Inr (payload @ drop (length payload) (stack_data env))"
    using len by (simp add: memcpy_to_def)
  with recv chk u fits assms(3) show ?thesis
    by (simp add: lender_on_message_def lender_read_bss_def mem_read_def lender_ok_def Let_def)
qed

text \<open>The page after a write, byte by byte.\<close>

lemma page_nth:
  assumes "off + length payload \<le> length page" and "i < length page"
  shows "(take off page @ payload @ drop (off + length payload) page) ! i =
    (if off \<le> i \<and> i < off + length payload then payload ! (i - off) else page ! i)"
  using assms by (auto simp: nth_append)

text \<open>The page behaves as memory: after a write message whose payload fits the page, a read of
  any region inside the page sends, byte by byte, the payload where the region meets the written one
  and the old contents of the page elsewhere.\<close>

theorem lender_write_read:
  fixes env1 env2 :: "'w::len lender_env"
  assumes "16 \<le> LENGTH('w)" and "lender_env_ok env1" and "lender_env_ok env2" and "lender_ok s"
    and "lender_recv env1 = Inr (region_msg LENDER_WRITE_BSS off (length payload), payload)"
    and "off + length payload \<le> PAGE_SIZE"
    and "lender_recv env2 = Inr (region_msg LENDER_READ_BSS off2 n, rest)"
    and "off2 + n \<le> PAGE_SIZE"
  shows "\<exists>rc1 out1 s1 rc2 bytes. lender_on_message env1 s = Inr (rc1, out1, s1) \<and>
    lender_on_message env2 s1 = Inr (rc2, [Sent_bytes bytes], s1) \<and> length bytes = n \<and>
    (\<forall>i < n. bytes ! i =
      (if off \<le> off2 + i \<and> off2 + i < off + length payload then payload ! (off2 + i - off)
       else bss_page s ! (off2 + i)))"
proof -
  let ?page = "take off (bss_page s) @ payload @ drop (off + length payload) (bss_page s)"
  have len: "length (bss_page s) = PAGE_SIZE" using assms(4) by (simp add: lender_ok_def)
  have ok: "lender_ok (s\<lparr>bss_page := ?page\<rparr>)" using assms(6) len by (simp add: lender_ok_def)
  have read: "lender_on_message env2 (s\<lparr>bss_page := ?page\<rparr>) =
      Inr (Some (if lender_send1 env2 n = int n then 0 else -1), [Sent_bytes (take n (drop off2 ?page))],
        s\<lparr>bss_page := ?page\<rparr>)"
    using read_message [OF assms(1,3) ok assms(7,8)] by (simp del: drop_append take_append)
  have n: "length (take n (drop off2 ?page)) = n"
    using assms(6,8) len by (simp del: drop_append take_append)
  have bytes: "\<forall>i < n. take n (drop off2 ?page) ! i =
      (if off \<le> off2 + i \<and> off2 + i < off + length payload then payload ! (off2 + i - off)
       else bss_page s ! (off2 + i))"
  proof (intro allI impI)
    fix i assume "i < n"
    then have "take n (drop off2 ?page) ! i = ?page ! (off2 + i)" and i: "off2 + i < length (bss_page s)"
      using assms(6,8) len by (simp_all del: drop_append take_append)
    moreover have "off + length payload \<le> length (bss_page s)" using assms(6) len by simp
    ultimately show "take n (drop off2 ?page) ! i =
        (if off \<le> off2 + i \<and> off2 + i < off + length payload then payload ! (off2 + i - off)
         else bss_page s ! (off2 + i))"
      using page_nth [of off payload "bss_page s" "off2 + i"] by metis
  qed
  show ?thesis
    by (intro exI conjI) (rule write_message [OF assms(1,2,4,5,6)], rule read, rule n, rule bytes)
qed

text \<open>C27: A region that does not lie inside the page is refused: a read or write message whose end
  exceeds the page, or wraps around, makes the handler return an error with nothing sent and the page
  unchanged.\<close>

theorem lender_region_refused:
  fixes env :: "'w::len lender_env"
  assumes "16 \<le> LENGTH('w)" and "lender_env_ok env"
    and "lender_recv env = Inr (msg, payload)"
    and "lender_cmd msg \<in> {LENDER_READ_BSS, LENDER_WRITE_BSS}"
    and "PAGE_SIZE < unat (offset (region msg)) + unat (region_size (region msg))"
  shows "lender_on_message env s = Inr (Some (-1), [], s)"
proof -
  have chk: "lender_check_region (region msg) PAGE_SIZE \<noteq> 0"
    using check_region_iff [of PAGE_SIZE "region msg"] page_lt [OF assms(1), of PAGE_SIZE] assms(5) by simp
  have "memcpy_to (stack_data env) 0 payload = Inr (payload @ drop (length payload) (stack_data env))"
    using assms(2,3) by (simp add: lender_env_ok_def memcpy_to_def)
  with chk assms(3,4) show ?thesis
    by (auto simp: lender_on_message_def lender_read_bss_def lender_write_bss_def simp del: PAGE_SIZE_def)
qed

text \<open>What is lent is the reference the command names: after any messages a lender that created its
  references answers each of the three commands by sending that reference alone, and refuses to lend
  the read-only page when its reference could not be created.\<close>

theorem lender_lends_named:
  assumes "0 \<le> bss_rc" and "0 \<le> rw_rc" and "\<forall>env \<in> set envs. lender_env_ok env"
    and "lender_main (bss_rc, ro_rc, rw_rc) hset_null service_rc envs loop_rc = Inr (rc, s)"
    and "lender_env_ok env" and "lender_recv env = Inr (msg, payload)"
    and "lender_cmd msg \<in> {LENDER_LEND_BSS, LENDER_LEND_RO, LENDER_LEND_RW}"
  shows "lender_on_message env s =
    (if lender_cmd msg = LENDER_LEND_RO \<and> ro_rc < 0 then Inr (Some (-1), [], s)
     else Inr (Some (min (lender_send_msg env) 0),
       [Lent (if lender_cmd msg = LENDER_LEND_BSS then bss_rc
              else if lender_cmd msg = LENDER_LEND_RO then ro_rc else rw_rc)], s))"
proof -
  have "memrefs s = (Some bss_rc, if ro_rc < 0 then None else Some ro_rc, Some rw_rc)"
    using main_total [OF assms(1-3), of ro_rc hset_null service_rc loop_rc] assms(4) by auto
  moreover have "memcpy_to (stack_data env) 0 payload = Inr (payload @ drop (length payload) (stack_data env))"
    using assms(5,6) by (simp add: lender_env_ok_def memcpy_to_def)
  ultimately show ?thesis
    using assms(6,7) by (auto simp: lender_on_message_def lender_lend_def memrefs_def)
qed

text \<open>Messages of the examples: three bytes written at 4094, then a read across the start of them.\<close>

definition lender_env_of :: "64 word lender_msg \<Rightarrow> byte list \<Rightarrow> 64 lender_env" where
  "lender_env_of msg payload = \<lparr>lender_recv = Inr (msg, payload), stack_data = replicate MAX_WRITE 7,
     lender_send_msg = 0, lender_send1 = int\<rparr>"

lemma lender_env_of_ok: "length payload \<le> MAX_WRITE \<Longrightarrow> lender_env_ok (lender_env_of msg payload)"
  by (simp add: lender_env_ok_def lender_env_of_def)

theorem lender_no_fault_witness:
  "\<exists>rc s. lender_main (3, -7, 5) False 0
     [lender_env_of (region_msg LENDER_WRITE_BSS 4090 2) [1, 2],
      lender_env_of \<lparr>lender_cmd = LENDER_READ_BSS, region = \<lparr>offset = 5, region_size = -1\<rparr>\<rparr> []] (-4) = Inr (rc, s) \<and>
    length (bss_page s) = PAGE_SIZE \<and> bss_memref s = Some 3 \<and> rw_memref s = Some 5 \<and> ro_memref s = None"
  using lender_no_fault [of 3 5 "[lender_env_of (region_msg LENDER_WRITE_BSS 4090 2) [1, 2],
      lender_env_of \<lparr>lender_cmd = LENDER_READ_BSS, region = \<lparr>offset = 5, region_size = -1\<rparr>\<rparr> []]" "-7" False 0 "-4"]
  by (simp add: lender_env_of_ok)

theorem lender_write_read_witness:
  "\<exists>rc1 out1 s1 rc2 bytes.
    lender_on_message (lender_env_of (region_msg LENDER_WRITE_BSS 4092 3) [1, 2, 3]) lender_initial = Inr (rc1, out1, s1) \<and>
    lender_on_message (lender_env_of (region_msg LENDER_READ_BSS 4091 2) []) s1 = Inr (rc2, [Sent_bytes bytes], s1) \<and>
    bytes = [0, 1]"
proof -
  let ?e1 = "lender_env_of (region_msg LENDER_WRITE_BSS 4092 3) [1, 2, 3]"
  let ?e2 = "lender_env_of (region_msg LENDER_READ_BSS 4091 2) []"
  have ok: "lender_ok lender_initial" by (simp add: lender_ok_def lender_initial_def)
  have recv1: "lender_recv ?e1 = Inr (region_msg LENDER_WRITE_BSS 4092 (length [1, 2, 3 :: byte]), [1, 2, 3])"
    by (simp add: lender_env_of_def)
  have recv2: "lender_recv ?e2 = Inr (region_msg LENDER_READ_BSS 4091 2, [])"
    by (simp add: lender_env_of_def)
  obtain rc1 out1 s1 rc2 bytes where r: "lender_on_message ?e1 lender_initial = Inr (rc1, out1, s1)"
    "lender_on_message ?e2 s1 = Inr (rc2, [Sent_bytes bytes], s1)" and b: "length bytes = 2"
    "\<forall>i < 2. bytes ! i = (if 4092 \<le> 4091 + i \<and> 4091 + i < 4092 + length [1, 2, 3 :: byte]
       then [1, 2, 3] ! (4091 + i - 4092) else bss_page lender_initial ! (4091 + i))"
    using lender_write_read [of ?e1 ?e2 lender_initial 4092 "[1, 2, 3]" 4091 2 "[]", OF _ _ _ ok _ _ recv2]
      recv1 by (auto simp: lender_env_of_ok)
  then have "bytes = [0, 1]"
    by (intro nth_equalityI) (auto simp: less_2_cases_iff lender_initial_def)
  with r show ?thesis by blast
qed

theorem lender_region_refused_witness:
  "lender_on_message (lender_env_of \<lparr>lender_cmd = LENDER_READ_BSS, region = \<lparr>offset = 16, region_size = 0xFFFFFFFFFFFFFFFF\<rparr>\<rparr> [])
    lender_initial = Inr (Some (-1), [], lender_initial)"
  by (rule lender_region_refused [where payload = "[]"
        and msg = "\<lparr>lender_cmd = LENDER_READ_BSS, region = \<lparr>offset = 16, region_size = 0xFFFFFFFFFFFFFFFF\<rparr>\<rparr>"])
    (simp_all add: lender_env_of_ok, simp_all add: lender_env_of_def)

theorem lender_lends_named_witness:
  "lender_on_message (lender_env_of \<lparr>lender_cmd = LENDER_LEND_RO, region = \<lparr>offset = 0, region_size = 0\<rparr>\<rparr> [])
     (lender_initial\<lparr>bss_memref := Some 3, rw_memref := Some 5\<rparr>) =
   Inr (Some (-1), [], lender_initial\<lparr>bss_memref := Some 3, rw_memref := Some 5\<rparr>)"
  using lender_lends_named [of 3 5 "[] :: 64 lender_env list" "-7" False 0 "-4" "-4"
      "lender_initial\<lparr>bss_memref := Some 3, rw_memref := Some 5\<rparr>"
      "lender_env_of \<lparr>lender_cmd = LENDER_LEND_RO, region = \<lparr>offset = 0, region_size = 0\<rparr>\<rparr> []"
      "\<lparr>lender_cmd = LENDER_LEND_RO, region = \<lparr>offset = 0, region_size = 0\<rparr>\<rparr>" "[]"]
  by (simp add: lender_env_of_ok lender_main_def init_eq) (simp add: lender_env_of_def lender_initial_def)

end
