(* ===== verification/Memref_Client.thy ===== *)
theory Memref_Client
  imports Lender_Props
begin

text \<open>
  The client side of the memory lender (the helper functions of \<open>memref-test/memref-test.c\<close>) and
  its composition with the lender. The IPC layer is an environment that answers each call of the
  client; \<open>carries\<close> says that it carries a request to the lender and the answer back.
\<close>

section \<open>The client\<close>

text \<open>
  What the IPC layer answers during one exchange: the results of the send, of \<open>wait\<close>, \<open>get_msg\<close> and
  \<open>read_msg\<close> with the handle that came with the message, and of \<open>tipc_recv1\<close> with the bytes it stored.
\<close>

record client_env =
  lender_msg_size :: nat
  c_send :: int
  c_wait :: int
  c_get_msg :: int
  c_read_msg :: "int \<times> handle_t option"
  c_recv :: "int \<times> byte list"

text \<open>A request as it leaves the client: the message and the bytes after it.\<close>

type_synonym 'w request = "'w word lender_msg \<times> byte list"

abbreviation no_region :: "'w::len word lender_region" where
  "no_region \<equiv> \<lparr>offset = 0, region_size = 0\<rparr>"

definition client_command :: "client_env \<Rightarrow> lender_command \<Rightarrow> int \<times> 'w::len request" where
  "client_command env command =
     (if c_send env \<noteq> int (lender_msg_size env) then -1 else 0,
      \<lparr>lender_cmd = command, region = no_region\<rparr>, [])"

text \<open>\<open>out\<close> is the handle variable of the caller.\<close>

definition lender_recv_handle :: "client_env \<Rightarrow> handle_t \<Rightarrow> int \<times> handle_t" where
  "lender_recv_handle env out =
     (if c_wait env \<noteq> 0 then (c_wait env, out)
      else if c_get_msg env \<noteq> 0 then (c_get_msg env, out)
      else (fst (c_read_msg env), case snd (c_read_msg env) of None \<Rightarrow> out | Some h \<Rightarrow> h))"

definition client_lend_bss :: "client_env \<Rightarrow> handle_t \<Rightarrow> int \<times> handle_t \<times> 'w::len request" where
  "client_lend_bss env memref =
     (case client_command env LENDER_LEND_BSS of (rc, req) \<Rightarrow>
        if rc \<noteq> 0 then (rc, memref, req)
        else case lender_recv_handle env memref of (rc1, memref1) \<Rightarrow> (rc1, memref1, req))"

definition client_read_bss ::
    "client_env \<Rightarrow> 'w::len word \<Rightarrow> 'w word \<Rightarrow> byte list \<Rightarrow> (int \<times> byte list \<times> 'w request) res" where
  "client_read_bss env off len buf =
     (let req = (\<lparr>lender_cmd = LENDER_READ_BSS, region = \<lparr>offset = off, region_size = len\<rparr>\<rparr>, []) in
      if c_send env \<noteq> int (lender_msg_size env) then Inr (-1, buf, req)
      else if c_wait env \<noteq> 0 then Inr (c_wait env, buf, req)
      else
        bindr (memcpy_to buf 0 (snd (c_recv env))) (\<lambda>buf1.
          if fst (c_recv env) \<noteq> int (unat len) then Inr (-1, buf1, req) else Inr (0, buf1, req)))"

definition client_write_bss ::
    "client_env \<Rightarrow> 'w::len word \<Rightarrow> 'w word \<Rightarrow> byte list \<Rightarrow> (int \<times> 'w request) res" where
  "client_write_bss env off len buf =
     bindr (mem_read buf 0 (unat len)) (\<lambda>data.
       let req = (\<lparr>lender_cmd = LENDER_WRITE_BSS, region = \<lparr>offset = off, region_size = len\<rparr>\<rparr>, data) in
       if c_send env \<noteq> int (lender_msg_size env + unat len) then Inr (-1, req)
       else if c_wait env \<noteq> 0 then Inr (c_wait env, req)
       else Inr (fst (c_recv env), req))"

text \<open>\<open>lender_suicide\<close>: whether the channel was closed.\<close>

definition client_suicide :: "client_env \<Rightarrow> int \<times> bool \<times> 'w::len request" where
  "client_suicide env =
     (case client_command env LENDER_SUICIDE of (rc, req) \<Rightarrow>
        if rc \<noteq> 0 then (rc, False, req) else (0, True, req))"

section \<open>Composition with the lender\<close>

text \<open>
  The IPC layer carries the request \<open>req\<close> to the lender, which finds it in \<open>lenv\<close>; sends succeed in
  full on both sides.
\<close>

definition sends :: "client_env \<Rightarrow> 'w::len lender_env \<Rightarrow> 'w request \<Rightarrow> bool" where
  "sends env lenv req \<longleftrightarrow>
     lender_env_ok lenv \<and> lender_recv lenv = Inr req \<and>
     lender_send_msg lenv = 0 \<and> (\<forall>n. lender_send1 lenv n = int n) \<and>
     c_send env = int (lender_msg_size env + length (snd req))"

text \<open>
  It carries back what the lender sent: a message of bytes is what \<open>tipc_recv1\<close> stores and counts; of a
  message with a handle \<open>read_msg\<close> delivers a handle of the client.
\<close>

definition delivers :: "client_env \<Rightarrow> lender_out list \<Rightarrow> bool" where
  "delivers env out \<longleftrightarrow> c_wait env = 0 \<and> c_get_msg env = 0 \<and>
     (case out of
        [Sent_bytes bytes] \<Rightarrow> c_recv env = (int (length bytes), bytes)
      | [Lent h] \<Rightarrow> fst (c_read_msg env) = 0 \<and> snd (c_read_msg env) \<noteq> None
      | _ \<Rightarrow> True)"

definition carries :: "client_env \<Rightarrow> 'w::len lender_env \<Rightarrow> 'w request \<Rightarrow> lender_state \<Rightarrow> bool" where
  "carries env lenv req s \<longleftrightarrow> sends env lenv req \<and>
     (\<forall>rc out s'. lender_on_message lenv s = Inr (rc, out, s') \<longrightarrow> delivers env out)"

lemma carriesD:
  assumes "carries env lenv req s"
  shows "lender_env_ok lenv" "lender_recv lenv = Inr req" "lender_send_msg lenv = 0" "lender_send1 lenv n = int n"
    "c_send env = int (lender_msg_size env + length (snd req))"
    "lender_on_message lenv s = Inr (rc, out, s') \<Longrightarrow> delivers env out"
  using assms by (auto simp: carries_def sends_def)

lemma deliversD:
  assumes "delivers env out"
  shows "c_wait env = 0" "c_get_msg env = 0"
    "out = [Sent_bytes bytes] \<Longrightarrow> c_recv env = (int (length bytes), bytes)"
    "out = [Lent h] \<Longrightarrow> \<exists>r. c_read_msg env = (0, Some r)"
  using assms by (auto simp: delivers_def prod_eq_iff)

abbreviation read_req :: "nat \<Rightarrow> nat \<Rightarrow> 'w::len request" where
  "read_req off n \<equiv> (region_msg LENDER_READ_BSS off n, [])"

abbreviation write_req :: "nat \<Rightarrow> byte list \<Rightarrow> 'w::len request" where
  "write_req off data \<equiv> (region_msg LENDER_WRITE_BSS off (length data), data)"

lemma client_write_served:
  fixes lenv :: "'w::len lender_env"
  assumes w: "16 \<le> LENGTH('w)" and s: "lender_ok s" and fits: "off + length data \<le> PAGE_SIZE"
    and c: "carries env lenv (write_req off data) s"
  shows "lender_on_message lenv s = Inr (Some 0, [Sent_bytes []],
      s\<lparr>bss_page := take off (bss_page s) @ data @ drop (off + length data) (bss_page s)\<rparr>)" (is ?lender)
    and "client_write_bss env (of_nat off :: 'w word) (of_nat (length data)) data = Inr (0, write_req off data)"
proof -
  have u: "unat (of_nat (length data) :: 'w word) = length data"
    using fits page_lt [OF w] unat_small by (metis add_leD2)
  show l: ?lender
    using write_message [OF w carriesD(1) [OF c] s carriesD(2) [OF c] fits] carriesD(4) [OF c] by simp
  show "client_write_bss env (of_nat off :: 'w word) (of_nat (length data)) data = Inr (0, write_req off data)"
    using carriesD(5) [OF c] deliversD(1) [OF carriesD(6) [OF c l]] deliversD(3) [OF carriesD(6) [OF c l] refl]
    unfolding client_write_bss_def u by (simp add: mem_read_def region_msg_def)
qed

lemma client_read_served:
  fixes lenv :: "'w::len lender_env"
  assumes w: "16 \<le> LENGTH('w)" and s: "lender_ok s" and fits: "off + n \<le> PAGE_SIZE" and n: "n \<le> length buf"
    and c: "carries env lenv (read_req off n) s"
  shows "lender_on_message lenv s = Inr (Some 0, [Sent_bytes (take n (drop off (bss_page s)))], s)" (is ?lender)
    and "client_read_bss env (of_nat off :: 'w word) (of_nat n) buf =
      Inr (0, take n (drop off (bss_page s)) @ drop n buf, read_req off n)"
proof -
  have u: "unat (of_nat n :: 'w word) = n"
    using fits page_lt [OF w] unat_small by (metis add_leD2)
  have len: "length (take n (drop off (bss_page s))) = n"
    using s fits by (simp add: lender_ok_def)
  show l: ?lender
    using read_message [OF w carriesD(1) [OF c] s carriesD(2) [OF c] fits] carriesD(4) [OF c] by simp
  show "client_read_bss env (of_nat off :: 'w word) (of_nat n) buf =
      Inr (0, take n (drop off (bss_page s)) @ drop n buf, read_req off n)"
    using carriesD(5) [OF c] deliversD(1) [OF carriesD(6) [OF c l]] deliversD(3) [OF carriesD(6) [OF c l] refl] len n
    unfolding client_read_bss_def u by (simp add: memcpy_to_def region_msg_def del: length_take)
qed

lemma client_lend_served:
  fixes lenv :: "'w::len lender_env"
  assumes "bss_memref s = Some h" and c: "carries env lenv (\<lparr>lender_cmd = LENDER_LEND_BSS, region = no_region\<rparr>, []) s"
  shows "lender_on_message lenv s = Inr (Some 0, [Lent h], s)" (is ?lender)
    and "\<exists>r. c_read_msg env = (0, Some r) \<and>
      client_lend_bss env memref = (0, r, \<lparr>lender_cmd = LENDER_LEND_BSS, region = no_region\<rparr> :: 'w word lender_msg, [])"
proof -
  have "length (stack_data lenv) = MAX_WRITE" using carriesD(1) [OF c] by (simp add: lender_env_ok_def)
  then show l: ?lender
    using assms(1) carriesD(2,3) [OF c] by (simp add: lender_on_message_def lender_lend_def memcpy_to_def)
  show "\<exists>r. c_read_msg env = (0, Some r) \<and>
      client_lend_bss env memref = (0, r, \<lparr>lender_cmd = LENDER_LEND_BSS, region = no_region\<rparr> :: 'w word lender_msg, [])"
    using carriesD(5) [OF c] deliversD(1,2) [OF carriesD(6) [OF c l]] deliversD(4) [OF carriesD(6) [OF c l] refl]
    by (auto simp: client_lend_bss_def client_command_def lender_recv_handle_def)
qed

text \<open>C30: What a client writes it reads back: with an IPC layer that carries the messages, a client that
  writes a buffer into the lender's page and then reads the same region gets success from both calls
  and its own bytes, the rest of its buffer untouched, while the lender keeps its page well-formed.\<close>

theorem memref_roundtrip:
  fixes lenv1 lenv2 :: "'w::len lender_env"
  assumes "16 \<le> LENGTH('w)" and "lender_ok s" and "off + length data \<le> PAGE_SIZE" and "length data \<le> length buf"
    and "carries env1 lenv1 (write_req off data) s"
    and "\<forall>rc out s1. lender_on_message lenv1 s = Inr (rc, out, s1) \<longrightarrow>
      carries env2 lenv2 (read_req off (length data)) s1"
  shows "\<exists>s1. client_write_bss env1 (of_nat off :: 'w word) (of_nat (length data)) data = Inr (0, write_req off data) \<and>
    lender_on_message lenv1 s = Inr (Some 0, [Sent_bytes []], s1) \<and> lender_ok s1 \<and>
    client_read_bss env2 (of_nat off :: 'w word) (of_nat (length data)) buf =
      Inr (0, data @ drop (length data) buf, read_req off (length data)) \<and>
    lender_on_message lenv2 s1 = Inr (Some 0, [Sent_bytes data], s1)"
proof -
  let ?page = "take off (bss_page s) @ data @ drop (off + length data) (bss_page s)"
  let ?s = "s\<lparr>bss_page := ?page\<rparr>"
  note wr = client_write_served [OF assms(1-3,5)]
  have ok: "lender_ok ?s" and d: "take (length data) (drop off (bss_page ?s)) = data"
    using assms(2,3) by (simp_all add: lender_ok_def)
  have "carries env2 lenv2 (read_req off (length data)) ?s" using assms(6) wr(1) by blast
  from client_read_served [OF assms(1) ok assms(3,4) this, unfolded d] wr ok show ?thesis by blast
qed

definition client_env_of :: "nat \<Rightarrow> int \<times> byte list \<Rightarrow> client_env" where
  "client_env_of n rcv = \<lparr>lender_msg_size = 24, c_send = int (24 + n), c_wait = 0, c_get_msg = 0,
     c_read_msg = (0, None), c_recv = rcv\<rparr>"

theorem memref_roundtrip_witness:
  "client_write_bss (client_env_of 2 (0, [])) (1 :: 64 word) 2 [42, 43] = Inr (0, write_req 1 [42, 43]) \<and>
   client_read_bss (client_env_of 0 (2, [42, 43])) (1 :: 64 word) 2 [0, 0, 7] = Inr (0, [42, 43, 7], read_req 1 2)"
proof -
  let ?w = "lender_env_of (region_msg LENDER_WRITE_BSS 1 2) [42, 43]"
  let ?r = "lender_env_of (region_msg LENDER_READ_BSS 1 2) []"
  let ?s1 = "lender_initial\<lparr>bss_page := 0 # 42 # 43 # replicate 4093 0\<rparr>"
  have env: "lender_env_ok ?w" "lender_env_ok ?r" by (simp_all add: lender_env_of_ok)
  have ok: "lender_ok lender_initial" "lender_ok ?s1" by (simp_all add: lender_ok_def lender_initial_def)
  have recv: "lender_recv ?w = Inr (region_msg LENDER_WRITE_BSS 1 (length [42, 43 :: byte]), [42, 43])"
    "lender_recv ?r = Inr (region_msg LENDER_READ_BSS 1 2, [])" by (simp_all add: lender_env_of_def numeral_2_eq_2)
  have w: "lender_on_message ?w lender_initial = Inr (Some 0, [Sent_bytes []], ?s1)"
    using write_message [OF _ env(1) ok(1) recv(1)] by (simp add: lender_env_of_def lender_initial_def)
  have r: "lender_on_message ?r ?s1 = Inr (Some 0, [Sent_bytes [42, 43]], ?s1)"
    using read_message [OF _ env(2) ok(2) recv(2)] by (simp add: lender_env_of_def)
  have "carries (client_env_of 2 (0, [])) ?w (write_req 1 [42, 43]) lender_initial"
    using env(1) recv(1) w by (auto simp: carries_def sends_def delivers_def client_env_of_def lender_env_of_def)
  moreover have "carries (client_env_of 0 (2, [42, 43])) ?r (read_req 1 (length [42, 43 :: byte])) ?s1"
    using env(2) recv(2) r
    by (auto simp: carries_def sends_def delivers_def client_env_of_def lender_env_of_def numeral_2_eq_2)
  ultimately show ?thesis
    using memref_roundtrip [OF _ ok(1), of 1 "[42, 43]" "[0, 0, 7]" "client_env_of 2 (0, [])" ?w
        "client_env_of 0 (2, [42, 43])" ?r] w
    by (auto simp: numeral_2_eq_2)
qed

end
