(* ===== verification/Memref_Test.thy ===== *)
theory Memref_Test
  imports Memref_Client
begin

text \<open>
  The tests of \<open>memref-test/memref-test.c\<close>, as functions on a state of the kernel and the lender. Loads and stores through a pointer
  that is no mapping are faults. The locale \<open>memref_ipc\<close> is the contract of the IPC layer between the client and the lender, by
  \<open>carries\<close>; \<open>memref_os\<close> extends it by that of the calls on memory, \<open>memref_checks\<close> by the checks of \<open>memref_create\<close>. Handles and
  mappings are bounded, references and mappings have protections, and a lender that exited serves nobody until a connection starts
  a new one. Their instance \<open>os_sys\<close> runs the lender of the repository behind each request.
\<close>

section \<open>The tests\<close>

text \<open>The two pages of the test, and pointers: null, \<open>MAP_FAILED\<close>, or the start of a mapping.\<close>

datatype test_page = Test_bss | Test_ro

datatype map_ptr = Null_ptr | Map_failed | Mapped nat

text \<open>
  The kernel and the IPC layer on a state \<open>'k\<close>. A memory reference names a page of the test, an offset and a
  size; \<open>sy_exchange\<close> gives the answers that a helper of the client gets for the request it sends on a channel. A
  load or a store through a mapping gives nothing when it is outside of it. \<open>sy_bss\<close> is \<open>bss_page\<close> of the test.
\<close>

record (overloaded) ('w::len, 'k) memref_sys =
  sy_connect :: "'k \<Rightarrow> (int \<times> handle_t option) \<times> 'k"
  sy_exchange :: "handle_t \<Rightarrow> 'w request \<Rightarrow> 'k \<Rightarrow> client_env \<times> 'k"
  sy_memref_create :: "test_page \<Rightarrow> nat \<Rightarrow> nat \<Rightarrow> u32 \<Rightarrow> 'k \<Rightarrow> handle_t \<times> 'k"
  sy_mmap :: "nat \<Rightarrow> u32 \<Rightarrow> handle_t \<Rightarrow> 'k \<Rightarrow> map_ptr \<times> 'k"
  sy_munmap :: "map_ptr \<Rightarrow> nat \<Rightarrow> 'k \<Rightarrow> int \<times> 'k"
  sy_close :: "handle_t \<Rightarrow> 'k \<Rightarrow> 'k"
  sy_load :: "nat \<Rightarrow> nat \<Rightarrow> 'k \<Rightarrow> byte option"
  sy_store :: "nat \<Rightarrow> nat \<Rightarrow> byte \<Rightarrow> 'k \<Rightarrow> 'k option"
  sy_bss :: "'k \<Rightarrow> byte list"
  sy_set_bss :: "byte list \<Rightarrow> 'k \<Rightarrow> 'k"
  MMAP_FLAG_PROT_READ :: u32
  MMAP_FLAG_PROT_WRITE :: u32
  MMAP_FLAG_PROT_EXEC :: u32

definition INVALID_IPC_HANDLE :: handle_t where
  "INVALID_IPC_HANDLE = -1"

definition MM_RW :: "('w::len, 'k) memref_sys \<Rightarrow> u32" where
  "MM_RW sys = MMAP_FLAG_PROT_READ sys OR MMAP_FLAG_PROT_WRITE sys"

definition store :: "('w::len, 'k) memref_sys \<Rightarrow> map_ptr \<Rightarrow> nat \<Rightarrow> byte \<Rightarrow> 'k \<Rightarrow> 'k res" where
  "store sys p i v k =
     (case p of
        Null_ptr \<Rightarrow> Inl Null_deref
      | Map_failed \<Rightarrow> Inl Out_of_bounds
      | Mapped a \<Rightarrow> (case sy_store sys a i v k of None \<Rightarrow> Inl Out_of_bounds | Some k1 \<Rightarrow> Inr k1))"

definition load :: "('w::len, 'k) memref_sys \<Rightarrow> map_ptr \<Rightarrow> nat \<Rightarrow> 'k \<Rightarrow> byte res" where
  "load sys p i k =
     (case p of
        Null_ptr \<Rightarrow> Inl Null_deref
      | Map_failed \<Rightarrow> Inl Out_of_bounds
      | Mapped a \<Rightarrow> (case sy_load sys a i k of None \<Rightarrow> Inl Out_of_bounds | Some v \<Rightarrow> Inr v))"

text \<open>The helpers of the client on the state; a handle variable that is not written keeps its value.\<close>

definition lender_connect :: "('w::len, 'k) memref_sys \<Rightarrow> handle_t \<Rightarrow> 'k \<Rightarrow> int \<times> handle_t \<times> 'k" where
  "lender_connect sys chan k =
     (case sy_connect sys k of ((rc, h), k1) \<Rightarrow> (rc, case h of None \<Rightarrow> chan | Some c \<Rightarrow> c, k1))"

definition run_lend_bss :: "('w::len, 'k) memref_sys \<Rightarrow> handle_t \<Rightarrow> handle_t \<Rightarrow> 'k \<Rightarrow> int \<times> handle_t \<times> 'k" where
  "run_lend_bss sys chan memref k =
     (case sy_exchange sys chan (\<lparr>lender_cmd = LENDER_LEND_BSS, region = no_region\<rparr>, []) k of (env, k1) \<Rightarrow>
        case client_lend_bss env memref :: int \<times> handle_t \<times> 'w request of (rc, memref1, _) \<Rightarrow> (rc, memref1, k1))"

definition run_read_bss ::
    "('w::len, 'k) memref_sys \<Rightarrow> handle_t \<Rightarrow> nat \<Rightarrow> nat \<Rightarrow> byte list \<Rightarrow> 'k \<Rightarrow> (int \<times> byte list \<times> 'k) res" where
  "run_read_bss sys chan off n buf k =
     (case sy_exchange sys chan (read_req off n) k of (env, k1) \<Rightarrow>
        bindr (client_read_bss env (of_nat off :: 'w word) (of_nat n) buf) (\<lambda>(rc, buf1, _). Inr (rc, buf1, k1)))"

definition run_write_bss ::
    "('w::len, 'k) memref_sys \<Rightarrow> handle_t \<Rightarrow> nat \<Rightarrow> byte list \<Rightarrow> 'k \<Rightarrow> (int \<times> 'k) res" where
  "run_write_bss sys chan off buf k =
     (case sy_exchange sys chan (write_req off buf) k of (env, k1) \<Rightarrow>
        bindr (client_write_bss env (of_nat off :: 'w word) (of_nat (length buf)) buf) (\<lambda>(rc, _). Inr (rc, k1)))"

definition run_suicide :: "('w::len, 'k) memref_sys \<Rightarrow> handle_t \<Rightarrow> 'k \<Rightarrow> int \<times> 'k" where
  "run_suicide sys chan k =
     (case sy_exchange sys chan (\<lparr>lender_cmd = LENDER_SUICIDE, region = no_region\<rparr>, []) k of (env, k1) \<Rightarrow>
        case client_suicide env :: int \<times> bool \<times> 'w request of (rc, closed, _) \<Rightarrow>
          (rc, if closed then sy_close sys chan k1 else k1))"

text \<open>Each test gives whether all its checks hold, and the state after it.\<close>

definition self_map :: "('w::len, 'k) memref_sys \<Rightarrow> 'k \<Rightarrow> (bool \<times> 'k) res" where
  "self_map sys k =
     (case sy_memref_create sys Test_bss 0 PAGE_SIZE (MM_RW sys) k of (mref, k1) \<Rightarrow>
      let finish = (\<lambda>ok k. let k' = sy_close sys mref k in Inr (ok, sy_set_bss sys ((sy_bss sys k')[0 := 0]) k')) in
      if \<not> mref > 0 then finish False k1
      else case sy_mmap sys PAGE_SIZE (MM_RW sys) mref k1 of (out, k2) \<Rightarrow>
        if out = Map_failed then finish False k2
        else bindr (store sys out 0 3 k2) (\<lambda>k3.
          let ok = (sy_bss sys k3 ! 0 = 3) in
          case sy_munmap sys out PAGE_SIZE k3 of (rc, k4) \<Rightarrow> finish (ok \<and> rc = 0) k4))"

text \<open>The macro \<open>EXPECT_CLOSE\<close> on a call of \<open>memref_create\<close>, and the calls of the test.\<close>

definition expect_close ::
    "('w::len, 'k) memref_sys \<Rightarrow> test_page \<times> nat \<times> nat \<times> u32 \<Rightarrow> bool \<times> 'k \<Rightarrow> bool \<times> 'k" where
  "expect_close sys args st =
     (case args of (page, off, sz, prot) \<Rightarrow>
        case sy_memref_create sys page off sz prot (snd st) of (rc, k) \<Rightarrow> (fst st \<and> rc < 0, sy_close sys rc k))"

definition bad_creations :: "('w::len, 'k) memref_sys \<Rightarrow> (test_page \<times> nat \<times> nat \<times> u32) list" where
  "bad_creations sys =
     [(Test_bss, 1, PAGE_SIZE, MM_RW sys),
      (Test_bss, 0, PAGE_SIZE - 1, MM_RW sys),
      (Test_bss, 0, 10 * PAGE_SIZE, MM_RW sys),
      (Test_bss, 0, PAGE_SIZE, MM_RW sys OR MMAP_FLAG_PROT_EXEC sys),
      (Test_bss, 0, PAGE_SIZE, 0xF000),
      (Test_ro, 0, PAGE_SIZE, MM_RW sys)]"

definition creation :: "('w::len, 'k) memref_sys \<Rightarrow> 'k \<Rightarrow> (bool \<times> 'k) res" where
  "creation sys k =
     (case fold (expect_close sys) (bad_creations sys) (True, k) of (ok, k1) \<Rightarrow>
        case sy_memref_create sys Test_bss 0 PAGE_SIZE (MMAP_FLAG_PROT_READ sys) k1 of (mref, k2) \<Rightarrow>
          Inr (ok \<and> mref > 0, sy_close sys mref k2))"

text \<open>The checks of \<open>recv_ref\<close> on the mapped page.\<close>

definition use_shared :: "('w::len, 'k) memref_sys \<Rightarrow> handle_t \<Rightarrow> map_ptr \<Rightarrow> 'k \<Rightarrow> (bool \<times> 'k) res" where
  "use_shared sys chan out k =
     bindr (store sys out 0 1 k) (\<lambda>k1.
     bindr (run_read_bss sys chan 0 1 [0] k1) (\<lambda>(rc1, remote_buf, k2).
     let ok1 = (rc1 = 0 \<and> remote_buf ! 0 = 1) in
     bindr (run_write_bss sys chan 1 (remote_buf[0 := 42]) k2) (\<lambda>(rc2, k3).
     bindr (load sys out 0 k3) (\<lambda>b0.
     bindr (load sys out 1 k3) (\<lambda>b1.
     let ok2 = (rc2 = 0 \<and> b0 = 1 \<and> b1 = 42) in
     bindr (store sys out 0 0 k3) (\<lambda>k4.
     bindr (store sys out 1 0 k4) (\<lambda>k5.
     case sy_munmap sys out PAGE_SIZE k5 of (rc, k6) \<Rightarrow> Inr (ok1 \<and> ok2 \<and> rc = 0, k6))))))))"

definition recv_ref :: "('w::len, 'k) memref_sys \<Rightarrow> 'k \<Rightarrow> (bool \<times> 'k) res" where
  "recv_ref sys k =
     (let finish = (\<lambda>remote_memref chan (ok, k). Inr (ok, sy_close sys chan (sy_close sys remote_memref k))) in
      case lender_connect sys INVALID_IPC_HANDLE k of (rc, chan, k1) \<Rightarrow>
        if rc \<noteq> 0 then finish INVALID_IPC_HANDLE chan (False, k1)
        else case run_lend_bss sys chan INVALID_IPC_HANDLE k1 of (rc, remote_memref, k2) \<Rightarrow>
          if rc \<noteq> 0 then finish remote_memref chan (False, k2)
          else case sy_mmap sys PAGE_SIZE (MM_RW sys) remote_memref k2 of (out, k3) \<Rightarrow>
            if out = Null_ptr then finish remote_memref chan (False, k3)
            else bindr (use_shared sys chan out k3) (finish remote_memref chan))"

definition leak_creation_iters :: nat where
  "leak_creation_iters = 1000"

text \<open>The loop: whether it went to its end, the two handle variables and the state.\<close>

fun leak_loop :: "('w::len, 'k) memref_sys \<Rightarrow> nat \<Rightarrow> handle_t \<Rightarrow> handle_t \<Rightarrow> 'k \<Rightarrow> bool \<times> handle_t \<times> handle_t \<times> 'k" where
  "leak_loop sys 0 chan memref k = (True, chan, memref, k)"
| "leak_loop sys (Suc n) chan memref k =
     (case lender_connect sys chan k of (rc, chan, k1) \<Rightarrow>
        if rc \<noteq> 0 then (False, chan, memref, k1)
        else case run_lend_bss sys chan memref k1 of (rc, memref, k2) \<Rightarrow>
          if rc \<noteq> 0 then (False, chan, memref, k2)
          else case run_suicide sys chan (sy_close sys memref k2) of (rc, k3) \<Rightarrow>
            if rc \<noteq> 0 then (False, chan, memref, k3)
            else leak_loop sys n chan memref (sy_close sys chan k3))"

definition leak_creation :: "('w::len, 'k) memref_sys \<Rightarrow> 'k \<Rightarrow> (bool \<times> 'k) res" where
  "leak_creation sys k =
     (case leak_loop sys leak_creation_iters INVALID_IPC_HANDLE INVALID_IPC_HANDLE k of (ok, chan, memref, k1) \<Rightarrow>
        Inr (ok, sy_close sys chan (sy_close sys memref k1)))"

text \<open>The tests that share memory; \<open>creation\<close> only asks for the checks of one kernel call.\<close>

definition sharing_tests :: "('w::len, 'k) memref_sys \<Rightarrow> ('k \<Rightarrow> (bool \<times> 'k) res) list" where
  "sharing_tests sys = [self_map sys, recv_ref sys, leak_creation sys]"

text \<open>The framework runs the tests one after the other.\<close>

fun memref_suite :: "('k \<Rightarrow> (bool \<times> 'k) res) list \<Rightarrow> 'k \<Rightarrow> (bool \<times> 'k) res" where
  "memref_suite [] k = Inr (True, k)"
| "memref_suite (t # ts) k = bindr (t k) (\<lambda>(ok, k1). bindr (memref_suite ts k1) (\<lambda>(oks, k2). Inr (ok \<and> oks, k2)))"

section \<open>What the tests need of the system\<close>

text \<open>
  What there is to see of a state: the running instance of the lender, if any, and its number; the client's channels, each with the
  instance at its other end as long as that end is open; its memory references and its mappings, each an object with a protection;
  its page. The pages of a lender are named by the command that lends them and by the instance.
\<close>

datatype mem_object = Own_bss | Own_ro | Lender_page lender_command nat

record sys_view =
  v_lender :: "lender_state option"
  v_instance :: nat
  v_chans :: "handle_t \<rightharpoonup> nat option"
  v_refs :: "handle_t \<rightharpoonup> mem_object \<times> u32"
  v_maps :: "nat \<rightharpoonup> mem_object \<times> u32"
  v_bss :: "byte list"

text \<open>The bytes of an object: of the test's page, and of the page that the running lender reads and writes.\<close>

fun object_bytes :: "mem_object \<Rightarrow> sys_view \<Rightarrow> byte list option" where
  "object_bytes Own_bss v = Some (v_bss v)"
| "object_bytes (Lender_page LENDER_LEND_BSS i) v = (if i = v_instance v then map_option bss_page (v_lender v) else None)"
| "object_bytes _ v = None"

fun put_object :: "mem_object \<Rightarrow> byte list \<Rightarrow> sys_view \<Rightarrow> sys_view" where
  "put_object Own_bss b v = v\<lparr>v_bss := b\<rparr>"
| "put_object (Lender_page LENDER_LEND_BSS i) b v = v\<lparr>v_lender := map_option (\<lambda>s. s\<lparr>bss_page := b\<rparr>) (v_lender v)\<rparr>"
| "put_object _ b v = v"

definition allows :: "u32 \<Rightarrow> u32 \<Rightarrow> bool" where
  "allows prot p \<longleftrightarrow> prot AND p = p"

text \<open>A process holds fewer than \<open>limit\<close> handles, and as many mappings.\<close>

definition room :: "nat \<Rightarrow> sys_view \<Rightarrow> bool" where
  "room limit v \<longleftrightarrow> finite (dom (v_chans v)) \<and> finite (dom (v_refs v)) \<and> card (dom (v_chans v)) + card (dom (v_refs v)) < limit"

definition map_room :: "nat \<Rightarrow> sys_view \<Rightarrow> bool" where
  "map_room limit v \<longleftrightarrow> finite (dom (v_maps v)) \<and> card (dom (v_maps v)) < limit"

definition free_handle :: "handle_t \<Rightarrow> sys_view \<Rightarrow> bool" where
  "free_handle h v \<longleftrightarrow> 0 < h \<and> v_chans v h = None \<and> v_refs v h = None"

text \<open>The port of the lender is a start port: a connection reaches the running instance, or starts a new one, which has done its \<open>init\<close>.\<close>

definition started :: "sys_view \<Rightarrow> sys_view \<Rightarrow> bool" where
  "started v v' \<longleftrightarrow>
     (if v_lender v \<noteq> None then v' = v
      else \<exists>bss_rc ro_rc rw_rc s. lender_init bss_rc ro_rc rw_rc lender_initial = Inr s \<and>
        v' = v\<lparr>v_lender := Some s, v_instance := Suc (v_instance v)\<rparr>)"

text \<open>
  What the handling of a request changes. A lender that exits is gone and its ends of all channels are closed; one that reports an
  error has its end of this channel closed. A reference that was lent is a new handle of the client, with the protection it was created with.
\<close>

definition lent_prot :: "('w::len, 'k) memref_sys \<Rightarrow> lender_command \<Rightarrow> u32" where
  "lent_prot sys command = (if command = LENDER_LEND_RO then MMAP_FLAG_PROT_READ sys else MM_RW sys)"

definition after_message ::
    "(lender_command \<Rightarrow> u32) \<Rightarrow> handle_t \<Rightarrow> 'w::len request \<Rightarrow> int option \<Rightarrow> lender_out list \<Rightarrow> lender_state \<Rightarrow> handle_t option \<Rightarrow>
     sys_view \<Rightarrow> sys_view" where
  "after_message prot h req rc out s r v =
     v\<lparr>v_lender := (if rc = None then None else Some s),
       v_chans := (case rc of None \<Rightarrow> (\<lambda>c. map_option (\<lambda>_. None) (v_chans v c))
                   | Some e \<Rightarrow> if e < 0 then (v_chans v)(h \<mapsto> None) else v_chans v),
       v_refs := (case (out, r) of
           ([Lent l], Some r) \<Rightarrow> (v_refs v)(r \<mapsto> (Lender_page (lender_cmd (fst req)) (v_instance v), prot (lender_cmd (fst req))))
         | _ \<Rightarrow> v_refs v)\<rparr>"

text \<open>A request on a channel to the running lender is handled before the next call of the client, which then finds the answer.\<close>

locale memref_ipc =
  fixes sys :: "('w::len, 'k) memref_sys" and view :: "'k \<Rightarrow> sys_view" and limit :: nat
  assumes width: "16 \<le> LENGTH('w)" and limit: "3 \<le> limit"
    and connects: "room limit (view k) \<Longrightarrow> \<exists>h k' v'. sy_connect sys k = ((0, Some h), k') \<and> free_handle h (view k) \<and>
      started (view k) v' \<and> view k' = v'\<lparr>v_chans := (v_chans v')(h \<mapsto> Some (v_instance v'))\<rparr>"
    and exchanges: "v_chans (view k) h = Some (Some (v_instance (view k))) \<Longrightarrow> v_lender (view k) = Some s \<Longrightarrow>
      lender_ok s \<Longrightarrow> length (snd req) \<le> MAX_WRITE \<Longrightarrow> room limit (view k) \<Longrightarrow>
      \<exists>env lenv k'. sy_exchange sys h req k = (env, k') \<and> carries env lenv req s \<and>
        (\<forall>rc out s'. lender_on_message lenv s = Inr (rc, out, s') \<longrightarrow>
          view k' = after_message (lent_prot sys) h req rc out s' (snd (c_read_msg env)) (view k) \<and>
          (\<forall>l r. out = [Lent l] \<and> snd (c_read_msg env) = Some r \<longrightarrow> free_handle r (view k)))"
    and closes: "view (sy_close sys h k) = (view k)\<lparr>v_chans := (v_chans (view k))(h := None), v_refs := (v_refs (view k))(h := None)\<rparr>"

text \<open>The calls on memory: references to the test's page, mappings within the protection of a reference, and the bytes behind them.\<close>

locale memref_os = memref_ipc sys view limit
  for sys :: "('w::len, 'k) memref_sys" and view :: "'k \<Rightarrow> sys_view" and limit :: nat +
  assumes creates: "room limit (view k) \<Longrightarrow> prot \<in> {MMAP_FLAG_PROT_READ sys, MM_RW sys} \<Longrightarrow>
      \<exists>h k'. sy_memref_create sys Test_bss 0 PAGE_SIZE prot k = (h, k') \<and> free_handle h (view k) \<and>
        view k' = (view k)\<lparr>v_refs := (v_refs (view k))(h \<mapsto> (Own_bss, prot))\<rparr>"
    and maps: "v_refs (view k) h = Some (obj, prot) \<Longrightarrow> allows prot p \<Longrightarrow> map_room limit (view k) \<Longrightarrow>
      \<exists>a k'. sy_mmap sys PAGE_SIZE p h k = (Mapped a, k') \<and> v_maps (view k) a = None \<and>
        view k' = (view k)\<lparr>v_maps := (v_maps (view k))(a \<mapsto> (obj, p))\<rparr>"
    and unmaps: "v_maps (view k) a = Some m \<Longrightarrow>
      \<exists>k'. sy_munmap sys (Mapped a) PAGE_SIZE k = (0, k') \<and> view k' = (view k)\<lparr>v_maps := (v_maps (view k))(a := None)\<rparr>"
    and loads: "v_maps (view k) a = Some (obj, prot) \<Longrightarrow> allows prot (MMAP_FLAG_PROT_READ sys) \<Longrightarrow>
      object_bytes obj (view k) = Some b \<Longrightarrow> i < PAGE_SIZE \<Longrightarrow> sy_load sys a i k = Some (b ! i)"
    and stores: "v_maps (view k) a = Some (obj, prot) \<Longrightarrow> allows prot (MMAP_FLAG_PROT_WRITE sys) \<Longrightarrow>
      object_bytes obj (view k) = Some b \<Longrightarrow> i < PAGE_SIZE \<Longrightarrow>
      \<exists>k'. sy_store sys a i v k = Some k' \<and> view k' = put_object obj (b[i := v]) (view k)"
    and own_page: "sy_bss sys k = v_bss (view k)" "view (sy_set_bss sys b k) = (view k)\<lparr>v_bss := b\<rparr>"

text \<open>
  The checks of \<open>memref_create\<close>: it refuses what is not the whole page, and protections that are not among the two or that the page
  does not have.
\<close>

definition may_create :: "('w::len, 'k) memref_sys \<Rightarrow> test_page \<Rightarrow> nat \<Rightarrow> nat \<Rightarrow> u32 \<Rightarrow> bool" where
  "may_create sys page off n prot \<longleftrightarrow> off = 0 \<and> n = PAGE_SIZE \<and>
     (prot = MMAP_FLAG_PROT_READ sys \<or> prot = MM_RW sys \<and> page = Test_bss)"

locale memref_checks = memref_os sys view limit
  for sys :: "('w::len, 'k) memref_sys" and view :: "'k \<Rightarrow> sys_view" and limit :: nat +
  assumes refuses: "\<not> may_create sys page off n prot \<Longrightarrow>
      \<exists>rc k'. sy_memref_create sys page off n prot k = (rc, k') \<and> rc < 0 \<and> view k' = view k"
    and protections: "MM_RW sys OR MMAP_FLAG_PROT_EXEC sys \<notin> {MMAP_FLAG_PROT_READ sys, MM_RW sys}"
      "0xF000 \<notin> {MMAP_FLAG_PROT_READ sys, MM_RW sys}" "MM_RW sys \<noteq> MMAP_FLAG_PROT_READ sys"

text \<open>Between tests the client holds no channel, reference or mapping; a lender that runs has its references.\<close>

definition holds_nothing :: "sys_view \<Rightarrow> bool" where
  "holds_nothing v \<longleftrightarrow> v_chans v = Map.empty \<and> v_refs v = Map.empty \<and> v_maps v = Map.empty \<and> length (v_bss v) = PAGE_SIZE"

definition lender_ready :: "lender_state \<Rightarrow> bool" where
  "lender_ready s \<longleftrightarrow> lender_ok s \<and> bss_memref s \<noteq> None"

definition idle :: "sys_view \<Rightarrow> bool" where
  "idle v \<longleftrightarrow> holds_nothing v \<and> (\<forall>s. v_lender v = Some s \<longrightarrow> lender_ready s)"

lemma init_ready: "lender_init bss_rc ro_rc rw_rc lender_initial = Inr s \<Longrightarrow> lender_ready s"
  by (auto simp: lender_init_def lender_initial_def lender_ready_def lender_ok_def Let_def split: if_splits)

lemma allows_rw:
  "allows (MM_RW sys) (MM_RW sys)" "allows (MM_RW sys) (MMAP_FLAG_PROT_READ sys)" "allows (MM_RW sys) (MMAP_FLAG_PROT_WRITE sys)"
  by (simp_all add: allows_def MM_RW_def bit_eq_iff bit_simps)

lemma room_few:
  assumes "3 \<le> limit"
  shows "v_chans v = Map.empty \<Longrightarrow> v_refs v = Map.empty \<Longrightarrow> room limit v"
    "v_chans v = [h \<mapsto> x] \<Longrightarrow> v_refs v = Map.empty \<Longrightarrow> room limit v"
    "v_chans v = [h \<mapsto> x] \<Longrightarrow> v_refs v = [r \<mapsto> y] \<Longrightarrow> room limit v"
    "v_maps v = Map.empty \<Longrightarrow> map_room limit v"
  using assms by (auto simp: room_def map_room_def)

section \<open>The tests pass\<close>

context memref_ipc
begin

text \<open>The helpers, each with the lender at the other end.\<close>

lemma connect_runs:
  assumes "idle (view k)"
  shows "\<exists>h k' s i. lender_connect sys c k = (0, h, k') \<and> 0 < h \<and> lender_ready s \<and>
    view k' = (view k)\<lparr>v_lender := Some s, v_instance := i, v_chans := [h \<mapsto> Some i]\<rparr>"
proof -
  have n: "v_chans (view k) = Map.empty" "v_refs (view k) = Map.empty" using assms by (simp_all add: idle_def holds_nothing_def)
  obtain h k' v' where c: "sy_connect sys k = ((0, Some h), k')" "free_handle h (view k)" "started (view k) v'"
    "view k' = v'\<lparr>v_chans := (v_chans v')(h \<mapsto> Some (v_instance v'))\<rparr>"
    using connects [OF room_few(1) [OF limit n]] by blast
  show ?thesis
  proof (cases "v_lender (view k)")
    case None
    then obtain s bss_rc ro_rc rw_rc where s: "lender_init bss_rc ro_rc rw_rc lender_initial = Inr s"
      "v' = (view k)\<lparr>v_lender := Some s, v_instance := Suc (v_instance (view k))\<rparr>"
      using c(3) by (auto simp: started_def)
    then show ?thesis using c(1,2,4) n init_ready [OF s(1)] by (auto simp: lender_connect_def free_handle_def)
  next
    case (Some s)
    then have s: "lender_ready s" "v' = view k" using c(3) assms by (auto simp: started_def idle_def)
    then have "view k' = (view k)\<lparr>v_lender := Some s, v_instance := v_instance (view k), v_chans := [h \<mapsto> Some (v_instance (view k))]\<rparr>"
      using c(4) Some n by simp
    then show ?thesis
      using c(1,2) s(1) by (intro exI [of _ h] exI [of _ k'] exI [of _ s] exI [of _ "v_instance (view k)"])
        (simp add: lender_connect_def free_handle_def)
  qed
qed

text \<open>A channel to the running lender, and nothing else or one reference besides.\<close>

definition talks :: "handle_t \<Rightarrow> lender_state \<Rightarrow> sys_view \<Rightarrow> bool" where
  "talks h s v \<longleftrightarrow> 0 < h \<and> v_chans v = [h \<mapsto> Some (v_instance v)] \<and> v_lender v = Some s \<and> lender_ready s \<and>
     (v_refs v = Map.empty \<or> (\<exists>r y. v_refs v = [r \<mapsto> y]))"

lemma talks_room: "talks h s v \<Longrightarrow> room limit v"
  using room_few(2,3) [OF limit] by (auto simp: talks_def)

lemma talk:
  assumes "talks h s (view k)" and "length (snd req) \<le> MAX_WRITE"
  shows "\<exists>env lenv k'. sy_exchange sys h req k = (env, k') \<and> carries env lenv req s \<and>
    (\<forall>rc out s'. lender_on_message lenv s = Inr (rc, out, s') \<longrightarrow>
      view k' = after_message (lent_prot sys) h req rc out s' (snd (c_read_msg env)) (view k) \<and>
      (\<forall>l r. out = [Lent l] \<and> snd (c_read_msg env) = Some r \<longrightarrow> free_handle r (view k)))"
  using exchanges [of k h s req] talks_room [OF assms(1)] assms by (simp add: talks_def lender_ready_def)

lemma lend_runs:
  assumes "talks h s (view k)" and "v_refs (view k) = Map.empty"
  shows "\<exists>r k'. run_lend_bss sys h m k = (0, r, k') \<and> free_handle r (view k) \<and>
    view k' = (view k)\<lparr>v_refs := [r \<mapsto> (Lender_page LENDER_LEND_BSS (v_instance (view k)), MM_RW sys)]\<rparr>"
proof -
  let ?req = "(\<lparr>lender_cmd = LENDER_LEND_BSS, region = no_region\<rparr>, []) :: 'w request"
  have s: "v_lender (view k) = Some s" "lender_ready s" using assms(1) by (simp_all add: talks_def)
  obtain l where l: "bss_memref s = Some l" using s(2) by (auto simp: lender_ready_def)
  obtain env k' and lenv :: "'w lender_env" where e: "sy_exchange sys h ?req k = (env, k')" "carries env lenv ?req s"
    "\<forall>rc out s'. lender_on_message lenv s = Inr (rc, out, s') \<longrightarrow>
      view k' = after_message (lent_prot sys) h ?req rc out s' (snd (c_read_msg env)) (view k) \<and>
      (\<forall>l r. out = [Lent l] \<and> snd (c_read_msg env) = Some r \<longrightarrow> free_handle r (view k))"
    using talk [OF assms(1), of ?req] by auto
  note served = client_lend_served(1) [OF l e(2)]
  obtain r where r: "c_read_msg env = (0, Some r)"
    "client_lend_bss env m = (0, r, \<lparr>lender_cmd = LENDER_LEND_BSS, region = no_region\<rparr> :: 'w word lender_msg, [])"
    using client_lend_served(2) [OF l e(2), where memref = m] by blast
  have "view k' = after_message (lent_prot sys) h ?req (Some 0) [Lent l] s (Some r) (view k)" "free_handle r (view k)"
    using e(3) served r(1) by auto
  then show ?thesis using e(1) r(2) assms(2) s(1) by (auto simp: run_lend_bss_def after_message_def lent_prot_def)
qed

lemma read_runs:
  assumes "talks h s (view k)" and "off + n \<le> PAGE_SIZE" and "n \<le> length buf"
  shows "\<exists>k'. run_read_bss sys h off n buf k = Inr (0, take n (drop off (bss_page s)) @ drop n buf, k') \<and> view k' = view k"
proof -
  obtain env k' and lenv :: "'w lender_env" where e: "sy_exchange sys h (read_req off n) k = (env, k')" "carries env lenv (read_req off n) s"
    "\<forall>rc out s'. lender_on_message lenv s = Inr (rc, out, s') \<longrightarrow>
      view k' = after_message (lent_prot sys) h (read_req off n :: 'w request) rc out s' (snd (c_read_msg env)) (view k) \<and>
      (\<forall>l r. out = [Lent l] \<and> snd (c_read_msg env) = Some r \<longrightarrow> free_handle r (view k))"
    using talk [OF assms(1), of "read_req off n"] by auto
  have ok: "lender_ok s" "v_lender (view k) = Some s" using assms(1) by (simp_all add: talks_def lender_ready_def)
  note served = client_read_served [OF width ok(1) assms(2,3) e(2)]
  have "view k' = view k" using e(3) served(1) ok(2) by (fastforce simp: after_message_def)
  then show ?thesis using e(1) served(2) by (simp add: run_read_bss_def)
qed

lemma write_runs:
  assumes "talks h s (view k)" and "off + length data \<le> PAGE_SIZE" and "length data \<le> MAX_WRITE"
  shows "\<exists>k'. run_write_bss sys h off data k = Inr (0, k') \<and>
    view k' = (view k)\<lparr>v_lender := Some (s\<lparr>bss_page := take off (bss_page s) @ data @ drop (off + length data) (bss_page s)\<rparr>)\<rparr>"
proof -
  obtain env k' and lenv :: "'w lender_env" where e: "sy_exchange sys h (write_req off data) k = (env, k')" "carries env lenv (write_req off data) s"
    "\<forall>rc out s'. lender_on_message lenv s = Inr (rc, out, s') \<longrightarrow>
      view k' = after_message (lent_prot sys) h (write_req off data :: 'w request) rc out s' (snd (c_read_msg env)) (view k) \<and>
      (\<forall>l r. out = [Lent l] \<and> snd (c_read_msg env) = Some r \<longrightarrow> free_handle r (view k))"
    using talk [OF assms(1), of "write_req off data"] assms(3) by auto
  have ok: "lender_ok s" using assms(1) by (simp add: talks_def lender_ready_def)
  note served = client_write_served [OF width ok assms(2) e(2)]
  have "view k' = (view k)\<lparr>v_lender := Some (s\<lparr>bss_page := take off (bss_page s) @ data @ drop (off + length data) (bss_page s)\<rparr>)\<rparr>"
    using e(3) served(1) by (fastforce simp: after_message_def)
  then show ?thesis using e(1) served(2) by (simp add: run_write_bss_def)
qed

lemma suicide_runs:
  assumes "talks h s (view k)"
  shows "\<exists>k'. run_suicide sys h k = (0, k') \<and>
    view k' = (view k)\<lparr>v_lender := None, v_chans := Map.empty, v_refs := (v_refs (view k))(h := None)\<rparr>"
proof -
  let ?req = "(\<lparr>lender_cmd = LENDER_SUICIDE, region = no_region\<rparr>, []) :: 'w request"
  obtain env k' and lenv :: "'w lender_env" where e: "sy_exchange sys h ?req k = (env, k')" "carries env lenv ?req s"
    "\<forall>rc out s'. lender_on_message lenv s = Inr (rc, out, s') \<longrightarrow>
      view k' = after_message (lent_prot sys) h ?req rc out s' (snd (c_read_msg env)) (view k) \<and>
      (\<forall>l r. out = [Lent l] \<and> snd (c_read_msg env) = Some r \<longrightarrow> free_handle r (view k))"
    using talk [OF assms, of ?req] by auto
  have "lender_on_message lenv s = Inr (None, [], s)"
    using carriesD(1,2) [OF e(2)] by (simp add: lender_on_message_def memcpy_to_def lender_env_ok_def)
  then have v: "view k' = (view k)\<lparr>v_lender := None, v_chans := (\<lambda>c. map_option (\<lambda>_. None) (v_chans (view k) c))\<rparr>"
    using e(3) by (fastforce simp: after_message_def)
  have c: "(\<lambda>c. map_option (\<lambda>_. None) (v_chans (view k) c))(h := None) = Map.empty"
    using assms by (auto simp: talks_def)
  have "view (sy_close sys h k') = (view k)\<lparr>v_lender := None, v_chans := (\<lambda>c. map_option (\<lambda>_. None) (v_chans (view k) c))(h := None),
      v_refs := (v_refs (view k))(h := None)\<rparr>" by (simp add: closes v)
  moreover have "run_suicide sys h k = (0, sy_close sys h k')"
    using e(1) carriesD(5) [OF e(2)] by (simp add: run_suicide_def client_suicide_def client_command_def)
  ultimately show ?thesis unfolding c by blast
qed

lemma leak_loop_passes:
  assumes "idle (view k)"
  shows "\<exists>c m k'. leak_loop sys n chan memref k = (True, c, m, k') \<and> idle (view k')"
  using assms
proof (induction n arbitrary: chan memref k)
  case (Suc n)
  have none: "v_refs (view k) = Map.empty" "v_maps (view k) = Map.empty" "length (v_bss (view k)) = PAGE_SIZE"
    using Suc.prems by (simp_all add: idle_def holds_nothing_def)
  obtain h k1 s i where c: "lender_connect sys chan k = (0, h, k1)" "0 < h" "lender_ready s"
    "view k1 = (view k)\<lparr>v_lender := Some s, v_instance := i, v_chans := [h \<mapsto> Some i]\<rparr>"
    using connect_runs [OF Suc.prems] by blast
  then have t1: "talks h s (view k1)" "v_refs (view k1) = Map.empty" using none by (simp_all add: talks_def)
  obtain r k2 where l: "run_lend_bss sys h memref k1 = (0, r, k2)" "free_handle r (view k1)"
    "view k2 = (view k1)\<lparr>v_refs := [r \<mapsto> (Lender_page LENDER_LEND_BSS (v_instance (view k1)), MM_RW sys)]\<rparr>"
    using lend_runs [OF t1] by blast
  let ?k = "sy_close sys r k2"
  have "r \<noteq> h" using l(2) c(4) by (auto simp: free_handle_def)
  then have v: "view ?k = view k1" using l(3) c(4) t1(2) by (auto simp: closes)
  obtain k3 where x: "run_suicide sys h ?k = (0, k3)"
    "view k3 = (view ?k)\<lparr>v_lender := None, v_chans := Map.empty, v_refs := (v_refs (view ?k))(h := None)\<rparr>"
    using suicide_runs [of h s ?k] t1(1) v by auto
  have "idle (view (sy_close sys h k3))"
    using none c(4) x(2) [unfolded v] by (simp add: closes idle_def holds_nothing_def)
  from Suc.IH [OF this, of h r] show ?case using c(1) l(1) x(1) by simp
qed simp

lemma leak_creation_passes:
  assumes "idle (view k)"
  shows "\<exists>k'. leak_creation sys k = Inr (True, k') \<and> idle (view k')"
proof -
  obtain c m k' where "leak_loop sys leak_creation_iters INVALID_IPC_HANDLE INVALID_IPC_HANDLE k = (True, c, m, k')" "idle (view k')"
    using leak_loop_passes [OF assms] by blast
  then show ?thesis by (simp add: leak_creation_def closes idle_def holds_nothing_def)
qed

text \<open>A mapping that fails is not noticed by \<open>recv_ref\<close>: it compares the result with null, and writes through it.\<close>

lemma recv_ref_failed_map:
  assumes "\<And>h k. sy_mmap sys PAGE_SIZE (MM_RW sys) h k = (Map_failed, k)" and "idle (view k)"
  shows "recv_ref sys k = Inl Out_of_bounds"
proof -
  obtain h k1 s i where c: "lender_connect sys INVALID_IPC_HANDLE k = (0, h, k1)" "0 < h" "lender_ready s"
    "view k1 = (view k)\<lparr>v_lender := Some s, v_instance := i, v_chans := [h \<mapsto> Some i]\<rparr>"
    using connect_runs [OF assms(2)] by blast
  then have "talks h s (view k1)" "v_refs (view k1) = Map.empty"
    using assms(2) by (simp_all add: talks_def idle_def holds_nothing_def)
  then obtain r k2 where "run_lend_bss sys h INVALID_IPC_HANDLE k1 = (0, r, k2)" using lend_runs by blast
  then show ?thesis using c(1) assms(1) by (simp add: recv_ref_def use_shared_def store_def)
qed

end

context memref_os
begin

lemma self_map_passes:
  assumes "idle (view k)"
  shows "\<exists>k'. self_map sys k = Inr (True, k') \<and> idle (view k')"
proof -
  have n: "v_chans (view k) = Map.empty" "v_refs (view k) = Map.empty" "v_maps (view k) = Map.empty"
    using assms by (simp_all add: idle_def holds_nothing_def)
  obtain h k1 where c: "sy_memref_create sys Test_bss 0 PAGE_SIZE (MM_RW sys) k = (h, k1)" "free_handle h (view k)"
    "view k1 = (view k)\<lparr>v_refs := (v_refs (view k))(h \<mapsto> (Own_bss, MM_RW sys))\<rparr>"
    using creates [OF room_few(1) [OF limit n(1,2)]] by blast
  obtain a k2 where a: "sy_mmap sys PAGE_SIZE (MM_RW sys) h k1 = (Mapped a, k2)"
    "view k2 = (view k1)\<lparr>v_maps := (v_maps (view k1))(a \<mapsto> (Own_bss, MM_RW sys))\<rparr>"
    using maps [of k1 h Own_bss "MM_RW sys" "MM_RW sys"] c(3) n(3) room_few(4) [OF limit] allows_rw by auto
  obtain k3 where s: "sy_store sys a 0 3 k2 = Some k3" "view k3 = (view k2)\<lparr>v_bss := (v_bss (view k2))[0 := 3]\<rparr>"
    using stores [of k2 a Own_bss "MM_RW sys" "v_bss (view k2)" 0 3] a(2) allows_rw by auto
  obtain k4 where u: "sy_munmap sys (Mapped a) PAGE_SIZE k3 = (0, k4)"
    "view k4 = (view k3)\<lparr>v_maps := (v_maps (view k3))(a := None)\<rparr>"
    using unmaps [of k3 a "(Own_bss, MM_RW sys)"] a(2) s(2) by auto
  show ?thesis
    using assms c a s u by (simp add: self_map_def store_def own_page closes holds_nothing_def idle_def free_handle_def)
qed

lemma use_shared_passes:
  assumes t: "talks h s (view k)" and m: "v_maps (view k) a = Some (Lender_page LENDER_LEND_BSS (v_instance (view k)), MM_RW sys)"
  shows "\<exists>k' s'. use_shared sys h (Mapped a) k = Inr (True, k') \<and> lender_ready s' \<and>
    view k' = (view k)\<lparr>v_maps := (v_maps (view k))(a := None), v_lender := Some s'\<rparr>"
proof -
  let ?o = "Lender_page LENDER_LEND_BSS (v_instance (view k))"
  define p where "p = bss_page s"
  define v where "v = (\<lambda>b. (view k)\<lparr>v_lender := Some (s\<lparr>bss_page := b\<rparr>)\<rparr>)"
  have ready: "lender_ready s" "v_lender (view k) = Some s" using t by (simp_all add: talks_def)
  have len: "length p = PAGE_SIZE" using ready by (simp add: p_def lender_ready_def lender_ok_def)
  have tv: "talks h (s\<lparr>bss_page := b\<rparr>) (v b)" "lender_ready (s\<lparr>bss_page := b\<rparr>)" if "length b = PAGE_SIZE" for b
    using t that by (auto simp: talks_def v_def lender_ready_def lender_ok_def)
  have mv: "v_maps (v b) a = Some (?o, MM_RW sys)" "object_bytes ?o (v b) = Some b" "v_instance (v b) = v_instance (view k)" for b
    using m by (simp_all add: v_def)
  have pv: "put_object ?o b' (v b) = v b'" for b b' by (simp add: v_def)
  have st: "\<exists>k2. sy_store sys a i x k1 = Some k2 \<and> view k2 = v (b[i := x])" if "view k1 = v b" "i < PAGE_SIZE" for k1 b i x
  proof -
    have "v_maps (view k1) a = Some (?o, MM_RW sys)" "object_bytes ?o (view k1) = Some b" unfolding that(1) by (rule mv)+
    from stores [OF this(1) allows_rw(3) this(2) that(2)] show ?thesis unfolding that(1) pv .
  qed
  have "view k = v p" using ready(2) by (simp add: v_def p_def)
  then obtain k1 where s1: "sy_store sys a 0 1 k = Some k1" "view k1 = v (p[0 := 1])" using st [of k p 0 1] by auto
  obtain k2 where s2: "run_read_bss sys h 0 1 [0] k1 = Inr (0, [1], k2)" "view k2 = v (p[0 := 1])"
    using read_runs [of h "s\<lparr>bss_page := p[0 := 1]\<rparr>" k1 0 1 "[0]"] tv(1) [of "p[0 := 1]"] s1(2) len by (cases p) auto
  have p42: "take 1 (p[0 := 1]) @ [42] @ drop (1 + length [42]) (p[0 := 1]) = p[0 := 1, 1 := 42]"
    using len by (cases p rule: remdups_adj.cases) auto
  obtain k3 where s3: "run_write_bss sys h 1 [42] k2 = Inr (0, k3)" "view k3 = v (p[0 := 1, 1 := 42])"
    using write_runs [of h "s\<lparr>bss_page := p[0 := 1]\<rparr>" k2 1 "[42]"] tv(1) [of "p[0 := 1]"] s2(2) len
    by (auto simp: p42 [simplified] v_def)
  have m3: "v_maps (view k3) a = Some (?o, MM_RW sys)" "object_bytes ?o (view k3) = Some (p[0 := 1, 1 := 42])"
    unfolding s3(2) by (rule mv)+
  have l: "sy_load sys a 0 k3 = Some 1" "sy_load sys a 1 k3 = Some 42"
    using loads [OF m3(1) allows_rw(2) m3(2), of 0] loads [OF m3(1) allows_rw(2) m3(2), of 1] len by simp_all
  obtain k4 where s4: "sy_store sys a 0 0 k3 = Some k4" "view k4 = v (p[0 := 1, 1 := 42, 0 := 0])" using st [OF s3(2), of 0 0] by auto
  obtain k5 where s5: "sy_store sys a 1 0 k4 = Some k5" "view k5 = v (p[0 := 1, 1 := 42, 0 := 0, 1 := 0])"
    using st [OF s4(2), of 1 0] by auto
  obtain k6 where s6: "sy_munmap sys (Mapped a) PAGE_SIZE k5 = (0, k6)" "view k6 = (view k5)\<lparr>v_maps := (v_maps (view k5))(a := None)\<rparr>"
    using unmaps [of k5 a "(?o, MM_RW sys)"] mv(1) s5(2) by auto
  have "use_shared sys h (Mapped a) k = Inr (True, k6)"
    using s1(1) s2(1) s3(1) l s4(1) s5(1) s6(1) by (simp add: use_shared_def store_def load_def)
  moreover have "view k6 = (view k)\<lparr>v_maps := (v_maps (view k))(a := None),
      v_lender := Some (s\<lparr>bss_page := p[0 := 1, 1 := 42, 0 := 0, 1 := 0]\<rparr>)\<rparr>"
    using s5(2) s6(2) by (simp add: v_def)
  moreover have "lender_ready (s\<lparr>bss_page := p[0 := 1, 1 := 42, 0 := 0, 1 := 0]\<rparr>)" by (rule tv(2)) (simp add: len)
  ultimately show ?thesis by blast
qed

lemma recv_ref_passes:
  assumes "idle (view k)"
  shows "\<exists>k'. recv_ref sys k = Inr (True, k') \<and> idle (view k')"
proof -
  have n: "v_refs (view k) = Map.empty" "v_maps (view k) = Map.empty" "length (v_bss (view k)) = PAGE_SIZE"
    using assms by (simp_all add: idle_def holds_nothing_def)
  obtain h k1 s i where c: "lender_connect sys INVALID_IPC_HANDLE k = (0, h, k1)" "0 < h" "lender_ready s"
    "view k1 = (view k)\<lparr>v_lender := Some s, v_instance := i, v_chans := [h \<mapsto> Some i]\<rparr>"
    using connect_runs [OF assms] by blast
  then have t1: "talks h s (view k1)" "v_refs (view k1) = Map.empty" using n by (simp_all add: talks_def)
  obtain r k2 where l: "run_lend_bss sys h INVALID_IPC_HANDLE k1 = (0, r, k2)"
    "view k2 = (view k1)\<lparr>v_refs := [r \<mapsto> (Lender_page LENDER_LEND_BSS (v_instance (view k1)), MM_RW sys)]\<rparr>"
    using lend_runs [OF t1] by blast
  let ?o = "Lender_page LENDER_LEND_BSS i"
  obtain a k3 where m: "sy_mmap sys PAGE_SIZE (MM_RW sys) r k2 = (Mapped a, k3)"
    "view k3 = (view k2)\<lparr>v_maps := (v_maps (view k2))(a \<mapsto> (?o, MM_RW sys))\<rparr>"
    using maps [of k2 r ?o "MM_RW sys" "MM_RW sys"] l(2) c(4) n(2) room_few(4) [OF limit] allows_rw by auto
  have "talks h s (view k3)" "v_maps (view k3) a = Some (Lender_page LENDER_LEND_BSS (v_instance (view k3)), MM_RW sys)"
    using t1 l(2) m(2) c(4) by (auto simp: talks_def)
  from use_shared_passes [OF this] obtain k4 s' where u: "use_shared sys h (Mapped a) k3 = Inr (True, k4)" "lender_ready s'"
    "view k4 = (view k3)\<lparr>v_maps := (v_maps (view k3))(a := None), v_lender := Some s'\<rparr>" by blast
  have "recv_ref sys k = Inr (True, sy_close sys h (sy_close sys r k4))"
    using c(1) l(1) m(1) u(1) by (simp add: recv_ref_def)
  moreover have "idle (view (sy_close sys h (sy_close sys r k4)))"
    using n c(4) l(2) m(2) u(2,3) by (auto simp: closes holds_nothing_def idle_def)
  ultimately show ?thesis by blast
qed

lemma sharing_test_passes:
  "t \<in> set (sharing_tests sys) \<Longrightarrow> idle (view k) \<Longrightarrow> \<exists>k'. t k = Inr (True, k') \<and> idle (view k')"
  using self_map_passes recv_ref_passes leak_creation_passes by (auto simp: sharing_tests_def)

lemma sharing_suite_passes:
  assumes "set ts \<subseteq> set (sharing_tests sys)" and "idle (view k)"
  shows "\<exists>k'. memref_suite ts k = Inr (True, k') \<and> idle (view k')"
  using assms
proof (induction ts arbitrary: k)
  case (Cons t ts)
  then obtain k1 where k1: "t k = Inr (True, k1)" "idle (view k1)"
    using sharing_test_passes by (meson list.set_intros(1) subset_code(1))
  with Cons.IH [OF _ k1(2)] Cons.prems(1) show ?case by auto
qed simp

end

context memref_checks
begin

lemma expect_close_refused:
  assumes "\<not> may_create sys page off n prot" and "idle (view k)"
  shows "\<exists>k'. expect_close sys (page, off, n, prot) (True, k) = (True, k') \<and> idle (view k')"
  using refuses [OF assms(1), of k] assms(2) by (auto simp: expect_close_def closes holds_nothing_def idle_def)

lemma expect_closes_refused:
  assumes "\<forall>(page, off, n, prot) \<in> set xs. \<not> may_create sys page off n prot" and "idle (view k)"
  shows "\<exists>k'. fold (expect_close sys) xs (True, k) = (True, k') \<and> idle (view k')"
  using assms
proof (induction xs arbitrary: k)
  case (Cons x xs)
  obtain page off n prot where x: "x = (page, off, n, prot)" by (cases x)
  obtain k1 where "expect_close sys x (True, k) = (True, k1)" "idle (view k1)"
    using expect_close_refused [of page off n prot k] Cons.prems x by auto
  with Cons.IH [of k1] Cons.prems(1) show ?case by simp
qed simp

lemma creation_passes:
  assumes "idle (view k)"
  shows "\<exists>k'. creation sys k = Inr (True, k') \<and> idle (view k')"
proof -
  have "\<forall>(page, off, n, prot) \<in> set (bad_creations sys). \<not> may_create sys page off n prot"
    using protections by (auto simp: bad_creations_def may_create_def)
  from expect_closes_refused [OF this assms]
  obtain k1 where k1: "fold (expect_close sys) (bad_creations sys) (True, k) = (True, k1)" "idle (view k1)" by blast
  then have "v_chans (view k1) = Map.empty" "v_refs (view k1) = Map.empty" by (simp_all add: idle_def holds_nothing_def)
  from creates [OF room_few(1) [OF limit this], of "MMAP_FLAG_PROT_READ sys"] k1 show ?thesis
    by (auto simp: creation_def closes holds_nothing_def idle_def free_handle_def)
qed

end

section \<open>A system with the lender\<close>

text \<open>
  An instance of the contracts, on views as states: a kernel that gives a process 64 handles and 64 mappings and the next number that
  is not in use; the lender of the repository, started by a connection when it does not run, without a reference to its read-only
  page, of which \<open>memref_create\<close> makes none; references and mappings that are checked against their protection.
\<close>

definition os_handle :: "sys_view \<Rightarrow> handle_t" where
  "os_handle v = Max (insert 0 (dom (v_chans v) \<union> dom (v_refs v))) + 1"

definition os_addr :: "sys_view \<Rightarrow> nat" where
  "os_addr v = Suc (Max (insert 0 (dom (v_maps v))))"

definition os_lender :: lender_state where
  "os_lender = \<lparr>bss_page = replicate PAGE_SIZE 0, bss_memref = Some 11, ro_memref = None, rw_memref = Some 13\<rparr>"

definition os_connect :: "sys_view \<Rightarrow> (int \<times> handle_t option) \<times> sys_view" where
  "os_connect v =
     (if \<not> room 64 v then ((-5, None), v)
      else
        let v' = (if v_lender v \<noteq> None then v else v\<lparr>v_lender := Some os_lender, v_instance := Suc (v_instance v)\<rparr>)
        in ((0, Some (os_handle v)), v'\<lparr>v_chans := (v_chans v')(os_handle v \<mapsto> Some (v_instance v'))\<rparr>))"

definition os_answers :: "nat \<Rightarrow> handle_t \<Rightarrow> lender_out list \<Rightarrow> client_env" where
  "os_answers n r out = \<lparr>lender_msg_size = 24, c_send = int (24 + n), c_wait = 0, c_get_msg = 0,
     c_read_msg = (0, case out of [Lent h] \<Rightarrow> Some r | _ \<Rightarrow> None),
     c_recv = (case out of [Sent_bytes b] \<Rightarrow> (int (length b), b) | _ \<Rightarrow> (0, []))\<rparr>"

definition os_no_peer :: client_env where
  "os_no_peer = \<lparr>lender_msg_size = 24, c_send = -20, c_wait = -20, c_get_msg = -20, c_read_msg = (-20, None), c_recv = (-20, [])\<rparr>"

definition os_prot :: "lender_command \<Rightarrow> u32" where
  "os_prot command = (if command = LENDER_LEND_RO then 1 else 3)"

definition os_exchange :: "handle_t \<Rightarrow> 64 request \<Rightarrow> sys_view \<Rightarrow> client_env \<times> sys_view" where
  "os_exchange h req v =
     (case v_lender v of
        None \<Rightarrow> (os_no_peer, v)
      | Some s \<Rightarrow>
          if v_chans v h \<noteq> Some (Some (v_instance v)) then (os_no_peer, v)
          else case lender_on_message (lender_env_of (fst req) (snd req)) s of
            Inl f \<Rightarrow> (os_no_peer, v)
          | Inr (rc, out, s') \<Rightarrow>
              let env = os_answers (length (snd req)) (os_handle v) out
              in (env, after_message os_prot h req rc out s' (snd (c_read_msg env)) v))"

definition os_sys :: "(64, sys_view) memref_sys" where
  "os_sys =
     \<lparr>sy_connect = os_connect,
      sy_exchange = os_exchange,
      sy_memref_create = (\<lambda>page off n prot v.
        if room 64 v \<and> page = Test_bss \<and> off = 0 \<and> n = PAGE_SIZE \<and> prot \<in> {1, 3}
        then (os_handle v, v\<lparr>v_refs := (v_refs v)(os_handle v \<mapsto> (Own_bss, prot))\<rparr>) else (-8, v)),
      sy_mmap = (\<lambda>n p h v. case v_refs v h of None \<Rightarrow> (Map_failed, v)
        | Some (obj, prot) \<Rightarrow>
            if n = PAGE_SIZE \<and> allows prot p \<and> map_room 64 v
            then (Mapped (os_addr v), v\<lparr>v_maps := (v_maps v)(os_addr v \<mapsto> (obj, p))\<rparr>) else (Map_failed, v)),
      sy_munmap = (\<lambda>p n v. case p of
          Mapped a \<Rightarrow> if v_maps v a = None then (-1, v) else (0, v\<lparr>v_maps := (v_maps v)(a := None)\<rparr>)
        | _ \<Rightarrow> (-1, v)),
      sy_close = (\<lambda>h v. v\<lparr>v_chans := (v_chans v)(h := None), v_refs := (v_refs v)(h := None)\<rparr>),
      sy_load = (\<lambda>a i v. case v_maps v a of None \<Rightarrow> None
        | Some (obj, prot) \<Rightarrow> if allows prot 1 \<and> i < PAGE_SIZE then map_option (\<lambda>b. b ! i) (object_bytes obj v) else None),
      sy_store = (\<lambda>a i x v. case v_maps v a of None \<Rightarrow> None
        | Some (obj, prot) \<Rightarrow>
            if allows prot 2 \<and> i < PAGE_SIZE then map_option (\<lambda>b. put_object obj (b[i := x]) v) (object_bytes obj v) else None),
      sy_bss = v_bss, sy_set_bss = (\<lambda>b v. v\<lparr>v_bss := b\<rparr>),
      MMAP_FLAG_PROT_READ = 1, MMAP_FLAG_PROT_WRITE = 2, MMAP_FLAG_PROT_EXEC = 4\<rparr>"

lemma os_sys_sel [simp]:
  "sy_connect os_sys = os_connect" "sy_exchange os_sys = os_exchange" "MMAP_FLAG_PROT_READ os_sys = 1"
  "MMAP_FLAG_PROT_WRITE os_sys = 2" "MMAP_FLAG_PROT_EXEC os_sys = 4" "MM_RW os_sys = 3"
  by (simp_all add: os_sys_def MM_RW_def)

lemma os_prot_eq: "lent_prot os_sys = os_prot"
  by (rule ext) (simp add: lent_prot_def os_prot_def)

lemma os_lender_init: "lender_init 11 (-8) 13 lender_initial = Inr os_lender"
  by (simp add: lender_init_def lender_initial_def os_lender_def)

lemma above_Max: "finite A \<Longrightarrow> Max (insert x A) < y \<Longrightarrow> y \<notin> A" for x :: "'a::linorder"
  by (metis Max_ge finite_insert insertI2 leD)

lemma os_fresh:
  assumes "room n v"
  shows "free_handle (os_handle v) v"
proof -
  let ?A = "dom (v_chans v) \<union> dom (v_refs v)"
  have f: "finite ?A" using assms by (simp add: room_def)
  have "os_handle v \<notin> ?A" by (rule above_Max [OF f, of 0]) (simp add: os_handle_def)
  moreover have "0 < os_handle v" using Max_ge [of "insert 0 ?A" 0] f by (simp add: os_handle_def)
  ultimately show ?thesis by (auto simp: free_handle_def)
qed

lemma os_fresh_addr:
  assumes "map_room n v"
  shows "v_maps v (os_addr v) = None"
proof -
  have "finite (dom (v_maps v))" using assms by (simp add: map_room_def)
  from above_Max [OF this, of 0 "os_addr v"] show ?thesis by (auto simp: os_addr_def)
qed

lemma os_connects:
  assumes "room 64 v"
  shows "\<exists>h v1 v'. os_connect v = ((0, Some h), v1) \<and> free_handle h v \<and> started v v' \<and>
    v1 = v'\<lparr>v_chans := (v_chans v')(h \<mapsto> Some (v_instance v'))\<rparr>"
proof -
  let ?v = "if v_lender v \<noteq> None then v else v\<lparr>v_lender := Some os_lender, v_instance := Suc (v_instance v)\<rparr>"
  have "started v ?v" using os_lender_init by (auto simp: started_def)
  with assms os_fresh [OF assms] show ?thesis by (auto simp: os_connect_def Let_def)
qed

lemma os_exchanges:
  assumes "v_chans v h = Some (Some (v_instance v))" and "v_lender v = Some s" and "length (snd req) \<le> MAX_WRITE" and "room 64 v"
    and "lender_ok s"
  shows "\<exists>env lenv v'. os_exchange h req v = (env, v') \<and> carries env lenv req s \<and>
    (\<forall>rc out s'. lender_on_message lenv s = Inr (rc, out, s') \<longrightarrow>
      v' = after_message os_prot h req rc out s' (snd (c_read_msg env)) v \<and>
      (\<forall>l r. out = [Lent l] \<and> snd (c_read_msg env) = Some r \<longrightarrow> free_handle r v))"
proof -
  let ?lenv = "lender_env_of (fst req) (snd req)"
  have ok: "lender_env_ok ?lenv" using assms(3) by (rule lender_env_of_ok)
  obtain rc out s' where m: "lender_on_message ?lenv s = Inr (rc, out, s')"
    using message_total [OF ok assms(5)] by blast
  let ?env = "os_answers (length (snd req)) (os_handle v) out"
  have "os_exchange h req v = (?env, after_message os_prot h req rc out s' (snd (c_read_msg ?env)) v)"
    using assms(1,2) m by (simp add: os_exchange_def Let_def)
  moreover have "carries ?env ?lenv req s"
    using ok m
    by (auto simp: carries_def sends_def delivers_def os_answers_def lender_env_of_def split: list.split lender_out.split)
  moreover have "free_handle r v" if "out = [Lent l]" "snd (c_read_msg ?env) = Some r" for l r
    using that os_fresh [OF assms(4)] by (simp add: os_answers_def)
  ultimately show ?thesis using m by fastforce
qed

interpretation lent: memref_checks os_sys "\<lambda>v. v" 64
proof (unfold_locales, goal_cases)
  case (3 v)
  then show ?case using os_connects by simp
next
  case (4 v h s req)
  then show ?case using os_exchanges [of v h s req] by (simp add: os_prot_eq)
next
  case (6 v prot)
  then show ?case using os_fresh [of 64 v] by (auto simp: os_sys_def MM_RW_def)
next
  case (7 v h obj prot p)
  then show ?case using os_fresh_addr [of 64 v] by (simp add: os_sys_def)
next
  case (13 page off n prot v)
  then show ?case by (auto simp: os_sys_def may_create_def MM_RW_def)
qed (auto simp: os_sys_def MM_RW_def)


definition os_boot :: sys_view where
  "os_boot = \<lparr>v_lender = None, v_instance = 0, v_chans = Map.empty, v_refs = Map.empty, v_maps = Map.empty, v_bss = replicate PAGE_SIZE 0\<rparr>"

lemma os_boot_idle: "idle os_boot"
  by (simp add: idle_def holds_nothing_def os_boot_def)


lemma os_creation_passes: "\<exists>k'. creation os_sys os_boot = Inr (True, k') \<and> idle k'"
  by (rule lent.creation_passes [OF os_boot_idle])

text \<open>The system in which every mapping fails keeps the contract of the IPC layer; there \<open>recv_ref\<close> faults.\<close>

definition os_no_maps :: "(64, sys_view) memref_sys" where
  "os_no_maps = os_sys\<lparr>sy_mmap := (\<lambda>n prot h k. (Map_failed, k))\<rparr>"

interpretation unmapped: memref_ipc os_no_maps "\<lambda>v. v" 64
proof -
  have e: "sy_connect os_no_maps = sy_connect os_sys" "sy_exchange os_no_maps = sy_exchange os_sys" "sy_close os_no_maps = sy_close os_sys"
    "lent_prot os_no_maps = lent_prot os_sys"
    by (simp_all add: os_no_maps_def lent_prot_def MM_RW_def fun_eq_iff)
  show "memref_ipc os_no_maps (\<lambda>v. v) 64"
    using lent.connects lent.exchanges lent.closes by unfold_locales (simp_all only: e, simp_all)
qed

lemma recv_ref_unchecked_map: "recv_ref os_no_maps os_boot = Inl Out_of_bounds"
  by (rule unmapped.recv_ref_failed_map) (simp_all add: os_no_maps_def os_boot_idle)

end
