(* ===== verification/Receiver.thy ===== *)
theory Receiver
  imports Prelude
begin

text \<open>
  The memory reference receiver (\<open>memref-test/receiver/receiver.c\<close>): it maps the pages of a
  reference that a client sends and writes a greeting to the start of each. The answers of the IPC
  layer and of \<open>mmap\<close> are an environment; the pages are given by their contents.
\<close>

section \<open>The message handler\<close>

definition num_pages :: nat where
  [simp]: "num_pages = 10"

definition receiver_port_acl :: tipc_port_acl where
  "receiver_port_acl = \<lparr>allow_ta_connect = False, allow_ns_connect = True, uuid_num = 0\<rparr>"

definition receiver_port :: tipc_port where
  "receiver_port = \<lparr>port_name = ''com.android.trusty.memref.receiver'', msg_max_size = 1, msg_queue_len = 1,
     port_acl = receiver_port_acl\<rparr>"

definition greeting :: "byte list" where
  "greeting = bytes_of ''Hello from Trusty!'' @ [0]"

datatype receiver_op =
    Put_msg
  | Unmapped "byte list"
  | Closed_handle handle_t
  | Sent_sync

record receiver_env =
  r_get_msg :: int
  r_num_handles :: nat
  r_read_msg :: int
  r_handle :: handle_t
  page_size :: nat
  r_mmap :: "int + byte list"

text \<open>The loop over the pages from \<open>skip\<close> on; \<open>strcpy\<close> copies the terminating zero too.\<close>

fun greet_pages :: "nat \<Rightarrow> nat \<Rightarrow> nat \<Rightarrow> byte list \<Rightarrow> byte list res" where
  "greet_pages psize skip 0 out = Inr out"
| "greet_pages psize skip (Suc left) out =
     bindr (memcpy_to out (skip * psize) greeting) (greet_pages psize (Suc skip) left)"

definition receiver_on_message :: "receiver_env \<Rightarrow> (int \<times> receiver_op list) res" where
  "receiver_on_message env =
     (if r_get_msg env \<noteq> 0 then Inr (r_get_msg env, [])
      else if r_num_handles env \<noteq> 1 then Inr (-1, [])
      else if r_read_msg env < 0 then Inr (r_read_msg env, [Put_msg])
      else case r_mmap env of
        Inl rc \<Rightarrow> Inr (rc, [Put_msg])
      | Inr out \<Rightarrow>
          bindr (greet_pages (page_size env) 0 num_pages out) (\<lambda>out1.
            Inr (r_read_msg env, [Put_msg, Unmapped out1, Closed_handle (r_handle env), Sent_sync])))"

text \<open>\<open>main\<close>: the handle set, the service and the loop are calls of the tipc library.\<close>

fun receiver_serve :: "receiver_env list \<Rightarrow> receiver_op list res" where
  "receiver_serve [] = Inr []"
| "receiver_serve (env # envs) =
     bindr (receiver_on_message env) (\<lambda>(rc, ops). bindr (receiver_serve envs) (\<lambda>ops'. Inr (ops @ ops')))"

definition receiver_main ::
    "int option \<Rightarrow> int \<Rightarrow> receiver_env list \<Rightarrow> int \<Rightarrow> (int \<times> receiver_op list) res" where
  "receiver_main hset_err service_rc envs loop_rc =
     (case hset_err of
        Some e \<Rightarrow> Inr (e, [])
      | None \<Rightarrow>
          if service_rc < 0 then Inr (service_rc, [])
          else bindr (receiver_serve envs) (\<lambda>ops. Inr (loop_rc, ops)))"

section \<open>What the pages hold afterwards\<close>

lemma greeting_length [simp]: "length greeting = 19"
  by (simp add: greeting_def bytes_of_def)

text \<open>The contents with the greeting at the start of the pages from \<open>lo\<close> to below \<open>hi\<close>.\<close>

definition greeted :: "nat \<Rightarrow> nat \<Rightarrow> nat \<Rightarrow> byte list \<Rightarrow> byte list" where
  "greeted psize lo hi out =
     map (\<lambda>i. if lo \<le> i div psize \<and> i div psize < hi \<and> i mod psize < 19
              then greeting ! (i mod psize) else out ! i) [0..<length out]"

lemma greeted_length [simp]: "length (greeted psize lo hi out) = length out"
  by (simp add: greeted_def)

lemma greeted_nth:
  "i < length out \<Longrightarrow> greeted psize lo hi out ! i =
    (if lo \<le> i div psize \<and> i div psize < hi \<and> i mod psize < 19 then greeting ! (i mod psize) else out ! i)"
  by (simp add: greeted_def)

lemma greeted_none [simp]: "greeted psize lo lo out = out"
  by (rule nth_equalityI) (auto simp: greeted_nth)

text \<open>A position is inside the greeting of page \<open>k\<close>.\<close>

lemma in_page:
  fixes i k psize :: nat
  assumes "19 \<le> psize"
  shows "k * psize \<le> i \<and> i < k * psize + 19 \<longleftrightarrow> i div psize = k \<and> i mod psize < 19"
proof
  assume "k * psize \<le> i \<and> i < k * psize + 19"
  then obtain r where "i = k * psize + r" "r < 19" by (metis add_less_cancel_left le_Suc_ex)
  then show "i div psize = k \<and> i mod psize < 19" using assms by simp
next
  assume "i div psize = k \<and> i mod psize < 19"
  then show "k * psize \<le> i \<and> i < k * psize + 19" by (metis add_less_cancel_left div_mult_mod_eq le_add1)
qed

lemma greet_page:
  assumes "19 \<le> psize" and "Suc k * psize \<le> length out"
  shows "memcpy_to out (k * psize) greeting = Inr (greeted psize k (Suc k) out)"
proof -
  have fits: "k * psize + 19 \<le> length out" using assms by simp
  have "take (k * psize) out @ greeting @ drop (k * psize + 19) out = greeted psize k (Suc k) out"
  proof (rule nth_equalityI)
    fix i assume "i < length (take (k * psize) out @ greeting @ drop (k * psize + 19) out)"
    then have i: "i < length out" using fits by simp
    consider "i < k * psize" | "k * psize \<le> i" "i < k * psize + 19" | "k * psize + 19 \<le> i" by linarith
    then show "(take (k * psize) out @ greeting @ drop (k * psize + 19) out) ! i = greeted psize k (Suc k) out ! i"
    proof cases
      case 2
      then have "i div psize = k" using in_page [OF assms(1), of k i] by simp
      then have "i mod psize = i - k * psize" by (metis minus_div_mult_eq_mod)
      with 2 i fits in_page [OF assms(1), of k i] show ?thesis by (simp add: greeted_nth nth_append)
    qed (use i fits in_page [OF assms(1), of k i] in \<open>auto simp: greeted_nth nth_append\<close>)
  qed (use fits in simp)
  with fits show ?thesis by (simp add: memcpy_to_def)
qed

lemma greeted_greeted:
  assumes "lo \<le> mid" and "mid \<le> hi"
  shows "greeted psize mid hi (greeted psize lo mid out) = greeted psize lo hi out"
  by (rule nth_equalityI) (use assms in \<open>auto simp: greeted_nth\<close>)

lemma greet_pages_eq:
  assumes "19 \<le> psize" and "(skip + left) * psize \<le> length out"
  shows "greet_pages psize skip left out = Inr (greeted psize skip (skip + left) out)"
  using assms(2)
proof (induction left arbitrary: skip out)
  case (Suc left)
  have "memcpy_to out (skip * psize) greeting = Inr (greeted psize skip (Suc skip) out)"
    by (rule greet_page [OF assms(1) le_trans [OF _ Suc.prems]]) simp
  with Suc show ?case by (simp add: greeted_greeted)
qed simp

text \<open>The receiver writes exactly the greetings: a message with one handle whose ten pages could be
  mapped is answered after every page begins with the greeting and its terminating zero, all other
  bytes of the mapping are as they were, the mapping is removed and the handle is closed once.\<close>

theorem receiver_greets:
  assumes "r_get_msg env = 0" and "r_num_handles env = 1" and "0 \<le> r_read_msg env"
    and "r_mmap env = Inr out" and "length out = num_pages * page_size env" and "19 \<le> page_size env"
  shows "\<exists>out1. receiver_on_message env =
      Inr (r_read_msg env, [Put_msg, Unmapped out1, Closed_handle (r_handle env), Sent_sync]) \<and>
    length out1 = length out \<and>
    (\<forall>i < length out. out1 ! i =
      (if i mod page_size env < 19 then greeting ! (i mod page_size env) else out ! i))"
proof -
  have "greet_pages (page_size env) 0 num_pages out = Inr (greeted (page_size env) 0 num_pages out)"
    using greet_pages_eq [OF assms(6), of 0 num_pages out] assms(5) by simp
  moreover have "i div page_size env < num_pages" if "i < length out" for i
    using that assms(5,6) by (simp add: less_mult_imp_div_less)
  ultimately show ?thesis
    using assms by (intro exI [of _ "greeted (page_size env) 0 num_pages out"])
      (simp add: receiver_on_message_def greeted_nth)
qed

definition receiver_example :: receiver_env where
  "receiver_example = \<lparr>r_get_msg = 0, r_num_handles = 1, r_read_msg = 0, r_handle = 6, page_size = 20,
     r_mmap = Inr (replicate 200 255)\<rparr>"

theorem receiver_greets_witness:
  "\<exists>out1. receiver_on_message receiver_example = Inr (0, [Put_msg, Unmapped out1, Closed_handle 6, Sent_sync]) \<and>
    out1 ! 20 = of_char CHR ''H'' \<and> out1 ! 38 = 0 \<and> out1 ! 39 = 255"
proof -
  obtain out1 where o: "receiver_on_message receiver_example = Inr (0, [Put_msg, Unmapped out1, Closed_handle 6, Sent_sync])"
    and b: "\<forall>i < 200. out1 ! i = (if i mod 20 < 19 then greeting ! (i mod 20) else replicate 200 255 ! i)"
    using receiver_greets [of receiver_example "replicate 200 255"] by (auto simp: receiver_example_def)
  have "out1 ! 20 = greeting ! 0" "out1 ! 38 = greeting ! 18" "out1 ! 39 = 255" using b by simp_all
  then show ?thesis using o by (simp add: greeting_def bytes_of_def)
qed

text \<open>
  When the reference cannot be mapped the handler returns without closing the handle it received, so
  the handle stays open for the life of the server.
\<close>

lemma receiver_keeps_handle:
  assumes "r_get_msg env = 0" and "r_num_handles env = 1" and "0 \<le> r_read_msg env" and "r_mmap env = Inl rc"
  shows "receiver_on_message env = Inr (rc, [Put_msg])"
  using assms by (simp add: receiver_on_message_def)

end
