(* ===== verification/App_Mgmt.thy ===== *)
theory App_Mgmt
  imports Trusty_Env "HOL-Library.Multiset"
begin

text \<open>
  The test servers of the application manager (\<open>app-mgmt-test\<close>): \<open>port-start-srv\<close>, which a client
  drives by one-byte commands, and \<open>port-waiter-srv\<close>, which waits for it. The effects of a run are
  the handles it opened and closed and the replies it sent, in order. The system calls are answered
  by an environment; the theory also holds what is proved of the handles.
\<close>

section \<open>Commands and effects\<close>

definition CMD_NOP :: byte where [simp]: "CMD_NOP = 0"
definition CMD_CLOSE_PORT :: byte where [simp]: "CMD_CLOSE_PORT = 1"
definition CMD_EXIT :: byte where [simp]: "CMD_EXIT = 2"
definition CMD_OPEN_PORT :: byte where [simp]: "CMD_OPEN_PORT = 3"

datatype app_rsp = RSP_OK | RSP_CMD_FAILED | RSP_INVALID_CMD

datatype handle_op =
    Opened handle_t
  | Closed handle_t
  | Replied app_rsp

fun opened :: "handle_op list \<Rightarrow> handle_t list" where
  "opened [] = []"
| "opened (Opened h # ops) = h # opened ops"
| "opened (_ # ops) = opened ops"

fun closed :: "handle_op list \<Rightarrow> handle_t list" where
  "closed [] = []"
| "closed (Closed h # ops) = h # closed ops"
| "closed (_ # ops) = closed ops"

section \<open>The port start server\<close>

text \<open>
  One iteration of the command loop: the result of \<open>wait\<close> with its event, the received command, and
  the results of the calls a command makes.
\<close>

record ps_event =
  ps_wait :: int
  ps_uevt :: uevent
  ps_recv :: "int + byte"
  ps_close :: int
  ps_create :: int
  ps_send :: int

definition handle_cmd :: "ps_event \<Rightarrow> byte \<Rightarrow> handle_t \<Rightarrow> bool \<times> handle_t \<times> handle_op list" where
  "handle_cmd ev cmd start_port =
     (let (fin, rsp, start_port1, ops) =
        (if cmd = CMD_NOP then (False, RSP_OK, start_port, [])
         else if cmd = CMD_CLOSE_PORT then
           if ps_close ev \<noteq> NO_ERROR then (True, RSP_CMD_FAILED, start_port, [Closed start_port])
           else (False, RSP_OK, start_port, [Closed start_port])
         else if cmd = CMD_OPEN_PORT then
           if ps_create ev < 0 then (True, RSP_CMD_FAILED, start_port, [])
           else (False, RSP_OK, ps_create ev, [Opened (ps_create ev)])
         else if cmd = CMD_EXIT then (True, RSP_OK, start_port, [])
         else (True, RSP_INVALID_CMD, start_port, []))
      in (fin \<or> ps_send ev < 0, start_port1, ops @ [Replied rsp]))"

text \<open>\<open>prepare_port\<close>, with the results of \<open>port_create\<close> and \<open>handle_set_ctrl\<close>.\<close>

definition prepare_port :: "int \<times> int \<Rightarrow> handle_t \<Rightarrow> (int \<times> handle_op list) res" where
  "prepare_port rcs hset =
     assertr (hset \<noteq> 0)
       (case rcs of (create_rc, ctrl_rc) \<Rightarrow>
          if create_rc < 0 then Inr (create_rc, [])
          else if ctrl_rc < 0 then Inr (ctrl_rc, [Opened create_rc, Closed create_rc])
          else Inr (create_rc, [Opened create_rc]))"

text \<open>
  The command loop: the return code, the start port at the end and the effects, or \<open>None\<close> while the
  server still waits for its next event.
\<close>

fun command_loop :: "ps_event list \<Rightarrow> handle_t \<Rightarrow> handle_t \<Rightarrow> (int \<times> handle_t \<times> handle_op list) option" where
  "command_loop [] shutdown_port start_port = None"
| "command_loop (ev # evs) shutdown_port start_port =
     (if ps_wait ev < 0 then Some (ps_wait ev, start_port, [])
      else if ev_handle (ps_uevt ev) = shutdown_port then Some (ps_wait ev, start_port, [])
      else if IPC_HANDLE_POLL_MSG \<notin> ev_event (ps_uevt ev) then Some (ps_wait ev, start_port, [])
      else case ps_recv ev of
        Inl rc \<Rightarrow> Some (rc, start_port, [])
      | Inr cmd \<Rightarrow>
          (case handle_cmd ev cmd start_port of (fin, start_port1, ops) \<Rightarrow>
             if fin then Some (0, start_port1, ops)
             else map_option (\<lambda>(rc, p, ops'). (rc, p, ops @ ops'))
               (command_loop evs shutdown_port start_port1)))"

record ps_env =
  port_hset_rc :: int
  start_rcs :: "int \<times> int"
  ctrl_rcs :: "int \<times> int"
  mixed_hset_rc :: int
  shutdown_rcs :: "int \<times> int"
  port_wait_rc :: int
  port_wait_evt :: uevent
  accept_rc :: int
  add_channel_rc :: int
  commands :: "ps_event list"

text \<open>\<open>main\<close> after the channel was accepted, up to the label that closes it.\<close>

definition serve_channel :: "ps_env \<Rightarrow> handle_t \<Rightarrow> handle_t \<Rightarrow> (int \<times> handle_t \<times> handle_op list) option" where
  "serve_channel env shutdown_port start_port =
     (if add_channel_rc env < 0 then Some (add_channel_rc env, start_port, [])
      else command_loop (commands env) shutdown_port start_port)"

text \<open>\<open>main\<close> after its ports are prepared, up to the label that closes the shutdown port.\<close>

definition serve_ports :: "ps_env \<Rightarrow> handle_t \<Rightarrow> handle_t \<Rightarrow> (int \<times> handle_t \<times> handle_op list) option" where
  "serve_ports env shutdown_port start_port =
     (if port_wait_rc env \<noteq> NO_ERROR \<or> IPC_HANDLE_POLL_READY \<notin> ev_event (port_wait_evt env)
      then Some (port_wait_rc env, start_port, [])
      else if accept_rc env < 0 then Some (accept_rc env, start_port, [])
      else map_option (\<lambda>(rc, p, ops). (rc, p, [Opened (accept_rc env)] @ ops @ [Closed (accept_rc env)]))
        (serve_channel env shutdown_port start_port))"

definition port_start_main :: "ps_env \<Rightarrow> (int \<times> handle_op list) option res" where
  "port_start_main env =
     (let port_hset = port_hset_rc env; mixed_hset = mixed_hset_rc env in
      if port_hset < 0 then Inr (Some (port_hset, []))
      else bindr (prepare_port (start_rcs env) port_hset) (\<lambda>(start_port, ops1).
        let pre1 = Opened port_hset # ops1 in
        if start_port < 0 then Inr (Some (start_port, pre1 @ [Closed port_hset]))
        else bindr (prepare_port (ctrl_rcs env) port_hset) (\<lambda>(ctrl_port, ops2).
          let pre2 = pre1 @ ops2 in
          if ctrl_port < 0 then Inr (Some (ctrl_port, pre2 @ [Closed start_port, Closed port_hset]))
          else if mixed_hset < 0 then
            Inr (Some (mixed_hset, pre2 @ [Closed ctrl_port, Closed start_port, Closed port_hset]))
          else bindr (prepare_port (shutdown_rcs env) mixed_hset) (\<lambda>(shutdown_port, ops3).
            let pre3 = pre2 @ Opened mixed_hset # ops3 in
            if shutdown_port < 0 then
              Inr (Some (shutdown_port,
                pre3 @ [Closed mixed_hset, Closed ctrl_port, Closed start_port, Closed port_hset]))
            else Inr (map_option (\<lambda>(rc, start_port1, ops).
              (rc, pre3 @ ops @ [Closed shutdown_port, Closed mixed_hset, Closed ctrl_port,
                 Closed start_port1, Closed port_hset]))
              (serve_ports env shutdown_port start_port))))))"

section \<open>The port waiter server\<close>

record pw_env =
  pw_connect :: int
  pw_create :: int
  pw_wait :: int
  pw_uevt :: uevent
  pw_accept :: int
  pw_send_cmd :: int
  pw_wait_rsp :: int
  pw_rsp_uevt :: uevent
  pw_recv :: int
  pw_send_rsp :: int

text \<open>
  The exchange on the accepted channel: send the exit command, wait for the response, pass it on.
  Whatever fails, the error path closes the three handles.
\<close>

definition pw_exchange :: "pw_env \<Rightarrow> int" where
  "pw_exchange env =
     (if pw_send_cmd env \<noteq> 1 then pw_send_cmd env
      else if pw_wait_rsp env \<noteq> NO_ERROR \<or> IPC_HANDLE_POLL_MSG \<notin> ev_event (pw_rsp_uevt env) then pw_wait_rsp env
      else if pw_recv env \<noteq> 1 then pw_recv env
      else if pw_send_rsp env \<noteq> 1 then pw_send_rsp env
      else 0)"

definition port_waiter_main :: "pw_env \<Rightarrow> int \<times> handle_op list" where
  "port_waiter_main env =
     (let shandle = pw_connect env; phandle = pw_create env; chandle = pw_accept env in
      if shandle < 0 then (shandle, [])
      else if phandle < 0 then (phandle, [Opened shandle, Closed shandle])
      else if pw_wait env \<noteq> NO_ERROR \<or> IPC_HANDLE_POLL_READY \<notin> ev_event (pw_uevt env) then
        (pw_wait env, [Opened shandle, Opened phandle, Closed phandle, Closed shandle])
      else if chandle < 0 then
        (chandle, [Opened shandle, Opened phandle, Closed phandle, Closed shandle])
      else (pw_exchange env, [Opened shandle, Opened phandle, Opened chandle,
        Closed chandle, Closed phandle, Closed shandle]))"

section \<open>Handles\<close>

lemma opened_append [simp]: "opened (xs @ ys) = opened xs @ opened ys"
  by (induction xs rule: opened.induct) auto

lemma closed_append [simp]: "closed (xs @ ys) = closed xs @ closed ys"
  by (induction xs rule: closed.induct) auto

text \<open>
  The sequences of commands that leave the start port open when the loop ends: it is closed only
  while open, opened only while closed, and the calls for it succeed. \<open>is_open\<close> says whether it is
  open before the events.
\<close>

fun paired :: "bool \<Rightarrow> handle_t \<Rightarrow> ps_event list \<Rightarrow> bool" where
  "paired is_open shutdown_port [] = True"
| "paired is_open shutdown_port (ev # evs) =
     (if ps_wait ev < 0 \<or> ev_handle (ps_uevt ev) = shutdown_port \<or>
         IPC_HANDLE_POLL_MSG \<notin> ev_event (ps_uevt ev) then is_open
      else case ps_recv ev of
        Inl rc \<Rightarrow> is_open
      | Inr cmd \<Rightarrow>
          if cmd = CMD_CLOSE_PORT then is_open \<and> ps_close ev = NO_ERROR \<and> 0 \<le> ps_send ev \<and> paired False shutdown_port evs
          else if cmd = CMD_OPEN_PORT then
            \<not> is_open \<and> 0 \<le> ps_create ev \<and> (ps_send ev < 0 \<or> paired True shutdown_port evs)
          else if cmd = CMD_NOP then (if ps_send ev < 0 then is_open else paired is_open shutdown_port evs)
          else is_open)"

text \<open>The start port is counted as open before and after the loop.\<close>

lemma loop_balance:
  assumes "paired is_open sp evs" and "command_loop evs sp p = Some (rc, p', ops)"
  shows "(if is_open then {#p#} else {#}) + mset (opened ops) = mset (closed ops) + {#p'#}"
  using assms
proof (induction evs arbitrary: is_open p p' ops)
  case (Cons ev evs)
  show ?case
  proof (cases "ps_wait ev < 0 \<or> ev_handle (ps_uevt ev) = sp \<or> IPC_HANDLE_POLL_MSG \<notin> ev_event (ps_uevt ev)")
    case True
    with Cons.prems show ?thesis by (auto split: if_splits)
  next
    case False
    show ?thesis
    proof (cases "ps_recv ev")
      case (Inl rc')
      with Cons.prems False show ?thesis by auto
    next
      case (Inr cmd)
      with Cons.prems False Cons.IH show ?thesis
        by (fastforce simp: handle_cmd_def split: if_splits)
    qed
  qed
qed simp

lemma serve_channel_balance:
  assumes "paired True sp (commands env)" and "serve_channel env sp p = Some (rc, p', ops)"
  shows "{#p#} + mset (opened ops) = mset (closed ops) + {#p'#}"
  using assms loop_balance [of True sp "commands env" p rc p' ops]
  by (auto simp: serve_channel_def split: if_splits)

lemma serve_ports_balance:
  assumes "paired True sp (commands env)" and "serve_ports env sp p = Some (rc, p', ops)"
  shows "{#p#} + mset (opened ops) = mset (closed ops) + {#p'#}"
proof (cases "serve_channel env sp p")
  case None
  with assms show ?thesis by (auto simp: serve_ports_def split: if_splits)
next
  case (Some q)
  obtain rc1 p1 ops1 where q: "q = (rc1, p1, ops1)" by (cases q) auto
  have "{#p#} + mset (opened ops1) = mset (closed ops1) + {#p1#}"
    using serve_channel_balance [OF assms(1)] Some q by blast
  with assms(2) Some q show ?thesis by (auto simp: serve_ports_def split: if_splits)
qed

lemma prepare_port_cases:
  assumes "hset \<noteq> 0"
  obtains (failed) rc ops where "prepare_port rcs hset = Inr (rc, ops)" "rc < 0" "opened ops = closed ops"
  | (ready) p where "prepare_port rcs hset = Inr (p, [Opened p])" "\<not> p < 0"
  using assms
  by (cases rcs; cases "fst rcs < 0"; cases "snd rcs < 0") (auto simp: prepare_port_def)

text \<open>The shutdown port of a run, as \<open>port_create\<close> returned it.\<close>

abbreviation shutdown_handle :: "ps_env \<Rightarrow> handle_t" where
  "shutdown_handle env \<equiv> fst (shutdown_rcs env)"

lemma prepared_is_created: "prepare_port rcs hset = Inr (p, [Opened p]) \<Longrightarrow> p = fst rcs"
  by (auto simp: prepare_port_def split: if_splits prod.splits)

lemma port_start_balance:
  assumes "port_hset_rc env \<noteq> 0" and "mixed_hset_rc env \<noteq> 0"
    and "paired True (shutdown_handle env) (commands env)"
  shows "\<exists>r. port_start_main env = Inr r \<and>
    (\<forall>rc ops. r = Some (rc, ops) \<longrightarrow> mset (closed ops) = mset (opened ops))"
proof (cases "port_hset_rc env < 0")
  case True
  then show ?thesis by (simp add: port_start_main_def Let_def)
next
  case h: False
  show ?thesis
  proof (cases rule: prepare_port_cases [OF assms(1), of "start_rcs env", case_names failed ready])
    case (failed rc ops)
    with h show ?thesis by (simp add: port_start_main_def Let_def)
  next
    case s: (ready start)
    show ?thesis
    proof (cases rule: prepare_port_cases [OF assms(1), of "ctrl_rcs env", case_names failed ready])
      case (failed rc ops)
      with h s show ?thesis by (simp add: port_start_main_def Let_def)
    next
      case c: (ready ctrl)
      show ?thesis
      proof (cases "mixed_hset_rc env < 0")
        case True
        with h s c show ?thesis by (simp add: port_start_main_def Let_def)
      next
        case m: False
        show ?thesis
        proof (cases rule: prepare_port_cases [OF assms(2), of "shutdown_rcs env", case_names failed ready])
          case (failed rc ops)
          with h s c m show ?thesis by (simp add: port_start_main_def Let_def)
        next
          case (ready sp)
          have "sp = shutdown_handle env" using prepared_is_created ready(1) .
          with h s c m ready assms(3) show ?thesis
            using serve_ports_balance [of sp env start]
            by (auto simp: port_start_main_def Let_def)
        qed
      qed
    qed
  qed
qed

text \<open>C28: The port start server releases what it opened: on every path of \<open>main\<close>, each failure of its
  setup included, a run whose commands close and reopen the start port in turn closes every handle it
  opened exactly once.\<close>

theorem port_start_releases:
  assumes "port_hset_rc env \<noteq> 0" and "mixed_hset_rc env \<noteq> 0"
    and "paired True (shutdown_handle env) (commands env)"
  shows "\<exists>r. port_start_main env = Inr r \<and>
    (\<forall>rc ops. r = Some (rc, ops) \<longrightarrow> mset (closed ops) = mset (opened ops))"
  by (rule port_start_balance [OF assms])

text \<open>A run with the given commands in which every call of the setup succeeds.\<close>

definition ps_command :: "byte \<Rightarrow> ps_event" where
  "ps_command cmd = \<lparr>ps_wait = 0, ps_uevt = \<lparr>ev_handle = 9, ev_event = {IPC_HANDLE_POLL_MSG}\<rparr>, ps_recv = Inr cmd,
     ps_close = 0, ps_create = 7, ps_send = 1\<rparr>"

definition ps_run :: "byte list \<Rightarrow> ps_env" where
  "ps_run cmds = \<lparr>port_hset_rc = 1, start_rcs = (2, 0), ctrl_rcs = (3, 0), mixed_hset_rc = 4, shutdown_rcs = (5, 0),
     port_wait_rc = 0, port_wait_evt = \<lparr>ev_handle = 2, ev_event = {IPC_HANDLE_POLL_READY}\<rparr>, accept_rc = 9,
     add_channel_rc = 0, commands = map ps_command cmds\<rparr>"

theorem port_start_releases_witness:
  "\<exists>rc ops. port_start_main (ps_run [CMD_NOP, CMD_CLOSE_PORT, CMD_OPEN_PORT, CMD_EXIT]) = Inr (Some (rc, ops)) \<and>
    mset (closed ops) = {#1, 2, 3, 4, 5, 7, 9#}"
  using port_start_releases [of "ps_run [CMD_NOP, CMD_CLOSE_PORT, CMD_OPEN_PORT, CMD_EXIT]"]
  by (simp add: ps_run_def ps_command_def port_start_main_def prepare_port_def serve_ports_def serve_channel_def
      handle_cmd_def NO_ERROR_def Let_def add_mset_commute)

text \<open>
  A client that closes the start port and then asks the server to exit makes it close that handle a
  second time; one that opens the port while it is open makes it lose the first handle.
\<close>

theorem port_start_double_close:
  "\<exists>ops. port_start_main (ps_run [CMD_CLOSE_PORT, CMD_EXIT]) = Inr (Some (0, ops)) \<and>
    count (mset (opened ops)) 2 = 1 \<and> count (mset (closed ops)) 2 = 2"
  by (simp add: ps_run_def ps_command_def port_start_main_def prepare_port_def serve_ports_def serve_channel_def
      handle_cmd_def NO_ERROR_def Let_def)

theorem port_start_lost_handle:
  "\<exists>ops. port_start_main (ps_run [CMD_OPEN_PORT, CMD_EXIT]) = Inr (Some (0, ops)) \<and>
    count (mset (opened ops)) 2 = 1 \<and> count (mset (closed ops)) 2 = 0"
  by (simp add: ps_run_def ps_command_def port_start_main_def prepare_port_def serve_ports_def serve_channel_def
      handle_cmd_def NO_ERROR_def Let_def)

text \<open>The port waiter server closes the handles it opened in the reverse order on every path.\<close>

lemma port_waiter_releases:
  "closed (snd (port_waiter_main env)) = rev (opened (snd (port_waiter_main env)))"
  by (simp add: port_waiter_main_def Let_def)

end
