(* ===== verification/Ctrl_Apps.thy ===== *)
theory Ctrl_Apps
  imports App_Mgmt
begin

text \<open>
  The small applications: the busy loop (\<open>spinner/spinner.c\<close>) and the storage writer
  (\<open>storage-test/storage-test.c\<close>), which serve one control connection at a time, and the test servers
  of \<open>app-mgmt-test\<close> and \<open>userscs-test\<close> that create a port and wait on it. System calls are answered
  by environments; effects are the handles opened and closed, in order.
\<close>

section \<open>Waiting for a time\<close>

text \<open>
  \<open>_delay\<close> of the spinner: \<open>clock\<close> gives the result and the time of each call of \<open>trusty_gettime\<close>, \<open>n\<close>
  counts the calls. The result is the return code and the number of calls, none when the clock
  never reaches the deadline. Times are of type \<open>int64_t\<close>; a deadline outside of it is a signed overflow,
  which the first evaluation of the loop condition meets when the first reading succeeded.
\<close>

definition int64 :: "int \<Rightarrow> bool" where
  "int64 x \<longleftrightarrow> - (2 ^ 63) \<le> x \<and> x < 2 ^ 63"

definition readings :: "(nat \<Rightarrow> int \<times> u64) \<Rightarrow> nat \<Rightarrow> int \<times> int" where
  "readings clock i = (fst (clock i), sint (snd (clock i)))"

partial_function (option) delay_loop :: "(nat \<Rightarrow> int \<times> int) \<Rightarrow> int \<Rightarrow> nat \<Rightarrow> int \<Rightarrow> int \<Rightarrow> (int \<times> nat) option" where
  "delay_loop clock deadline n rc now =
     (if rc = 0 \<and> now < deadline
      then delay_loop clock deadline (Suc n) (fst (clock n)) (if fst (clock n) = 0 then snd (clock n) else now)
      else Some (rc, n))"

definition delay :: "(nat \<Rightarrow> int \<times> u64) \<Rightarrow> nat \<Rightarrow> u64 \<Rightarrow> (int \<times> nat) res option" where
  "delay clock n ns_delay =
     (case readings clock n of (rc, start) \<Rightarrow>
        if rc = 0 \<and> \<not> int64 (start + sint ns_delay) then Some (Inl Signed_overflow)
        else map_option Inr (delay_loop (readings clock) (start + sint ns_delay) (Suc n) rc start))"

section \<open>Control connections\<close>

text \<open>
  One turn of the loop on a connection: what its body does, then a \<open>wait\<close> that does not block, with
  the event record afterwards.
\<close>

record 'b conn_iter =
  conn_body :: 'b
  conn_wait :: int
  conn_uevt :: uevent

record 'b ctrl_iter =
  ctrl_wait :: int
  ctrl_uevt :: uevent
  ctrl_accept :: int
  ctrl_conn :: "'b conn_iter list"

datatype 'o ctrl_op =
    Handle_op handle_op
  | Body_op 'o

text \<open>
  A loop in progress: whether it was left, and what it did. The body of a connection gives its return
  code and effects, or nothing while it runs. \<open>closed_rc\<close> is \<open>ERR_CHANNEL_CLOSED\<close>.
\<close>

fun conn_loop :: "int \<Rightarrow> ('b \<Rightarrow> (int \<times> 'o list) option) \<Rightarrow> 'b conn_iter list \<Rightarrow> bool \<times> 'o ctrl_op list" where
  "conn_loop closed_rc body [] = (False, [])"
| "conn_loop closed_rc body (it # its) =
     (case body (conn_body it) of
        None \<Rightarrow> (False, [])
      | Some (rc, ops) \<Rightarrow>
          if rc < 0 then (True, map Body_op ops)
          else if conn_wait it = closed_rc then (True, map Body_op ops)
          else if IPC_HANDLE_POLL_HUP \<in> ev_event (conn_uevt it) then (True, map Body_op ops)
          else (case conn_loop closed_rc body its of (left, ops') \<Rightarrow> (left, map Body_op ops @ ops')))"

fun ctrl_loop :: "int \<Rightarrow> ('b \<Rightarrow> (int \<times> 'o list) option) \<Rightarrow> 'b ctrl_iter list \<Rightarrow> bool \<times> 'o ctrl_op list" where
  "ctrl_loop closed_rc body [] = (False, [])"
| "ctrl_loop closed_rc body (it # its) =
     (if ctrl_wait it = NO_ERROR \<and> IPC_HANDLE_POLL_READY \<in> ev_event (ctrl_uevt it) then
        if 0 \<le> ctrl_accept it then
          (case conn_loop closed_rc body (ctrl_conn it) of (left, ops) \<Rightarrow>
             if \<not> left then (False, Handle_op (Opened (ctrl_accept it)) # ops)
             else case ctrl_loop closed_rc body its of (left', ops') \<Rightarrow>
               (left', Handle_op (Opened (ctrl_accept it)) # ops @ Handle_op (Closed (ctrl_accept it)) # ops'))
        else (True, [])
      else if ctrl_wait it < 0 then (True, [])
      else ctrl_loop closed_rc body its)"

text \<open>
  \<open>main\<close> of both applications: the code returned is that of the variable outside the loop, which the
  loop's own variable of the same name hides.
\<close>

definition ctrl_main ::
    "int \<Rightarrow> ('b \<Rightarrow> (int \<times> 'o list) option) \<Rightarrow> int \<Rightarrow> 'b ctrl_iter list \<Rightarrow> int option \<times> 'o ctrl_op list" where
  "ctrl_main closed_rc body port_rc its =
     (if port_rc < 0 then (Some port_rc, [])
      else case ctrl_loop closed_rc body its of (left, ops) \<Rightarrow>
        (if left then Some port_rc else None, Handle_op (Opened port_rc) # ops))"

subsection \<open>The spinner\<close>

text \<open>Nothing is given while the delay runs, or when it overflows.\<close>

definition spin_body :: "(nat \<Rightarrow> int \<times> u64) \<Rightarrow> (int \<times> unit list) option" where
  "spin_body clock = (case delay clock 0 2000000000 of Some (Inr (rc, n)) \<Rightarrow> Some (rc, []) | _ \<Rightarrow> None)"

definition spinner_main :: "int \<Rightarrow> int \<Rightarrow> (nat \<Rightarrow> int \<times> u64) ctrl_iter list \<Rightarrow> int option \<times> unit ctrl_op list" where
  "spinner_main closed_rc port_rc its = ctrl_main closed_rc spin_body port_rc its"

subsection \<open>The storage writer\<close>

datatype storage_op =
    Session_opened
  | File_opened
  | Written "byte list"
  | File_closed
  | Session_closed

record storage_env =
  st_open_session :: int
  st_open_file :: int
  st_write :: int

text \<open>\<open>junk\<close> is what was in the data array on the stack.\<close>

definition write_file :: "storage_env \<Rightarrow> byte list \<Rightarrow> nat \<Rightarrow> (int \<times> storage_op list) res" where
  "write_file env junk sz =
     (let sz1 = (if sz > 1024 then 1024 else sz) in
      if st_open_session env < 0 then Inr (-1, [])
      else if st_open_file env < 0 then Inr (0, [Session_opened, Session_closed])
      else
        bindr (memset0 junk sz1) (\<lambda>data.
          bindr (mem_read data 0 sz1) (\<lambda>bytes.
            Inr (0, [Session_opened, File_opened, Written bytes, File_closed, Session_closed]))))"

definition write_body :: "storage_env \<times> byte list \<Rightarrow> (int \<times> storage_op list) option" where
  "write_body e = (case write_file (fst e) (snd e) 256 of Inl f \<Rightarrow> None | Inr r \<Rightarrow> Some r)"

definition storage_main ::
    "int \<Rightarrow> int \<Rightarrow> (storage_env \<times> byte list) ctrl_iter list \<Rightarrow> int option \<times> storage_op ctrl_op list" where
  "storage_main closed_rc port_rc its = ctrl_main closed_rc write_body port_rc its"

section \<open>Servers that wait on one port\<close>

record port_wait =
  pt_wait :: int
  pt_uevt :: uevent
  pt_accept :: int
  pt_close :: int

abbreviation ready :: "port_wait \<Rightarrow> bool" where
  "ready w \<equiv> pt_wait w = NO_ERROR \<and> IPC_HANDLE_POLL_READY \<in> ev_event (pt_uevt w)"

fun boot_start_loop :: "int \<Rightarrow> port_wait list \<Rightarrow> int option \<times> handle_op list" where
  "boot_start_loop closed_rc [] = (None, [])"
| "boot_start_loop closed_rc (w # ws) =
     (if \<not> ready w then (Some (pt_wait w), [])
      else if pt_accept w = closed_rc then boot_start_loop closed_rc ws
      else if pt_accept w < 0 then (Some (pt_accept w), [])
      else if pt_close w < 0 then (Some (pt_close w), [Opened (pt_accept w), Closed (pt_accept w)])
      else case boot_start_loop closed_rc ws of (rc, ops) \<Rightarrow>
        (rc, Opened (pt_accept w) # Closed (pt_accept w) # ops))"

definition boot_start_main :: "int \<Rightarrow> int \<Rightarrow> port_wait list \<Rightarrow> int option \<times> handle_op list" where
  "boot_start_main closed_rc port_rc ws =
     (if port_rc < 0 then (Some port_rc, [])
      else case boot_start_loop closed_rc ws of (rc, ops) \<Rightarrow> (rc, Opened port_rc # ops))"

definition restart_main :: "int \<Rightarrow> port_wait \<Rightarrow> int \<times> handle_op list" where
  "restart_main port_rc w =
     (if port_rc < 0 then (port_rc, [])
      else if \<not> ready w then (pt_wait w, [Opened port_rc])
      else (0, [Opened port_rc]))"

text \<open>
  The two servers that should never run share their body: it takes the result of \<open>wait\<close> for the
  handle of a connection and closes that.
\<close>

definition never_start_main :: "int \<Rightarrow> port_wait \<Rightarrow> int \<times> handle_op list" where
  "never_start_main port_rc w =
     (if port_rc < 0 then (port_rc, [])
      else if \<not> ready w then (pt_wait w, [Opened port_rc])
      else let chandle = pt_wait w in
        if pt_close w < 0 then (pt_close w, [Opened port_rc, Closed chandle])
        else (0, [Opened port_rc, Closed chandle]))"

definition port_start_fail_main :: "int \<Rightarrow> port_wait \<Rightarrow> int \<times> handle_op list" where
  "port_start_fail_main port_rc w =
     (if port_rc < 0 then (port_rc, [])
      else if \<not> ready w then (pt_wait w, [Opened port_rc])
      else let chandle = pt_wait w in
        if pt_close w < 0 then (pt_close w, [Opened port_rc, Closed chandle])
        else (0, [Opened port_rc, Closed chandle]))"

definition scs_test_main :: "int \<Rightarrow> int \<Rightarrow> int \<times> handle_op list" where
  "scs_test_main port_rc wait_rc = (if port_rc < 0 then (port_rc, []) else (1, [Opened port_rc]))"

section \<open>The delay\<close>

text \<open>The reading that ends the wait: a failed one, or one at or after the deadline.\<close>

definition ends_wait :: "(nat \<Rightarrow> int \<times> int) \<Rightarrow> int \<Rightarrow> nat \<Rightarrow> bool" where
  "ends_wait clock deadline m \<longleftrightarrow> fst (clock m) \<noteq> 0 \<or> deadline \<le> snd (clock m)"

lemma delay_loop_ends:
  assumes "ends_wait clock deadline m" and "j \<le> m" and "\<forall>i. j \<le> i \<and> i < m \<longrightarrow> \<not> ends_wait clock deadline i"
    and "fst (clock j) = 0 \<longrightarrow> now = snd (clock j)"
  shows "delay_loop clock deadline (Suc j) (fst (clock j)) now = Some (fst (clock m), Suc m)"
  using assms(2-4)
proof (induction "m - j" arbitrary: j now)
  case 0
  with assms(1) show ?case by (subst delay_loop.simps) (auto simp: ends_wait_def)
next
  case (Suc d)
  then have "\<not> ends_wait clock deadline j" by simp
  moreover have "delay_loop clock deadline (Suc (Suc j)) (fst (clock (Suc j)))
      (if fst (clock (Suc j)) = 0 then snd (clock (Suc j)) else now) = Some (fst (clock m), Suc m)"
    using Suc by (intro Suc.hyps) auto
  ultimately show ?case using Suc.prems by (subst delay_loop.simps) (simp add: ends_wait_def)
qed

text \<open>The state of the loop after reading \<open>j\<close>.\<close>

definition after_reading :: "(nat \<Rightarrow> int \<times> int) \<Rightarrow> nat \<Rightarrow> nat \<Rightarrow> int \<Rightarrow> int \<Rightarrow> bool" where
  "after_reading clock j n rc now \<longleftrightarrow> n = Suc j \<and> rc = fst (clock j) \<and> (rc = 0 \<longrightarrow> now = snd (clock j))"

lemma delay_loop_Some:
  assumes "delay_loop clock deadline n rc now = Some r" and "after_reading clock j n rc now"
  shows "\<exists>m \<ge> j. ends_wait clock deadline m"
proof -
  have "\<forall>j. after_reading clock j n rc now \<longrightarrow> (\<exists>m \<ge> j. ends_wait clock deadline m)"
  proof (rule delay_loop.raw_induct [where P = "\<lambda>clock deadline n rc now r.
      \<forall>j. after_reading clock j n rc now \<longrightarrow> (\<exists>m \<ge> j. ends_wait clock deadline m)", OF _ assms(1)], intro allI impI)
    fix loop :: "(nat \<Rightarrow> int \<times> int) \<Rightarrow> int \<Rightarrow> nat \<Rightarrow> int \<Rightarrow> int \<Rightarrow> (int \<times> nat) option"
      and clock :: "nat \<Rightarrow> int \<times> int" and deadline rc now :: int and n j :: nat and r :: "int \<times> nat"
    assume IH: "\<And>clock deadline n rc now r. loop clock deadline n rc now = Some r \<Longrightarrow>
        \<forall>j. after_reading clock j n rc now \<longrightarrow> (\<exists>m \<ge> j. ends_wait clock deadline m)"
      and eq: "(if rc = 0 \<and> now < deadline
        then loop clock deadline (Suc n) (fst (clock n)) (if fst (clock n) = 0 then snd (clock n) else now)
        else Some (rc, n)) = Some r"
      and a: "after_reading clock j n rc now"
    show "\<exists>m \<ge> j. ends_wait clock deadline m"
    proof (cases "rc = 0 \<and> now < deadline")
      case True
      then have "\<forall>i. after_reading clock i (Suc n) (fst (clock n)) (if fst (clock n) = 0 then snd (clock n) else now) \<longrightarrow>
          (\<exists>m \<ge> i. ends_wait clock deadline m)"
        using eq by (intro IH) simp
      then have "\<exists>m \<ge> n. ends_wait clock deadline m" by (rule allE [of _ n]) (simp add: after_reading_def)
      with a show ?thesis by (auto simp: after_reading_def intro: Suc_leD)
    next
      case False
      with a have "ends_wait clock deadline j" by (auto simp: after_reading_def ends_wait_def)
      then show ?thesis by blast
    qed
  qed
  with assms(2) show ?thesis by blast
qed

lemma delay_loop_iff:
  "delay_loop clock deadline (Suc n) (fst (clock n)) (snd (clock n)) = Some (rc, k) \<longleftrightarrow>
    (\<exists>m \<ge> n. k = Suc m \<and> rc = fst (clock m) \<and> ends_wait clock deadline m \<and>
      (\<forall>i. n \<le> i \<and> i < m \<longrightarrow> \<not> ends_wait clock deadline i))"
  (is "?loop = _ \<longleftrightarrow> ?ends")
proof -
  let ?E = "ends_wait clock deadline"
  have first: "?loop = Some (fst (clock m), Suc m)"
    if "?E m" "n \<le> m" "\<forall>i. n \<le> i \<and> i < m \<longrightarrow> \<not> ?E i" for m
    using delay_loop_ends [OF that] by simp
  show ?thesis
  proof
    assume d: "?loop = Some (rc, k)"
    then have "\<exists>m \<ge> n. ?E m"
      using delay_loop_Some [of clock deadline "Suc n" "fst (clock n)" "snd (clock n)" "(rc, k)" n]
      by (simp add: after_reading_def)
    then obtain m where m: "n \<le> m \<and> ?E m" "\<And>i. n \<le> i \<and> ?E i \<Longrightarrow> m \<le> i"
      using exists_least_iff [of "\<lambda>m. n \<le> m \<and> ?E m"] by (metis not_le)
    then have "\<forall>i. n \<le> i \<and> i < m \<longrightarrow> \<not> ?E i" by (meson not_le)
    with first [of m] m d show ?ends by auto
  qed (use first in auto)
qed

text \<open>C36: The busy wait returns exactly when the clock lets it. When the first reading succeeds and the deadline
  is outside \<open>int64_t\<close>, the addition overflows, and only then. Otherwise it returns after the first reading that
  fails or is at or after the deadline, with the code of that reading, and it never returns if there is no such reading.\<close>

theorem delay_returns_iff:
  "(delay clock n ns_delay = Some (Inl f) \<longleftrightarrow>
     f = Signed_overflow \<and> fst (clock n) = 0 \<and> \<not> int64 (sint (snd (clock n)) + sint ns_delay)) \<and>
   (delay clock n ns_delay = Some (Inr (rc, k)) \<longleftrightarrow>
     (fst (clock n) \<noteq> 0 \<or> int64 (sint (snd (clock n)) + sint ns_delay)) \<and>
     (\<exists>m \<ge> n. k = Suc m \<and> rc = fst (clock m) \<and>
       ends_wait (readings clock) (sint (snd (clock n)) + sint ns_delay) m \<and>
       (\<forall>i. n \<le> i \<and> i < m \<longrightarrow> \<not> ends_wait (readings clock) (sint (snd (clock n)) + sint ns_delay) i)))"
  using delay_loop_iff [of "readings clock" "sint (snd (clock n)) + sint ns_delay" n rc k]
  by (auto simp: delay_def readings_def)

theorem delay_returns_iff_witness:
  "delay (\<lambda>i. (0, if i < 6 then 30 else 60)) 3 25 = Some (Inr (0, 7)) \<and>
   delay (\<lambda>i. (0, 0x7FFFFFFFFFFFFFFF)) 0 1 = Some (Inl Signed_overflow)"
proof -
  define clock :: "nat \<Rightarrow> int \<times> u64" where "clock = (\<lambda>i. (0, if i < 6 then 30 else 60))"
  have c: "fst (clock 6) = 0" "sint (snd (clock 3)) + sint (25 :: u64) = 55" by (simp_all add: clock_def)
  have e: "ends_wait (readings clock) 55 i \<longleftrightarrow> \<not> i < 6" for i
    by (simp add: ends_wait_def readings_def clock_def)
  have "\<exists>m \<ge> 3. 7 = Suc m \<and> 0 = fst (clock m) \<and> ends_wait (readings clock) 55 m \<and>
      (\<forall>i. 3 \<le> i \<and> i < m \<longrightarrow> \<not> ends_wait (readings clock) 55 i)"
    using c(1) by (intro exI [of _ 6]) (simp add: e)
  then have "delay clock 3 25 = Some (Inr (0, 7))"
    using delay_returns_iff [of clock 3 25 Signed_overflow 0 7] unfolding c(2) by (simp add: int64_def)
  moreover have "delay (\<lambda>i. (0, 0x7FFFFFFFFFFFFFFF)) 0 1 = Some (Inl Signed_overflow)"
    using delay_returns_iff [of "\<lambda>i. (0, 0x7FFFFFFFFFFFFFFF)" 0 1 Signed_overflow 0 0] by (simp add: int64_def)
  ultimately show ?thesis by (simp add: clock_def)
qed

section \<open>Control connections\<close>

fun handle_ops :: "'o ctrl_op list \<Rightarrow> handle_op list" where
  "handle_ops [] = []"
| "handle_ops (Handle_op h # ops) = h # handle_ops ops"
| "handle_ops (Body_op b # ops) = handle_ops ops"

fun body_ops :: "'o ctrl_op list \<Rightarrow> 'o list" where
  "body_ops [] = []"
| "body_ops (Handle_op h # ops) = body_ops ops"
| "body_ops (Body_op b # ops) = b # body_ops ops"

lemma handle_ops_append [simp]: "handle_ops (xs @ ys) = handle_ops xs @ handle_ops ys"
  by (induction xs rule: handle_ops.induct) auto

lemma body_ops_append [simp]: "body_ops (xs @ ys) = body_ops xs @ body_ops ys"
  by (induction xs rule: body_ops.induct) auto

lemma ops_of_body [simp]: "handle_ops (map Body_op ops) = []" "body_ops (map Body_op ops) = ops"
  by (induction ops) auto

lemma conn_loop_handles: "handle_ops (snd (conn_loop closed_rc body its)) = []"
  by (induction its) (auto split: option.split prod.split)

text \<open>At most the last connection is still open, and none once the loop was left.\<close>

lemma ctrl_loop_handles:
  assumes "ctrl_loop closed_rc body its = (left, ops)"
  shows "opened (handle_ops ops) = closed (handle_ops ops) \<or>
    \<not> left \<and> (\<exists>h. opened (handle_ops ops) = closed (handle_ops ops) @ [h])"
  using assms
proof (induction its arbitrary: left ops)
  case (Cons it its)
  obtain l o1 where c: "conn_loop closed_rc body (ctrl_conn it) = (l, o1)" by fastforce
  then have h: "handle_ops o1 = []" using conn_loop_handles [of closed_rc body "ctrl_conn it"] by simp
  obtain l2 o2 where r: "ctrl_loop closed_rc body its = (l2, o2)" by fastforce
  from Cons.IH [OF r] Cons.prems c h r show ?case by (auto split: if_splits)
qed simp

text \<open>A property of what every turn of the body does holds of all the body did.\<close>

lemma conn_loop_body:
  assumes "\<And>b rc ops. body b = Some (rc, ops) \<Longrightarrow> P ops" and "P []" and "\<And>xs ys. P xs \<Longrightarrow> P ys \<Longrightarrow> P (xs @ ys)"
  shows "P (body_ops (snd (conn_loop closed_rc body its)))"
  by (induction its) (auto simp: assms split: option.split prod.split)

lemma ctrl_loop_body:
  assumes "\<And>b rc ops. body b = Some (rc, ops) \<Longrightarrow> P ops" and "P []" and "\<And>xs ys. P xs \<Longrightarrow> P ys \<Longrightarrow> P (xs @ ys)"
  shows "P (body_ops (snd (ctrl_loop closed_rc body its)))"
proof (induction its)
  case (Cons it its)
  have "P (body_ops (snd (conn_loop closed_rc body (ctrl_conn it))))" by (rule conn_loop_body [OF assms])
  with Cons show ?case by (auto simp: assms split: prod.split)
qed (simp add: assms)

lemma write_file_ok:
  "length junk = 1024 \<Longrightarrow> write_file env junk sz =
    Inr (if st_open_session env < 0 then (-1, [])
         else if st_open_file env < 0 then (0, [Session_opened, Session_closed])
         else (0, [Session_opened, File_opened, Written (replicate (min sz 1024) 0), File_closed, Session_closed]))"
  by (auto simp: write_file_def Let_def memset0_ok mem_read_def min_def)

text \<open>Sessions and files are closed in the turn that opened them.\<close>

definition storage_balanced :: "storage_op list \<Rightarrow> bool" where
  "storage_balanced ops \<longleftrightarrow>
     count_list ops Session_opened = count_list ops Session_closed \<and>
     count_list ops File_opened = count_list ops File_closed \<and>
     (\<forall>bytes. Written bytes \<in> set ops \<longrightarrow> bytes = replicate 256 0)"

lemma write_body_balanced:
  assumes "write_body b = Some (rc, ops)"
  shows "storage_balanced ops"
proof -
  have "write_file (fst b) (snd b) 256 = Inr (rc, ops)"
    using assms by (auto simp: write_body_def split: sum.splits)
  then show ?thesis
    by (auto simp: write_file_def storage_balanced_def Let_def memset0_def memcpy_to_def mem_read_def split: if_splits)
qed

text \<open>The storage writer leaks nothing while it serves: at any moment of a run every control
  connection but at most the current one has been closed once, in the order they were accepted, every
  storage session and file it opened is closed again, and every write is of 256 zero bytes. When \<open>main\<close>
  gives up, after a failed \<open>wait\<close> or \<open>accept\<close>, it returns the handle of its port, never the error.\<close>

theorem storage_main_serves:
  assumes "0 \<le> port_rc"
  shows "\<exists>rc ops. storage_main closed_rc port_rc its = (rc, Handle_op (Opened port_rc) # ops) \<and>
    (opened (handle_ops ops) = closed (handle_ops ops) \<or>
      rc = None \<and> (\<exists>h. opened (handle_ops ops) = closed (handle_ops ops) @ [h])) \<and>
    storage_balanced (body_ops ops) \<and> (rc = None \<or> rc = Some port_rc)"
proof -
  obtain left ops where c: "ctrl_loop closed_rc write_body its = (left, ops)" by fastforce
  have "storage_balanced (body_ops (snd (ctrl_loop closed_rc write_body its)))"
    by (rule ctrl_loop_body [OF write_body_balanced]) (auto simp: storage_balanced_def)
  with c assms ctrl_loop_handles [OF c] show ?thesis
    by (auto simp: storage_main_def ctrl_main_def)
qed

definition storage_turn :: "(storage_env \<times> byte list) ctrl_iter" where
  "storage_turn = \<lparr>ctrl_wait = 0, ctrl_uevt = \<lparr>ev_handle = 1, ev_event = {IPC_HANDLE_POLL_READY}\<rparr>, ctrl_accept = 7,
     ctrl_conn = [\<lparr>conn_body = (\<lparr>st_open_session = 0, st_open_file = 0, st_write = 0\<rparr>, replicate 1024 9), conn_wait = 0,
       conn_uevt = \<lparr>ev_handle = 7, ev_event = {IPC_HANDLE_POLL_HUP}\<rparr>\<rparr>]\<rparr>"

theorem storage_main_serves_witness:
  "storage_main (-9) 3 [storage_turn, storage_turn\<lparr>ctrl_wait := -4\<rparr>] =
    (Some 3, Handle_op (Opened 3) # [Handle_op (Opened 7), Body_op Session_opened, Body_op File_opened,
      Body_op (Written (replicate 256 0)), Body_op File_closed, Body_op Session_closed, Handle_op (Closed 7)])"
  using storage_main_serves [of 3 "-9" "[storage_turn, storage_turn\<lparr>ctrl_wait := -4\<rparr>]"]
  by (simp add: storage_main_def ctrl_main_def storage_turn_def write_body_def write_file_ok NO_ERROR_def)

lemma spinner_channels:
  assumes "0 \<le> port_rc"
  shows "\<exists>rc ops. spinner_main closed_rc port_rc its = (rc, Handle_op (Opened port_rc) # ops) \<and>
    (opened (handle_ops ops) = closed (handle_ops ops) \<or>
      rc = None \<and> (\<exists>h. opened (handle_ops ops) = closed (handle_ops ops) @ [h])) \<and>
    (rc = None \<or> rc = Some port_rc)"
proof -
  obtain left ops where c: "ctrl_loop closed_rc spin_body its = (left, ops)" by fastforce
  with assms ctrl_loop_handles [OF c] show ?thesis by (auto simp: spinner_main_def ctrl_main_def)
qed

lemma boot_start_closes:
  "closed (snd (boot_start_loop closed_rc ws)) = opened (snd (boot_start_loop closed_rc ws))"
  by (induction ws) (auto split: prod.split)

end
