(* ===== verification/App_Client.thy ===== *)
theory App_Client
  imports App_Mgmt "HOL-Library.State_Monad"
begin

text \<open>
  The client of the application manager tests (\<open>app-mgmt-test/client/main.c\<close>): its helpers, the fixture
  of the port start tests and the tests. The kernel, the application loader and the servers are
  outside: their answers come from a \<open>world\<close>, an argument of every operation. A test is a program of the
  state monad, with assertions that jump to the label \<open>test_abort\<close>.
\<close>

section \<open>The world of the client\<close>

datatype port_name =
    START_PORT | CTRL_PORT | SHUTDOWN_PORT | NEVER_START_PORT | BOOT_START_PORT | RESTART_PORT
  | START_FAIL_PORT | PORT_WAITER_PORT | APPLOADER_PORT

text \<open>Flags of \<open>connect\<close>, and how long a \<open>wait\<close> may take (milliseconds, or without limit).\<close>

datatype connect_flag = IPC_CONNECT_ASYNC | IPC_CONNECT_WAIT_FOR_PORT

datatype timeout = INFINITE_TIME | Timeout_ms nat

record apploader_request =
  req_cmd :: u32
  package_size :: int
  req_handle :: handle_t

text \<open>
  The system calls as functions of a state \<open>'k\<close> that holds everything outside the client, and the
  constants of the interface headers.
\<close>

record 'k world =
  sys_connect :: "port_name \<Rightarrow> connect_flag set \<Rightarrow> 'k \<Rightarrow> int \<times> 'k"
  sys_close :: "handle_t \<Rightarrow> 'k \<Rightarrow> 'k"
  sys_wait :: "handle_t \<Rightarrow> timeout \<Rightarrow> 'k \<Rightarrow> (int \<times> poll_flag set) \<times> 'k"
  sys_send1 :: "handle_t \<Rightarrow> byte \<Rightarrow> 'k \<Rightarrow> int \<times> 'k"
  sys_recv1 :: "handle_t \<Rightarrow> 'k \<Rightarrow> (int \<times> app_rsp option) \<times> 'k"
  sys_nanosleep :: "nat \<Rightarrow> 'k \<Rightarrow> 'k"
  sys_memref_create :: "nat \<Rightarrow> int \<Rightarrow> 'k \<Rightarrow> int \<times> 'k"
  sys_send_msg :: "handle_t \<Rightarrow> apploader_request \<Rightarrow> 'k \<Rightarrow> int \<times> 'k"
  sys_get_msg :: "handle_t \<Rightarrow> 'k \<Rightarrow> (int \<times> nat \<times> int) \<times> 'k"
  sys_read_msg :: "handle_t \<Rightarrow> nat \<Rightarrow> 'k \<Rightarrow> (int \<times> u32 \<times> nat) \<times> 'k"
  sys_put_msg :: "handle_t \<Rightarrow> nat \<Rightarrow> 'k \<Rightarrow> 'k"
  system_state_app_loading_unlocked :: "'k \<Rightarrow> bool \<times> 'k"
  INVALID_IPC_HANDLE :: handle_t
  ERR_TIMED_OUT :: int
  round_up_page :: "int \<Rightarrow> int"
  apploader_header_size :: int
  load_app_req_size :: int
  apploader_resp_size :: int
  APPLOADER_CMD_LOAD_APPLICATION :: u32
  APPLOADER_RESP_BIT :: u32
  APPLOADER_NO_ERROR :: nat
  APPLOADER_ERR_ALREADY_EXISTS :: nat
  APPLOADER_ERR_VERIFICATION_FAILED :: nat

definition EXPECTED_TIMEOUT_MS :: nat where
  "EXPECTED_TIMEOUT_MS = 500"

definition UNEXPECTED_TIMEOUT_MS :: nat where
  "UNEXPECTED_TIMEOUT_MS = 60000"

definition WAIT_FOR_APP_SLEEP_NS :: nat where
  "WAIT_FOR_APP_SLEEP_NS = 500000000"

datatype chan_idx = MAIN_CHAN | PEND_CHAN | WAIT_CHAN

text \<open>
  The state of a test run: the world, whether an expectation failed (\<open>HasFailure\<close>), the fixture, and
  what the client did, as the handles opened and closed and the commands sent.
\<close>

record 'k client =
  kern :: 'k
  has_failed :: bool
  chans :: "chan_idx \<Rightarrow> handle_t"
  ledger :: "handle_op list"
  sent_cmds :: "byte list"

type_synonym ('k, 'a) test = "('k client, 'a) state"

section \<open>Calls and expectations\<close>

definition sys_call :: "('k \<Rightarrow> 'a \<times> 'k) \<Rightarrow> ('k, 'a) test" where
  "sys_call f = State (\<lambda>s. case f (kern s) of (x, k) \<Rightarrow> (x, s\<lparr>kern := k\<rparr>))"

definition note_op :: "handle_op \<Rightarrow> ('k, unit) test" where
  "note_op oper = State_Monad.update (\<lambda>s. s\<lparr>ledger := ledger s @ [oper]\<rparr>)"

definition opens :: "int \<Rightarrow> ('k, int) test" where
  "opens rc = do { _ \<leftarrow> (if 0 \<le> rc then note_op (Opened rc) else State_Monad.return ()); State_Monad.return rc }"

definition connect :: "'k world \<Rightarrow> port_name \<Rightarrow> connect_flag set \<Rightarrow> ('k, int) test" where
  "connect w port flags = do { rc \<leftarrow> sys_call (sys_connect w port flags); opens rc }"

definition memref_create :: "'k world \<Rightarrow> nat \<Rightarrow> int \<Rightarrow> ('k, int) test" where
  "memref_create w p n = do { rc \<leftarrow> sys_call (sys_memref_create w p n); opens rc }"

text \<open>Closing what is not a handle has no effect on the handles of the client.\<close>

definition close :: "'k world \<Rightarrow> handle_t \<Rightarrow> ('k, unit) test" where
  "close w h = do {
     _ \<leftarrow> sys_call (\<lambda>k. ((), sys_close w h k));
     if 0 \<le> h then note_op (Closed h) else State_Monad.return () }"

definition wait :: "'k world \<Rightarrow> handle_t \<Rightarrow> timeout \<Rightarrow> ('k, int \<times> poll_flag set) test" where
  "wait w h t = sys_call (sys_wait w h t)"

definition nanosleep :: "'k world \<Rightarrow> nat \<Rightarrow> ('k, unit) test" where
  "nanosleep w ns = sys_call (\<lambda>k. ((), sys_nanosleep w ns k))"

definition send1 :: "'k world \<Rightarrow> handle_t \<Rightarrow> byte \<Rightarrow> ('k, int) test" where
  "send1 w h b = do {
     _ \<leftarrow> State_Monad.update (\<lambda>s. s\<lparr>sent_cmds := sent_cmds s @ [b]\<rparr>);
     sys_call (sys_send1 w h b) }"

definition HasFailure :: "('k, bool) test" where
  "HasFailure = do { s \<leftarrow> State_Monad.get; State_Monad.return (has_failed s) }"

definition record_failure :: "('k, unit) test" where
  "record_failure = State_Monad.update (\<lambda>s. s\<lparr>has_failed := True\<rparr>)"

text \<open>
  \<open>ASSERT_EQ\<close> and its like jump to the label \<open>test_abort\<close> when they fail: \<open>rest\<close> is what follows up to
  the label, and \<open>x\<close> what the code at the label finds. \<open>EXPECT_EQ\<close> and its like go on.
\<close>

definition ASSERT :: "bool \<Rightarrow> 'a \<Rightarrow> ('k, 'a) test \<Rightarrow> ('k, 'a) test" where
  "ASSERT c x rest = (if c then rest else do { _ \<leftarrow> record_failure; State_Monad.return x })"

definition EXPECT :: "bool \<Rightarrow> ('k, unit) test" where
  "EXPECT c = (if c then State_Monad.return () else record_failure)"

definition unless_failed :: "'a \<Rightarrow> ('k, 'a) test \<Rightarrow> ('k, 'a) test" where
  "unless_failed x m = do { failed \<leftarrow> HasFailure; if failed then State_Monad.return x else m }"

section \<open>Helpers of the tests\<close>

definition port_start_srv_running :: "'k world \<Rightarrow> ('k, bool) test" where
  "port_start_srv_running w = do {
     _ \<leftarrow> nanosleep w WAIT_FOR_APP_SLEEP_NS;
     rc \<leftarrow> connect w CTRL_PORT {IPC_CONNECT_ASYNC};
     _ \<leftarrow> close w rc;
     State_Monad.return (0 \<le> rc) }"

definition chan_send_cmd :: "'k world \<Rightarrow> handle_t \<Rightarrow> byte \<Rightarrow> ('k, unit) test" where
  "chan_send_cmd w chan cmd = unless_failed () (do {
     n \<leftarrow> send1 w chan cmd;
     ASSERT (n = 1) () (do {
     (rc, event) \<leftarrow> wait w chan INFINITE_TIME;
     ASSERT (rc = NO_ERROR) () (
     ASSERT (IPC_HANDLE_POLL_MSG \<in> event) () (do {
     (n, rsp) \<leftarrow> sys_call (sys_recv1 w chan);
     ASSERT (n = 1) () (
     ASSERT (rsp = Some RSP_OK) () (State_Monad.return ())) })) }) })"

definition chan_of :: "chan_idx \<Rightarrow> ('k, handle_t) test" where
  "chan_of idx = do { s \<leftarrow> State_Monad.get; State_Monad.return (chans s idx) }"

definition set_chan :: "chan_idx \<Rightarrow> handle_t \<Rightarrow> ('k, unit) test" where
  "set_chan idx h = State_Monad.update (\<lambda>s. s\<lparr>chans := (chans s)(idx := h)\<rparr>)"

definition send_cmd :: "'k world \<Rightarrow> chan_idx \<Rightarrow> byte \<Rightarrow> ('k, unit) test" where
  "send_cmd w idx cmd = unless_failed () (do { chan \<leftarrow> chan_of idx; chan_send_cmd w chan cmd })"

definition establish_unhandled_channel :: "'k world \<Rightarrow> chan_idx \<Rightarrow> ('k, unit) test" where
  "establish_unhandled_channel w idx = unless_failed () (do {
     rc \<leftarrow> connect w START_PORT {IPC_CONNECT_ASYNC};
     ASSERT (rc \<ge> 0) () (do {
     (rc', event) \<leftarrow> wait w rc (Timeout_ms EXPECTED_TIMEOUT_MS);
     ASSERT (rc' = ERR_TIMED_OUT w) () (set_chan idx rc) }) })"

definition close_channel :: "'k world \<Rightarrow> chan_idx \<Rightarrow> ('k, unit) test" where
  "close_channel w idx = unless_failed () (do {
     chan \<leftarrow> chan_of idx;
     _ \<leftarrow> close w chan;
     set_chan idx (INVALID_IPC_HANDLE w) })"

definition send_exit :: "'k world \<Rightarrow> chan_idx \<Rightarrow> ('k, unit) test" where
  "send_exit w idx = unless_failed () (do {
     _ \<leftarrow> send_cmd w idx CMD_EXIT;
     close_channel w idx })"

definition wait_and_exit :: "'k world \<Rightarrow> chan_idx \<Rightarrow> ('k, unit) test" where
  "wait_and_exit w idx = unless_failed () (do {
     chan \<leftarrow> chan_of idx;
     (rc, event) \<leftarrow> wait w chan INFINITE_TIME;
     ASSERT (rc = NO_ERROR) () (
     ASSERT (IPC_HANDLE_POLL_READY \<in> event) () (send_exit w idx)) })"

section \<open>Loading an application\<close>

definition send_apploader_request ::
    "'k world \<Rightarrow> handle_t \<Rightarrow> u32 \<Rightarrow> int \<Rightarrow> int \<Rightarrow> handle_t \<Rightarrow> ('k, unit) test" where
  "send_apploader_request w channel cmd package req_size handle = unless_failed () (do {
     rc \<leftarrow> sys_call (sys_send_msg w channel \<lparr>req_cmd = cmd, package_size = package, req_handle = handle\<rparr>);
     ASSERT (rc = apploader_header_size w + req_size) () (State_Monad.return ()) })"

definition read_apploader_response :: "'k world \<Rightarrow> handle_t \<Rightarrow> u32 \<Rightarrow> nat \<Rightarrow> int \<Rightarrow> ('k, nat) test" where
  "read_apploader_response w channel cmd msg_id len =
     ASSERT (len = apploader_resp_size w) 0 (do {
     (rc, resp_cmd, error) \<leftarrow> sys_call (sys_read_msg w channel msg_id);
     ASSERT (rc = apploader_resp_size w) 0 (
     ASSERT (resp_cmd = cmd OR APPLOADER_RESP_BIT w) 0 (State_Monad.return error)) })"

definition recv_apploader_response :: "'k world \<Rightarrow> handle_t \<Rightarrow> u32 \<Rightarrow> ('k, nat) test" where
  "recv_apploader_response w channel cmd = unless_failed 0 (do {
     (rc, event) \<leftarrow> wait w channel INFINITE_TIME;
     ASSERT (rc = NO_ERROR) 0 (
     ASSERT (IPC_HANDLE_POLL_MSG \<in> event) 0 (do {
     (rc, msg_id, len) \<leftarrow> sys_call (sys_get_msg w channel);
     ASSERT (rc = NO_ERROR) 0 (do {
     error \<leftarrow> read_apploader_response w channel cmd msg_id len;
     _ \<leftarrow> sys_call (\<lambda>k. ((), sys_put_msg w channel msg_id k));
     State_Monad.return error }) })) })"

text \<open>
  An application image is given by the addresses of its begin and end. The result of the part before
  the label is the error to return, or nothing after a failed assertion, with the two handles.
\<close>

type_synonym app_image = "nat \<times> nat"

definition load_app :: "'k world \<Rightarrow> app_image \<Rightarrow> ('k, nat) test" where
  "load_app w app = do {
     (result, chan, handle) \<leftarrow> do {
       rc \<leftarrow> connect w APPLOADER_PORT {IPC_CONNECT_WAIT_FOR_PORT};
       ASSERT (rc > 0) (None, INVALID_IPC_HANDLE w, INVALID_IPC_HANDLE w) (do {
       let chan = rc;
       let app_size = int (snd app) - int (fst app);
       handle \<leftarrow> memref_create w (fst app) (round_up_page w app_size);
       let aborted = (None, chan, handle);
       ASSERT (handle > 0) aborted (do {
       _ \<leftarrow> send_apploader_request w chan (APPLOADER_CMD_LOAD_APPLICATION w) app_size (load_app_req_size w) handle;
       failed \<leftarrow> HasFailure;
       ASSERT (\<not> failed) aborted (do {
       error \<leftarrow> recv_apploader_response w chan (APPLOADER_CMD_LOAD_APPLICATION w);
       failed \<leftarrow> HasFailure;
       ASSERT (\<not> failed) aborted (State_Monad.return (Some error, chan, handle)) }) }) }) };
     case result of
       Some error \<Rightarrow> do {
         _ \<leftarrow> (if error = APPLOADER_NO_ERROR w then nanosleep w WAIT_FOR_APP_SLEEP_NS else State_Monad.return ());
         _ \<leftarrow> close w handle;
         _ \<leftarrow> close w chan;
         State_Monad.return error }
     | None \<Rightarrow> do {
         _ \<leftarrow> (if handle > 0 then close w handle else State_Monad.return ());
         _ \<leftarrow> close w chan;
         State_Monad.return 0 } }"

section \<open>The fixture\<close>

definition loaded :: "'k world \<Rightarrow> nat \<Rightarrow> bool" where
  "loaded w error \<longleftrightarrow> error = APPLOADER_NO_ERROR w \<or> error = APPLOADER_ERR_ALREADY_EXISTS w"

text \<open>\<open>app\<close> is the image of the port start server.\<close>

definition AppMgrPortStart_SetUp :: "'k world \<Rightarrow> app_image \<Rightarrow> ('k, unit) test" where
  "AppMgrPortStart_SetUp w app = do {
     error \<leftarrow> load_app w app;
     failed \<leftarrow> HasFailure;
     ASSERT (\<not> failed) () (
     ASSERT (loaded w error) () (do {
     _ \<leftarrow> State_Monad.update (\<lambda>s. s\<lparr>chans := \<lambda>i. INVALID_IPC_HANDLE w\<rparr>);
     rc \<leftarrow> connect w SHUTDOWN_PORT {IPC_CONNECT_ASYNC};
     let rest = (do {
       running \<leftarrow> port_start_srv_running w;
       ASSERT (\<not> running) () (do {
       rc \<leftarrow> connect w START_PORT {};
       ASSERT (rc \<ge> 0) () (set_chan MAIN_CHAN rc) }) });
     if rc > 0 then do {
       (rc', event) \<leftarrow> wait w rc INFINITE_TIME;
       _ \<leftarrow> close w rc;
       ASSERT (rc' \<ge> 0) () (
       ASSERT (IPC_HANDLE_POLL_HUP \<in> event) () rest) }
     else rest })) }"

text \<open>The code at the label of the tear down.\<close>

definition close_chans :: "'k world \<Rightarrow> ('k, unit) test" where
  "close_chans w = do {
     m \<leftarrow> chan_of MAIN_CHAN;
     _ \<leftarrow> close w m;
     p \<leftarrow> chan_of PEND_CHAN;
     _ \<leftarrow> close w p;
     q \<leftarrow> chan_of WAIT_CHAN;
     close w q }"

definition AppMgrPortStart_TearDown :: "'k world \<Rightarrow> ('k, unit) test" where
  "AppMgrPortStart_TearDown w = do {
     failed \<leftarrow> HasFailure;
     _ \<leftarrow> ASSERT (\<not> failed) () (do {
       running \<leftarrow> port_start_srv_running w;
       ASSERT (\<not> running) () (do {
       m \<leftarrow> chan_of MAIN_CHAN;
       ASSERT (INVALID_IPC_HANDLE w = m) () (do {
       p \<leftarrow> chan_of PEND_CHAN;
       ASSERT (INVALID_IPC_HANDLE w = p) () (do {
       q \<leftarrow> chan_of WAIT_CHAN;
       ASSERT (INVALID_IPC_HANDLE w = q) () (State_Monad.return ()) }) }) }) });
     close_chans w }"

text \<open>A test of the fixture: set up, body, tear down.\<close>

definition run_fixture :: "'k world \<Rightarrow> app_image \<Rightarrow> ('k, unit) test \<Rightarrow> ('k, unit) test" where
  "run_fixture w app body = do {
     _ \<leftarrow> AppMgrPortStart_SetUp w app;
     _ \<leftarrow> body;
     AppMgrPortStart_TearDown w }"

section \<open>The port start tests\<close>

definition PortStartPendingNegative :: "'k world \<Rightarrow> ('k, unit) test" where
  "PortStartPendingNegative w = do {
     _ \<leftarrow> establish_unhandled_channel w PEND_CHAN;
     _ \<leftarrow> close_channel w PEND_CHAN;
     send_exit w MAIN_CHAN }"

definition PortStartPendingPositive :: "'k world \<Rightarrow> ('k, unit) test" where
  "PortStartPendingPositive w = do {
     _ \<leftarrow> establish_unhandled_channel w PEND_CHAN;
     _ \<leftarrow> send_exit w MAIN_CHAN;
     wait_and_exit w PEND_CHAN }"

definition PortStartWaitingNegative :: "'k world \<Rightarrow> ('k, unit) test" where
  "PortStartWaitingNegative w = do {
     _ \<leftarrow> send_cmd w MAIN_CHAN CMD_CLOSE_PORT;
     _ \<leftarrow> establish_unhandled_channel w WAIT_CHAN;
     _ \<leftarrow> close_channel w WAIT_CHAN;
     send_exit w MAIN_CHAN }"

definition PortStartWaitingPositive :: "'k world \<Rightarrow> ('k, unit) test" where
  "PortStartWaitingPositive w = do {
     _ \<leftarrow> send_cmd w MAIN_CHAN CMD_CLOSE_PORT;
     _ \<leftarrow> establish_unhandled_channel w WAIT_CHAN;
     _ \<leftarrow> send_exit w MAIN_CHAN;
     wait_and_exit w WAIT_CHAN }"

definition PortStartPendingToWaitingNegative :: "'k world \<Rightarrow> ('k, unit) test" where
  "PortStartPendingToWaitingNegative w = do {
     _ \<leftarrow> establish_unhandled_channel w PEND_CHAN;
     _ \<leftarrow> send_cmd w MAIN_CHAN CMD_CLOSE_PORT;
     _ \<leftarrow> close_channel w PEND_CHAN;
     send_exit w MAIN_CHAN }"

definition PortStartPendingToWaitingPositive :: "'k world \<Rightarrow> ('k, unit) test" where
  "PortStartPendingToWaitingPositive w = do {
     _ \<leftarrow> establish_unhandled_channel w PEND_CHAN;
     _ \<leftarrow> send_cmd w MAIN_CHAN CMD_CLOSE_PORT;
     _ \<leftarrow> send_exit w MAIN_CHAN;
     wait_and_exit w PEND_CHAN }"

definition PortStartWaitingToPendingNegative :: "'k world \<Rightarrow> ('k, unit) test" where
  "PortStartWaitingToPendingNegative w = do {
     _ \<leftarrow> send_cmd w MAIN_CHAN CMD_CLOSE_PORT;
     _ \<leftarrow> establish_unhandled_channel w WAIT_CHAN;
     _ \<leftarrow> send_cmd w MAIN_CHAN CMD_OPEN_PORT;
     _ \<leftarrow> close_channel w WAIT_CHAN;
     send_exit w MAIN_CHAN }"

definition PortStartWaitingToPendingPositive :: "'k world \<Rightarrow> ('k, unit) test" where
  "PortStartWaitingToPendingPositive w = do {
     _ \<leftarrow> send_cmd w MAIN_CHAN CMD_CLOSE_PORT;
     _ \<leftarrow> establish_unhandled_channel w WAIT_CHAN;
     _ \<leftarrow> send_cmd w MAIN_CHAN CMD_OPEN_PORT;
     _ \<leftarrow> send_exit w MAIN_CHAN;
     wait_and_exit w WAIT_CHAN }"

definition PortStartPendingWaitingNegative :: "'k world \<Rightarrow> ('k, unit) test" where
  "PortStartPendingWaitingNegative w = do {
     _ \<leftarrow> establish_unhandled_channel w PEND_CHAN;
     _ \<leftarrow> send_cmd w MAIN_CHAN CMD_CLOSE_PORT;
     _ \<leftarrow> establish_unhandled_channel w WAIT_CHAN;
     _ \<leftarrow> close_channel w PEND_CHAN;
     _ \<leftarrow> close_channel w WAIT_CHAN;
     send_exit w MAIN_CHAN }"

definition PortStartPendingWaitingPositive :: "'k world \<Rightarrow> ('k, unit) test" where
  "PortStartPendingWaitingPositive w = do {
     _ \<leftarrow> establish_unhandled_channel w PEND_CHAN;
     _ \<leftarrow> send_cmd w MAIN_CHAN CMD_CLOSE_PORT;
     _ \<leftarrow> establish_unhandled_channel w WAIT_CHAN;
     _ \<leftarrow> send_exit w MAIN_CHAN;
     _ \<leftarrow> wait_and_exit w PEND_CHAN;
     wait_and_exit w WAIT_CHAN }"

definition PortStartPendingClosedWaitingPositive :: "'k world \<Rightarrow> ('k, unit) test" where
  "PortStartPendingClosedWaitingPositive w = do {
     _ \<leftarrow> establish_unhandled_channel w PEND_CHAN;
     _ \<leftarrow> send_cmd w MAIN_CHAN CMD_CLOSE_PORT;
     _ \<leftarrow> establish_unhandled_channel w WAIT_CHAN;
     _ \<leftarrow> close_channel w PEND_CHAN;
     _ \<leftarrow> send_exit w MAIN_CHAN;
     wait_and_exit w WAIT_CHAN }"

definition PortStartPendingWaitingClosedPositive :: "'k world \<Rightarrow> ('k, unit) test" where
  "PortStartPendingWaitingClosedPositive w = do {
     _ \<leftarrow> establish_unhandled_channel w PEND_CHAN;
     _ \<leftarrow> send_cmd w MAIN_CHAN CMD_CLOSE_PORT;
     _ \<leftarrow> establish_unhandled_channel w WAIT_CHAN;
     _ \<leftarrow> close_channel w WAIT_CHAN;
     _ \<leftarrow> send_exit w MAIN_CHAN;
     wait_and_exit w PEND_CHAN }"

section \<open>The other tests\<close>

definition DoubleLoad :: "'k world \<Rightarrow> app_image \<Rightarrow> ('k, unit) test" where
  "DoubleLoad w boot_start_app = do {
     error \<leftarrow> load_app w boot_start_app;
     failed \<leftarrow> HasFailure;
     ASSERT (\<not> failed) () (
     ASSERT (loaded w error) () (do {
     error \<leftarrow> load_app w boot_start_app;
     failed \<leftarrow> HasFailure;
     ASSERT (\<not> failed) () (
     ASSERT (error = APPLOADER_ERR_ALREADY_EXISTS w) () (State_Monad.return ())) })) }"

text \<open>The body of the test up to its label gives the channel that the label closes; \<open>skip\<close> is its static flag.\<close>

definition WaitConnectForPort :: "'k world \<Rightarrow> app_image \<Rightarrow> app_image \<Rightarrow> bool \<Rightarrow> ('k, bool) test" where
  "WaitConnectForPort w port_waiter_app port_start_app skip =
     (if skip then State_Monad.return True
      else do {
        chan \<leftarrow> do {
          running \<leftarrow> port_start_srv_running w;
          ASSERT (\<not> running) (INVALID_IPC_HANDLE w) (do {
          load_error \<leftarrow> load_app w port_waiter_app;
          failed \<leftarrow> HasFailure;
          ASSERT (\<not> failed) (INVALID_IPC_HANDLE w) (
          ASSERT (loaded w load_error) (INVALID_IPC_HANDLE w) (do {
          load_error \<leftarrow> load_app w port_start_app;
          failed \<leftarrow> HasFailure;
          ASSERT (\<not> failed) (INVALID_IPC_HANDLE w) (
          ASSERT (load_error = APPLOADER_NO_ERROR w) (INVALID_IPC_HANDLE w) (do {
          chan \<leftarrow> connect w PORT_WAITER_PORT {IPC_CONNECT_ASYNC, IPC_CONNECT_WAIT_FOR_PORT};
          ASSERT (chan \<ge> 0) (INVALID_IPC_HANDLE w) (do {
          (rc, event) \<leftarrow> wait w chan (Timeout_ms UNEXPECTED_TIMEOUT_MS);
          ASSERT (rc = NO_ERROR) chan (
          ASSERT (IPC_HANDLE_POLL_READY \<in> event) chan (
          let rest = (do {
            (n, rsp) \<leftarrow> sys_call (sys_recv1 w chan);
            ASSERT (n = 1) chan (
            ASSERT (rsp = Some RSP_OK) chan (State_Monad.return chan)) })
          in if IPC_HANDLE_POLL_MSG \<notin> event then do {
               (rc, event) \<leftarrow> wait w chan INFINITE_TIME;
               ASSERT (rc = NO_ERROR) chan (
               ASSERT (IPC_HANDLE_POLL_MSG \<in> event) chan rest) }
             else rest)) }) })) })) }) };
        _ \<leftarrow> close w chan;
        State_Monad.return True })"

definition BootStartNegative :: "'k world \<Rightarrow> app_image \<Rightarrow> ('k, unit) test" where
  "BootStartNegative w never_start_app = do {
     error \<leftarrow> load_app w never_start_app;
     failed \<leftarrow> HasFailure;
     ASSERT (\<not> failed) () (
     ASSERT (loaded w error) () (do {
     rc \<leftarrow> connect w NEVER_START_PORT {IPC_CONNECT_ASYNC};
     _ \<leftarrow> EXPECT (rc < 0);
     close w rc })) }"

definition BootStartPositive :: "'k world \<Rightarrow> app_image \<Rightarrow> ('k, unit) test" where
  "BootStartPositive w boot_start_app = do {
     error \<leftarrow> load_app w boot_start_app;
     failed \<leftarrow> HasFailure;
     ASSERT (\<not> failed) () (
     ASSERT (loaded w error) () (do {
     rc \<leftarrow> connect w BOOT_START_PORT {IPC_CONNECT_ASYNC};
     _ \<leftarrow> EXPECT (rc \<ge> 0);
     close w rc })) }"

definition AppRestartPositive :: "'k world \<Rightarrow> app_image \<Rightarrow> ('k, unit) test" where
  "AppRestartPositive w restart_app = do {
     chan \<leftarrow> do {
       error \<leftarrow> load_app w restart_app;
       failed \<leftarrow> HasFailure;
       ASSERT (\<not> failed) (INVALID_IPC_HANDLE w) (
       ASSERT (loaded w error) (INVALID_IPC_HANDLE w) (do {
       chan \<leftarrow> connect w RESTART_PORT {IPC_CONNECT_ASYNC, IPC_CONNECT_WAIT_FOR_PORT};
       ASSERT (chan \<ge> 0) (INVALID_IPC_HANDLE w) (do {
       (rc, event) \<leftarrow> wait w chan INFINITE_TIME;
       ASSERT (rc = NO_ERROR) chan (
       ASSERT (IPC_HANDLE_POLL_HUP \<in> event) chan (do {
       _ \<leftarrow> close w chan;
       chan' \<leftarrow> connect w RESTART_PORT {IPC_CONNECT_ASYNC, IPC_CONNECT_WAIT_FOR_PORT};
       ASSERT (chan' \<ge> 0) chan (State_Monad.return chan') })) }) })) };
     close w chan }"

definition AppRestartNegativePortStartPositive :: "'k world \<Rightarrow> app_image \<Rightarrow> ('k, unit) test" where
  "AppRestartNegativePortStartPositive w port_start_app = do {
     chan \<leftarrow> do {
       error \<leftarrow> load_app w port_start_app;
       failed \<leftarrow> HasFailure;
       ASSERT (\<not> failed) (INVALID_IPC_HANDLE w) (
       ASSERT (loaded w error) (INVALID_IPC_HANDLE w) (do {
       chan \<leftarrow> connect w START_PORT {};
       ASSERT (chan \<ge> 0) (INVALID_IPC_HANDLE w) (do {
       _ \<leftarrow> chan_send_cmd w chan CMD_EXIT;
       failed \<leftarrow> HasFailure;
       ASSERT (\<not> failed) chan (do {
       running \<leftarrow> port_start_srv_running w;
       ASSERT (\<not> running) chan (State_Monad.return chan) }) }) })) };
     close w chan }"

definition PortStartFail :: "'k world \<Rightarrow> app_image \<Rightarrow> ('k, unit) test" where
  "PortStartFail w port_start_fail_app = do {
     error \<leftarrow> load_app w port_start_fail_app;
     failed \<leftarrow> HasFailure;
     ASSERT (\<not> failed) () (
     ASSERT (loaded w error) () (do {
     chan \<leftarrow> connect w START_FAIL_PORT {IPC_CONNECT_ASYNC};
     ASSERT (chan \<ge> 0) () (do {
     (rc, event) \<leftarrow> wait w chan (Timeout_ms UNEXPECTED_TIMEOUT_MS);
     ASSERT (rc = NO_ERROR) () (
     ASSERT (IPC_HANDLE_POLL_HUP \<in> event) () (do {
     _ \<leftarrow> close w chan;
     chan \<leftarrow> connect w START_FAIL_PORT {IPC_CONNECT_ASYNC};
     ASSERT (chan \<ge> 0) () (do {
     (rc, event) \<leftarrow> wait w chan (Timeout_ms WAIT_FOR_APP_SLEEP_NS);
     ASSERT (rc = NO_ERROR) () (
     ASSERT (IPC_HANDLE_POLL_HUP \<in> event) () (close w chan)) }) })) }) })) }"

definition PortStartNegative :: "'k world \<Rightarrow> app_image \<Rightarrow> ('k, unit) test" where
  "PortStartNegative w port_start_app = do {
     error \<leftarrow> load_app w port_start_app;
     failed \<leftarrow> HasFailure;
     ASSERT (\<not> failed) () (
     ASSERT (loaded w error) () (do {
     rc \<leftarrow> connect w CTRL_PORT {IPC_CONNECT_ASYNC};
     _ \<leftarrow> EXPECT (rc < 0);
     close w rc })) }"

definition UnsignedApp :: "'k world \<Rightarrow> app_image \<Rightarrow> ('k, unit) test" where
  "UnsignedApp w unsigned_app = do {
     error \<leftarrow> load_app w unsigned_app;
     failed \<leftarrow> HasFailure;
     ASSERT (\<not> failed) () (
     ASSERT (APPLOADER_ERR_VERIFICATION_FAILED w = error) () (State_Monad.return ())) }"

definition UnlockedDevLoad :: "'k world \<Rightarrow> app_image \<Rightarrow> ('k, unit) test" where
  "UnlockedDevLoad w dev_only_app = do {
     error \<leftarrow> load_app w dev_only_app;
     failed \<leftarrow> HasFailure;
     ASSERT (\<not> failed) () (do {
     unlocked \<leftarrow> sys_call (system_state_app_loading_unlocked w);
     if unlocked then ASSERT (loaded w error) () (State_Monad.return ())
     else EXPECT (APPLOADER_ERR_VERIFICATION_FAILED w = error) }) }"

section \<open>Runs and the handles they hold\<close>

text \<open>
  The contract of the kernel calls that is needed: a handle is never 0, which the client relies on
  where it tests for a positive result, and the invalid handle is negative.
\<close>

definition world_ok :: "'k world \<Rightarrow> bool" where
  "world_ok w \<longleftrightarrow> INVALID_IPC_HANDLE w < 0 \<and> (\<forall>p f k. fst (sys_connect w p f k) \<noteq> 0) \<and>
     (\<forall>p n k. fst (sys_memref_create w p n k) \<noteq> 0)"

lemma run_sys_call [simp]:
  "run_state (sys_call f) s = (fst (f (kern s)), s\<lparr>kern := snd (f (kern s))\<rparr>)"
  by (simp add: sys_call_def split: prod.split)

lemma run_update [simp]: "run_state (State_Monad.update f) s = ((), f s)"
  by (simp add: State_Monad.update_def)

lemma run_connect [simp]:
  "run_state (connect w p f) s = (let rc = fst (sys_connect w p f (kern s)) in
     (rc, s\<lparr>kern := snd (sys_connect w p f (kern s)), ledger := ledger s @ (if 0 \<le> rc then [Opened rc] else [])\<rparr>))"
  by (simp add: connect_def opens_def note_op_def Let_def)

lemma run_memref_create [simp]:
  "run_state (memref_create w p n) s = (let rc = fst (sys_memref_create w p n (kern s)) in
     (rc, s\<lparr>kern := snd (sys_memref_create w p n (kern s)), ledger := ledger s @ (if 0 \<le> rc then [Opened rc] else [])\<rparr>))"
  by (simp add: memref_create_def opens_def note_op_def Let_def)

lemma run_close [simp]:
  "run_state (close w h) s =
     ((), s\<lparr>kern := sys_close w h (kern s), ledger := ledger s @ (if 0 \<le> h then [Closed h] else [])\<rparr>)"
  by (simp add: close_def note_op_def)

lemma run_wait [simp]:
  "run_state (wait w h t) s = (fst (sys_wait w h t (kern s)), s\<lparr>kern := snd (sys_wait w h t (kern s))\<rparr>)"
  by (simp add: wait_def)

lemma run_nanosleep [simp]: "run_state (nanosleep w ns) s = ((), s\<lparr>kern := sys_nanosleep w ns (kern s)\<rparr>)"
  by (simp add: nanosleep_def)

lemma run_send1 [simp]:
  "run_state (send1 w h b) s = (fst (sys_send1 w h b (kern s)),
     s\<lparr>kern := snd (sys_send1 w h b (kern s)), sent_cmds := sent_cmds s @ [b]\<rparr>)"
  by (simp add: send1_def)

lemma run_HasFailure [simp]: "run_state HasFailure s = (has_failed s, s)"
  by (simp add: HasFailure_def)

lemma run_ASSERT [simp]:
  "run_state (ASSERT c x m) s = (if c then run_state m s else (x, s\<lparr>has_failed := True\<rparr>))"
  by (simp add: ASSERT_def record_failure_def)

lemma run_EXPECT [simp]: "run_state (EXPECT c) s = ((), if c then s else s\<lparr>has_failed := True\<rparr>)"
  by (simp add: EXPECT_def record_failure_def)

lemma run_unless_failed [simp]:
  "run_state (unless_failed x m) s = (if has_failed s then (x, s) else run_state m s)"
  by (simp add: unless_failed_def)

lemma run_chan_of [simp]: "run_state (chan_of i) s = (chans s i, s)"
  by (simp add: chan_of_def)

lemma run_set_chan [simp]: "run_state (set_chan i h) s = ((), s\<lparr>chans := (chans s)(i := h)\<rparr>)"
  by (simp add: set_chan_def)

text \<open>
  A part of a test that gives back every handle it opens, leaves the fixture alone, sends no command
  and forgets no failure.
\<close>

definition neutral :: "'k client \<Rightarrow> 'k client \<Rightarrow> bool" where
  "neutral s s' \<longleftrightarrow> chans s' = chans s \<and> sent_cmds s' = sent_cmds s \<and> (has_failed s \<longrightarrow> has_failed s') \<and>
     mset (opened (ledger s')) + mset (closed (ledger s)) = mset (opened (ledger s)) + mset (closed (ledger s'))"

definition silent :: "'k client \<Rightarrow> 'k client \<Rightarrow> bool" where
  "silent s s' \<longleftrightarrow> neutral s s' \<and> ledger s' = ledger s"

lemma running_neutral:
  assumes "run_state (port_start_srv_running w) s = (b, s')"
  shows "neutral s s' \<and> has_failed s' = has_failed s"
  using assms by (auto simp: port_start_srv_running_def neutral_def Let_def)

lemma request_silent:
  "run_state (send_apploader_request w c cmd p n h) s = (x, s') \<Longrightarrow> silent s s'"
  by (auto simp: send_apploader_request_def neutral_def silent_def split: if_splits)

lemma read_silent: "run_state (read_apploader_response w c cmd i n) s = (x, s') \<Longrightarrow> silent s s'"
  by (auto simp: read_apploader_response_def neutral_def silent_def split: if_splits prod.splits)

lemma response_silent:
  assumes "run_state (recv_apploader_response w c cmd) s = (x, s')"
  shows "silent s s'"
  using assms read_silent
  by (fastforce simp: recv_apploader_response_def neutral_def silent_def split: if_splits prod.splits)

lemma load_app_neutral:
  assumes "world_ok w" and "run_state (load_app w app) s = (x, s')"
  shows "neutral s s'"
proof -
  have c: "fst (sys_connect w p f k) \<noteq> 0" "fst (sys_memref_create w a n k) \<noteq> 0" "\<not> 0 \<le> INVALID_IPC_HANDLE w" for p f k a n
    using assms(1) by (auto simp: world_ok_def)
  show ?thesis
    using assms(2) c
    by (auto simp: load_app_def Let_def silent_def neutral_def split: if_splits prod.splits
        dest!: request_silent response_silent)
qed

section \<open>What a port start test keeps\<close>

text \<open>
  The handles opened are those closed, those in the fixture and those lost. While nothing failed
  nothing is lost, the fixture holds channels at the indices \<open>C\<close>, and \<open>cmds\<close> were sent; after a failure
  at most one handle is lost.
\<close>

definition accounted :: "handle_t list \<Rightarrow> 'k client \<Rightarrow> bool" where
  "accounted lost s \<longleftrightarrow> mset (opened (ledger s)) = mset (closed (ledger s)) +
     mset (filter (\<lambda>h. 0 \<le> h) (map (chans s) [MAIN_CHAN, PEND_CHAN, WAIT_CHAN])) + mset lost"

definition holds_chans :: "'k world \<Rightarrow> chan_idx set \<Rightarrow> byte list \<Rightarrow> 'k client \<Rightarrow> bool" where
  "holds_chans w C cmds s \<longleftrightarrow>
     (if has_failed s then \<exists>lost. length lost \<le> 1 \<and> accounted lost s
      else accounted [] s \<and> sent_cmds s = cmds \<and>
        (\<forall>i. if i \<in> C then 0 \<le> chans s i else chans s i = INVALID_IPC_HANDLE w))"

lemma holds_failed:
  "has_failed s \<Longrightarrow> accounted lost s \<Longrightarrow> length lost \<le> 1 \<Longrightarrow> holds_chans w C cmds s"
  by (auto simp: holds_chans_def)

lemma holds_ok:
  "\<not> has_failed s \<Longrightarrow> holds_chans w C cmds s \<longleftrightarrow> accounted [] s \<and> sent_cmds s = cmds \<and>
    (\<forall>i. if i \<in> C then 0 \<le> chans s i else chans s i = INVALID_IPC_HANDLE w)"
  by (simp add: holds_chans_def)

lemma holds_any: "has_failed s \<Longrightarrow> holds_chans w C cmds s \<Longrightarrow> holds_chans w C' cmds' s"
  by (simp add: holds_chans_def)

definition moves :: "'k world \<Rightarrow> chan_idx set \<times> byte list \<Rightarrow> ('k, 'a) test \<Rightarrow> chan_idx set \<times> byte list \<Rightarrow> bool" where
  "moves w before m later \<longleftrightarrow>
     (\<forall>s x s'. holds_chans w (fst before) (snd before) s \<longrightarrow> run_state m s = (x, s') \<longrightarrow>
        holds_chans w (fst later) (snd later) s')"

lemma moves_seq: "moves w a m b \<Longrightarrow> moves w b n c \<Longrightarrow> moves w a (do { _ \<leftarrow> m; n }) c"
  by (fastforce simp: moves_def split: prod.splits)

text \<open>After a failure the guarded helpers do nothing.\<close>

lemma moves_guarded:
  assumes "\<And>s x s'. \<not> has_failed s \<Longrightarrow> holds_chans w C cmds s \<Longrightarrow> run_state m s = (x, s') \<Longrightarrow> holds_chans w C' cmds' s'"
  shows "moves w (C, cmds) (unless_failed x m) (C', cmds')"
  using assms holds_any by (fastforce simp: moves_def split: if_splits)

lemma accounted_cong [simp]:
  "accounted lost (s\<lparr>kern := k\<rparr>) = accounted lost s"
  "accounted lost (s\<lparr>has_failed := b\<rparr>) = accounted lost s"
  "accounted lost (s\<lparr>sent_cmds := cs\<rparr>) = accounted lost s"
  by (simp_all add: accounted_def)

lemma accounted_opened:
  "accounted lost s \<Longrightarrow> ledger s' = ledger s @ [Opened h] \<Longrightarrow> chans s' = chans s \<Longrightarrow> accounted (h # lost) s'"
  by (simp add: accounted_def)

lemma accounted_set_chan:
  "accounted [h] s \<Longrightarrow> chans s i < 0 \<Longrightarrow> 0 \<le> h \<Longrightarrow> accounted [] (s\<lparr>chans := (chans s)(i := h)\<rparr>)"
  by (cases i) (auto simp: accounted_def)

lemma accounted_close_chan:
  "accounted [] s \<Longrightarrow> 0 \<le> chans s i \<Longrightarrow> b < 0 \<Longrightarrow>
    accounted [] (s\<lparr>kern := k, ledger := ledger s @ [Closed (chans s i)], chans := (chans s)(i := b)\<rparr>)"
  by (cases i) (auto simp: accounted_def)

lemma chan_send_moves:
  assumes "\<not> has_failed s" and "accounted lost s" and "run_state (chan_send_cmd w h cmd) s = (x, s')"
  shows "accounted lost s' \<and> chans s' = chans s \<and> (\<not> has_failed s' \<longrightarrow> sent_cmds s' = sent_cmds s @ [cmd])"
  using assms by (auto simp: chan_send_cmd_def split: if_splits prod.splits)

lemma send_cmd_moves: "moves w (C, cmds) (send_cmd w i cmd) (C, cmds @ [cmd])"
  unfolding send_cmd_def
proof (rule moves_guarded)
  fix s x s'
  assume s: "\<not> has_failed s" "holds_chans w C cmds s" "run_state (do { chan \<leftarrow> chan_of i; chan_send_cmd w chan cmd }) s = (x, s')"
  then have "accounted [] s' \<and> chans s' = chans s \<and> (\<not> has_failed s' \<longrightarrow> sent_cmds s' = sent_cmds s @ [cmd])"
    using chan_send_moves [of s "[]" w "chans s i" cmd x s'] by (simp add: holds_ok)
  with s(1,2) show "holds_chans w C (cmds @ [cmd]) s'"
    by (cases "has_failed s'") (auto simp: holds_ok intro: holds_failed)
qed

lemma establish_moves:
  assumes "world_ok w" and "i \<notin> C"
  shows "moves w (C, cmds) (establish_unhandled_channel w i) (insert i C, cmds)"
  unfolding establish_unhandled_channel_def
proof (rule moves_guarded)
  fix s :: "'a client" and x s'
  let ?rc = "fst (sys_connect w START_PORT {IPC_CONNECT_ASYNC} (kern s))"
  let ?s1 = "s\<lparr>kern := snd (sys_connect w START_PORT {IPC_CONNECT_ASYNC} (kern s)), ledger := ledger s @ [Opened ?rc]\<rparr>"
  assume s: "\<not> has_failed s" "holds_chans w C cmds s" and run: "run_state (do {
       rc \<leftarrow> connect w START_PORT {IPC_CONNECT_ASYNC};
       ASSERT (rc \<ge> 0) () (do {
       (rc', event) \<leftarrow> wait w rc (Timeout_ms EXPECTED_TIMEOUT_MS);
       ASSERT (rc' = ERR_TIMED_OUT w) () (set_chan i rc) }) }) s = (x, s')"
  have a: "accounted [] s" and i: "chans s i < 0" using s assms by (auto simp: holds_ok world_ok_def)
  have a1: "accounted [?rc] (?s1\<lparr>kern := k\<rparr>)" for k by (rule accounted_opened [OF a]) simp_all
  consider (refused) "?rc < 0" "s' = s\<lparr>kern := kern s', has_failed := True\<rparr>"
    | (lost) k where "0 \<le> ?rc" "s' = ?s1\<lparr>kern := k, has_failed := True\<rparr>"
    | (set) k where "0 \<le> ?rc" "s' = ?s1\<lparr>kern := k, chans := (chans s)(i := ?rc)\<rparr>"
    using run by (auto simp: Let_def split: if_splits prod.splits)
  then show "holds_chans w (insert i C) cmds s'"
  proof cases
    case refused
    then have "has_failed s'" "accounted [] s'" using a by (metis client.select_convs(2) client.surjective client.update_convs(2), metis accounted_cong(1,2))
    then show ?thesis by (auto intro: holds_failed)
  next
    case (lost k)
    then show ?thesis using a1 [of k] by (auto intro!: holds_failed [of _ "[?rc]"])
  next
    case (set k)
    then have "accounted [] s'" using accounted_set_chan [OF a1 [of k], of i] i by simp
    with set s show ?thesis by (auto simp: holds_ok)
  qed
qed

lemma close_channel_moves:
  assumes "world_ok w" and "i \<in> C"
  shows "moves w (C, cmds) (close_channel w i) (C - {i}, cmds)"
  unfolding close_channel_def
proof (rule moves_guarded)
  fix s :: "'a client" and x s'
  assume s: "\<not> has_failed s" "holds_chans w C cmds s" and run: "run_state (do {
       chan \<leftarrow> chan_of i; _ \<leftarrow> close w chan; set_chan i (INVALID_IPC_HANDLE w) }) s = (x, s')"
  then have "0 \<le> chans s i" "INVALID_IPC_HANDLE w < 0" "accounted [] s" using assms by (auto simp: holds_ok world_ok_def)
  then have "accounted [] s'" using run accounted_close_chan [of s i "INVALID_IPC_HANDLE w"] by auto
  with s run assms show "holds_chans w (C - {i}) cmds s'" by (auto simp: holds_ok)
qed

lemma moves_unless: "moves w (C, cmds) m (C', cmds') \<Longrightarrow> moves w (C, cmds) (unless_failed () m) (C', cmds')"
  by (rule moves_guarded) (auto simp: moves_def)

lemma send_exit_moves:
  assumes "world_ok w" and "i \<in> C"
  shows "moves w (C, cmds) (send_exit w i) (C - {i}, cmds @ [CMD_EXIT])"
  unfolding send_exit_def by (rule moves_unless moves_seq send_cmd_moves close_channel_moves assms)+

lemma wait_and_exit_moves:
  assumes "world_ok w" and "i \<in> C"
  shows "moves w (C, cmds) (wait_and_exit w i) (C - {i}, cmds @ [CMD_EXIT])"
  unfolding wait_and_exit_def
proof (rule moves_guarded)
  fix s :: "'a client" and x s'
  assume s: "\<not> has_failed s" "holds_chans w C cmds s" and run: "run_state (do {
       chan \<leftarrow> chan_of i;
       (rc, event) \<leftarrow> wait w chan INFINITE_TIME;
       ASSERT (rc = NO_ERROR) () (
       ASSERT (IPC_HANDLE_POLL_READY \<in> event) () (send_exit w i)) }) s = (x, s')"
  then consider k where "s' = s\<lparr>kern := k, has_failed := True\<rparr>"
    | k where "run_state (send_exit w i) (s\<lparr>kern := k\<rparr>) = (x, s')"
    by (auto split: if_splits prod.splits)
  then show "holds_chans w (C - {i}) (cmds @ [CMD_EXIT]) s'"
  proof cases
    case (1 k)
    with s show ?thesis by (auto simp: holds_ok intro!: holds_failed [of _ "[]"])
  next
    case (2 k)
    moreover have "holds_chans w C cmds (s\<lparr>kern := k\<rparr>)" using s by (simp add: holds_ok)
    ultimately show ?thesis using send_exit_moves [OF assms, of cmds] by (auto simp: moves_def)
  qed
qed

lemmas test_moves =
  moves_seq send_cmd_moves establish_moves close_channel_moves send_exit_moves wait_and_exit_moves

section \<open>The sessions of the port start tests\<close>

text \<open>
  The tests with the commands that a run without a failure sends, split into what each instance of
  the port start server receives.
\<close>

definition port_start_tests :: "'k world \<Rightarrow> (('k, unit) test \<times> byte list list) list" where
  "port_start_tests w =
     [(PortStartPendingNegative w, [[CMD_EXIT]]),
      (PortStartPendingPositive w, [[CMD_EXIT], [CMD_EXIT]]),
      (PortStartWaitingNegative w, [[CMD_CLOSE_PORT, CMD_EXIT]]),
      (PortStartWaitingPositive w, [[CMD_CLOSE_PORT, CMD_EXIT], [CMD_EXIT]]),
      (PortStartPendingToWaitingNegative w, [[CMD_CLOSE_PORT, CMD_EXIT]]),
      (PortStartPendingToWaitingPositive w, [[CMD_CLOSE_PORT, CMD_EXIT], [CMD_EXIT]]),
      (PortStartWaitingToPendingNegative w, [[CMD_CLOSE_PORT, CMD_OPEN_PORT, CMD_EXIT]]),
      (PortStartWaitingToPendingPositive w, [[CMD_CLOSE_PORT, CMD_OPEN_PORT, CMD_EXIT], [CMD_EXIT]]),
      (PortStartPendingWaitingNegative w, [[CMD_CLOSE_PORT, CMD_EXIT]]),
      (PortStartPendingWaitingPositive w, [[CMD_CLOSE_PORT, CMD_EXIT], [CMD_EXIT], [CMD_EXIT]]),
      (PortStartPendingClosedWaitingPositive w, [[CMD_CLOSE_PORT, CMD_EXIT], [CMD_EXIT]]),
      (PortStartPendingWaitingClosedPositive w, [[CMD_CLOSE_PORT, CMD_EXIT], [CMD_EXIT]])]"

lemma moves_eq: "moves w a m b \<Longrightarrow> b = c \<Longrightarrow> moves w a m c"
  by simp

lemmas port_start_defs =
  PortStartPendingNegative_def PortStartPendingPositive_def PortStartWaitingNegative_def
  PortStartWaitingPositive_def PortStartPendingToWaitingNegative_def PortStartPendingToWaitingPositive_def
  PortStartWaitingToPendingNegative_def PortStartWaitingToPendingPositive_def PortStartPendingWaitingNegative_def
  PortStartPendingWaitingPositive_def PortStartPendingClosedWaitingPositive_def
  PortStartPendingWaitingClosedPositive_def

lemma negative_tests:
  assumes "world_ok w"
  shows "moves w ({MAIN_CHAN}, []) (PortStartPendingNegative w) ({}, [CMD_EXIT])"
    "moves w ({MAIN_CHAN}, []) (PortStartWaitingNegative w) ({}, [CMD_CLOSE_PORT, CMD_EXIT])"
    "moves w ({MAIN_CHAN}, []) (PortStartPendingToWaitingNegative w) ({}, [CMD_CLOSE_PORT, CMD_EXIT])"
    "moves w ({MAIN_CHAN}, []) (PortStartWaitingToPendingNegative w) ({}, [CMD_CLOSE_PORT, CMD_OPEN_PORT, CMD_EXIT])"
    "moves w ({MAIN_CHAN}, []) (PortStartPendingWaitingNegative w) ({}, [CMD_CLOSE_PORT, CMD_EXIT])"
  unfolding port_start_defs by ((rule moves_eq, (rule test_moves assms | simp add: insert_Diff_if)+) [])+

lemma positive_tests:
  assumes "world_ok w"
  shows "moves w ({MAIN_CHAN}, []) (PortStartPendingPositive w) ({}, [CMD_EXIT, CMD_EXIT])"
    "moves w ({MAIN_CHAN}, []) (PortStartWaitingPositive w) ({}, [CMD_CLOSE_PORT, CMD_EXIT, CMD_EXIT])"
    "moves w ({MAIN_CHAN}, []) (PortStartPendingToWaitingPositive w) ({}, [CMD_CLOSE_PORT, CMD_EXIT, CMD_EXIT])"
    "moves w ({MAIN_CHAN}, []) (PortStartWaitingToPendingPositive w)
      ({}, [CMD_CLOSE_PORT, CMD_OPEN_PORT, CMD_EXIT, CMD_EXIT])"
    "moves w ({MAIN_CHAN}, []) (PortStartPendingWaitingPositive w) ({}, [CMD_CLOSE_PORT, CMD_EXIT, CMD_EXIT, CMD_EXIT])"
    "moves w ({MAIN_CHAN}, []) (PortStartPendingClosedWaitingPositive w) ({}, [CMD_CLOSE_PORT, CMD_EXIT, CMD_EXIT])"
    "moves w ({MAIN_CHAN}, []) (PortStartPendingWaitingClosedPositive w) ({}, [CMD_CLOSE_PORT, CMD_EXIT, CMD_EXIT])"
  unfolding port_start_defs by ((rule moves_eq, (rule test_moves assms | simp add: insert_Diff_if)+) [])+

lemma port_start_test_moves:
  assumes "world_ok w" and "(body, sessions) \<in> set (port_start_tests w)"
  shows "moves w ({MAIN_CHAN}, []) body ({}, concat sessions)"
  using assms(2) negative_tests [OF assms(1)] positive_tests [OF assms(1)]
  by (auto simp: port_start_tests_def simp del: CMD_EXIT_def CMD_CLOSE_PORT_def CMD_OPEN_PORT_def)

lemma neutral_accounted: "neutral s s' \<Longrightarrow> accounted lost s \<Longrightarrow> accounted lost s'"
  by (auto simp: neutral_def accounted_def)

text \<open>
  A state before a test of the fixture: no failure, nothing done yet. The fixture is not initialised:
  its channels hold any values.
\<close>

definition fresh_client :: "'k client \<Rightarrow> bool" where
  "fresh_client s \<longleftrightarrow> \<not> has_failed s \<and> ledger s = [] \<and> sent_cmds s = []"

text \<open>The end of the setup: the server is not running, and a connection starts it.\<close>

lemma start_holds:
  assumes "world_ok w" and "holds_chans w {} [] s" and "\<not> has_failed s"
    and "run_state (do {
       running \<leftarrow> port_start_srv_running w;
       ASSERT (\<not> running) () (do {
       rc \<leftarrow> connect w START_PORT {};
       ASSERT (rc \<ge> 0) () (set_chan MAIN_CHAN rc) }) }) s = (x, s')"
  shows "holds_chans w {MAIN_CHAN} [] s'"
proof -
  obtain b s1 where r: "run_state (port_start_srv_running w) s = (b, s1)" by fastforce
  let ?rc = "fst (sys_connect w START_PORT {} (kern s1))"
  from running_neutral [OF r] assms(2,3)
  have s1: "accounted [] s1" "\<not> has_failed s1" "sent_cmds s1 = []" "\<forall>i. chans s1 i = INVALID_IPC_HANDLE w"
    using neutral_accounted [of s s1 "[]"] by (auto simp: holds_ok neutral_def)
  have "chans s1 MAIN_CHAN < 0" using s1(4) assms(1) by (simp add: world_ok_def)
  then have "accounted [] (s1\<lparr>kern := k, ledger := ledger s1 @ [Opened ?rc], chans := (chans s1)(MAIN_CHAN := ?rc)\<rparr>)"
    if "0 \<le> ?rc" for k
    using accounted_set_chan [OF accounted_opened [OF s1(1), of "s1\<lparr>kern := k, ledger := ledger s1 @ [Opened ?rc]\<rparr>" ?rc]] that
    by simp
  moreover have "s' = s1\<lparr>kern := kern s', has_failed := True\<rparr> \<or>
      0 \<le> ?rc \<and> (\<exists>k. s' = s1\<lparr>kern := k, ledger := ledger s1 @ [Opened ?rc], chans := (chans s1)(MAIN_CHAN := ?rc)\<rparr>)"
    using r assms(4) by (auto simp: Let_def split: if_splits)
  ultimately have "accounted [] s' \<and> (has_failed s' \<or> sent_cmds s' = [] \<and>
      0 \<le> chans s' MAIN_CHAN \<and> (\<forall>i. i \<noteq> MAIN_CHAN \<longrightarrow> chans s' i = INVALID_IPC_HANDLE w))"
    using s1 by (elim disjE conjE exE) (metis accounted_cong(1,2) client.ext_inject client.surjective client.update_convs(2), simp)
  then show ?thesis by (cases "has_failed s'") (auto simp: holds_ok intro: holds_failed)
qed

lemma setup_holds:
  assumes "world_ok w" and "fresh_client s" and "run_state (AppMgrPortStart_SetUp w app) s = (x, s')"
    and l: "run_state (load_app w app) s = (e, s1)" and ok: "\<not> has_failed s1" "loaded w e"
  shows "holds_chans w {MAIN_CHAN} [] s'"
proof -
  let ?s2 = "s1\<lparr>chans := \<lambda>i. INVALID_IPC_HANDLE w\<rparr>"
  let ?f = "sys_connect w SHUTDOWN_PORT {IPC_CONNECT_ASYNC}"
  have n: "neutral s s1" by (rule load_app_neutral [OF assms(1) l])
  then have s1: "mset (opened (ledger s1)) = mset (closed (ledger s1))" "sent_cmds s1 = []"
    using assms(2) by (auto simp: neutral_def fresh_client_def)
  then have h2: "accounted [] ?s2" using assms(1) by (auto simp: accounted_def world_ok_def not_le)
  have c: "fst (?f k) \<noteq> 0" for k using assms(1) by (simp add: world_ok_def)
  define rest where "rest = (do {
       running \<leftarrow> port_start_srv_running w;
       ASSERT (\<not> running) () (do {
       rc \<leftarrow> connect w START_PORT {};
       ASSERT (rc \<ge> 0) () (set_chan MAIN_CHAN rc) }) })"
  have run: "run_state (AppMgrPortStart_SetUp w app) s = run_state (do {
      rc \<leftarrow> connect w SHUTDOWN_PORT {IPC_CONNECT_ASYNC};
      if rc > 0 then do {
        (rc', event) \<leftarrow> wait w rc INFINITE_TIME;
        _ \<leftarrow> close w rc;
        ASSERT (rc' \<ge> 0) () (ASSERT (IPC_HANDLE_POLL_HUP \<in> event) () rest) }
      else rest }) ?s2"
    using l ok unfolding AppMgrPortStart_SetUp_def Let_def rest_def [symmetric] by simp
  consider (aborted) k h where "s' = ?s2\<lparr>kern := k, ledger := ledger s1 @ [Opened h, Closed h], has_failed := True\<rparr>"
    | (start) k ops where "ops = [] \<or> (\<exists>h. ops = [Opened h, Closed h])"
        "run_state rest (?s2\<lparr>kern := k, ledger := ledger s1 @ ops\<rparr>) = (x, s')"
  proof -
    let ?k = "kern ?s2" and ?g = "\<lambda>k h. sys_wait w h INFINITE_TIME k"
    let ?h = "fst (?f ?k)"
    show ?thesis
    proof (cases "0 < ?h")
      case False
      then have "run_state rest (?s2\<lparr>kern := snd (?f ?k), ledger := ledger s1 @ []\<rparr>) = (x, s')"
        using assms(3) run c [of ?k] by (simp add: Let_def)
      then show ?thesis using start by blast
    next
      case h: True
      obtain rc ev where e: "fst (?g (snd (?f ?k)) ?h) = (rc, ev)" by fastforce
      let ?s3 = "?s2\<lparr>kern := sys_close w ?h (snd (?g (snd (?f ?k)) ?h)), ledger := ledger s1 @ [Opened ?h, Closed ?h]\<rparr>"
      have "(if 0 \<le> rc \<and> IPC_HANDLE_POLL_HUP \<in> ev then run_state rest ?s3 else ((), ?s3\<lparr>has_failed := True\<rparr>)) = (x, s')"
        using assms(3) run h e by (simp add: Let_def split: if_splits)
      then show ?thesis
        using start [of "[Opened ?h, Closed ?h]"] aborted
        by (cases "0 \<le> rc \<and> IPC_HANDLE_POLL_HUP \<in> ev") auto
    qed
  qed
  then show ?thesis
  proof cases
    case aborted
    then show ?thesis using h2 by (auto intro!: holds_failed [of _ "[]"] simp: accounted_def)
  next
    case (start k ops)
    then have "holds_chans w {} [] (?s2\<lparr>kern := k, ledger := ledger s1 @ ops\<rparr>)"
      using h2 s1(2) ok(1) by (auto simp: holds_ok accounted_def)
    moreover have "\<not> has_failed (?s2\<lparr>kern := k, ledger := ledger s1 @ ops\<rparr>)" using ok(1) by simp
    ultimately show ?thesis by (rule start_holds [OF assms(1) _ _ start(2) [unfolded rest_def]])
  qed
qed

lemma close_all:
  assumes "accounted lost s"
    and "run_state (close_chans w) s = (x, s')"
  shows "mset (opened (ledger s')) = mset (closed (ledger s')) + mset lost \<and> has_failed s' = has_failed s \<and>
    sent_cmds s' = sent_cmds s"
  using assms by (auto simp: accounted_def close_chans_def)

lemma teardown_closes:
  assumes "holds_chans w {} cmds s" and "run_state (AppMgrPortStart_TearDown w) s = (x, s')"
  shows "\<exists>lost. mset (opened (ledger s')) = mset (closed (ledger s')) + mset lost \<and> length lost \<le> 1 \<and>
    (has_failed s' \<or> lost = [] \<and> sent_cmds s' = cmds) \<and>
    (\<not> has_failed s \<longrightarrow> has_failed s' = fst (run_state (port_start_srv_running w) s))"
proof -
  obtain b s1 where r: "run_state (port_start_srv_running w) s = (b, s1)" by fastforce
  note n = running_neutral [OF r]
  show ?thesis
  proof (cases "has_failed s")
    case True
    then obtain lost where l: "accounted lost s" "length lost \<le> 1" using assms(1) by (auto simp: holds_chans_def)
    have "mset (opened (ledger s')) = mset (closed (ledger s')) + mset lost \<and> has_failed s' = has_failed (s\<lparr>has_failed := True\<rparr>)"
      using close_all [of lost "s\<lparr>has_failed := True\<rparr>" w x s'] l(1) True assms(2)
      by (simp add: AppMgrPortStart_TearDown_def)
    with l(2) True show ?thesis by auto
  next
    case False
    with assms(1) n neutral_accounted [of s s1 "[]"]
    have s1: "accounted [] (s1\<lparr>has_failed := b\<rparr>)" "\<not> has_failed s1" "sent_cmds s1 = cmds" "\<forall>i. chans s1 i = INVALID_IPC_HANDLE w"
      by (auto simp: holds_ok neutral_def)
    have f: "s1\<lparr>has_failed := False\<rparr> = s1" using s1(2) by (cases s1) simp
    have "mset (opened (ledger s')) = mset (closed (ledger s')) + mset [] \<and>
        has_failed s' = has_failed (s1\<lparr>has_failed := b\<rparr>) \<and> sent_cmds s' = sent_cmds (s1\<lparr>has_failed := b\<rparr>)"
      using close_all [of "[]" "s1\<lparr>has_failed := b\<rparr>" w x s'] s1 False r f assms(2)
      by (cases b) (simp_all add: AppMgrPortStart_TearDown_def)
    with s1 False r show ?thesis by (auto intro!: exI [of _ "[]"])
  qed
qed

text \<open>
  When the server was not loaded the setup stops before it initialises the fixture, the helpers do
  nothing, and the tear down closes whatever the uninitialised fixture holds.
\<close>

lemma body_after_failure:
  assumes "(body, sessions) \<in> set (port_start_tests w)" and "has_failed s"
  shows "run_state body s = ((), s)"
  using assms unfolding port_start_tests_def
  by (auto simp: port_start_defs establish_unhandled_channel_def close_channel_def send_exit_def send_cmd_def wait_and_exit_def)

lemma not_loaded_run:
  assumes "world_ok w" and "fresh_client s" and "(body, sessions) \<in> set (port_start_tests w)"
    and "run_state (run_fixture w app body) s = (x, s')"
    and l: "run_state (load_app w app) s = (e, s1)" and f: "has_failed s1 \<or> \<not> loaded w e"
  shows "has_failed s' \<and> mset (closed (ledger s')) =
    mset (opened (ledger s')) + mset (filter (\<lambda>h. 0 \<le> h) (map (chans s) [MAIN_CHAN, PEND_CHAN, WAIT_CHAN]))"
proof -
  let ?s2 = "s1\<lparr>has_failed := True\<rparr>"
  have n: "neutral s s1" by (rule load_app_neutral [OF assms(1) l])
  then have s1: "mset (opened (ledger s1)) = mset (closed (ledger s1))" "chans s1 = chans s"
    using assms(2) by (auto simp: neutral_def fresh_client_def)
  have "run_state (AppMgrPortStart_SetUp w app) s = ((), ?s2)"
    using l f by (auto simp: AppMgrPortStart_SetUp_def)
  then have "run_state (close_chans w) ?s2 = (x, s')"
    using assms(4) body_after_failure [OF assms(3), of ?s2] by (simp add: run_fixture_def AppMgrPortStart_TearDown_def)
  then show ?thesis using s1 by (auto simp: close_chans_def)
qed

text \<open>An event that delivers a command to the port start server, with calls that succeed.\<close>

definition delivers_cmd :: "handle_t \<Rightarrow> byte \<Rightarrow> ps_event \<Rightarrow> bool" where
  "delivers_cmd shutdown_port cmd ev \<longleftrightarrow> 0 \<le> ps_wait ev \<and> ev_handle (ps_uevt ev) \<noteq> shutdown_port \<and>
     IPC_HANDLE_POLL_MSG \<in> ev_event (ps_uevt ev) \<and> ps_recv ev = Inr cmd \<and> ps_close ev = NO_ERROR \<and>
     0 \<le> ps_create ev \<and> 0 \<le> ps_send ev"

fun replies :: "handle_op list \<Rightarrow> app_rsp list" where
  "replies [] = []"
| "replies (Replied r # ops) = r # replies ops"
| "replies (_ # ops) = replies ops"

definition served :: "byte list \<Rightarrow> bool" where
  "served session \<longleftrightarrow> (\<forall>evs shutdown_port p. list_all2 (delivers_cmd shutdown_port) session evs \<longrightarrow>
     (\<exists>p' ops. command_loop evs shutdown_port p = Some (0, p', ops) \<and>
        replies ops = replicate (length session) RSP_OK))"

lemma sessions_served:
  "served [CMD_EXIT]" "served [CMD_CLOSE_PORT, CMD_EXIT]" "served [CMD_CLOSE_PORT, CMD_OPEN_PORT, CMD_EXIT]"
  by (auto simp: served_def list_all2_Cons1 delivers_cmd_def handle_cmd_def numeral_3_eq_3)

text \<open>C29: A port start test gives back what it opens. Whatever the kernel, the loader and the server answer,
  for each of the twelve tests with its setup and tear down: if the port start server was loaded, every
  handle it opened is closed exactly once when nothing failed, and at most one handle is lost when
  something did; in a run without a failure the commands it sent are those of its sessions, and an
  instance of the port start server that receives a session, and whose calls succeed, answers every
  command with success and ends with code 0. If the server was not loaded, the test fails, every handle
  it opened is closed, and the tear down besides closes exactly the values that the uninitialised
  fixture held and that look like handles.\<close>

theorem port_start_tests_release:
  assumes "world_ok w" and "fresh_client s" and "(body, sessions) \<in> set (port_start_tests w)"
    and "run_state (run_fixture w app body) s = (x, s')" and "run_state (load_app w app) s = (error, s1)"
  shows "if \<not> has_failed s1 \<and> loaded w error
    then \<exists>lost. mset (opened (ledger s')) = mset (closed (ledger s')) + mset lost \<and> length lost \<le> 1 \<and>
      (\<not> has_failed s' \<longrightarrow> lost = [] \<and> sent_cmds s' = concat sessions \<and> (\<forall>c \<in> set sessions. served c))
    else has_failed s' \<and> mset (closed (ledger s')) =
      mset (opened (ledger s')) + mset (filter (\<lambda>h. 0 \<le> h) (map (chans s) [MAIN_CHAN, PEND_CHAN, WAIT_CHAN]))"
proof (cases "\<not> has_failed s1 \<and> loaded w error")
  case False
  with not_loaded_run [OF assms] show ?thesis by simp
next
  case True
  obtain s2 where s2: "run_state (AppMgrPortStart_SetUp w app) s = ((), s2)" by (metis surj_pair old.unit.exhaust)
  obtain s3 where s3: "run_state body s2 = ((), s3)" by (metis surj_pair old.unit.exhaust)
  have "holds_chans w {} (concat sessions) s3"
    using port_start_test_moves [OF assms(1,3)] setup_holds [OF assms(1,2) s2 assms(5)] True s3 by (auto simp: moves_def)
  moreover have "run_state (AppMgrPortStart_TearDown w) s3 = (x, s')"
    using assms(4) s2 s3 by (simp add: run_fixture_def)
  moreover have "\<forall>c \<in> set sessions. served c"
    using assms(3) sessions_served unfolding port_start_tests_def by auto
  ultimately show ?thesis using teardown_closes [of w "concat sessions" s3 x s'] True by auto
qed

text \<open>A world whose state counts the handles it gave out and in which the tests pass.\<close>

definition example_world :: "nat world" where
  "example_world = \<lparr>
     sys_connect = (\<lambda>p f k. if p \<in> {START_PORT, APPLOADER_PORT} then (int k + 1, k + 1) else (-2, k)),
     sys_close = (\<lambda>h k. k),
     sys_wait = (\<lambda>h t k. ((if t = INFINITE_TIME then 0 else -13, {IPC_HANDLE_POLL_READY, IPC_HANDLE_POLL_MSG}), k)),
     sys_send1 = (\<lambda>h b k. (1, k)),
     sys_recv1 = (\<lambda>h k. ((1, Some RSP_OK), k)),
     sys_nanosleep = (\<lambda>ns k. k),
     sys_memref_create = (\<lambda>p n k. (int k + 1, k + 1)),
     sys_send_msg = (\<lambda>h r k. (20, k)),
     sys_get_msg = (\<lambda>h k. ((0, 1, 8), k)),
     sys_read_msg = (\<lambda>h i k. ((8, 3, 0), k)),
     sys_put_msg = (\<lambda>h i k. k),
     system_state_app_loading_unlocked = (\<lambda>k. (True, k)),
     INVALID_IPC_HANDLE = -1, ERR_TIMED_OUT = -13, round_up_page = (\<lambda>n. n),
     apploader_header_size = 4, load_app_req_size = 16, apploader_resp_size = 8,
     APPLOADER_CMD_LOAD_APPLICATION = 2, APPLOADER_RESP_BIT = 1,
     APPLOADER_NO_ERROR = 0, APPLOADER_ERR_ALREADY_EXISTS = 5, APPLOADER_ERR_VERIFICATION_FAILED = 6\<rparr>"

lemma example_world_ok: "world_ok example_world"
  by (simp add: world_ok_def example_world_def)

definition example_client :: "nat client" where
  "example_client = \<lparr>kern = 0, has_failed = False, chans = \<lambda>i. 77, ledger = [], sent_cmds = []\<rparr>"

lemmas client_calls =
  run_fixture_def AppMgrPortStart_SetUp_def AppMgrPortStart_TearDown_def close_chans_def load_app_def
  send_apploader_request_def recv_apploader_response_def read_apploader_response_def port_start_srv_running_def
  send_exit_def send_cmd_def chan_send_cmd_def close_channel_def establish_unhandled_channel_def wait_and_exit_def

lemma example_passes:
  "\<not> has_failed (snd (run_state (run_fixture example_world (0, 10) (PortStartWaitingPositive example_world)) example_client))"
  by (simp add: client_calls PortStartWaitingPositive_def example_world_def example_client_def Let_def loaded_def NO_ERROR_def)

theorem port_start_tests_release_witness:
  "\<exists>s'. run_state (run_fixture example_world (0, 10) (PortStartWaitingPositive example_world)) example_client = ((), s') \<and>
    mset (opened (ledger s')) = mset (closed (ledger s')) \<and> sent_cmds s' = [CMD_CLOSE_PORT, CMD_EXIT, CMD_EXIT]"
proof -
  obtain s' where s': "run_state (run_fixture example_world (0, 10) (PortStartWaitingPositive example_world)) example_client = ((), s')"
    by (metis surj_pair old.unit.exhaust)
  have "fresh_client example_client" by (simp add: fresh_client_def example_client_def)
  moreover have "(PortStartWaitingPositive example_world, [[CMD_CLOSE_PORT, CMD_EXIT], [CMD_EXIT]]) \<in> set (port_start_tests example_world)"
    unfolding port_start_tests_def by simp
  moreover have "\<not> has_failed (snd (run_state (load_app example_world (0, 10)) example_client))"
    "loaded example_world (fst (run_state (load_app example_world (0, 10)) example_client))"
    by (simp_all add: client_calls example_world_def example_client_def Let_def loaded_def NO_ERROR_def)
  ultimately show ?thesis
    using port_start_tests_release [OF example_world_ok _ _ s' surjective_pairing] example_passes s' by fastforce
qed

section \<open>The handles of the other tests\<close>

text \<open>Every handle opened is closed, with no regard to commands and failures.\<close>

definition balanced :: "'k client \<Rightarrow> 'k client \<Rightarrow> bool" where
  "balanced s s' \<longleftrightarrow>
     mset (opened (ledger s')) + mset (closed (ledger s)) = mset (opened (ledger s)) + mset (closed (ledger s'))"

lemma neutral_balanced: "neutral s s' \<Longrightarrow> balanced s s'"
  by (simp add: neutral_def balanced_def)

lemma balanced_trans:
  assumes "balanced s s1" and "balanced s1 s2"
  shows "balanced s s2"
  unfolding balanced_def
proof (rule multiset_eqI)
  fix h
  have "count (mset (opened (ledger s1))) h + count (mset (closed (ledger s))) h =
      count (mset (opened (ledger s))) h + count (mset (closed (ledger s1))) h"
    "count (mset (opened (ledger s2))) h + count (mset (closed (ledger s1))) h =
      count (mset (opened (ledger s1))) h + count (mset (closed (ledger s2))) h"
    using assms unfolding balanced_def by (metis count_union)+
  then show "count (mset (opened (ledger s2)) + mset (closed (ledger s))) h =
      count (mset (opened (ledger s)) + mset (closed (ledger s2))) h"
    by simp
qed

lemma load_app_balanced: "world_ok w \<Longrightarrow> run_state (load_app w app) s = (x, s') \<Longrightarrow> balanced s s'"
  by (rule neutral_balanced) (rule load_app_neutral)

lemma balanced_ledger:
  "mset (opened ops) = mset (closed ops) \<Longrightarrow> ledger s' = ledger s @ ops \<Longrightarrow> balanced s s'"
  by (simp add: balanced_def)

lemma balanced_failed [simp]:
  "balanced s (s'\<lparr>has_failed := b\<rparr>) = balanced s s'" "balanced s (s'\<lparr>kern := k\<rparr>) = balanced s s'"
  by (simp_all add: balanced_def)

text \<open>A test that loads an application and goes on only if that worked.\<close>

lemma after_load_balanced:
  assumes "world_ok w"
    and "run_state (do { error \<leftarrow> load_app w app; failed \<leftarrow> HasFailure; ASSERT (\<not> failed) x (rest error) }) s = (y, s')"
    and "\<And>error s1 y s2. run_state (rest error) s1 = (y, s2) \<Longrightarrow> balanced s1 s2"
  shows "balanced s s'"
proof -
  obtain e s1 where l: "run_state (load_app w app) s = (e, s1)" by fastforce
  have "s' = s1\<lparr>has_failed := True\<rparr> \<or> run_state (rest e) s1 = (y, s')"
    using assms(2) l by (auto split: if_splits)
  then show ?thesis
    using load_app_balanced [OF assms(1) l] assms(3) balanced_trans by fastforce
qed

lemma single_load_balanced:
  assumes "world_ok w"
  shows "run_state (BootStartNegative w app) s = (x, s') \<Longrightarrow> balanced s s'"
    "run_state (BootStartPositive w app) s = (x, s') \<Longrightarrow> balanced s s'"
    "run_state (PortStartNegative w app) s = (x, s') \<Longrightarrow> balanced s s'"
    "run_state (UnsignedApp w app) s = (x, s') \<Longrightarrow> balanced s s'"
    "run_state (UnlockedDevLoad w app) s = (x, s') \<Longrightarrow> balanced s s'"
  unfolding BootStartNegative_def BootStartPositive_def PortStartNegative_def UnsignedApp_def UnlockedDevLoad_def
  by (erule after_load_balanced [OF assms]; auto simp: balanced_def Let_def split: if_splits)+

lemma double_load_balanced:
  assumes "world_ok w" and "run_state (DoubleLoad w app) s = (x, s')"
  shows "balanced s s'"
proof -
  have "balanced s1 s2" if "run_state (ASSERT (loaded w e) () (do {
     error \<leftarrow> load_app w app; failed \<leftarrow> HasFailure;
     ASSERT (\<not> failed) () (ASSERT (error = APPLOADER_ERR_ALREADY_EXISTS w) () (State_Monad.return ())) })) s1 = (y, s2)"
    for e s1 y s2
  proof (cases "loaded w e")
    case True
    with that show ?thesis
      by (simp only: run_ASSERT if_True, elim after_load_balanced [OF assms(1)])
        (auto simp: balanced_def split: if_splits)
  next
    case False
    with that show ?thesis by (auto simp: balanced_def)
  qed
  then show ?thesis
    using after_load_balanced [OF assms(1) assms(2) [unfolded DoubleLoad_def]] by blast
qed

lemma balanced_from:
  assumes "balanced s t" and "ledger s' = ledger t \<or> (\<exists>h. ledger s' = ledger t @ [Opened h, Closed h])"
  shows "balanced s s'"
  using assms by (auto simp: balanced_def)

lemma port_start_once_balanced:
  assumes "world_ok w" and "run_state (AppRestartNegativePortStartPositive w app) s = (x, s')"
  shows "balanced s s'"
proof -
  obtain e s1 where l: "run_state (load_app w app) s = (e, s1)" by fastforce
  let ?h = "fst (sys_connect w START_PORT {} (kern s1))"
  let ?s2 = "s1\<lparr>kern := snd (sys_connect w START_PORT {} (kern s1)), ledger := ledger s1 @ [Opened ?h]\<rparr>"
  obtain s3 where c: "run_state (chan_send_cmd w ?h CMD_EXIT) ?s2 = ((), s3)" by (metis surj_pair old.unit.exhaust)
  obtain b s4 where r: "run_state (port_start_srv_running w) s3 = (b, s4)" by fastforce
  have "ledger s3 = ledger s1 @ [Opened ?h]"
    using c by (auto simp: chan_send_cmd_def split: if_splits prod.splits)
  moreover have "balanced s3 s4" using neutral_balanced running_neutral [OF r] by blast
  moreover have "\<not> 0 \<le> INVALID_IPC_HANDLE w" using assms(1) by (simp add: world_ok_def)
  then have "ledger s' = ledger s1 \<or> (\<exists>t. t \<in> {s3, s4} \<and> ledger s' = ledger t @ [Closed ?h])"
    using assms(2) l c r by (auto simp: AppRestartNegativePortStartPositive_def Let_def split: if_splits)
  ultimately have "balanced s1 s'" by (auto simp: balanced_def)
  then show ?thesis using load_app_balanced [OF assms(1) l] balanced_trans by blast
qed

lemma wait_connect_balanced:
  assumes "world_ok w" and "run_state (WaitConnectForPort w app1 app2 skip) s = (x, s')"
  shows "balanced s s'"
proof -
  obtain b s1 where r: "run_state (port_start_srv_running w) s = (b, s1)" by fastforce
  obtain e1 s2 where l1: "run_state (load_app w app1) s1 = (e1, s2)" by fastforce
  obtain e2 s3 where l2: "run_state (load_app w app2) s2 = (e2, s3)" by fastforce
  have "balanced s s1" using neutral_balanced running_neutral [OF r] by blast
  then have b: "balanced s s1" "balanced s s2" "balanced s s3"
    using load_app_balanced [OF assms(1)] l1 l2 balanced_trans by blast+
  have "\<not> 0 \<le> INVALID_IPC_HANDLE w" using assms(1) by (simp add: world_ok_def)
  then have "skip \<or> ledger s' = ledger s1 \<or> ledger s' = ledger s2 \<or> ledger s' = ledger s3 \<or>
      (\<exists>h. ledger s' = ledger s3 @ [Opened h, Closed h])"
    using assms(2) r l1 l2 by (auto simp: WaitConnectForPort_def Let_def split: if_splits prod.splits)
  then show ?thesis
  proof
    assume skip
    then show ?thesis using assms(2) by (simp add: WaitConnectForPort_def balanced_def)
  qed (use b balanced_from in blast)
qed

text \<open>
  The restart test closes its channel before it connects again; when that connection fails, the label
  closes the old handle once more. The failing start test has no close at its label: a channel that
  is not shut down in time is lost.
\<close>

lemma restart_closes_twice:
  assumes "run_state (load_app w app) s = (error, s1)" and "\<not> has_failed s1" and "loaded w error"
    and "sys_connect w RESTART_PORT {IPC_CONNECT_ASYNC, IPC_CONNECT_WAIT_FOR_PORT} (kern s1) = (h, k)" and "0 \<le> h"
    and "sys_wait w h INFINITE_TIME k = ((NO_ERROR, event), k')" and "IPC_HANDLE_POLL_HUP \<in> event"
    and "fst (sys_connect w RESTART_PORT {IPC_CONNECT_ASYNC, IPC_CONNECT_WAIT_FOR_PORT} (sys_close w h k')) < 0"
  shows "ledger (snd (run_state (AppRestartPositive w app) s)) = ledger s1 @ [Opened h, Closed h, Closed h]"
  using assms by (simp add: AppRestartPositive_def Let_def)

lemma start_fail_loses:
  assumes "run_state (load_app w app) s = (error, s1)" and "\<not> has_failed s1" and "loaded w error"
    and "sys_connect w START_FAIL_PORT {IPC_CONNECT_ASYNC} (kern s1) = (h, k)" and "0 \<le> h"
    and "sys_wait w h (Timeout_ms UNEXPECTED_TIMEOUT_MS) k = ((rc, event), k')" and "rc \<noteq> NO_ERROR"
  shows "ledger (snd (run_state (PortStartFail w app) s)) = ledger s1 @ [Opened h]"
  using assms by (simp add: PortStartFail_def Let_def)

end
