(* ===== verification/Secure_Fb.thy ===== *)
theory Secure_Fb
  imports Prelude
begin

text \<open>
  The mock of the secure framebuffer (\<open>secure_fb_mock_impl/main.cpp\<close>): one framebuffer, allocated,
  mapped and exported as a memory reference by \<open>Init\<close>, and given back by the destructor. The display
  unit, \<open>mmap\<close>, \<open>memref_create\<close> and the \<open>round_up\<close> macro are not part of the repository: their
  answers are an environment. \<open>size_t\<close> is a word of any width.
\<close>

section \<open>State\<close>

definition kDeviceWidth :: u32 where
  "kDeviceWidth = 400"

definition kDeviceHeight :: u32 where
  "kDeviceHeight = 800"

definition kFbId :: u32 where
  "kFbId = 0xdeadbeef"

datatype secure_fb_error =
    SECURE_FB_ERROR_OK
  | SECURE_FB_ERROR_UNINITIALIZED
  | SECURE_FB_ERROR_MEMORY_ALLOCATION
  | SECURE_FB_ERROR_SHARED_MEMORY
  | SECURE_FB_ERROR_INVALID_REQUEST

text \<open>
  A null pointer, an empty buffer descriptor, the zero pixel format and the invalid handle are \<open>None\<close>.
  The member \<open>offset\<close> of an entry is never read.
\<close>

datatype pixel_format =
    TTUI_PF_RGBA8

record fb_info =
  buffer :: "nat option"
  fb_size :: u32
  pixel_stride :: u32
  line_stride :: u32
  fb_width :: u32
  fb_height :: u32
  fb_format :: "pixel_format option"

record fb_entry =
  fb_info :: fb_info
  buf_info :: "nat option"
  fb_handle :: "handle_t option"

text \<open>\<open>new SecureFbMockImpl()\<close>: the members are zeroed, the handle is the invalid one.\<close>

definition fresh_entry :: fb_entry where
  "fresh_entry = \<lparr>fb_info = \<lparr>buffer = None, fb_size = 0, pixel_stride = 0, line_stride = 0, fb_width = 0,
     fb_height = 0, fb_format = None\<rparr>, buf_info = None, fb_handle = None\<rparr>"

text \<open>
  The calls that reach the system, with the arguments that matter: the sizes are those of the
  \<open>size_t\<close> argument of the call, the protection is the pair of \<open>PROT_READ\<close> and \<open>PROT_WRITE\<close>.
\<close>

datatype prot =
    PROT (PROT_READ: bool) (PROT_WRITE: bool)

abbreviation prot_rw :: prot where
  "prot_rw \<equiv> PROT True True"

datatype fb_op =
    Display_started
  | Buffer_allocated nat nat
  | Buffer_mapped nat nat prot
  | Memref_created handle_t nat nat prot
  | Handle_closed handle_t
  | Buffer_unmapped "nat option" nat
  | Buffer_released "nat option"
  | Display_stopped

record (overloaded) ('w::len) fb_env =
  round_up :: "'w word \<Rightarrow> 'w word \<Rightarrow> 'w word"
  PAGE_SIZE_aux :: "'w word"
  start_display :: int
  allocate_buffer :: "'w word \<Rightarrow> int + nat"
  fb_mmap :: "'w word \<Rightarrow> prot \<Rightarrow> nat \<Rightarrow> nat option"
  memref_create :: "nat \<Rightarrow> 'w word \<Rightarrow> prot \<Rightarrow> int"

section \<open>Operations\<close>

definition Init ::
    "'w::len fb_env \<Rightarrow> u32 \<Rightarrow> u32 \<Rightarrow> fb_entry \<Rightarrow> secure_fb_error \<times> fb_entry \<times> fb_op list" where
  "Init env width height db =
     (if start_display env < 0 then (SECURE_FB_ERROR_UNINITIALIZED, db, [])
      else
        let sz = ucast (round_up env (4 * ucast width * ucast height) (PAGE_SIZE_aux env)) :: u32;
            n = ucast sz :: 'w word in
        case allocate_buffer env n of
          Inl rc \<Rightarrow> (SECURE_FB_ERROR_MEMORY_ALLOCATION, db, [Display_started])
        | Inr b \<Rightarrow>
            (case fb_mmap env n prot_rw b of
               None \<Rightarrow> (SECURE_FB_ERROR_SHARED_MEMORY, db, [Display_started, Buffer_allocated b (unat n)])
             | Some base \<Rightarrow>
                 let handle = memref_create env base n prot_rw in
                 if handle < 0 then
                   (SECURE_FB_ERROR_SHARED_MEMORY, db,
                    [Display_started, Buffer_allocated b (unat n), Buffer_mapped base (unat n) prot_rw])
                 else
                   (SECURE_FB_ERROR_OK,
                    \<lparr>fb_info = \<lparr>buffer = Some base, fb_size = sz, pixel_stride = 4, line_stride = 4 * width,
                       fb_width = width, fb_height = height, fb_format = Some TTUI_PF_RGBA8\<rparr>, buf_info = Some b, fb_handle = Some handle\<rparr>,
                    [Display_started, Buffer_allocated b (unat n), Buffer_mapped base (unat n) prot_rw,
                     Memref_created handle base (unat n) prot_rw])))"

text \<open>The destructor; its three calls that can fail only log.\<close>

definition destroy :: "fb_entry \<Rightarrow> fb_op list" where
  "destroy db =
     (case fb_handle db of None \<Rightarrow> [] | Some h \<Rightarrow> [Handle_closed h]) @
     [Buffer_unmapped (buffer (fb_info db)) (unat (fb_size (fb_info db))), Buffer_released (buf_info db), Display_stopped]"

record fb_export =
  buffer_id :: u32
  handle_index :: nat
  export_info :: fb_info
  export_handles :: "handle_t option list"

definition GetFbs :: "fb_entry \<Rightarrow> secure_fb_error \<times> fb_export" where
  "GetFbs db = (SECURE_FB_ERROR_OK,
     \<lparr>buffer_id = kFbId, handle_index = 0, export_info = fb_info db, export_handles = [fb_handle db]\<rparr>)"

definition Display :: "u32 \<Rightarrow> secure_fb_error" where
  "Display buf_id = (if buf_id \<noteq> kFbId then SECURE_FB_ERROR_INVALID_REQUEST else SECURE_FB_ERROR_OK)"

definition secure_fb_impl_init :: "'w::len fb_env \<Rightarrow> fb_entry option \<times> fb_op list" where
  "secure_fb_impl_init env =
     (case Init env kDeviceWidth kDeviceHeight fresh_entry of (rc, db, ops) \<Rightarrow>
        if rc \<noteq> SECURE_FB_ERROR_OK then (None, ops @ destroy db) else (Some db, ops))"

definition secure_fb_impl_get_fbs :: "fb_entry \<Rightarrow> secure_fb_error \<times> fb_export" where
  "secure_fb_impl_get_fbs sfb = GetFbs sfb"

definition secure_fb_impl_display_fb :: "fb_entry \<Rightarrow> u32 \<Rightarrow> secure_fb_error" where
  "secure_fb_impl_display_fb sfb buf_id = Display buf_id"

definition secure_fb_impl_release :: "fb_entry \<Rightarrow> secure_fb_error \<times> fb_op list" where
  "secure_fb_impl_release sfb = (SECURE_FB_ERROR_OK, destroy sfb)"

text \<open>\<open>main\<close>: the return code, from those of the libraries it calls.\<close>

definition secure_fb_main :: "int option \<Rightarrow> int \<Rightarrow> int \<Rightarrow> int \<Rightarrow> int" where
  "secure_fb_main hset_err dpu_rc fb_rc loop_rc =
     (case hset_err of
        Some e \<Rightarrow> e
      | None \<Rightarrow> if dpu_rc \<noteq> NO_ERROR then dpu_rc else if fb_rc \<noteq> NO_ERROR then fb_rc else loop_rc)"

section \<open>The life of the framebuffer\<close>

text \<open>
  The contract of \<open>round_up\<close>: for a page size that is not zero and a sum that fits \<open>size_t\<close>, the least
  multiple of the page size that is at least the value.
\<close>

definition fb_env_ok :: "'w::len fb_env \<Rightarrow> bool" where
  "fb_env_ok env \<longleftrightarrow> PAGE_SIZE_aux env \<noteq> 0 \<and> unat (PAGE_SIZE_aux env) \<le> 2 ^ 16 \<and>
     (\<forall>v. unat v + unat (PAGE_SIZE_aux env) < 2 ^ LENGTH('w) \<longrightarrow>
        unat v \<le> unat (round_up env v (PAGE_SIZE_aux env)) \<and>
        unat (round_up env v (PAGE_SIZE_aux env)) < unat v + unat (PAGE_SIZE_aux env) \<and>
        unat (PAGE_SIZE_aux env) dvd unat (round_up env v (PAGE_SIZE_aux env)))"

lemma pixel_bytes:
  assumes "32 \<le> LENGTH('w::len)"
  shows "unat (4 * ucast kDeviceWidth * ucast kDeviceHeight :: 'w word) = 1280000"
proof -
  have p: "(1280000 :: nat) < 2 ^ LENGTH('w)"
    using power_increasing [OF assms, of "2 :: nat"] by simp
  have "ucast kDeviceWidth = (400 :: 'w word)" "ucast kDeviceHeight = (800 :: 'w word)"
    using assms by (simp_all add: kDeviceWidth_def kDeviceHeight_def)
  then have "4 * ucast kDeviceWidth * ucast kDeviceHeight = (of_nat 1280000 :: 'w word)" by simp
  then show ?thesis using p by (simp add: unat_of_nat take_bit_nat_eq_self del: of_nat_numeral)
qed

lemma device_size:
  fixes env :: "'w::len fb_env"
  assumes "32 \<le> LENGTH('w)" and "fb_env_ok env"
  defines "v \<equiv> round_up env (4 * ucast kDeviceWidth * ucast kDeviceHeight) (PAGE_SIZE_aux env)"
  shows "unat (ucast v :: u32) = unat v" "1280000 \<le> unat v" "unat (PAGE_SIZE_aux env) dvd unat v"
proof -
  have "1280000 + unat (PAGE_SIZE_aux env) < 2 ^ LENGTH('w)"
    using power_increasing [OF assms(1), of "2 :: nat"] assms(2) by (simp add: fb_env_ok_def)
  then have r: "1280000 \<le> unat v" "unat v < 1280000 + unat (PAGE_SIZE_aux env)"
    "unat (PAGE_SIZE_aux env) dvd unat v"
    using assms(2) pixel_bytes [OF assms(1)] unfolding v_def fb_env_ok_def by metis+
  then have "unat v < 2 ^ 32" using assms(2) by (simp add: fb_env_ok_def)
  then show "unat (ucast v :: u32) = unat v" by (simp add: unsigned_ucast_eq take_bit_nat_eq_self)
  show "1280000 \<le> unat v" "unat (PAGE_SIZE_aux env) dvd unat v" using r by simp_all
qed

text \<open>C35: A framebuffer that was set up is whole and is given back whole. The setup asks for \<open>n\<close> bytes,
  the least multiple of the page size with room for every pixel of the display; when the display unit,
  \<open>mmap\<close> and \<open>memref_create\<close> grant that size, the buffer, its mapping and the exported reference all
  have it (the 32-bit size did not wrap), readable and writable, the exported description has the
  same size and strides that fit its width, only its own id is displayed, and releasing it closes the
  handle, removes the whole mapping, releases the buffer and stops the display, each exactly once and
  in the reverse order of the setup.\<close>

theorem secure_fb_lifecycle:
  fixes env :: "'w::len fb_env"
  assumes "32 \<le> LENGTH('w)" and "fb_env_ok env" and "0 \<le> start_display env"
    and "n = round_up env (4 * 400 * 800) (PAGE_SIZE_aux env)"
    and "allocate_buffer env n = Inr b" and "fb_mmap env n prot_rw b = Some base"
    and "memref_create env base n prot_rw = h" and "0 \<le> h"
  shows "\<exists>sfb info. secure_fb_impl_init env =
      (Some sfb, [Display_started, Buffer_allocated b (unat n), Buffer_mapped base (unat n) prot_rw,
         Memref_created h base (unat n) prot_rw]) \<and>
    secure_fb_impl_get_fbs sfb = (SECURE_FB_ERROR_OK,
      \<lparr>buffer_id = kFbId, handle_index = 0, export_info = info, export_handles = [Some h]\<rparr>) \<and>
    buffer info = Some base \<and> unat (fb_size info) = unat n \<and>
    unat (line_stride info) = unat (pixel_stride info) * unat (fb_width info) \<and>
    unat (line_stride info) * unat (fb_height info) \<le> unat n \<and>
    unat (PAGE_SIZE_aux env) dvd unat n \<and>
    (\<forall>i. secure_fb_impl_display_fb sfb i = SECURE_FB_ERROR_OK \<longleftrightarrow> i = kFbId) \<and>
    secure_fb_impl_release sfb = (SECURE_FB_ERROR_OK,
      [Handle_closed h, Buffer_unmapped (Some base) (unat n), Buffer_released (Some b), Display_stopped])"
proof -
  let ?info = "\<lparr>buffer = Some base, fb_size = ucast n, pixel_stride = 4, line_stride = 4 * kDeviceWidth,
    fb_width = kDeviceWidth, fb_height = kDeviceHeight, fb_format = Some TTUI_PF_RGBA8\<rparr>"
  let ?sfb = "\<lparr>fb_info = ?info, buf_info = Some b, fb_handle = Some h\<rparr>"
  have n: "round_up env (4 * ucast kDeviceWidth * ucast kDeviceHeight) (PAGE_SIZE_aux env) = n"
    using assms(1,4) by (simp add: kDeviceWidth_def kDeviceHeight_def)
  note size = device_size [OF assms(1,2), unfolded n]
  have "unat (ucast (ucast n :: u32) :: 'w word) = unat n"
    using size(1) by (simp only: unsigned_ucast_eq) (simp add: unsigned_take_bit_eq)
  then have "ucast (ucast n :: u32) = n" by (simp only: word_unat_eq_iff)
  then have "secure_fb_impl_init env = (Some ?sfb, [Display_started, Buffer_allocated b (unat n),
      Buffer_mapped base (unat n) prot_rw, Memref_created h base (unat n) prot_rw])"
    using assms(3,5-8) n by (simp add: secure_fb_impl_init_def Init_def Let_def)
  moreover have "unat (line_stride ?info) * unat (fb_height ?info) = 1280000"
    by (simp add: kDeviceWidth_def kDeviceHeight_def)
  ultimately show ?thesis
    using size
    by (intro exI [of _ ?sfb] exI [of _ ?info])
      (simp add: secure_fb_impl_get_fbs_def GetFbs_def secure_fb_impl_display_fb_def Display_def
        secure_fb_impl_release_def destroy_def kDeviceWidth_def)
qed

text \<open>
  An environment of a 64-bit device with pages of 4096 bytes: the display unit has one buffer of two
  megabytes, \<open>mmap\<close> and \<open>memref_create\<close> refuse what is empty or does not fit it.
\<close>

definition fb_example :: "64 fb_env" where
  "fb_example = \<lparr>round_up = (\<lambda>v a. of_nat ((4095 + unat v) div 4096 * 4096)), PAGE_SIZE_aux = 4096, start_display = 0,
     allocate_buffer = (\<lambda>n. if 0 < n \<and> n \<le> 0x200000 then Inr 3 else Inl (-5)),
     fb_mmap = (\<lambda>n p b. if b = 3 \<and> 0 < n \<and> n \<le> 0x200000 then Some 7 else None),
     memref_create = (\<lambda>p n q. if p = 7 \<and> 0 < n \<and> n \<le> 0x200000 then 5 else -8)\<rparr>"

lemma round_up_page:
  fixes v :: nat
  shows "v \<le> (4095 + v) div 4096 * 4096" "(4095 + v) div 4096 * 4096 < v + 4096"
proof -
  have "(4095 + v) div 4096 * 4096 + (4095 + v) mod 4096 = 4095 + v" by (rule div_mult_mod_eq)
  moreover have "(4095 + v) mod 4096 < 4096" by simp
  ultimately show "v \<le> (4095 + v) div 4096 * 4096" "(4095 + v) div 4096 * 4096 < v + 4096" by linarith+
qed

lemma round_up_unat:
  fixes v :: "64 word"
  assumes "unat v + 4096 < 2 ^ 64"
  shows "unat (of_nat ((4095 + unat v) div 4096 * 4096) :: 64 word) = (4095 + unat v) div 4096 * 4096"
proof -
  have "(4095 + unat v) div 4096 * 4096 < 2 ^ 64" using assms round_up_page(2) [of "unat v"] by linarith
  then show ?thesis by (simp only: unat_of_nat) (simp add: take_bit_nat_eq_self)
qed

lemma fb_example_ok: "fb_env_ok fb_example"
proof -
  have r: "round_up fb_example v 4096 = of_nat ((4095 + unat v) div 4096 * 4096)" for v
    by (simp add: fb_example_def)
  have p: "PAGE_SIZE_aux fb_example = 4096" by (simp add: fb_example_def)
  show ?thesis
    unfolding fb_env_ok_def p r using round_up_unat round_up_page
    by (simp del: of_nat_mult)
qed

theorem secure_fb_lifecycle_witness:
  "\<exists>sfb (info :: fb_info). secure_fb_impl_init fb_example =
      (Some sfb, [Display_started, Buffer_allocated 3 1282048, Buffer_mapped 7 1282048 prot_rw,
         Memref_created 5 7 1282048 prot_rw]) \<and>
    unat (line_stride info) * unat (fb_height info) \<le> 1282048 \<and>
    secure_fb_impl_release sfb = (SECURE_FB_ERROR_OK,
      [Handle_closed 5, Buffer_unmapped (Some 7) 1282048, Buffer_released (Some 3), Display_stopped])"
proof -
  have e: "0 \<le> start_display fb_example" "1282048 = round_up fb_example (4 * 400 * 800) (PAGE_SIZE_aux fb_example)"
    "allocate_buffer fb_example 1282048 = Inr 3" "fb_mmap fb_example 1282048 prot_rw 3 = Some 7"
    "memref_create fb_example 7 1282048 prot_rw = 5" by (simp_all add: fb_example_def)
  have "32 \<le> LENGTH(64)" "0 \<le> (5 :: int)" by simp_all
  from secure_fb_lifecycle [OF this(1) fb_example_ok e this(2)] show ?thesis by auto
qed

text \<open>A framebuffer that could not be set up is not given back whole: \<open>Init\<close> records the buffer only at
  its end, so when the mapping or the memory reference fails the destructor releases an empty
  descriptor and unmaps nothing, and the buffer (with its mapping) stays allocated; when the display
  could not be started it is stopped all the same.\<close>

theorem secure_fb_failed_init:
  assumes "0 \<le> start_display env" and "\<forall>n. allocate_buffer env n = Inr b"
    and "\<forall>n. fb_mmap env n prot_rw b = None \<or> (\<exists>base. fb_mmap env n prot_rw b = Some base \<and> memref_create env base n prot_rw < 0)"
  shows "\<exists>ops n. secure_fb_impl_init env = (None, ops) \<and> Buffer_allocated b n \<in> set ops \<and>
    Buffer_released (Some b) \<notin> set ops \<and> (\<forall>base n. Buffer_unmapped (Some base) n \<notin> set ops) \<and>
    (start_display env' < 0 \<longrightarrow>
      secure_fb_impl_init env' = (None, [Buffer_unmapped None 0, Buffer_released None, Display_stopped]))"
proof -
  let ?n = "ucast (ucast (round_up env (4 * ucast kDeviceWidth * ucast kDeviceHeight) (PAGE_SIZE_aux env)) :: u32)"
  show ?thesis
    using assms(1,2) assms(3) [rule_format, of ?n]
    by (auto simp: secure_fb_impl_init_def Init_def destroy_def fresh_entry_def Let_def)
qed

theorem secure_fb_failed_init_witness:
  "\<exists>ops n. secure_fb_impl_init (fb_example\<lparr>allocate_buffer := \<lambda>n. Inr 3, fb_mmap := \<lambda>n p b. None\<rparr>) = (None, ops) \<and>
    Buffer_allocated 3 n \<in> set ops \<and> Buffer_released (Some 3) \<notin> set ops"
  using secure_fb_failed_init [of "fb_example\<lparr>allocate_buffer := \<lambda>n. Inr 3, fb_mmap := \<lambda>n p b. None\<rparr>" 3 "fb_example :: 64 fb_env"]
  by (auto simp: fb_example_def)

end
