(* ===== verification/Small_Apps.thy ===== *)
theory Small_Apps
  imports Trusty_Env
begin

text \<open>
  The smallest programs of the repository: the timer tests (\<open>timer/timer_app.c\<close>), the stress loop of the
  application manager client (\<open>app-mgmt-test/client/main.c\<close>), the string library and test of
  \<open>prebuilts-test\<close>, the mapping tests of \<open>manifest-test/manifest_test.c\<close>, and the entry points of \<open>hwbcc/main.c\<close> and
  \<open>spi/swspi-srv/swspi-srv.c\<close>.
\<close>

section \<open>Timer tests\<close>

text \<open>
  The clock: \<open>trusty_gettime\<close> gives a time in nanoseconds, or fails and stores nothing; sleeping and a
  turn of the busy loop change the state. Times stay far from the end of \<open>int64_t\<close>.
\<close>

record 'k clock =
  gettime :: "'k \<Rightarrow> int option \<times> 'k"
  clock_sleep :: "int \<Rightarrow> 'k \<Rightarrow> 'k"
  clock_nop :: "'k \<Rightarrow> 'k"

definition TIMER_TEST_NOP_LOOP_COUNT :: nat where
  "TIMER_TEST_NOP_LOOP_COUNT = 100000000"

definition TIMER_TEST_MS_SLEEP_LOOP_COUNT :: nat where
  "TIMER_TEST_MS_SLEEP_LOOP_COUNT = 1000"

definition ONE_MS :: int where
  "ONE_MS = 1000 * 1000"

definition ONE_S :: int where
  "ONE_S = 1000 * ONE_MS"

definition stored :: "int \<Rightarrow> int option \<Rightarrow> int" where
  "stored t r = (case r of None \<Rightarrow> t | Some t' \<Rightarrow> t')"

definition check_timestamps :: "'k clock \<Rightarrow> int \<Rightarrow> int \<Rightarrow> int \<Rightarrow> 'k \<Rightarrow> bool \<times> 'k" where
  "check_timestamps ck t1 delta_min delta_max k =
     (case gettime ck k of (r, k1) \<Rightarrow>
        let t2 = stored (t1 - 1) r; delta = t2 - t1
        in (\<not> (delta < delta_min \<or> delta > delta_max), k1))"

text \<open>The common shape of the tests: read the clock, let time pass, check.\<close>

definition timed :: "'k clock \<Rightarrow> ('k \<Rightarrow> 'k) \<Rightarrow> int \<Rightarrow> int \<Rightarrow> 'k \<Rightarrow> bool \<times> 'k" where
  "timed ck pass delta_min delta_max k =
     (case gettime ck k of (r, k1) \<Rightarrow> check_timestamps ck (stored 0 r) delta_min delta_max (pass k1))"

definition BusyLoop :: "'k clock \<Rightarrow> 'k \<Rightarrow> bool \<times> 'k" where
  "BusyLoop ck = timed ck (clock_nop ck ^^ TIMER_TEST_NOP_LOOP_COUNT)
     (int TIMER_TEST_NOP_LOOP_COUNT div 100) (int TIMER_TEST_NOP_LOOP_COUNT * 10000)"

definition NanoSleepOneMilliSecond :: "'k clock \<Rightarrow> 'k \<Rightarrow> bool \<times> 'k" where
  "NanoSleepOneMilliSecond ck = timed ck (clock_sleep ck ONE_MS ^^ TIMER_TEST_MS_SLEEP_LOOP_COUNT)
     (int TIMER_TEST_MS_SLEEP_LOOP_COUNT * ONE_MS) (int TIMER_TEST_MS_SLEEP_LOOP_COUNT * ONE_MS * 10)"

definition NanoSleepTenSeconds :: "'k clock \<Rightarrow> 'k \<Rightarrow> bool \<times> 'k" where
  "NanoSleepTenSeconds ck = timed ck (clock_sleep ck (10 * ONE_S)) (ONE_S * 10) (ONE_S * 11)"

text \<open>\<open>run\<close> is \<open>RUN_ALL_TESTS\<close>; a loop that goes on forever is \<open>None\<close>.\<close>

partial_function (option) timer_test :: "('k \<Rightarrow> bool \<times> 'k) \<Rightarrow> bool \<Rightarrow> 'k \<Rightarrow> (bool \<times> 'k) option" where
  "timer_test run loop k =
     (case run k of (passed, k1) \<Rightarrow> if loop then timer_test run loop k1 else Some (passed, k1))"

partial_function (option) run_appmngr_stress_tests :: "('k \<Rightarrow> bool \<times> 'k) \<Rightarrow> 'k \<Rightarrow> (bool \<times> 'k) option" where
  "run_appmngr_stress_tests run k =
     (case run k of (passed, k1) \<Rightarrow> if passed then run_appmngr_stress_tests run k1 else Some (False, k1))"

text \<open>The entry points: a table of ports, each with the function that runs the tests, for \<open>unittest_main\<close>.\<close>

record 'k unittest =
  ut_port :: string
  run_test :: "'k \<Rightarrow> (bool \<times> 'k) option"

definition timer_unittests :: "('k \<Rightarrow> bool \<times> 'k) \<Rightarrow> 'k unittest list" where
  "timer_unittests run =
     [\<lparr>ut_port = ''com.android.timer-unittest'', run_test = timer_test run False\<rparr>,
      \<lparr>ut_port = ''com.android.timer-unittest.loop'', run_test = timer_test run True\<rparr>]"

definition timer_main :: "('k unittest list \<Rightarrow> 'k \<Rightarrow> int) \<Rightarrow> ('k \<Rightarrow> bool \<times> 'k) \<Rightarrow> 'k \<Rightarrow> int" where
  "timer_main unittest_main run k = unittest_main (timer_unittests run) k"

definition run_appmngr_tests :: "('k \<Rightarrow> bool \<times> 'k) \<Rightarrow> 'k \<Rightarrow> (bool \<times> 'k) option" where
  "run_appmngr_tests run k = Some (run k)"

definition appmgmt_unittests :: "('k \<Rightarrow> bool \<times> 'k) \<Rightarrow> 'k unittest list" where
  "appmgmt_unittests run =
     [\<lparr>ut_port = ''com.android.appmgmt-unittest.appmngr'', run_test = run_appmngr_tests run\<rparr>,
      \<lparr>ut_port = ''com.android.appmgmt-unittest.appmngr.stress'', run_test = run_appmngr_stress_tests run\<rparr>]"

definition appmgmt_main :: "('k unittest list \<Rightarrow> 'k \<Rightarrow> int) \<Rightarrow> ('k \<Rightarrow> bool \<times> 'k) \<Rightarrow> 'k \<Rightarrow> int" where
  "appmgmt_main unittest_main run k = unittest_main (appmgmt_unittests run) k"

text \<open>
  The contract of the clock: it does not run backwards, a sleep takes the time asked for and at most a
  millisecond more, and so does reading it at most.
\<close>

definition clock_ok :: "('k \<Rightarrow> int) \<Rightarrow> 'k clock \<Rightarrow> bool" where
  "clock_ok now ck \<longleftrightarrow>
     (\<forall>k. \<exists>t k1. gettime ck k = (Some t, k1) \<and> now k \<le> t \<and> t \<le> now k1 \<and> now k1 \<le> now k + ONE_MS) \<and>
     (\<forall>k n. 0 \<le> n \<longrightarrow> now k + n \<le> now (clock_sleep ck n k) \<and> now (clock_sleep ck n k) \<le> now k + n + ONE_MS)"

lemma sleeps_time:
  assumes "clock_ok now ck" and "0 \<le> n"
  shows "now k + int m * n \<le> now ((clock_sleep ck n ^^ m) k) \<and>
    now ((clock_sleep ck n ^^ m) k) \<le> now k + int m * (n + ONE_MS)"
proof (induction m)
  case (Suc m)
  have "now k' + n \<le> now (clock_sleep ck n k') \<and> now (clock_sleep ck n k') \<le> now k' + n + ONE_MS" for k'
    using assms by (simp add: clock_ok_def)
  from this [of "(clock_sleep ck n ^^ m) k"] Suc show ?case by (simp add: algebra_simps)
qed simp

lemma timed_passes:
  assumes "clock_ok now ck" and "\<And>k. now k + delta_min \<le> now (pass k) \<and> now (pass k) + 2 * ONE_MS \<le> now k + delta_max"
  shows "fst (timed ck pass delta_min delta_max k)"
proof -
  obtain t k1 where g: "gettime ck k = (Some t, k1)" "now k \<le> t" "t \<le> now k1" "now k1 \<le> now k + ONE_MS"
    using assms(1) unfolding clock_ok_def by blast
  obtain t' k2 where g': "gettime ck (pass k1) = (Some t', k2)" "now (pass k1) \<le> t'" "t' \<le> now k2"
    "now k2 \<le> now (pass k1) + ONE_MS"
    using assms(1) unfolding clock_ok_def by blast
  from g g' assms(2) [of k1] show ?thesis
    by (simp add: timed_def check_timestamps_def stored_def)
qed

text \<open>The sleep tests pass on every clock that keeps the contract.\<close>

theorem timer_sleep_tests_pass:
  assumes "clock_ok now ck"
  shows "fst (NanoSleepOneMilliSecond ck k) \<and> fst (NanoSleepTenSeconds ck k)"
proof
  show "fst (NanoSleepOneMilliSecond ck k)"
    unfolding NanoSleepOneMilliSecond_def
  proof (rule timed_passes [OF assms])
    fix k'
    show "now k' + int TIMER_TEST_MS_SLEEP_LOOP_COUNT * ONE_MS \<le> now ((clock_sleep ck ONE_MS ^^ TIMER_TEST_MS_SLEEP_LOOP_COUNT) k') \<and>
      now ((clock_sleep ck ONE_MS ^^ TIMER_TEST_MS_SLEEP_LOOP_COUNT) k') + 2 * ONE_MS
        \<le> now k' + int TIMER_TEST_MS_SLEEP_LOOP_COUNT * ONE_MS * 10"
      using sleeps_time [OF assms, of ONE_MS k' TIMER_TEST_MS_SLEEP_LOOP_COUNT]
      by (simp add: ONE_MS_def TIMER_TEST_MS_SLEEP_LOOP_COUNT_def)
  qed
  show "fst (NanoSleepTenSeconds ck k)"
    unfolding NanoSleepTenSeconds_def
  proof (rule timed_passes [OF assms])
    fix k'
    show "now k' + ONE_S * 10 \<le> now (clock_sleep ck (10 * ONE_S) k') \<and>
      now (clock_sleep ck (10 * ONE_S) k') + 2 * ONE_MS \<le> now k' + ONE_S * 11"
      using sleeps_time [OF assms, of "10 * ONE_S" k' 1] by (simp add: ONE_S_def ONE_MS_def)
  qed
qed

text \<open>The loop variant of the timer tests never returns; the stress loop returns only after a failing round.\<close>

lemma timer_test_returns: "timer_test run loop k = (if loop then None else Some (run k))"
proof -
  have "\<not> loop" if "timer_test run loop k = Some y" for y
    by (rule timer_test.raw_induct [where P = "\<lambda>run loop k y. \<not> loop", OF _ that]) (fastforce split: prod.splits if_splits)
  then have "loop \<Longrightarrow> timer_test run loop k = None" by (cases "timer_test run loop k") auto
  moreover have "timer_test run False k = Some (run k)" by (simp add: timer_test.simps [of run False] split: prod.splits)
  ultimately show ?thesis by (cases loop) auto
qed

fun rounds :: "('k \<Rightarrow> bool \<times> 'k) \<Rightarrow> nat \<Rightarrow> 'k \<Rightarrow> 'k" where
  "rounds run 0 k = k"
| "rounds run (Suc n) k = rounds run n (snd (run k))"

lemma stress_returns:
  assumes "\<not> fst (run (rounds run n k))"
  shows "\<exists>k'. run_appmngr_stress_tests run k = Some (False, k')"
  using assms
proof (induction n arbitrary: k)
  case 0
  then show ?case by (subst run_appmngr_stress_tests.simps) (auto split: prod.split)
next
  case (Suc n)
  then obtain k' where "run_appmngr_stress_tests run (snd (run k)) = Some (False, k')" by auto
  then show ?case by (subst run_appmngr_stress_tests.simps) (auto split: prod.split)
qed

lemma stress_fails:
  assumes "run_appmngr_stress_tests run k = Some r"
  shows "\<not> fst r \<and> (\<exists>n. \<not> fst (run (rounds run n k)))"
proof (rule run_appmngr_stress_tests.raw_induct [where P = "\<lambda>run k r. \<not> fst r \<and> (\<exists>n. \<not> fst (run (rounds run n k)))", OF _ assms])
  fix loop :: "('a \<Rightarrow> bool \<times> 'a) \<Rightarrow> 'a \<Rightarrow> (bool \<times> 'a) option" and run :: "'a \<Rightarrow> bool \<times> 'a" and k r
  assume IH: "\<And>run k r. loop run k = Some r \<Longrightarrow> \<not> fst r \<and> (\<exists>n. \<not> fst (run (rounds run n k)))"
    and eq: "(case run k of (passed, k1) \<Rightarrow> if passed then loop run k1 else Some (False, k1)) = Some r"
  show "\<not> fst r \<and> (\<exists>n. \<not> fst (run (rounds run n k)))"
  proof (cases "fst (run k)")
    case True
    then have "loop run (snd (run k)) = Some r" using eq by (simp split: prod.splits)
    from IH [OF this] obtain n where "\<not> fst r" "\<not> fst (run (rounds run (Suc n) k))" by auto
    then show ?thesis by blast
  next
    case False
    then obtain k1 where k1: "run k = (False, k1)" by (cases "run k") auto
    have "fst r = False" using eq unfolding k1 by auto
    moreover have "\<not> fst (run (rounds run 0 k))" using False by simp
    ultimately show ?thesis by blast
  qed
qed

section \<open>The string library and its test\<close>

definition foo :: "byte list" where
  "foo = bytes_of ''foo''"

text \<open>\<open>strncpy\<close> with the length of the string copies its bytes and no terminating zero.\<close>

definition get_foo :: "int \<Rightarrow> byte list \<Rightarrow> nat \<Rightarrow> (int \<times> byte list) res" where
  "get_foo ERR_BAD_LEN buf len =
     (let foo_len = length foo in
      if len < foo_len then Inr (ERR_BAD_LEN, buf)
      else bindr (memcpy_to buf 0 foo) (\<lambda>buf1. Inr (NO_ERROR, buf1)))"

fun c_strcmp :: "byte list \<Rightarrow> byte list \<Rightarrow> int res" where
  "c_strcmp (a # as) (b # bs) =
     (if a = b then if a = 0 then Inr 0 else c_strcmp as bs else Inr (int (unat a) - int (unat b)))"
| "c_strcmp _ _ = Inl Out_of_bounds"

text \<open>\<open>str\<close> is the local array, with whatever it holds at the start; the result is whether the test passes.\<close>

definition prebuilts_basic :: "int \<Rightarrow> byte list \<Rightarrow> bool res" where
  "prebuilts_basic ERR_BAD_LEN str =
     bindr (get_foo ERR_BAD_LEN str (length str)) (\<lambda>(rc, str1).
       if \<not> rc \<ge> 0 then Inr False
       else bindr (c_strcmp str1 (foo @ [0])) (\<lambda>rc. Inr (rc \<ge> 0)))"

lemma foo_bytes: "foo = [102, 111, 111]"
  by (simp add: foo_def bytes_of_def)

text \<open>
  The test passes whatever follows the copied bytes, since it accepts every result that is not
  negative; the strings are equal only if the array happened to hold a zero there.
\<close>

theorem prebuilts_basic_passes:
  assumes "length str = 16"
  shows "prebuilts_basic err str = Inr True \<and>
    (\<exists>buf. get_foo err str 16 = Inr (NO_ERROR, buf) \<and> (c_strcmp buf (foo @ [0]) = Inr 0 \<longleftrightarrow> str ! 3 = 0))"
proof -
  have "get_foo err str 16 = Inr (0, foo @ drop 3 str)"
    using assms by (simp add: get_foo_def memcpy_to_def foo_bytes NO_ERROR_def numeral_3_eq_3)
  moreover obtain b rest where "drop 3 str = b # rest" "b = str ! 3"
    using assms by (metis Cons_nth_drop_Suc numeral_less_iff semiring_norm(76,79,81))
  ultimately show ?thesis using assms
    by (auto simp: prebuilts_basic_def foo_bytes NO_ERROR_def unsigned_eq_0_iff)
qed

section \<open>Mapping tests\<close>

text \<open>
  The answers of \<open>mmap\<close> (nothing for \<open>MAP_FAILED\<close>) and of \<open>prepare_dma\<close>, with the address and size it
  stored. A test gives whether it passes and what it unmaps.
\<close>

record mmap_env =
  mm_mmap :: "u32 \<Rightarrow> nat \<Rightarrow> nat option"
  mm_prepare_dma :: "nat \<Rightarrow> u32 \<Rightarrow> int \<times> u64 \<times> u32"

definition TEST1_PHY_BASE_ADDR :: u64 where "TEST1_PHY_BASE_ADDR = 0x70000000"
definition TEST2_PHY_BASE_ADDR :: u64 where "TEST2_PHY_BASE_ADDR = 0x70010000"
definition TEST3_PHY_BASE_ADDR :: u64 where "TEST3_PHY_BASE_ADDR = 0x70020000"
definition TEST1_REG_SIZE :: u32 where "TEST1_REG_SIZE = 0x1000"
definition TEST2_REG_SIZE :: u32 where "TEST2_REG_SIZE = 0x100"
definition TEST3_REG_SIZE :: u32 where "TEST3_REG_SIZE = 0x4"

definition compare_memory_map :: "mmap_env \<Rightarrow> nat option \<Rightarrow> u64 \<Rightarrow> u32 \<Rightarrow> bool" where
  "compare_memory_map env va_base phy_addr len =
     (case va_base of
        None \<Rightarrow> False
      | Some va \<Rightarrow>
          (case mm_prepare_dma env va len of (ret, paddr, psize) \<Rightarrow>
             ret = 1 \<and> 0 \<noteq> phy_addr \<and> phy_addr = paddr \<and> len = psize))"

definition unmap :: "nat option \<Rightarrow> u32 \<Rightarrow> (nat \<times> u32) list" where
  "unmap va_base len = (case va_base of None \<Rightarrow> [] | Some va \<Rightarrow> [(va, len)])"

text \<open>The shape of the four tests of a mapping that exists, and of the two of one that must not.\<close>

definition mem_map_test :: "mmap_env \<Rightarrow> nat \<Rightarrow> u64 \<Rightarrow> u32 \<Rightarrow> bool \<times> (nat \<times> u32) list" where
  "mem_map_test env map_id phy_addr len =
     (let va_base = mm_mmap env len map_id
      in (compare_memory_map env va_base phy_addr len, unmap va_base len))"

definition no_map_test :: "mmap_env \<Rightarrow> nat \<Rightarrow> u32 \<Rightarrow> bool \<times> (nat \<times> u32) list" where
  "no_map_test env map_id len = (let va_base = mm_mmap env len map_id in (va_base = None, unmap va_base len))"

definition mem_map_test_1 :: "mmap_env \<Rightarrow> bool \<times> (nat \<times> u32) list" where
  "mem_map_test_1 env = mem_map_test env 1 TEST1_PHY_BASE_ADDR TEST1_REG_SIZE"

definition mem_map_test_2 :: "mmap_env \<Rightarrow> bool \<times> (nat \<times> u32) list" where
  "mem_map_test_2 env = mem_map_test env 2 TEST2_PHY_BASE_ADDR TEST2_REG_SIZE"

definition mem_map_test_3 :: "mmap_env \<Rightarrow> bool \<times> (nat \<times> u32) list" where
  "mem_map_test_3 env = mem_map_test env 3 TEST3_PHY_BASE_ADDR TEST3_REG_SIZE"

definition mem_map_test_small_size :: "mmap_env \<Rightarrow> bool \<times> (nat \<times> u32) list" where
  "mem_map_test_small_size env = mem_map_test env 1 TEST1_PHY_BASE_ADDR 0x400"

definition mem_map_test_large_size :: "mmap_env \<Rightarrow> bool \<times> (nat \<times> u32) list" where
  "mem_map_test_large_size env = no_map_test env 2 0x2000"

definition mem_map_test_unknown_id :: "mmap_env \<Rightarrow> bool \<times> (nat \<times> u32) list" where
  "mem_map_test_unknown_id env = no_map_test env 100 TEST1_REG_SIZE"

text \<open>
  With the mappings of the manifest (id, base and size of the region), a kernel that maps only whole
  regions or parts of them and reports their addresses passes all six tests.
\<close>

definition manifest_maps :: "nat \<rightharpoonup> u64 \<times> u32" where
  "manifest_maps = [1 \<mapsto> (TEST1_PHY_BASE_ADDR, TEST1_REG_SIZE), 2 \<mapsto> (TEST2_PHY_BASE_ADDR, TEST2_REG_SIZE),
     3 \<mapsto> (TEST3_PHY_BASE_ADDR, TEST3_REG_SIZE)]"

definition maps_manifest :: "mmap_env \<Rightarrow> bool" where
  "maps_manifest env \<longleftrightarrow>
     (\<forall>i n. case manifest_maps i of
        None \<Rightarrow> mm_mmap env n i = None
      | Some (base, sz) \<Rightarrow>
          (if n \<le> sz then \<exists>va. mm_mmap env n i = Some va \<and> mm_prepare_dma env va n = (1, base, n)
           else mm_mmap env n i = None))"

theorem manifest_tests_pass:
  assumes "maps_manifest env"
  shows "fst (mem_map_test_1 env) \<and> fst (mem_map_test_2 env) \<and> fst (mem_map_test_3 env) \<and>
    fst (mem_map_test_small_size env) \<and> fst (mem_map_test_large_size env) \<and> fst (mem_map_test_unknown_id env)"
proof -
  have m: "case manifest_maps i of None \<Rightarrow> mm_mmap env n i = None
      | Some (base, sz) \<Rightarrow> (if n \<le> sz then \<exists>va. mm_mmap env n i = Some va \<and> mm_prepare_dma env va n = (1, base, n)
           else mm_mmap env n i = None)" for i n
    using assms unfolding maps_manifest_def by blast
  show ?thesis
    using m [of TEST1_REG_SIZE 1] m [of TEST2_REG_SIZE 2] m [of TEST3_REG_SIZE 3] m [of "0x400" 1]
      m [of "0x2000" 2] m [of TEST1_REG_SIZE 100]
    by (auto simp: mem_map_test_1_def mem_map_test_2_def mem_map_test_3_def mem_map_test_small_size_def
        mem_map_test_large_size_def mem_map_test_unknown_id_def mem_map_test_def no_map_test_def compare_memory_map_def
        manifest_maps_def TEST1_PHY_BASE_ADDR_def TEST2_PHY_BASE_ADDR_def TEST3_PHY_BASE_ADDR_def
        TEST1_REG_SIZE_def TEST2_REG_SIZE_def TEST3_REG_SIZE_def Let_def)
qed

section \<open>Entry points\<close>

text \<open>
  \<open>main\<close> of the BCC service: what it hands to \<open>swbcc_glob_init\<close>, unless the handle set could not be
  created, and its return code. The sizes are those of the DICE headers.
\<close>

record bcc_init =
  FRS :: "byte list"
  code_hash :: "byte list"
  authority_hash :: "byte list"
  bcc_inputs :: u32
  component_name :: string
  component_version :: nat

record bcc_consts =
  DICE_HIDDEN_SIZE :: nat
  DICE_HASH_SIZE :: nat
  BCC_INPUT_COMPONENT_NAME :: u32
  BCC_INPUT_COMPONENT_VERSION :: u32

definition hwbcc_main :: "bcc_consts \<Rightarrow> int option \<Rightarrow> int \<Rightarrow> int \<Rightarrow> int \<times> bcc_init option" where
  "hwbcc_main d hset_err service_rc loop_rc =
     (case hset_err of
        Some e \<Rightarrow> (e, None)
      | None \<Rightarrow>
          let init = \<lparr>FRS = replicate (DICE_HIDDEN_SIZE d) 0, code_hash = replicate (DICE_HASH_SIZE d) 0,
            authority_hash = replicate (DICE_HASH_SIZE d) 0,
            bcc_inputs = BCC_INPUT_COMPONENT_NAME d OR BCC_INPUT_COMPONENT_VERSION d,
            component_name = ''ABL'', component_version = 1\<rparr>
          in (if service_rc \<noteq> NO_ERROR then service_rc else loop_rc, Some init))"

text \<open>\<open>main\<close> of the SPI server: its return code.\<close>

definition swspi_main :: "int option \<Rightarrow> int \<Rightarrow> int \<Rightarrow> int" where
  "swspi_main hset_err service_rc loop_rc =
     (case hset_err of Some e \<Rightarrow> e | None \<Rightarrow> if service_rc \<noteq> NO_ERROR then service_rc else loop_rc)"

end
