(* ===== verification/Hwrng_Test.thy ===== *)
theory Hwrng_Test
  imports Hwrng_Dev
begin

text \<open>
  The random number tests of \<open>hwcrypto-unittest/main.c\<close>: the histogram and the uniformity test. The
  client library \<open>trusty_rng_hw_rand\<close> is a parameter of the same shape as a device; the service
  gives a client the next bytes of the device, so the fake device itself is the instance of interest.
\<close>

section \<open>The tests\<close>

text \<open>\<open>_hist\<close>: 256 counters indexed by a byte, which wrap.\<close>

type_synonym hist = "byte \<Rightarrow> u32"

fun hwrng_update_hist :: "byte list \<Rightarrow> hist \<Rightarrow> hist" where
  "hwrng_update_hist [] h = h"
| "hwrng_update_hist (b # data) h = hwrng_update_hist data (h(b := h b + 1))"

text \<open>The sampling loop: whether every request succeeded, the histogram and the source afterwards.\<close>

fun stats_samples :: "'r rng_dev \<Rightarrow> nat \<Rightarrow> 'r \<Rightarrow> hist \<Rightarrow> bool \<times> hist \<times> 'r" where
  "stats_samples rand 0 r h = (True, h, r)"
| "stats_samples rand (Suc n) r h =
     (case rand r 256 of (rc, buf, r1) \<Rightarrow>
        if rc \<noteq> NO_ERROR then
          (case stats_samples rand n r1 h of (ok, h1, r2) \<Rightarrow> (False, h1, r2))
        else stats_samples rand n r1 (hwrng_update_hist buf h))"

definition hist_values :: "hist \<Rightarrow> u32 list" where
  "hist_values h = map (\<lambda>i. h (of_nat i)) [0..<256]"

text \<open>The result is whether every expectation of the test holds.\<close>

definition stats_test :: "'r rng_dev \<Rightarrow> 'r \<Rightarrow> bool" where
  "stats_test rand r =
     (case stats_samples rand 1000 r (\<lambda>b. 0) of (ok, h, r1) \<Rightarrow>
        let exp_cnt = 1000 * 256 :: u32;
            cnt = sum_list (hist_values h);
            ave = cnt div 256;
            dev = sum_list (map (\<lambda>v. if v > ave then v - ave else ave - v) (hist_values h)) div 256
        in ok \<and> exp_cnt = cnt \<and> 1000 = ave \<and> 50 > dev)"

text \<open>The variable length test: \<open>lens\<close> are the values of \<open>rand() % 1024\<close>.\<close>

fun var_rng_req_test :: "'r rng_dev \<Rightarrow> nat list \<Rightarrow> 'r \<Rightarrow> bool" where
  "var_rng_req_test rand [] r = True"
| "var_rng_req_test rand (n # lens) r =
     (case rand r (n + 1) of (rc, buf, r1) \<Rightarrow> rc = NO_ERROR \<and> var_rng_req_test rand lens r1)"

text \<open>The first test asks for 32 bytes; what it prints of them is left out.\<close>

definition show_data_test :: "'r rng_dev \<Rightarrow> 'r \<Rightarrow> bool" where
  "show_data_test rand r = (fst (rand r 32) = NO_ERROR)"

section \<open>Uniform sources\<close>

lemma update_hist_count: "hwrng_update_hist data h b = h b + of_nat (count_list data b)"
  by (induction data arbitrary: h) (auto simp: algebra_simps)

text \<open>A source that gives every byte value once in each block of 256.\<close>

definition uniform :: "'r rng_dev \<Rightarrow> bool" where
  "uniform rand \<longleftrightarrow> (\<forall>r. \<exists>buf r'. rand r 256 = (NO_ERROR, buf, r') \<and> (\<forall>b. count_list buf b = 1))"

lemma uniform_samples:
  assumes "uniform rand"
  shows "\<exists>r'. stats_samples rand n r h = (True, (\<lambda>b. h b + of_nat n), r')"
proof (induction n arbitrary: r h)
  case (Suc n)
  obtain buf r1 where "rand r 256 = (NO_ERROR, buf, r1)" "\<forall>b. count_list buf b = 1"
    using assms unfolding uniform_def by blast
  moreover from this have "hwrng_update_hist buf h = (\<lambda>b. h b + 1)"
    by (simp add: fun_eq_iff update_hist_count)
  ultimately show ?case using Suc [of r1 "\<lambda>b. h b + 1"] by (auto simp: algebra_simps)
qed simp

lemma uniform_stats:
  assumes "uniform rand"
  shows "stats_test rand r"
proof -
  obtain r' where "stats_samples rand 1000 r (\<lambda>b. 0) = (True, (\<lambda>b. 1000), r')"
    using uniform_samples [OF assms, of 1000 r "\<lambda>b. 0"] by auto
  moreover have "hist_values (\<lambda>b. 1000) = replicate 256 1000"
    by (simp add: hist_values_def map_replicate_const)
  ultimately show ?thesis by (simp add: stats_test_def sum_list_replicate)
qed

lemma distinct_count_list: "distinct xs \<Longrightarrow> x \<in> set xs \<Longrightarrow> count_list xs x = 1"
  by (induction xs) (auto simp: count_list_0_iff)

lemma counter_block:
  fixes a :: byte
  shows "count_list (map (\<lambda>i. a + of_nat i) [0..<256]) b = 1"
proof -
  let ?f = "\<lambda>i. a + of_nat i" and ?xs = "map (\<lambda>i. a + of_nat i) [0..<256]"
  have "inj_on ?f {..<256}"
  proof (rule inj_onI)
    fix i j assume ij: "i \<in> {..<256}" "j \<in> {..<256}" "a + of_nat i = a + of_nat j"
    then have "(of_nat i :: byte) = of_nat j" by simp
    then have "take_bit 8 i = take_bit 8 j" by (simp add: word_of_nat_eq_iff)
    with ij show "i = j" by (simp add: take_bit_nat_eq_self)
  qed
  then have d: "distinct ?xs" by (simp add: distinct_map atLeast0LessThan)
  moreover have "card (set ?xs) = CARD(byte)"
    using distinct_card [OF d] by (simp add: card_word)
  then have "set ?xs = UNIV" by (intro card_subset_eq) simp_all
  ultimately show ?thesis by (metis UNIV_I distinct_count_list)
qed

text \<open>The counter passes the uniformity test: on a \<open>size_t\<close> of at least eight bits, from every value of
  its counter, the fake device gives 1000 blocks of 256 bytes in which every byte value occurs 1000
  times, so every expectation of the statistics test of the unit tests holds, and so does every
  request of any length.\<close>

theorem hwrng_stats_pass:
  fixes c :: "'w::len word"
  assumes "8 \<le> LENGTH('w)"
  shows "stats_test hwrng_dev_get_rng_data c \<and> var_rng_req_test hwrng_dev_get_rng_data lens c"
proof
  have "uniform (hwrng_dev_get_rng_data :: 'w word rng_dev)"
    unfolding uniform_def
  proof
    fix r :: "'w word"
    let ?d = "hwrng_dev_get_rng_data r 256"
    have "fst (snd ?d) = map (\<lambda>i. ucast r + of_nat i) [0..<256]" by (rule fake_bytes [OF assms])
    then have "\<forall>b. count_list (fst (snd ?d)) b = 1" using counter_block by simp
    moreover have "?d = (NO_ERROR, fst (snd ?d), snd (snd ?d))" by (simp add: fake_get_eq)
    ultimately show "\<exists>buf r'. ?d = (NO_ERROR, buf, r') \<and> (\<forall>b. count_list buf b = 1)" by blast
  qed
  then show "stats_test hwrng_dev_get_rng_data c" by (rule uniform_stats)
  show "var_rng_req_test hwrng_dev_get_rng_data lens c"
    by (induction lens arbitrary: c) (auto simp: fake_get_eq)
qed

theorem hwrng_stats_pass_witness:
  "stats_test hwrng_dev_get_rng_data (initial_counter :: 64 word) \<and>
   var_rng_req_test hwrng_dev_get_rng_data [31, 1023] (initial_counter :: 64 word)"
  by (rule hwrng_stats_pass) simp

end
