(* ===== verification/Hwrng_Test_Srv.thy ===== *)
theory Hwrng_Test_Srv
  imports Hwrng_Test Hwrng_Props
begin

text \<open>
  The random number tests of \<open>hwcrypto-unittest/main.c\<close> as a client of the random number service (\<open>hwcrypto/hwrng_srv.c\<close>). The client library is a
  parameter with the contract \<open>relays_rng\<close>: it passes a request on and gives the client the message that answers it.
\<close>

section \<open>The client library on the service\<close>

text \<open>
  The service with a client at address \<open>a\<close> and no request pending, and what the client library \<open>trusty_rng_hw_rand\<close> has to do with it: when the
  service answers the request with one message, the client gets its bytes.
\<close>

definition rng_idle :: "nat \<Rightarrow> handle_t \<Rightarrow> (64 word, 64 word) hwrng_state \<Rightarrow> bool" where
  "rng_idle a h s \<longleftrightarrow> rng_inv s \<and> hwrng_req_list s = [] \<and> (\<exists>n. hr_ctxs s a = Some \<lparr>hr_chan = h, req_size = n, send_blocked = False\<rparr>)"

definition relays_rng :: "nat \<Rightarrow> handle_t \<Rightarrow> ((64 word, 64 word) hwrng_state) rng_dev \<Rightarrow> bool" where
  "relays_rng a h rand \<longleftrightarrow>
     (\<forall>s n. \<exists>env. hr_recv env = Inr (of_nat n) \<and> 0 \<le> hr_send env h \<and> \<not> hr_chan_errors_abort env \<and>
       (\<forall>s' bytes. hwrng_chan_handler counter_dev env \<lparr>ev_handle = h, ev_event = {IPC_HANDLE_POLL_MSG}\<rparr> a s = Inr s' \<longrightarrow>
         hr_outs s' = hr_outs s @ [Rng_sent h bytes] \<longrightarrow> rand s n = (NO_ERROR, bytes, s')))"

text \<open>A request that fits one message gets the next bytes of the device.\<close>

lemma request_served:
  assumes "rng_idle a h s" and "relays_rng a h rand" and "0 < n" and "n \<le> 4096"
  shows "\<exists>s'. rand s n = (NO_ERROR, fake_stream (hr_rng s) n, s') \<and> rng_idle a h s' \<and> hr_rng s' = hr_rng s + of_nat n"
proof -
  let ?ev = "\<lparr>ev_handle = h, ev_event = {IPC_HANDLE_POLL_MSG}\<rparr>"
  let ?ctx = "\<lparr>hr_chan = h, req_size = of_nat n, send_blocked = False\<rparr> :: 64 word hwrng_chan_ctx"
  obtain env where env: "hr_recv env = Inr (of_nat n)" "0 \<le> hr_send env h" "\<not> hr_chan_errors_abort env"
    "\<forall>s' bytes. hwrng_chan_handler counter_dev env ?ev a s = Inr s' \<longrightarrow>
       hr_outs s' = hr_outs s @ [Rng_sent h bytes] \<longrightarrow> rand s n = (NO_ERROR, bytes, s')"
    using assms(2) unfolding relays_rng_def by blast
  obtain m where ctx: "hr_ctxs s a = Some \<lparr>hr_chan = h, req_size = m, send_blocked = False\<rparr>"
    and inv: "rng_inv s" and q: "hwrng_req_list s = []"
    using assms(1) by (auto simp: rng_idle_def)
  have sz: "unat (of_nat n :: 64 word) = n" using assms(4) by (simp add: unat_of_nat take_bit_nat_eq_self)
  have c: "unat (chunk (of_nat n :: 64 word)) = n" using chunk_eq [of "of_nat n :: 64 word"] sz assms(4) by simp
  let ?s1 = "s\<lparr>hr_ctxs := (hr_ctxs s)(a \<mapsto> ?ctx), hwrng_req_list := [a]\<rparr>"
  have inv1: "rng_inv ?s1" using inv q sz assms(3) by (auto simp: rng_inv_def)
  obtain buf where buf: "length buf = 4096"
    "hwrng_kick_req_queue counter_dev env ?s1 = Inr (pay_state a ?ctx (fake_stream (hr_rng s) n)
      (?s1\<lparr>rng_data := buf, hr_rng := hr_rng s + of_nat n\<rparr>))"
    using kick_single [OF inv1, of a ?ctx env] env(2) c by auto
  have "chunk (of_nat n) = (of_nat n :: 64 word)" using c sz by (simp only: word_unat_eq_iff)
  then have p: "paid ?ctx = ?ctx\<lparr>req_size := 0\<rparr>" by (simp add: paid_def)
  let ?s2 = "pay_state a ?ctx (fake_stream (hr_rng s) n) (?s1\<lparr>rng_data := buf, hr_rng := hr_rng s + of_nat n\<rparr>)"
  have "hwrng_chan_handler counter_dev env ?ev a s = Inr ?s2"
    using ctx q env(1,3) buf(2) by (simp add: hwrng_chan_handler_def hwrng_chan_handle_msg_def)
  moreover have "hr_outs ?s2 = hr_outs s @ [Rng_sent h (fake_stream (hr_rng s) n)]" using p by (simp add: pay_state_def)
  moreover have "rng_idle a h ?s2" "hr_rng ?s2 = hr_rng s + of_nat n"
    using inv1 buf(1) p by (auto simp: rng_idle_def rng_inv_def pay_state_def)
  ultimately show ?thesis using env(4) by blast
qed

section \<open>The tests on the service\<close>

lemma fake_get_stream: "hwrng_dev_get_rng_data c n = (NO_ERROR, fake_stream c n, c + of_nat n)"
  by (simp add: fake_stream_def fake_get_eq)

text \<open>The sampling loop sees the device through the service.\<close>

lemma samples_served:
  assumes "relays_rng a h rand" and "rng_idle a h s"
  shows "\<exists>s'. stats_samples rand k s hist =
      (fst (stats_samples counter_dev k (hr_rng s) hist), fst (snd (stats_samples counter_dev k (hr_rng s) hist)), s')"
  using assms(2)
proof (induction k arbitrary: s hist)
  case (Suc k)
  obtain s1 where s1: "rand s 256 = (NO_ERROR, fake_stream (hr_rng s) 256, s1)" "rng_idle a h s1" "hr_rng s1 = hr_rng s + of_nat 256"
    using request_served [OF Suc.prems assms(1), of 256] by auto
  from Suc.IH [OF s1(2), of "hwrng_update_hist (fake_stream (hr_rng s) 256) hist"] s1(1,3)
  show ?case by (simp add: fake_get_stream)
qed simp

lemma stats_served:
  assumes "relays_rng a h rand" and "rng_idle a h s"
  shows "stats_test rand s = stats_test counter_dev (hr_rng s)"
  using samples_served [OF assms, of 1000 "\<lambda>b. 0"] by (auto simp: stats_test_def split: prod.splits)

lemma var_req_served:
  assumes "relays_rng a h rand" and "rng_idle a h s" and "\<forall>n \<in> set lens. n < 1024"
  shows "var_rng_req_test rand lens s"
  using assms(2,3)
proof (induction lens arbitrary: s)
  case (Cons n lens)
  obtain s1 where "rand s (n + 1) = (NO_ERROR, fake_stream (hr_rng s) (n + 1), s1)" "rng_idle a h s1"
    using request_served [OF Cons.prems(1) assms(1), of "n + 1"] Cons.prems(2) by auto
  with Cons.IH Cons.prems(2) show ?case by simp
qed simp

text \<open>C39: The random number tests pass on the service: through a client library that passes the requests on and gives the
  client the message that answers it, every test of random numbers succeeds for a connected client, from any value of the
  counter of the device: each request is answered by one message with the next bytes of the device, so that the
  distribution the statistics test sees is that of the device.\<close>

theorem hwrng_tests_served:
  assumes "relays_rng a h rand" and "rng_idle a h s" and "\<forall>n \<in> set lens. n < 1024"
  shows "show_data_test rand s \<and> var_rng_req_test rand lens s \<and> stats_test rand s"
  using request_served [OF assms(2,1), of 32] var_req_served [OF assms] stats_served [OF assms(1,2)]
    hwrng_stats_pass [of "hr_rng s"]
  by (auto simp: show_data_test_def)

text \<open>A library that only passes on, and a client of the service.\<close>

definition service_rand :: "nat \<Rightarrow> handle_t \<Rightarrow> ((64 word, 64 word) hwrng_state) rng_dev" where
  "service_rand a h s n =
     (case hwrng_chan_handler counter_dev (good_env (of_nat n)) \<lparr>ev_handle = h, ev_event = {IPC_HANDLE_POLL_MSG}\<rparr> a s of
        Inl f \<Rightarrow> (-1, [], s)
      | Inr s' \<Rightarrow>
          (case drop (length (hr_outs s)) (hr_outs s') of
             [Rng_sent h' bytes] \<Rightarrow> (NO_ERROR, bytes, s')
           | _ \<Rightarrow> (-1, [], s')))"

lemma service_relays: "relays_rng a h (service_rand a h)"
proof -
  have "\<exists>env. hr_recv env = Inr (of_nat n) \<and> 0 \<le> hr_send env h \<and> \<not> hr_chan_errors_abort env \<and>
     (\<forall>s' bytes. hwrng_chan_handler counter_dev env \<lparr>ev_handle = h, ev_event = {IPC_HANDLE_POLL_MSG}\<rparr> a s = Inr s' \<longrightarrow>
       hr_outs s' = hr_outs s @ [Rng_sent h bytes] \<longrightarrow> service_rand a h s n = (NO_ERROR, bytes, s'))" for s n
    by (rule exI [of _ "good_env (of_nat n)"]) (simp add: service_rand_def, simp add: good_env_def)
  then show ?thesis by (simp add: relays_rng_def)
qed

theorem hwrng_tests_served_witness:
  "show_data_test (service_rand 8 3) one_client \<and> var_rng_req_test (service_rand 8 3) [0, 31, 1023] one_client \<and>
   stats_test (service_rand 8 3) one_client"
proof -
  have "rng_idle 8 3 one_client"
    by (simp add: rng_idle_def rng_inv_def one_client_def hwrng_initial_def)
  from hwrng_tests_served [OF service_relays this, of "[0, 31, 1023]"] show ?thesis by simp
qed

end
