(* ===== verification/Hwkey_Test.thy ===== *)
theory Hwkey_Test
  imports Hwkey_Token "HOL-Library.State_Monad"
begin

text \<open>
  The key tests of \<open>hwcrypto-unittest/main.c\<close>, as programs over the hwkey client library, which is not part
  of the repository. The locales \<open>key_sessions\<close>, \<open>key_store\<close>, \<open>key_requests\<close>, \<open>key_derivation\<close> and \<open>key_refusals\<close> state what the
  tests need of the library and the service together; in them every test is shown to pass, or to fail exactly
  when the derivation is at fault. In \<open>Hwkey_Test_Srv\<close> all but the last, which is about the library and the kernel alone, are derived
  from the hwkey service of the repository behind any library that carries the messages.
\<close>

section \<open>The tests\<close>

text \<open>
  The client library on a state \<open>'k\<close> of everything behind it: a request names a session, a slot or a
  handle, and the size of the buffer; the result is a return code and the bytes written. \<open>lib_uninit n\<close> is
  what an array of \<open>n\<close> bytes holds that a test does not initialise.
\<close>

record 'k hwkey_lib =
  lib_open :: "'k \<Rightarrow> int \<times> 'k"
  lib_close :: "int \<Rightarrow> 'k \<Rightarrow> 'k"
  lib_get_keyslot_data :: "int \<Rightarrow> byte list \<Rightarrow> nat \<Rightarrow> 'k \<Rightarrow> (int \<times> byte list) \<times> 'k"
  lib_derive :: "int \<Rightarrow> u32 \<Rightarrow> byte list \<Rightarrow> 'k \<Rightarrow> (int \<times> u32 \<times> byte list) \<times> 'k"
  lib_ERR_NOT_FOUND :: int
  lib_ERR_BAD_HANDLE :: int
  lib_ERR_NOT_VALID :: int
  lib_KDF_VERSION_BEST :: u32
  lib_ERR_ALREADY_EXISTS :: int
  lib_HANDLE_MAX_SIZE :: nat
  lib_INVALID_HANDLE :: int
  lib_uninit :: "nat \<Rightarrow> byte list"

record 'k hk_run =
  hk_world :: 'k
  hwkey_session :: int
  hk_failed :: bool

type_synonym ('k, 'a) hk_test = "('k hk_run, 'a) state"

definition hk_expect :: "bool \<Rightarrow> ('k, unit) hk_test" where
  "hk_expect c = State_Monad.update (\<lambda>s. s\<lparr>hk_failed := hk_failed s \<or> \<not> c\<rparr>)"

definition hk_session :: "('k, int) hk_test" where
  "hk_session = do { s \<leftarrow> State_Monad.get; State_Monad.return (hwkey_session s) }"

definition hk_set_session :: "int \<Rightarrow> ('k, unit) hk_test" where
  "hk_set_session h = State_Monad.update (\<lambda>s. s\<lparr>hwkey_session := h\<rparr>)"

definition hk_open :: "'k hwkey_lib \<Rightarrow> ('k, int) hk_test" where
  "hk_open lib = State (\<lambda>s. case lib_open lib (hk_world s) of (h, k) \<Rightarrow> (h, s\<lparr>hk_world := k\<rparr>))"

definition hk_close :: "'k hwkey_lib \<Rightarrow> int \<Rightarrow> ('k, unit) hk_test" where
  "hk_close lib h = State_Monad.update (\<lambda>s. s\<lparr>hk_world := lib_close lib h (hk_world s)\<rparr>)"

text \<open>\<open>hwkey_get_keyslot_data\<close>: the return code, the buffer afterwards and \<open>actual_size\<close>.\<close>

definition hk_get :: "'k hwkey_lib \<Rightarrow> int \<Rightarrow> byte list \<Rightarrow> byte list \<Rightarrow> ('k, int \<times> byte list \<times> nat) hk_test" where
  "hk_get lib h slot_id buf = State (\<lambda>s.
     case lib_get_keyslot_data lib h slot_id (length buf) (hk_world s) of ((rc, d), k) \<Rightarrow>
       ((rc, d @ drop (length d) buf, length d), s\<lparr>hk_world := k\<rparr>))"

text \<open>\<open>hwkey_derive\<close>: the return code, \<open>kdf_version\<close> and the destination afterwards.\<close>

definition hk_derive :: "'k hwkey_lib \<Rightarrow> int \<Rightarrow> u32 \<Rightarrow> byte list \<Rightarrow> byte list \<Rightarrow> ('k, int \<times> u32 \<times> byte list) hk_test" where
  "hk_derive lib h v src dest = State (\<lambda>s.
     case lib_derive lib h v src (hk_world s) of ((rc, v', d), k) \<Rightarrow>
       ((rc, v', d @ drop (length d) dest), s\<lparr>hk_world := k\<rparr>))"

definition UNITTEST_KEYSLOT :: "byte list" where
  "UNITTEST_KEYSLOT = bytes_of ''unittestkeyslotunittestkeyslotun''"

definition OPAQUE_HANDLE_ID :: "byte list" where
  "OPAQUE_HANDLE_ID = bytes_of ''com.android.trusty.hwcrypto.unittest.opaque_handle''"

definition OPAQUE_HANDLE2_ID :: "byte list" where
  "OPAQUE_HANDLE2_ID = bytes_of ''com.android.trusty.hwcrypto.unittest.opaque_handle2''"

definition OPAQUE_HANDLE_NOACCESS_ID :: "byte list" where
  "OPAQUE_HANDLE_NOACCESS_ID = bytes_of ''com.android.trusty.hwcrypto.unittest.opaque_handle_noaccess''"

text \<open>
  The blocks the tests repeat: ask for a handle into a fresh buffer; ask for the key behind a handle,
  which must be the key of the unit tests or must not be found.
\<close>

definition get_handle_into :: "'k hwkey_lib \<Rightarrow> int \<Rightarrow> byte list \<Rightarrow> byte list \<Rightarrow> ('k, byte list) hk_test" where
  "get_handle_into lib h slot_id buf = do {
     (rc, handle, actual_size) \<leftarrow> hk_get lib h slot_id buf;
     _ \<leftarrow> hk_expect (rc = NO_ERROR);
     _ \<leftarrow> hk_expect (actual_size \<le> lib_HANDLE_MAX_SIZE lib);
     State_Monad.return handle }"

definition get_handle :: "'k hwkey_lib \<Rightarrow> int \<Rightarrow> byte list \<Rightarrow> ('k, byte list) hk_test" where
  "get_handle lib h slot_id = get_handle_into lib h slot_id (replicate (lib_HANDLE_MAX_SIZE lib) 0)"

definition expect_key :: "'k hwkey_lib \<Rightarrow> int \<Rightarrow> byte list \<Rightarrow> ('k, unit) hk_test" where
  "expect_key lib h handle = do {
     (rc, key_buf, actual_size) \<leftarrow> hk_get lib h (cstr handle) (replicate (length UNITTEST_KEYSLOT + 1) 0);
     _ \<leftarrow> hk_expect (rc = NO_ERROR);
     _ \<leftarrow> hk_expect (actual_size = length UNITTEST_KEYSLOT);
     hk_expect (take (length UNITTEST_KEYSLOT) key_buf = UNITTEST_KEYSLOT) }"

definition expect_not_found :: "'k hwkey_lib \<Rightarrow> int \<Rightarrow> byte list \<Rightarrow> ('k, unit) hk_test" where
  "expect_not_found lib h handle = do {
     (rc, key_buf, actual_size) \<leftarrow> hk_get lib h (cstr handle) (replicate (length UNITTEST_KEYSLOT + 1) 0);
     hk_expect (rc = lib_ERR_NOT_FOUND lib) }"

text \<open>The tests of opaque handles; \<open>unit\<close> is the build's \<open>WITH_HWCRYPTO_UNITTEST\<close>.\<close>

definition get_opaque_handle :: "bool \<Rightarrow> 'k hwkey_lib \<Rightarrow> ('k, unit) hk_test" where
  "get_opaque_handle unit lib = do {
     h \<leftarrow> hk_session;
     if unit then do {
       dest \<leftarrow> get_handle lib h OPAQUE_HANDLE_ID;
       hk_expect (strnlen dest (lib_HANDLE_MAX_SIZE lib) < lib_HANDLE_MAX_SIZE lib) }
     else do {
       (rc, _, _) \<leftarrow> hk_get lib h OPAQUE_HANDLE_ID (replicate (lib_HANDLE_MAX_SIZE lib) 0);
       hk_expect (rc = lib_ERR_NOT_FOUND lib) } }"

definition get_opaque_key_test :: "'k hwkey_lib \<Rightarrow> ('k, unit) hk_test" where
  "get_opaque_key_test lib = do {
     h \<leftarrow> hk_session;
     handle \<leftarrow> get_handle lib h OPAQUE_HANDLE_ID;
     _ \<leftarrow> hk_expect (strnlen handle (lib_HANDLE_MAX_SIZE lib) < lib_HANDLE_MAX_SIZE lib);
     (rc, key_buf, actual_size) \<leftarrow> hk_get lib h (cstr handle) (replicate (length UNITTEST_KEYSLOT) 0);
     _ \<leftarrow> hk_expect (rc = NO_ERROR);
     hk_expect (key_buf = UNITTEST_KEYSLOT) }"

text \<open>Close the session of the fixture and open a new one, or stop.\<close>

definition reconnect :: "'k hwkey_lib \<Rightarrow> (int \<Rightarrow> ('k, unit) hk_test) \<Rightarrow> ('k, unit) hk_test" where
  "reconnect lib rest = do {
     h \<leftarrow> hk_session;
     _ \<leftarrow> hk_close lib h;
     new_sess \<leftarrow> hk_open lib;
     if new_sess < 0 then hk_expect False
     else do { _ \<leftarrow> hk_set_session new_sess; rest new_sess } }"

definition both_gone :: "'k hwkey_lib \<Rightarrow> byte list \<Rightarrow> byte list \<Rightarrow> int \<Rightarrow> ('k, unit) hk_test" where
  "both_gone lib handle1 handle2 h = do {
     _ \<leftarrow> expect_not_found lib h handle1;
     expect_not_found lib h handle2 }"

definition get_multiple_opaque_handles :: "'k hwkey_lib \<Rightarrow> ('k, unit) hk_test" where
  "get_multiple_opaque_handles lib = do {
     h \<leftarrow> hk_session;
     handle1 \<leftarrow> get_handle lib h OPAQUE_HANDLE_ID;
     handle2 \<leftarrow> get_handle lib h OPAQUE_HANDLE_NOACCESS_ID;
     _ \<leftarrow> hk_expect (handle1 \<noteq> handle2);
     _ \<leftarrow> expect_key lib h handle1;
     _ \<leftarrow> expect_not_found lib h handle2;
     reconnect lib (both_gone lib handle1 handle2) }"

definition opaque_handle_multiple_sessions :: "'k hwkey_lib \<Rightarrow> ('k, unit) hk_test" where
  "opaque_handle_multiple_sessions lib = do {
     h \<leftarrow> hk_session;
     handle1 \<leftarrow> get_handle lib h OPAQUE_HANDLE_ID;
     new_sess \<leftarrow> hk_open lib;
     if new_sess < 0 then hk_expect False
     else do {
       (rc, handle2, _) \<leftarrow> hk_get lib new_sess OPAQUE_HANDLE_ID (replicate (lib_HANDLE_MAX_SIZE lib) 0);
       _ \<leftarrow> hk_expect (rc = lib_ERR_ALREADY_EXISTS lib);
       handle2 \<leftarrow> get_handle_into lib new_sess OPAQUE_HANDLE2_ID handle2;
       _ \<leftarrow> expect_key lib h handle1;
       _ \<leftarrow> expect_key lib h handle2;
       _ \<leftarrow> expect_key lib new_sess handle1;
       _ \<leftarrow> expect_key lib new_sess handle2;
       _ \<leftarrow> hk_close lib new_sess;
       (rc, _, _) \<leftarrow> hk_get lib h (cstr handle1) (replicate (length UNITTEST_KEYSLOT + 1) 0);
       _ \<leftarrow> hk_expect (rc = NO_ERROR);
       _ \<leftarrow> expect_not_found lib h handle2;
       reconnect lib (both_gone lib handle1 handle2) } }"

definition try_empty_opaque_handle :: "'k hwkey_lib \<Rightarrow> ('k, unit) hk_test" where
  "try_empty_opaque_handle lib = reconnect lib (\<lambda>h. do {
     (rc, _, _) \<leftarrow> hk_get lib h [] (replicate (length UNITTEST_KEYSLOT) 0);
     hk_expect (rc = lib_ERR_NOT_FOUND lib) })"

text \<open>A test of the fixture: open a session (or stop), the test, close the session.\<close>

definition hk_fixture :: "'k hwkey_lib \<Rightarrow> ('k, unit) hk_test \<Rightarrow> ('k, unit) hk_test" where
  "hk_fixture lib body = do {
     _ \<leftarrow> hk_set_session (lib_INVALID_HANDLE lib);
     rc \<leftarrow> hk_open lib;
     _ \<leftarrow> (if rc < 0 then hk_expect False else do { _ \<leftarrow> hk_set_session rc; body });
     h \<leftarrow> hk_session;
     hk_close lib h }"

section \<open>The tests of sessions, key derivation and key boxes\<close>

definition RPMB_STORAGE_AUTH_KEY_ID :: "byte list" where
  "RPMB_STORAGE_AUTH_KEY_ID = bytes_of ''com.android.trusty.storage_auth.rpmb''"

definition KEYBOX_ID :: "byte list" where
  "KEYBOX_ID = bytes_of ''com.android.trusty.hwcrypto.unittest.key32''"

definition DERIVED_KEYBOX_ID :: "byte list" where
  "DERIVED_KEYBOX_ID = bytes_of ''com.android.trusty.hwcrypto.unittest.derived_key32''"

definition OPAQUE_DERIVED_ID :: "byte list" where
  "OPAQUE_DERIVED_ID = bytes_of ''com.android.trusty.hwcrypto.unittest.opaque_derived''"

definition UNITTEST_DERIVED_KEYSLOT :: "byte list" where
  "UNITTEST_DERIVED_KEYSLOT = bytes_of ''unittestderivedkeyslotunittestde''"

definition STORAGE_AUTH_KEY_SIZE :: nat where
  "STORAGE_AUTH_KEY_SIZE = 32"

text \<open>The arrays of the tests, with the zero that ends the literal.\<close>

definition src_data :: "byte list" where
  "src_data = bytes_of ''thirtytwo-bytes-of-nonsense-data'' @ [0]"

definition src_data2 :: "byte list" where
  "src_data2 = bytes_of ''thirtytwo-byt3s-of-nons3ns3-data'' @ [0]"

definition generic_invalid_session :: "'k hwkey_lib \<Rightarrow> ('k, unit) hk_test" where
  "generic_invalid_session lib = do {
     (rc, _, _) \<leftarrow> hk_derive lib (lib_INVALID_HANDLE lib) (lib_KDF_VERSION_BEST lib) src_data
       (lib_uninit lib (length src_data));
     hk_expect (rc = lib_ERR_BAD_HANDLE lib) }"

definition generic_closed_session :: "'k hwkey_lib \<Rightarrow> ('k, unit) hk_test" where
  "generic_closed_session lib = do {
     session \<leftarrow> hk_open lib;
     _ \<leftarrow> hk_expect (session \<ge> 0);
     _ \<leftarrow> hk_close lib session;
     (rc, _, _) \<leftarrow> hk_derive lib session (lib_KDF_VERSION_BEST lib) src_data (lib_uninit lib (length src_data));
     hk_expect (rc = lib_ERR_NOT_FOUND lib) }"

text \<open>Two derivations, the second with the version the first reported, as both derivation tests begin.\<close>

definition derive_twice ::
    "'k hwkey_lib \<Rightarrow> byte list \<Rightarrow> byte list \<Rightarrow> (byte list \<Rightarrow> byte list \<Rightarrow> ('k, unit) hk_test) \<Rightarrow> ('k, unit) hk_test" where
  "derive_twice lib src1 src2 rest = do {
     h \<leftarrow> hk_session;
     (rc, kdf_version, dest) \<leftarrow> hk_derive lib h (lib_KDF_VERSION_BEST lib) (take 32 src1) (replicate 32 0);
     _ \<leftarrow> hk_expect (rc = NO_ERROR);
     _ \<leftarrow> hk_expect (kdf_version \<noteq> lib_KDF_VERSION_BEST lib);
     (rc, _, dest2) \<leftarrow> hk_derive lib h kdf_version (take 32 src2) (replicate 32 0);
     _ \<leftarrow> hk_expect (rc = NO_ERROR);
     rest dest dest2 }"

definition derive_repeatable :: "'k hwkey_lib \<Rightarrow> ('k, unit) hk_test" where
  "derive_repeatable lib = derive_twice lib src_data src_data (\<lambda>dest dest2. do {
     _ \<leftarrow> hk_expect (dest = dest2);
     hk_expect (dest \<noteq> take 32 src_data) })"

definition derive_different :: "'k hwkey_lib \<Rightarrow> ('k, unit) hk_test" where
  "derive_different lib = derive_twice lib src_data src_data2 (\<lambda>dest dest2. do {
     _ \<leftarrow> hk_expect (dest \<noteq> dest2);
     _ \<leftarrow> hk_expect (dest \<noteq> take 32 src_data);
     hk_expect (dest2 \<noteq> take 32 src_data2) })"

definition derive_zero_length :: "'k hwkey_lib \<Rightarrow> ('k, unit) hk_test" where
  "derive_zero_length lib = do {
     h \<leftarrow> hk_session;
     (rc, _, _) \<leftarrow> hk_derive lib h (lib_KDF_VERSION_BEST lib) [] [];
     hk_expect (rc = lib_ERR_NOT_VALID lib) }"

definition get_storage_auth :: "'k hwkey_lib \<Rightarrow> ('k, unit) hk_test" where
  "get_storage_auth lib = do {
     h \<leftarrow> hk_session;
     (rc, _, _) \<leftarrow> hk_get lib h RPMB_STORAGE_AUTH_KEY_ID (lib_uninit lib STORAGE_AUTH_KEY_SIZE);
     hk_expect (rc = lib_ERR_NOT_FOUND lib) }"

text \<open>The buffer of the first has the size of the slot's name.\<close>

definition get_keybox :: "bool \<Rightarrow> 'k hwkey_lib \<Rightarrow> ('k, unit) hk_test" where
  "get_keybox unit lib = do {
     h \<leftarrow> hk_session;
     (rc, dest, _) \<leftarrow> hk_get lib h KEYBOX_ID (lib_uninit lib (length KEYBOX_ID + 1));
     if unit then do {
       _ \<leftarrow> hk_expect (rc = NO_ERROR);
       hk_expect (take (length UNITTEST_KEYSLOT) dest = UNITTEST_KEYSLOT) }
     else hk_expect (rc = lib_ERR_NOT_FOUND lib) }"

definition get_derived_keybox :: "bool \<Rightarrow> 'k hwkey_lib \<Rightarrow> ('k, unit) hk_test" where
  "get_derived_keybox unit lib = do {
     h \<leftarrow> hk_session;
     (rc, dest, _) \<leftarrow> hk_get lib h DERIVED_KEYBOX_ID (lib_uninit lib (length UNITTEST_DERIVED_KEYSLOT));
     if unit then do {
       _ \<leftarrow> hk_expect (rc = NO_ERROR);
       hk_expect (dest = UNITTEST_DERIVED_KEYSLOT) }
     else hk_expect (rc = lib_ERR_NOT_FOUND lib) }"

definition get_opaque_derived_key :: "'k hwkey_lib \<Rightarrow> ('k, unit) hk_test" where
  "get_opaque_derived_key lib = do {
     h \<leftarrow> hk_session;
     (rc, handle, actual_size) \<leftarrow> hk_get lib h OPAQUE_DERIVED_ID (replicate (lib_HANDLE_MAX_SIZE lib) 0);
     _ \<leftarrow> hk_expect (rc = NO_ERROR);
     _ \<leftarrow> hk_expect (actual_size \<le> lib_HANDLE_MAX_SIZE lib);
     _ \<leftarrow> hk_expect (Suc (strnlen handle (lib_HANDLE_MAX_SIZE lib)) = actual_size);
     (rc, key_buf, actual_size) \<leftarrow> hk_get lib h (cstr handle) (lib_uninit lib (length UNITTEST_DERIVED_KEYSLOT));
     _ \<leftarrow> hk_expect (rc = NO_ERROR);
     _ \<leftarrow> hk_expect (actual_size = length UNITTEST_DERIVED_KEYSLOT);
     hk_expect (key_buf = UNITTEST_DERIVED_KEYSLOT) }"

text \<open>
  The tests but the two of key derivation: of the unit test build, those of sessions that the library or the kernel refuses,
  of the unit test build when the cipher decrypts the test vector, and what some of them are in the other build. The outcome
  of \<open>build_tests\<close> is decided by the service.
\<close>

definition opaque_tests :: "'k hwkey_lib \<Rightarrow> ('k, unit) hk_test list" where
  "opaque_tests lib = [get_opaque_handle True lib, get_opaque_key_test lib, get_multiple_opaque_handles lib,
     opaque_handle_multiple_sessions lib, try_empty_opaque_handle lib]"

definition session_tests :: "'k hwkey_lib \<Rightarrow> ('k, unit) hk_test list" where
  "session_tests lib = [generic_invalid_session lib, generic_closed_session lib, derive_zero_length lib]"

definition keybox_tests :: "'k hwkey_lib \<Rightarrow> ('k, unit) hk_test list" where
  "keybox_tests lib = [get_keybox True lib]"

definition decrypt_tests :: "'k hwkey_lib \<Rightarrow> ('k, unit) hk_test list" where
  "decrypt_tests lib = [get_derived_keybox True lib, get_opaque_derived_key lib]"

definition bare_tests :: "'k hwkey_lib \<Rightarrow> ('k, unit) hk_test list" where
  "bare_tests lib = [get_opaque_handle False lib, get_keybox False lib, get_derived_keybox False lib]"

definition build_tests :: "bool \<Rightarrow> bool \<Rightarrow> 'k hwkey_lib \<Rightarrow> ('k, unit) hk_test list" where
  "build_tests unit decrypts lib = get_storage_auth lib #
     (if unit then opaque_tests lib @ keybox_tests lib @ (if decrypts then decrypt_tests lib else [])
      else bare_tests lib)"

text \<open>The framework runs one test after the other.\<close>

fun hk_suite :: "'k hwkey_lib \<Rightarrow> ('k, unit) hk_test list \<Rightarrow> ('k, unit) hk_test" where
  "hk_suite lib [] = State_Monad.return ()"
| "hk_suite lib (t # ts) = do { _ \<leftarrow> hk_fixture lib t; hk_suite lib ts }"

section \<open>The store behind the library\<close>

text \<open>
  What the tests rely on: sessions, and for each opaque slot at most one handle with the session that
  holds it. \<open>ready n\<close> says that the store is sound and that the next \<open>n\<close> handles it issues are new.
  \<open>readable\<close> gives the key behind the slots that the client may read.
\<close>

definition without :: "int \<Rightarrow> (byte list \<rightharpoonup> int \<times> byte list) \<Rightarrow> byte list \<rightharpoonup> int \<times> byte list" where
  "without h m = (\<lambda>i. case m i of Some (h', t) \<Rightarrow> if h' = h then None else Some (h', t) | None \<Rightarrow> None)"

lemma without_simps [simp]:
  "without h Map.empty = Map.empty"
  "without h (m(i \<mapsto> (h', t))) = (if h' = h then (without h m)(i := None) else (without h m)(i \<mapsto> (h', t)))"
  by (auto simp: without_def)

lemma without_Some: "without h m i = Some (h', t) \<longleftrightarrow> m i = Some (h', t) \<and> h' \<noteq> h"
  by (auto simp: without_def split: option.splits)

text \<open>
  How a test that began in state \<open>k\<close> with session \<open>h\<close> leaves the store: the session of the fixture
  may be another one by now, no other session came or went, and all handles belong to it.
\<close>

definition clean_end ::
    "(nat \<Rightarrow> 'k \<Rightarrow> bool) \<Rightarrow> ('k \<Rightarrow> int set) \<Rightarrow> ('k \<Rightarrow> byte list \<rightharpoonup> int \<times> byte list) \<Rightarrow> 'k \<Rightarrow> int \<Rightarrow> 'k \<Rightarrow> int \<Rightarrow> bool" where
  "clean_end ready sessions held k h k' h' \<longleftrightarrow>
     (\<exists>n. ready n k') \<and> h' \<notin> sessions k - {h} \<and> sessions k' = insert h' (sessions k - {h}) \<and>
     without h' (held k') = Map.empty"

definition test_passes ::
    "(nat \<Rightarrow> 'k \<Rightarrow> bool) \<Rightarrow> ('k \<Rightarrow> int set) \<Rightarrow> ('k \<Rightarrow> byte list \<rightharpoonup> int \<times> byte list) \<Rightarrow> ('k, unit) hk_test \<Rightarrow> bool" where
  "test_passes ready sessions held body \<longleftrightarrow>
     (\<forall>k h. ready 2 k \<longrightarrow> h \<in> sessions k \<longrightarrow> held k = Map.empty \<longrightarrow>
       (\<exists>h' k'. run_state body \<lparr>hk_world = k, hwkey_session = h, hk_failed = False\<rparr> =
           ((), \<lparr>hk_world = k', hwkey_session = h', hk_failed = False\<rparr>) \<and>
         clean_end ready sessions held k h k' h'))"

text \<open>Sessions; what is held goes with the session that holds it, and with nothing held two new handles are there.\<close>

locale key_sessions =
  fixes lib :: "'k hwkey_lib" and ready :: "nat \<Rightarrow> 'k \<Rightarrow> bool" and sessions :: "'k \<Rightarrow> int set"
    and held :: "'k \<Rightarrow> byte list \<Rightarrow> (int \<times> byte list) option"
  assumes opens: "ready n k \<Longrightarrow> \<exists>h k'. lib_open lib k = (h, k') \<and> 0 \<le> h \<and> h \<notin> sessions k \<and>
      sessions k' = insert h (sessions k) \<and> held k' = held k \<and> ready n k'"
    and closes: "ready n k \<Longrightarrow> h \<in> sessions k \<Longrightarrow> ready n (lib_close lib h k) \<and>
      sessions (lib_close lib h k) = sessions k - {h} \<and>
      held (lib_close lib h k) = without h (held k)"
    and renews: "ready n k \<Longrightarrow> held k = Map.empty \<Longrightarrow> ready 2 k"

text \<open>The opaque slots \<open>names\<close> of the client, and the keys behind those it may read.\<close>

locale key_store = key_sessions lib ready sessions held
  for lib :: "'k hwkey_lib" and ready :: "nat \<Rightarrow> 'k \<Rightarrow> bool" and sessions :: "'k \<Rightarrow> int set"
    and held :: "'k \<Rightarrow> byte list \<Rightarrow> (int \<times> byte list) option" +
  fixes names :: "byte list set" and readable :: "byte list \<Rightarrow> byte list option"
  assumes handle_room: "32 \<le> lib_HANDLE_MAX_SIZE lib"
    and buffer_length: "length (lib_uninit lib n) = n"
    and issues: "ready (Suc n) k \<Longrightarrow> h \<in> sessions k \<Longrightarrow> i \<in> names \<Longrightarrow> held k i = None \<Longrightarrow> 32 \<le> room \<Longrightarrow>
      \<exists>t k'. lib_get_keyslot_data lib h i room k = ((NO_ERROR, t), k') \<and> valid_token t \<and>
        (\<forall>i' h'. held k i' \<noteq> Some (h', t)) \<and> held k' = (held k)(i \<mapsto> (h, t)) \<and> sessions k' = sessions k \<and> ready n k'"
    and taken: "ready n k \<Longrightarrow> h \<in> sessions k \<Longrightarrow> i \<in> names \<Longrightarrow> held k i = Some x \<Longrightarrow>
      \<exists>k'. lib_get_keyslot_data lib h i room k = ((lib_ERR_ALREADY_EXISTS lib, []), k') \<and>
        held k' = held k \<and> sessions k' = sessions k \<and> ready n k'"
    and fetches: "ready n k \<Longrightarrow> h \<in> sessions k \<Longrightarrow> i \<in> names \<Longrightarrow> held k i = Some (h', t) \<Longrightarrow> readable i = Some key \<Longrightarrow>
      length key \<le> room \<Longrightarrow>
      \<exists>k'. lib_get_keyslot_data lib h (cstr t) room k = ((NO_ERROR, key), k') \<and>
        held k' = held k \<and> sessions k' = sessions k \<and> ready n k'"
    and refuses: "ready n k \<Longrightarrow> h \<in> sessions k \<Longrightarrow> valid_token t \<or> t = [] \<Longrightarrow>
      \<forall>i h'. held k i = Some (h', t) \<longrightarrow> readable i = None \<Longrightarrow>
      \<exists>k'. lib_get_keyslot_data lib h (cstr t) room k = ((lib_ERR_NOT_FOUND lib, []), k') \<and>
        held k' = held k \<and> sessions k' = sessions k \<and> ready n k'"
    and unittest_names: "OPAQUE_HANDLE_ID \<in> names" "OPAQUE_HANDLE2_ID \<in> names" "OPAQUE_HANDLE_NOACCESS_ID \<in> names"
    and unittest_keys: "readable OPAQUE_HANDLE_ID = Some UNITTEST_KEYSLOT"
      "readable OPAQUE_HANDLE2_ID = Some UNITTEST_KEYSLOT" "readable OPAQUE_HANDLE_NOACCESS_ID = None"
    and derived_key: "OPAQUE_DERIVED_ID \<in> names \<Longrightarrow> readable OPAQUE_DERIVED_ID = Some UNITTEST_DERIVED_KEYSLOT"

text \<open>
  Requests for slots: \<open>plain\<close> are the slots whose key the client gets at once, \<open>hidden\<close> some of those it does
  not get.
\<close>

locale key_requests = key_sessions lib ready sessions held
  for lib :: "'k hwkey_lib" and ready :: "nat \<Rightarrow> 'k \<Rightarrow> bool" and sessions :: "'k \<Rightarrow> int set"
    and held :: "'k \<Rightarrow> byte list \<Rightarrow> (int \<times> byte list) option" +
  fixes plain :: "byte list \<rightharpoonup> byte list" and hidden :: "byte list set"
  assumes plain_slot: "ready n k \<Longrightarrow> h \<in> sessions k \<Longrightarrow> plain i = Some key \<Longrightarrow> length key \<le> room \<Longrightarrow>
      \<exists>k'. lib_get_keyslot_data lib h i room k = ((NO_ERROR, key), k') \<and>
        held k' = held k \<and> sessions k' = sessions k \<and> ready n k'"
    and hidden_slot: "ready n k \<Longrightarrow> h \<in> sessions k \<Longrightarrow> i \<in> hidden \<Longrightarrow>
      \<exists>k'. lib_get_keyslot_data lib h i room k = ((lib_ERR_NOT_FOUND lib, []), k') \<and>
        held k' = held k \<and> sessions k' = sessions k \<and> ready n k'"
    and array_length: "length (lib_uninit lib n) = n"
    and storage_hidden: "RPMB_STORAGE_AUTH_KEY_ID \<in> hidden"

text \<open>Nothing is derived from nothing; a closed or invalid session is an error of the kernel.\<close>

locale key_refusals = key_sessions lib ready sessions held
  for lib :: "'k hwkey_lib" and ready :: "nat \<Rightarrow> 'k \<Rightarrow> bool" and sessions :: "'k \<Rightarrow> int set"
    and held :: "'k \<Rightarrow> byte list \<Rightarrow> (int \<times> byte list) option" +
  assumes derives_nothing: "ready n k \<Longrightarrow> h \<in> sessions k \<Longrightarrow>
      \<exists>v'. lib_derive lib h v [] k = ((lib_ERR_NOT_VALID lib, v', []), k)"
    and no_session: "0 \<le> h \<Longrightarrow> h \<notin> sessions k \<Longrightarrow>
      \<exists>v'. lib_derive lib h v src k = ((lib_ERR_NOT_FOUND lib, v', []), k)"
    and invalid_session: "\<exists>v'. lib_derive lib (lib_INVALID_HANDLE lib) v src k = ((lib_ERR_BAD_HANDLE lib, v', []), k)"

text \<open>Key derivation, with the one \<open>version\<close> there is.\<close>

locale key_derivation = key_sessions lib ready sessions held
  for lib :: "'k hwkey_lib" and ready :: "nat \<Rightarrow> 'k \<Rightarrow> bool" and sessions :: "'k \<Rightarrow> int set"
    and held :: "'k \<Rightarrow> byte list \<Rightarrow> (int \<times> byte list) option" +
  fixes version :: u32 and kdf :: "byte list \<Rightarrow> byte list"
  assumes derives: "ready n k \<Longrightarrow> h \<in> sessions k \<Longrightarrow> v = lib_KDF_VERSION_BEST lib \<or> v = version \<Longrightarrow>
      src \<noteq> [] \<Longrightarrow> length src \<le> 32 \<Longrightarrow>
      \<exists>k'. lib_derive lib h v src k = ((NO_ERROR, version, kdf src), k') \<and> length (kdf src) = length src \<and>
        held k' = held k \<and> sessions k' = sessions k \<and> ready n k'"
    and version: "version \<noteq> lib_KDF_VERSION_BEST lib"

lemma run_hk [simp]:
  "run_state (hk_expect c) s = ((), s\<lparr>hk_failed := hk_failed s \<or> \<not> c\<rparr>)"
  "run_state hk_session s = (hwkey_session s, s)"
  "run_state (hk_set_session h) s = ((), s\<lparr>hwkey_session := h\<rparr>)"
  "run_state (hk_open lib) s = (fst (lib_open lib (hk_world s)), s\<lparr>hk_world := snd (lib_open lib (hk_world s))\<rparr>)"
  "run_state (hk_close lib h) s = ((), s\<lparr>hk_world := lib_close lib h (hk_world s)\<rparr>)"
  by (simp_all add: hk_expect_def hk_session_def hk_set_session_def hk_open_def hk_close_def State_Monad.update_def split: prod.split)

lemma run_hk_get:
  "lib_get_keyslot_data lib h i (length buf) (hk_world s) = ((rc, d), k) \<Longrightarrow>
    run_state (hk_get lib h i buf) s = ((rc, d @ drop (length d) buf, length d), s\<lparr>hk_world := k\<rparr>)"
  by (simp add: hk_get_def)

lemma keyslot_lengths: "length UNITTEST_KEYSLOT = 32"
  by (simp add: UNITTEST_KEYSLOT_def bytes_of_def)

lemma ids_distinct: "OPAQUE_HANDLE_ID \<noteq> OPAQUE_HANDLE2_ID" "OPAQUE_HANDLE_ID \<noteq> OPAQUE_HANDLE_NOACCESS_ID"
    "OPAQUE_HANDLE2_ID \<noteq> OPAQUE_HANDLE_NOACCESS_ID"
  by (simp_all add: OPAQUE_HANDLE_ID_def OPAQUE_HANDLE2_ID_def OPAQUE_HANDLE_NOACCESS_ID_def bytes_of_def)

text \<open>A handle as the buffer of a test holds it.\<close>

lemma handle_buffer:
  assumes "valid_token t" and "32 \<le> n"
  shows "cstr (t @ replicate (n - 32) 0) = cstr t" "strnlen (t @ replicate (n - 32) 0) n < n"
    "cstr t \<noteq> []" "length t = 32" "strnlen (t @ replicate (n - 32) 0) n = 31"
  using assms by (auto simp: valid_token_def cstr_def strnlen_def takeWhile_tail takeWhile_nonzero)

text \<open>The state of a run in which nothing has failed.\<close>

abbreviation passing :: "'k \<Rightarrow> int \<Rightarrow> 'k hk_run" where
  "passing k h \<equiv> \<lparr>hk_world = k, hwkey_session = h, hk_failed = False\<rparr>"

lemma test_passesI:
  assumes "\<And>k h thesis. ready 2 k \<Longrightarrow> h \<in> sessions k \<Longrightarrow> held k = Map.empty \<Longrightarrow>
    (\<And>h' k'. run_state body (passing k h) = ((), passing k' h') \<Longrightarrow> clean_end ready sessions held k h k' h' \<Longrightarrow> thesis) \<Longrightarrow>
    thesis"
  shows "test_passes ready sessions held body"
  unfolding test_passes_def using assms by (metis (no_types, lifting))

context key_sessions
begin

text \<open>Reconnecting drops the handles of the old session and goes on in a new one.\<close>

lemma reconnect_run:
  assumes "ready n k" and "h \<in> sessions k"
  obtains h' k' where "run_state (reconnect lib rest) (passing k h) = run_state (rest h') (passing k' h')"
    "held k' = without h (held k)" "h' \<notin> sessions k - {h}" "sessions k' = insert h' (sessions k - {h})" "ready n k'"
proof -
  let ?k = "lib_close lib h k"
  note c = closes [OF assms]
  obtain h' k' where o: "lib_open lib ?k = (h', k')" "0 \<le> h'" "h' \<notin> sessions ?k" "sessions k' = insert h' (sessions ?k)"
    "held k' = held ?k" "ready n k'"
    using opens [of n ?k] c by blast
  have "run_state (reconnect lib rest) (passing k h) = run_state (rest h') (passing k' h')"
    using o(1,2) by (simp add: reconnect_def)
  then show ?thesis by (rule that) (use o c in simp_all)
qed

text \<open>The fixture around a test, and any sequence of tests.\<close>

lemma fixture_run:
  assumes "ready n k" and "held k = Map.empty"
  obtains h k1 where "run_state (hk_fixture lib body) (passing k x) =
      (let s = snd (run_state body (passing k1 h)) in ((), s\<lparr>hk_world := lib_close lib (hwkey_session s) (hk_world s)\<rparr>))"
    "ready 2 k1" "h \<in> sessions k1" "held k1 = Map.empty" "h \<notin> sessions k" "sessions k1 = insert h (sessions k)"
proof -
  obtain h k1 where o: "lib_open lib k = (h, k1)" "0 \<le> h" "h \<notin> sessions k" "sessions k1 = insert h (sessions k)"
    "held k1 = held k" "ready n k1"
    using opens [OF assms(1)] by blast
  have "run_state (hk_fixture lib body) (passing k x) =
      (let s = snd (run_state body (passing k1 h)) in ((), s\<lparr>hk_world := lib_close lib (hwkey_session s) (hk_world s)\<rparr>))"
    using o(1,2) by (simp add: hk_fixture_def Let_def split_beta)
  then show ?thesis by (rule that) (use renews [OF o(6)] o assms(2) in auto)
qed

lemma fixture_passes:
  assumes "ready n k" and "held k = Map.empty" and "test_passes ready sessions held body"
  shows "\<exists>k' h'. run_state (hk_fixture lib body) (passing k x) = ((), passing k' h') \<and>
    (\<exists>n. ready n k') \<and> held k' = Map.empty \<and> sessions k' = sessions k"
proof -
  obtain h k1 where f: "run_state (hk_fixture lib body) (passing k x) =
      (let s = snd (run_state body (passing k1 h)) in ((), s\<lparr>hk_world := lib_close lib (hwkey_session s) (hk_world s)\<rparr>))"
    "ready 2 k1" "h \<in> sessions k1" "held k1 = Map.empty" "h \<notin> sessions k" "sessions k1 = insert h (sessions k)"
    by (rule fixture_run [OF assms(1,2)])
  obtain h' k2 where b: "run_state body (passing k1 h) = ((), passing k2 h')" "clean_end ready sessions held k1 h k2 h'"
    using assms(3) f(2-4) unfolding test_passes_def by blast
  obtain m where m: "ready m k2" "h' \<notin> sessions k1 - {h}" "sessions k2 = insert h' (sessions k1 - {h})"
    "without h' (held k2) = Map.empty"
    using b(2) by (auto simp: clean_end_def)
  have "run_state (hk_fixture lib body) (passing k x) = ((), passing (lib_close lib h' k2) h')"
    using f(1) b(1) by simp
  then show ?thesis using closes [OF m(1), of h'] m f(5,6) by auto
qed

lemma suite_passes:
  assumes "ready n k" and "held k = Map.empty" and "\<forall>body \<in> set tests. test_passes ready sessions held body"
  shows "\<exists>k' h'. run_state (hk_suite lib tests) (passing k x) = ((), passing k' h') \<and>
    (\<exists>n. ready n k') \<and> held k' = Map.empty \<and> sessions k' = sessions k"
  using assms
proof (induction tests arbitrary: n k x)
  case Nil
  then show ?case by (auto simp: hk_suite.simps)
next
  case (Cons body tests)
  obtain m k1 h1 where b: "run_state (hk_fixture lib body) (passing k x) = ((), passing k1 h1)"
    "ready m k1" "held k1 = Map.empty" "sessions k1 = sessions k"
    using fixture_passes [OF Cons.prems(1,2), of body x] Cons.prems(3) by auto
  with Cons.IH [OF b(2,3), of h1] Cons.prems(3) show ?case by auto
qed

text \<open>A test that keeps its session and holds nothing.\<close>

lemma plain_testI:
  assumes "\<And>k h. ready 2 k \<Longrightarrow> h \<in> sessions k \<Longrightarrow> held k = Map.empty \<Longrightarrow>
    \<exists>k'. run_state body (passing k h) = ((), passing k' h) \<and> held k' = Map.empty \<and> sessions k' = sessions k \<and> (\<exists>n. ready n k')"
  shows "test_passes ready sessions held body"
proof (rule test_passesI)
  fix k h thesis assume k: "ready 2 k" "h \<in> sessions k" "held k = Map.empty"
    and that: "\<And>h' k'. run_state body (passing k h) = ((), passing k' h') \<Longrightarrow> clean_end ready sessions held k h k' h' \<Longrightarrow> thesis"
  obtain k' where "run_state body (passing k h) = ((), passing k' h)" "held k' = Map.empty" "sessions k' = sessions k" "\<exists>n. ready n k'"
    using assms [OF k] by blast
  then show thesis using k(2) by (intro that [of k' h]) (auto simp: clean_end_def insert_absorb)
qed

end

context key_store
begin

abbreviation handle_buf :: "byte list \<Rightarrow> byte list" where
  "handle_buf t \<equiv> t @ replicate (lib_HANDLE_MAX_SIZE lib - 32) 0"

lemma get_handle_run:
  assumes "ready (Suc n) k" and "h \<in> sessions k" and "i \<in> names" and "held k i = None"
  obtains t k' where "run_state (get_handle lib h i) (passing k x) = (handle_buf t, passing k' x)" "valid_token t"
    "\<And>i' h'. held k i' \<noteq> Some (h', t)" "held k' = (held k)(i \<mapsto> (h, t))" "sessions k' = sessions k" "ready n k'"
proof -
  obtain t k' where g: "lib_get_keyslot_data lib h i (length (replicate (lib_HANDLE_MAX_SIZE lib) (0::byte))) k = ((NO_ERROR, t), k')"
    and t: "valid_token t" "\<forall>i' h'. held k i' \<noteq> Some (h', t)" "held k' = (held k)(i \<mapsto> (h, t))" "sessions k' = sessions k"
      "ready n k'"
    using issues [OF assms handle_room] by auto
  then have "run_state (get_handle lib h i) (passing k x) = (handle_buf t, passing k' x)"
    using handle_room handle_buffer(4) [OF t(1) handle_room]
    by (simp add: get_handle_def get_handle_into_def run_hk_get)
  with t show ?thesis using that by blast
qed

lemma expect_key_run:
  assumes "ready n k" and "h \<in> sessions k" and "i \<in> names" and "held k i = Some (h', t)"
    and "readable i = Some UNITTEST_KEYSLOT" and "valid_token t"
  obtains k' where "run_state (expect_key lib h (handle_buf t)) (passing k x) = ((), passing k' x)"
    "held k' = held k" "sessions k' = sessions k" "ready n k'"
proof -
  obtain k' where g: "lib_get_keyslot_data lib h (cstr (handle_buf t)) (length (replicate (length UNITTEST_KEYSLOT + 1) (0::byte))) k =
      ((NO_ERROR, UNITTEST_KEYSLOT), k')" and f: "held k' = held k" "sessions k' = sessions k" "ready n k'"
    using fetches [OF assms(1-5), of "length UNITTEST_KEYSLOT + 1"] handle_buffer(1) [OF assms(6) handle_room] by auto
  then have "run_state (expect_key lib h (handle_buf t)) (passing k x) = ((), passing k' x)"
    by (simp add: expect_key_def run_hk_get)
  with f show ?thesis using that by blast
qed

lemma expect_not_found_run:
  assumes "ready n k" and "h \<in> sessions k" and "valid_token t" and "\<forall>i h'. held k i = Some (h', t) \<longrightarrow> readable i = None"
  obtains k' where "run_state (expect_not_found lib h (handle_buf t)) (passing k x) = ((), passing k' x)"
    "held k' = held k" "sessions k' = sessions k" "ready n k'"
proof -
  obtain k' where g: "lib_get_keyslot_data lib h (cstr (handle_buf t)) (length (replicate (length UNITTEST_KEYSLOT + 1) (0::byte))) k =
      ((lib_ERR_NOT_FOUND lib, []), k')" and f: "held k' = held k" "sessions k' = sessions k" "ready n k'"
    using refuses [OF assms(1,2) disjI1 [OF assms(3)] assms(4), where room = "length UNITTEST_KEYSLOT + 1"]
      handle_buffer(1) [OF assms(3) handle_room] by auto
  then have "run_state (expect_not_found lib h (handle_buf t)) (passing k x) = ((), passing k' x)"
    by (simp add: expect_not_found_def run_hk_get)
  with f show ?thesis using that by blast
qed

lemma reconnect_gone:
  assumes "ready n k" and "h \<in> sessions k" and "without h (held k) = Map.empty" and "valid_token t1" and "valid_token t2"
  obtains h' k' where "run_state (reconnect lib (both_gone lib (handle_buf t1) (handle_buf t2))) (passing k h) = ((), passing k' h')"
    "clean_end ready sessions held k h k' h'"
proof -
  let ?r = "both_gone lib (handle_buf t1) (handle_buf t2)"
  obtain h' k1 where g1: "run_state (reconnect lib ?r) (passing k h) = run_state (?r h') (passing k1 h')"
    "held k1 = Map.empty" "h' \<notin> sessions k - {h}" "sessions k1 = insert h' (sessions k - {h})" "ready n k1"
    by (rule reconnect_run [OF assms(1,2), where rest = ?r]) (use assms(3) in auto)
  obtain k2 where g2: "run_state (expect_not_found lib h' (handle_buf t1)) (passing k1 h') = ((), passing k2 h')"
    "held k2 = Map.empty" "sessions k2 = sessions k1" "ready n k2"
    using expect_not_found_run [OF g1(5) _ assms(4), of h' h'] g1(2,4) by auto
  obtain k3 where g3: "run_state (expect_not_found lib h' (handle_buf t2)) (passing k2 h') = ((), passing k3 h')"
    "held k3 = Map.empty" "sessions k3 = sessions k1" "ready n k3"
    using expect_not_found_run [OF g2(4) _ assms(5), of h' h'] g2(2,3) g1(4) by auto
  show ?thesis
    by (rule that [of k3 h']) (use g1 g2 g3 in \<open>auto simp: both_gone_def clean_end_def\<close>)
qed

text \<open>
  Each test passes from a session while nothing is held, and what it leaves behind goes with the
  session of the fixture.
\<close>

lemma first_handle:
  assumes "ready (Suc n) k" and "h \<in> sessions k" and "held k = Map.empty"
  obtains t k' where "run_state (get_handle lib h OPAQUE_HANDLE_ID) (passing k x) = (handle_buf t, passing k' x)"
    "valid_token t" "held k' = [OPAQUE_HANDLE_ID \<mapsto> (h, t)]" "sessions k' = sessions k" "ready n k'"
  by (rule get_handle_run [OF assms(1,2) unittest_names(1), of x]) (use assms(3) in auto)

lemma get_opaque_handle_passes: "test_passes ready sessions held (get_opaque_handle True lib)"
proof (rule test_passesI)
  fix k h thesis assume assms: "ready 2 k" "h \<in> sessions k" "held k = Map.empty"
    and that: "\<And>h' k'. run_state (get_opaque_handle True lib) (passing k h) = ((), passing k' h') \<Longrightarrow>
      clean_end ready sessions held k h k' h' \<Longrightarrow> thesis"
  obtain t k1 where g: "run_state (get_handle lib h OPAQUE_HANDLE_ID) (passing k h) = (handle_buf t, passing k1 h)"
    "valid_token t" "held k1 = [OPAQUE_HANDLE_ID \<mapsto> (h, t)]" "sessions k1 = sessions k" "ready 1 k1"
    using first_handle [of 1 k h h] assms by (auto simp: numeral_2_eq_2)
  show thesis
    by (rule that [of k1 h])
       (use g handle_buffer(2) [OF g(2) handle_room] assms(2) in
         \<open>auto simp: get_opaque_handle_def clean_end_def insert_absorb\<close>)
qed

lemma get_opaque_key_passes: "test_passes ready sessions held (get_opaque_key_test lib)"
proof (rule test_passesI)
  fix k h thesis assume assms: "ready 2 k" "h \<in> sessions k" "held k = Map.empty"
    and that: "\<And>h' k'. run_state (get_opaque_key_test lib) (passing k h) = ((), passing k' h') \<Longrightarrow>
      clean_end ready sessions held k h k' h' \<Longrightarrow> thesis"
  obtain t k1 where g: "run_state (get_handle lib h OPAQUE_HANDLE_ID) (passing k h) = (handle_buf t, passing k1 h)"
    "valid_token t" "held k1 = [OPAQUE_HANDLE_ID \<mapsto> (h, t)]" "sessions k1 = sessions k" "ready 1 k1"
    using first_handle [of 1 k h h] assms by (auto simp: numeral_2_eq_2)
  obtain k2 where f: "lib_get_keyslot_data lib h (cstr (handle_buf t)) (length (replicate (length UNITTEST_KEYSLOT) (0::byte))) k1 =
      ((NO_ERROR, UNITTEST_KEYSLOT), k2)" "held k2 = held k1" "sessions k2 = sessions k1" "ready 1 k2"
    using fetches [OF g(5) _ unittest_names(1), of h h t UNITTEST_KEYSLOT "length UNITTEST_KEYSLOT"] g assms(2) unittest_keys(1)
      handle_buffer(1) [OF g(2) handle_room] by auto
  have "run_state (get_opaque_key_test lib) (passing k h) = ((), passing k2 h)"
    using g(1) f(1) handle_buffer(2) [OF g(2) handle_room] by (simp add: get_opaque_key_test_def run_hk_get)
  then show thesis by (rule that) (use f g assms(2) in \<open>auto simp: clean_end_def insert_absorb\<close>)
qed

lemma try_empty_passes: "test_passes ready sessions held (try_empty_opaque_handle lib)"
proof (rule test_passesI)
  fix k h thesis assume assms: "ready 2 k" "h \<in> sessions k" "held k = Map.empty"
    and that: "\<And>h' k'. run_state (try_empty_opaque_handle lib) (passing k h) = ((), passing k' h') \<Longrightarrow>
      clean_end ready sessions held k h k' h' \<Longrightarrow> thesis"
  let ?buf = "replicate (length UNITTEST_KEYSLOT) (0 :: byte)"
  let ?rest = "\<lambda>h. do { (rc, _, _) \<leftarrow> hk_get lib h [] ?buf; hk_expect (rc = lib_ERR_NOT_FOUND lib) }"
  obtain h' k1 where g: "run_state (reconnect lib ?rest) (passing k h) = run_state (?rest h') (passing k1 h')"
    "held k1 = Map.empty" "h' \<notin> sessions k - {h}" "sessions k1 = insert h' (sessions k - {h})" "ready 2 k1"
    by (rule reconnect_run [OF assms(1,2), where rest = ?rest]) (use assms(3) in auto)
  obtain k2 where f: "lib_get_keyslot_data lib h' [] (length ?buf) k1 = ((lib_ERR_NOT_FOUND lib, []), k2)"
    "held k2 = held k1" "sessions k2 = sessions k1" "ready 2 k2"
    using refuses [OF g(5) _ disjI2 [OF refl], of h' "length ?buf"] g(2,4) by (auto simp: cstr_def)
  have "run_state (try_empty_opaque_handle lib) (passing k h) = ((), passing k2 h')"
    using g(1) f(1) by (simp add: try_empty_opaque_handle_def run_hk_get)
  then show thesis by (rule that) (use f g in \<open>auto simp: clean_end_def\<close>)
qed

lemma get_multiple_passes: "test_passes ready sessions held (get_multiple_opaque_handles lib)"
proof (rule test_passesI)
  fix k h thesis assume assms: "ready 2 k" "h \<in> sessions k" "held k = Map.empty"
    and that: "\<And>h' k'. run_state (get_multiple_opaque_handles lib) (passing k h) = ((), passing k' h') \<Longrightarrow>
      clean_end ready sessions held k h k' h' \<Longrightarrow> thesis"
  let ?i = OPAQUE_HANDLE_ID and ?j = OPAQUE_HANDLE_NOACCESS_ID
  obtain t1 k1 where g1: "run_state (get_handle lib h ?i) (passing k h) = (handle_buf t1, passing k1 h)"
    "valid_token t1" "held k1 = [?i \<mapsto> (h, t1)]" "sessions k1 = sessions k" "ready (Suc 0) k1"
    using first_handle [of "Suc 0" k h h] assms by (auto simp: numeral_2_eq_2)
  obtain t2 k2 where g2: "run_state (get_handle lib h ?j) (passing k1 h) = (handle_buf t2, passing k2 h)"
    "valid_token t2" "held k2 = [?i \<mapsto> (h, t1), ?j \<mapsto> (h, t2)]" "sessions k2 = sessions k" "ready 0 k2"
    "\<And>i' h'. held k1 i' \<noteq> Some (h', t2)"
  proof (rule get_handle_run [OF g1(5) _ unittest_names(3), of h h])
    show "h \<in> sessions k1" "held k1 ?j = None" using g1 assms(2) ids_distinct by auto
  qed (use g1 that in auto)
  have ne: "t1 \<noteq> t2" using g2(6) [of ?i h] g1(3) by auto
  obtain k3 where g3: "run_state (expect_key lib h (handle_buf t1)) (passing k2 h) = ((), passing k3 h)"
    "held k3 = held k2" "sessions k3 = sessions k" "ready 0 k3"
    using expect_key_run [OF g2(5) _ unittest_names(1) _ unittest_keys(1) g1(2), of h h h] g2 assms(2) ids_distinct by auto
  have n3: "\<forall>i h'. held k3 i = Some (h', t2) \<longrightarrow> readable i = None"
    using g2(3) g3(2) ne unittest_keys(3) by (auto split: if_splits)
  obtain k4 where g4: "run_state (expect_not_found lib h (handle_buf t2)) (passing k3 h) = ((), passing k4 h)"
    "held k4 = held k2" "sessions k4 = sessions k" "ready 0 k4"
    using expect_not_found_run [OF g3(4) _ g2(2) n3, of h h] g2 g3 assms(2) by auto
  obtain h' k5 where g5: "run_state (reconnect lib (both_gone lib (handle_buf t1) (handle_buf t2))) (passing k4 h) = ((), passing k5 h')"
    "clean_end ready sessions held k4 h k5 h'"
    by (rule reconnect_gone [OF g4(4) _ _ g1(2) g2(2), of h]) (use g4 g2(3) assms(2) in auto)
  have "run_state (get_multiple_opaque_handles lib) (passing k h) = ((), passing k5 h')"
    using g1(1) g2(1) ne g3(1) g4(1) g5(1) handle_buffer(4) [OF g1(2) handle_room] handle_buffer(4) [OF g2(2) handle_room]
    by (simp add: get_multiple_opaque_handles_def)
  then show thesis by (rule that) (use g5(2) g4(3) in \<open>simp add: clean_end_def\<close>)
qed

text \<open>The keys behind two handles are read through one session.\<close>

lemma both_keys_run:
  assumes "ready n k" and "h \<in> sessions k" and "valid_token t1" and "valid_token t2"
    and "held k OPAQUE_HANDLE_ID = Some (h1, t1)" and "held k OPAQUE_HANDLE2_ID = Some (h2, t2)"
  obtains k1 k2 where "run_state (expect_key lib h (handle_buf t1)) (passing k x) = ((), passing k1 x)"
    "run_state (expect_key lib h (handle_buf t2)) (passing k1 x) = ((), passing k2 x)"
    "held k2 = held k" "sessions k2 = sessions k" "ready n k2"
proof -
  obtain k1 where g1: "run_state (expect_key lib h (handle_buf t1)) (passing k x) = ((), passing k1 x)"
    "held k1 = held k" "sessions k1 = sessions k" "ready n k1"
    using expect_key_run [OF assms(1,2) unittest_names(1) assms(5) unittest_keys(1) assms(3), of x] by blast
  obtain k2 where g2: "run_state (expect_key lib h (handle_buf t2)) (passing k1 x) = ((), passing k2 x)"
    "held k2 = held k" "sessions k2 = sessions k" "ready n k2"
    by (rule expect_key_run [OF g1(4) _ unittest_names(2) _ unittest_keys(2) assms(4), of h h2 x])
       (use g1 assms(2,6) in auto)
  show ?thesis by (rule that [OF g1(1) g2])
qed

text \<open>The second session of the test: its request for the slot of the first is refused, another slot is granted.\<close>

lemma second_session_run:
  assumes "ready (Suc n) k" and "held k = [OPAQUE_HANDLE_ID \<mapsto> (h, t1)]"
  obtains h2 k1 k2 t2 k3 where "lib_open lib k = (h2, k1)" "0 \<le> h2" "h2 \<notin> sessions k"
    "lib_get_keyslot_data lib h2 OPAQUE_HANDLE_ID (length (replicate (lib_HANDLE_MAX_SIZE lib) (0 :: byte))) k1 =
      ((lib_ERR_ALREADY_EXISTS lib, []), k2)"
    "run_state (get_handle lib h2 OPAQUE_HANDLE2_ID) (passing k2 x) = (handle_buf t2, passing k3 x)"
    "valid_token t2" "t2 \<noteq> t1" "held k3 = [OPAQUE_HANDLE_ID \<mapsto> (h, t1), OPAQUE_HANDLE2_ID \<mapsto> (h2, t2)]"
    "sessions k3 = insert h2 (sessions k)" "ready n k3"
proof -
  obtain h2 k1 where o: "lib_open lib k = (h2, k1)" "0 \<le> h2" "h2 \<notin> sessions k" "sessions k1 = insert h2 (sessions k)"
    "held k1 = held k" "ready (Suc n) k1"
    using opens [OF assms(1)] by blast
  obtain k2 where r: "lib_get_keyslot_data lib h2 OPAQUE_HANDLE_ID (length (replicate (lib_HANDLE_MAX_SIZE lib) (0 :: byte))) k1 =
      ((lib_ERR_ALREADY_EXISTS lib, []), k2)" "held k2 = held k1" "sessions k2 = sessions k1" "ready (Suc n) k2"
    using taken [OF o(6) _ unittest_names(1), of h2 "(h, t1)", where room = "lib_HANDLE_MAX_SIZE lib"] o(4,5) assms(2) by auto
  obtain t2 k3 where g: "run_state (get_handle lib h2 OPAQUE_HANDLE2_ID) (passing k2 x) = (handle_buf t2, passing k3 x)"
    "valid_token t2" "\<And>i' h'. held k2 i' \<noteq> Some (h', t2)" "held k3 = (held k2)(OPAQUE_HANDLE2_ID \<mapsto> (h2, t2))"
    "sessions k3 = sessions k2" "ready n k3"
    by (rule get_handle_run [OF r(4) _ unittest_names(2), of h2 x]) (use r o assms(2) ids_distinct in auto)
  have "t2 \<noteq> t1" using g(3) [of OPAQUE_HANDLE_ID h] r(2) o(5) assms(2) by auto
  then show ?thesis
    by (rule that [OF o(1-3) r(1) g(1,2) _ _ _ g(6)]) (use g r o assms(2) in auto)
qed

lemma multiple_sessions_passes: "test_passes ready sessions held (opaque_handle_multiple_sessions lib)"
proof (rule test_passesI)
  fix k h thesis assume assms: "ready 2 k" "h \<in> sessions k" "held k = Map.empty"
    and that: "\<And>h' k'. run_state (opaque_handle_multiple_sessions lib) (passing k h) = ((), passing k' h') \<Longrightarrow>
      clean_end ready sessions held k h k' h' \<Longrightarrow> thesis"
  let ?i = OPAQUE_HANDLE_ID and ?j = OPAQUE_HANDLE2_ID
  obtain t1 k1 where g1: "run_state (get_handle lib h ?i) (passing k h) = (handle_buf t1, passing k1 h)"
    "valid_token t1" "held k1 = [?i \<mapsto> (h, t1)]" "sessions k1 = sessions k" "ready (Suc 0) k1"
    using first_handle [of "Suc 0" k h h] assms by (auto simp: numeral_2_eq_2)
  obtain h2 k2 k3 t2 k4 where s: "lib_open lib k1 = (h2, k2)" "0 \<le> h2" "h2 \<notin> sessions k1"
    "lib_get_keyslot_data lib h2 ?i (length (replicate (lib_HANDLE_MAX_SIZE lib) (0 :: byte))) k2 =
      ((lib_ERR_ALREADY_EXISTS lib, []), k3)"
    "run_state (get_handle lib h2 ?j) (passing k3 h) = (handle_buf t2, passing k4 h)"
    "valid_token t2" "t2 \<noteq> t1" "held k4 = [?i \<mapsto> (h, t1), ?j \<mapsto> (h2, t2)]"
    "sessions k4 = insert h2 (sessions k1)" "ready 0 k4"
    by (rule second_session_run [OF g1(5,3)])
  have ne: "h2 \<noteq> h" using s(3) g1(4) assms(2) by auto
  obtain k5 k6 where e1: "run_state (expect_key lib h (handle_buf t1)) (passing k4 h) = ((), passing k5 h)"
    "run_state (expect_key lib h (handle_buf t2)) (passing k5 h) = ((), passing k6 h)"
    "held k6 = held k4" "sessions k6 = sessions k4" "ready 0 k6"
    proof (rule both_keys_run [OF s(10) _ g1(2) s(6), of h h h2 h])
    show "h \<in> sessions k4" "held k4 ?i = Some (h, t1)" "held k4 ?j = Some (h2, t2)"
      using s(8,9) g1(4) assms(2) ids_distinct by simp_all
  qed (rule that)
  obtain k7 k8 where e2: "run_state (expect_key lib h2 (handle_buf t1)) (passing k6 h) = ((), passing k7 h)"
    "run_state (expect_key lib h2 (handle_buf t2)) (passing k7 h) = ((), passing k8 h)"
    "held k8 = held k4" "sessions k8 = sessions k4" "ready 0 k8"
    proof (rule both_keys_run [OF e1(5) _ g1(2) s(6), of h2 h h2 h])
    show "h2 \<in> sessions k6" "held k6 ?i = Some (h, t1)" "held k6 ?j = Some (h2, t2)"
      using e1(3,4) s(8,9) ids_distinct by simp_all
  qed (rule that, simp_all add: e1(3,4))
  let ?k = "lib_close lib h2 k8"
  have c: "ready 0 ?k" "sessions ?k = sessions k" "held ?k = [?i \<mapsto> (h, t1)]"
    using closes [OF e2(5), of h2] e2(3,4) s(3,8,9) g1(4) ne ids_distinct(1) by (simp_all add: fun_upd_twist)
  obtain k9 where f: "lib_get_keyslot_data lib h (cstr (handle_buf t1)) (length (replicate (length UNITTEST_KEYSLOT + 1) (0 :: byte))) ?k =
      ((NO_ERROR, UNITTEST_KEYSLOT), k9)" "held k9 = held ?k" "sessions k9 = sessions ?k" "ready 0 k9"
    using fetches [OF c(1) _ unittest_names(1), of h h t1 UNITTEST_KEYSLOT "length UNITTEST_KEYSLOT + 1"] c(2,3) assms(2)
      unittest_keys(1) handle_buffer(1) [OF g1(2) handle_room] by auto
  obtain k10 where n: "run_state (expect_not_found lib h (handle_buf t2)) (passing k9 h) = ((), passing k10 h)"
    "held k10 = held k9" "sessions k10 = sessions k9" "ready 0 k10"
    by (rule expect_not_found_run [OF f(4) _ s(6), of h h]) (use f(2,3) c assms(2) s(7) in \<open>auto split: if_splits\<close>)
  obtain h' k11 where r: "run_state (reconnect lib (both_gone lib (handle_buf t1) (handle_buf t2))) (passing k10 h) = ((), passing k11 h')"
    "clean_end ready sessions held k10 h k11 h'"
    by (rule reconnect_gone [OF n(4) _ _ g1(2) s(6), of h]) (use n f c assms(2) in auto)
  have "run_state (opaque_handle_multiple_sessions lib) (passing k h) = ((), passing k11 h')"
    using g1(1) s(1,2,4,5) e1(1,2) e2(1,2) f(1) n(1) r(1)
    by (simp add: opaque_handle_multiple_sessions_def run_hk_get get_handle_def [symmetric])
  then show thesis by (rule that) (use r(2) n(3) f(3) c(2) in \<open>simp add: clean_end_def\<close>)
qed

lemma opaque_tests_pass_each:
  "body \<in> set (opaque_tests lib) \<Longrightarrow> test_passes ready sessions held body"
  by (auto simp: opaque_tests_def get_opaque_handle_passes get_opaque_key_passes get_multiple_passes
      multiple_sessions_passes try_empty_passes)

text \<open>The key behind the derived slot, for a client that has the slot.\<close>

lemma get_opaque_derived_passes:
  assumes "OPAQUE_DERIVED_ID \<in> names"
  shows "test_passes ready sessions held (get_opaque_derived_key lib)"
proof (rule test_passesI)
  fix k h thesis assume k: "ready 2 k" "h \<in> sessions k" "held k = Map.empty"
    and that: "\<And>h' k'. run_state (get_opaque_derived_key lib) (passing k h) = ((), passing k' h') \<Longrightarrow>
      clean_end ready sessions held k h k' h' \<Longrightarrow> thesis"
  let ?i = OPAQUE_DERIVED_ID and ?buf = "replicate (lib_HANDLE_MAX_SIZE lib) (0 :: byte)"
  obtain t k1 where g: "lib_get_keyslot_data lib h ?i (length ?buf) k = ((NO_ERROR, t), k1)" "valid_token t"
    "held k1 = [?i \<mapsto> (h, t)]" "sessions k1 = sessions k" "ready 1 k1"
    using issues [of 1 k h ?i "length ?buf"] k assms handle_room by (auto simp: numeral_2_eq_2)
  obtain k2 where f: "lib_get_keyslot_data lib h (cstr (handle_buf t)) (length (lib_uninit lib (length UNITTEST_DERIVED_KEYSLOT))) k1 =
      ((NO_ERROR, UNITTEST_DERIVED_KEYSLOT), k2)" "held k2 = held k1" "sessions k2 = sessions k1" "ready 1 k2"
    using fetches [OF g(5) _ assms, of h h t UNITTEST_DERIVED_KEYSLOT "length UNITTEST_DERIVED_KEYSLOT"] g k(2)
      derived_key [OF assms] handle_buffer(1) [OF g(2) handle_room] by (auto simp: buffer_length)
  have "run_state (get_opaque_derived_key lib) (passing k h) = ((), passing k2 h)"
    using g(1) f(1) handle_room handle_buffer(4,5) [OF g(2) handle_room]
    by (simp add: get_opaque_derived_key_def run_hk_get buffer_length)
  then show thesis by (rule that) (use f g k(2) in \<open>auto simp: clean_end_def insert_absorb\<close>)
qed

end

lemma run_hk_derive:
  "lib_derive lib h v src (hk_world s) = ((rc, v', d), k) \<Longrightarrow>
    run_state (hk_derive lib h v src dest) s = ((rc, v', d @ drop (length d) dest), s\<lparr>hk_world := k\<rparr>)"
  by (simp add: hk_derive_def)

context key_requests
begin

text \<open>Tests of one request for a slot whose key comes at once, or does not come.\<close>

lemma slot_test_passes:
  assumes "\<And>k h d. run_state body (passing k h) = run_state (do { r \<leftarrow> hk_get lib h i (buf); check r }) (passing k h)"
    and "(\<exists>key. plain i = Some key \<and> length key \<le> length buf \<and>
        (\<forall>s. run_state (check (NO_ERROR, key @ drop (length key) (buf), length key)) s = ((), s))) \<or>
      i \<in> hidden \<and> (\<forall>s. run_state (check (lib_ERR_NOT_FOUND lib, buf, 0)) s = ((), s))"
  shows "test_passes ready sessions held body"
proof (rule plain_testI)
  fix k h assume k: "ready 2 k" "h \<in> sessions k" "held k = Map.empty"
  from assms(2) show "\<exists>k'. run_state body (passing k h) = ((), passing k' h) \<and> held k' = Map.empty \<and>
    sessions k' = sessions k \<and> (\<exists>n. ready n k')"
  proof
    assume "\<exists>key. plain i = Some key \<and> length key \<le> length buf \<and>
        (\<forall>s. run_state (check (NO_ERROR, key @ drop (length key) (buf), length key)) s = ((), s))"
    then obtain key where key: "plain i = Some key" "length key \<le> length buf"
      "\<And>s. run_state (check (NO_ERROR, key @ drop (length key) (buf), length key)) s = ((), s)" by blast
    from plain_slot [OF k(1,2) key(1,2)] key(3) k(3) show ?thesis
      by (auto simp: assms(1) run_hk_get)
  next
    assume "i \<in> hidden \<and> (\<forall>s. run_state (check (lib_ERR_NOT_FOUND lib, buf, 0)) s = ((), s))"
    with hidden_slot [OF k(1,2), of i "length buf"] k(3) show ?thesis
      by (auto simp: assms(1) run_hk_get)
  qed
qed

lemma storage_auth_passes: "test_passes ready sessions held (get_storage_auth lib)"
  by (rule slot_test_passes [where i = RPMB_STORAGE_AUTH_KEY_ID and buf = "lib_uninit lib STORAGE_AUTH_KEY_SIZE" and
        check = "\<lambda>(rc, _, _). hk_expect (rc = lib_ERR_NOT_FOUND lib)"])
     (simp_all add: get_storage_auth_def storage_hidden)

lemma keybox_passes:
  assumes "plain KEYBOX_ID = Some UNITTEST_KEYSLOT"
  shows "test_passes ready sessions held (get_keybox True lib)"
  by (rule slot_test_passes [where i = KEYBOX_ID and buf = "lib_uninit lib (length KEYBOX_ID + 1)" and
        check = "\<lambda>(rc, dest, _). do { _ \<leftarrow> hk_expect (rc = NO_ERROR);
          hk_expect (take (length UNITTEST_KEYSLOT) dest = UNITTEST_KEYSLOT) }"])
     (simp_all add: get_keybox_def assms array_length, simp add: KEYBOX_ID_def UNITTEST_KEYSLOT_def bytes_of_def)

lemma derived_keybox_passes:
  assumes "plain DERIVED_KEYBOX_ID = Some UNITTEST_DERIVED_KEYSLOT"
  shows "test_passes ready sessions held (get_derived_keybox True lib)"
  by (rule slot_test_passes [where i = DERIVED_KEYBOX_ID and buf = "lib_uninit lib (length UNITTEST_DERIVED_KEYSLOT)" and
        check = "\<lambda>(rc, dest, _). do { _ \<leftarrow> hk_expect (rc = NO_ERROR); hk_expect (dest = UNITTEST_DERIVED_KEYSLOT) }"])
     (simp_all add: get_derived_keybox_def assms array_length)

lemma bare_tests_pass_each:
  assumes "{OPAQUE_HANDLE_ID, KEYBOX_ID, DERIVED_KEYBOX_ID} \<subseteq> hidden" and "body \<in> set (bare_tests lib)"
  shows "test_passes ready sessions held body"
proof -
  consider "body = get_opaque_handle False lib" | "body = get_keybox False lib" | "body = get_derived_keybox False lib"
    using assms(2) by (auto simp: bare_tests_def)
  then show ?thesis
  proof cases
    case 1
    show ?thesis
      by (rule slot_test_passes [where i = OPAQUE_HANDLE_ID and buf = "replicate (lib_HANDLE_MAX_SIZE lib) 0" and
            check = "\<lambda>(rc, _, _). hk_expect (rc = lib_ERR_NOT_FOUND lib)"])
         (use assms(1) in \<open>simp_all add: 1 get_opaque_handle_def\<close>)
  next
    case 2
    show ?thesis
      by (rule slot_test_passes [where i = KEYBOX_ID and buf = "lib_uninit lib (length KEYBOX_ID + 1)" and
            check = "\<lambda>(rc, _, _). hk_expect (rc = lib_ERR_NOT_FOUND lib)"])
         (use assms(1) in \<open>simp_all add: 2 get_keybox_def\<close>)
  next
    case 3
    show ?thesis
      by (rule slot_test_passes [where i = DERIVED_KEYBOX_ID and buf = "lib_uninit lib (length UNITTEST_DERIVED_KEYSLOT)" and
            check = "\<lambda>(rc, _, _). hk_expect (rc = lib_ERR_NOT_FOUND lib)"])
         (use assms(1) in \<open>simp_all add: 3 get_derived_keybox_def\<close>)
  qed
qed

end

context key_refusals
begin

lemma invalid_session_passes: "test_passes ready sessions held (generic_invalid_session lib)"
proof (rule plain_testI)
  fix k h assume k: "ready 2 k" "held k = Map.empty"
  obtain v' where "lib_derive lib (lib_INVALID_HANDLE lib) (lib_KDF_VERSION_BEST lib) src_data k = ((lib_ERR_BAD_HANDLE lib, v', []), k)"
    using invalid_session by blast
  then have "run_state (generic_invalid_session lib) (passing k h) = ((), passing k h)"
    by (simp add: generic_invalid_session_def run_hk_derive)
  with k show "\<exists>k'. run_state (generic_invalid_session lib) (passing k h) = ((), passing k' h) \<and> held k' = Map.empty \<and>
    sessions k' = sessions k \<and> (\<exists>n. ready n k')" by blast
qed

lemma closed_session_passes: "test_passes ready sessions held (generic_closed_session lib)"
proof (rule plain_testI)
  fix k h assume k: "ready 2 k" "held k = Map.empty"
  obtain h' k1 where o: "lib_open lib k = (h', k1)" "0 \<le> h'" "h' \<notin> sessions k" "sessions k1 = insert h' (sessions k)"
    "held k1 = held k" "ready 2 k1"
    using opens [OF k(1)] by blast
  let ?k = "lib_close lib h' k1"
  have c: "ready 2 ?k" "sessions ?k = sessions k" "held ?k = Map.empty"
    using closes [OF o(6), of h'] o(3-5) k(2) by auto
  obtain v' where "lib_derive lib h' (lib_KDF_VERSION_BEST lib) src_data ?k = ((lib_ERR_NOT_FOUND lib, v', []), ?k)"
    using no_session [OF o(2), of ?k "lib_KDF_VERSION_BEST lib" src_data] c(2) o(3) by auto
  then have "run_state (generic_closed_session lib) (passing k h) = ((), passing ?k h)"
    using o(1,2) by (simp add: generic_closed_session_def run_hk_derive)
  with c show "\<exists>k'. run_state (generic_closed_session lib) (passing k h) = ((), passing k' h) \<and> held k' = Map.empty \<and>
    sessions k' = sessions k \<and> (\<exists>n. ready n k')" by blast
qed

lemma zero_length_passes: "test_passes ready sessions held (derive_zero_length lib)"
proof (rule plain_testI)
  fix k h assume k: "ready 2 k" "h \<in> sessions k" "held k = Map.empty"
  obtain v' where "lib_derive lib h (lib_KDF_VERSION_BEST lib) [] k = ((lib_ERR_NOT_VALID lib, v', []), k)"
    using derives_nothing [OF k(1,2)] by blast
  then have "run_state (derive_zero_length lib) (passing k h) = ((), passing k h)"
    by (simp add: derive_zero_length_def run_hk_derive)
  with k show "\<exists>k'. run_state (derive_zero_length lib) (passing k h) = ((), passing k' h) \<and> held k' = Map.empty \<and>
    sessions k' = sessions k \<and> (\<exists>n. ready n k')" by blast
qed

lemma session_tests_pass_each: "body \<in> set (session_tests lib) \<Longrightarrow> test_passes ready sessions held body"
  by (auto simp: session_tests_def invalid_session_passes closed_session_passes zero_length_passes)

end

context key_derivation
begin

text \<open>The derivation tests fail exactly when the derived keys do: on a collision or a fixed point.\<close>

lemma derive_twice_run:
  assumes "ready n k" and "h \<in> sessions k" and "32 \<le> length src1" and "32 \<le> length src2"
  obtains k' where "run_state (derive_twice lib src1 src2 rest) (passing k h) =
      run_state (rest (kdf (take 32 src1)) (kdf (take 32 src2))) (passing k' h)"
    "held k' = held k" "sessions k' = sessions k" "ready n k'"
proof -
  have ne: "take 32 src1 \<noteq> []" "take 32 src2 \<noteq> []" using assms(3,4) by auto
  obtain k1 where d1: "lib_derive lib h (lib_KDF_VERSION_BEST lib) (take 32 src1) k = ((NO_ERROR, version, kdf (take 32 src1)), k1)"
    "length (kdf (take 32 src1)) = 32" "held k1 = held k" "sessions k1 = sessions k" "ready n k1"
    using derives [OF assms(1,2) _ ne(1), of "lib_KDF_VERSION_BEST lib"] assms(3) by auto
  obtain k2 where d2: "lib_derive lib h version (take 32 src2) k1 = ((NO_ERROR, version, kdf (take 32 src2)), k2)"
    "length (kdf (take 32 src2)) = 32" "held k2 = held k" "sessions k2 = sessions k" "ready n k2"
    using derives [OF d1(5) _ _ ne(2), of h version] assms(2,4) d1(3,4) by auto
  have "run_state (derive_twice lib src1 src2 rest) (passing k h) =
      run_state (rest (kdf (take 32 src1)) (kdf (take 32 src2))) (passing k2 h)"
    using d1(1,2) d2(1,2) version by (simp add: derive_twice_def run_hk_derive)
  then show ?thesis by (rule that) (use d2 in auto)
qed

lemma src_data_lengths: "length src_data = 33" "length src_data2 = 33"
  by (simp_all add: src_data_def src_data2_def bytes_of_def)

lemma derive_fixture:
  assumes "ready n k" and "held k = Map.empty" and "32 \<le> length src1" and "32 \<le> length src2"
    and "\<And>k h. hk_failed (snd (run_state (rest (kdf (take 32 src1)) (kdf (take 32 src2))) (passing k h))) \<longleftrightarrow> P"
  shows "hk_failed (snd (run_state (hk_fixture lib (derive_twice lib src1 src2 rest)) (passing k x))) \<longleftrightarrow> P"
proof -
  let ?body = "derive_twice lib src1 src2 rest"
  obtain h k1 where f: "run_state (hk_fixture lib ?body) (passing k x) =
      (let s = snd (run_state ?body (passing k1 h)) in ((), s\<lparr>hk_world := lib_close lib (hwkey_session s) (hk_world s)\<rparr>))"
    "ready 2 k1" "h \<in> sessions k1"
    by (rule fixture_run [OF assms(1,2), where body = ?body])
  obtain k2 where "run_state ?body (passing k1 h) =
      run_state (rest (kdf (take 32 src1)) (kdf (take 32 src2))) (passing k2 h)"
    by (rule derive_twice_run [OF f(2,3) assms(3,4)])
  with f(1) assms(5) [of k2 h] show ?thesis by (simp add: Let_def)
qed

lemma derive_repeatable_fixture:
  assumes "ready n k" and "held k = Map.empty"
  shows "hk_failed (snd (run_state (hk_fixture lib (derive_repeatable lib)) (passing k x))) \<longleftrightarrow>
    kdf (take 32 src_data) = take 32 src_data"
  unfolding derive_repeatable_def by (rule derive_fixture [OF assms]) (simp_all add: src_data_lengths)

lemma derive_different_fixture:
  assumes "ready n k" and "held k = Map.empty"
  shows "hk_failed (snd (run_state (hk_fixture lib (derive_different lib)) (passing k x))) \<longleftrightarrow>
    kdf (take 32 src_data) = kdf (take 32 src_data2) \<or> kdf (take 32 src_data) = take 32 src_data \<or>
    kdf (take 32 src_data2) = take 32 src_data2"
  unfolding derive_different_def by (rule derive_fixture [OF assms]) (simp_all add: src_data_lengths)

end

end
