(* ===== verification/Hwkey_Test_Srv.thy ===== *)
theory Hwkey_Test_Srv
  imports Hwkey_Test Hwkey_Requests
begin

text \<open>
  The key tests of \<open>Hwkey_Test\<close> run against the hwkey service of \<open>Hwkey_Srv\<close> with the fake key provider and the
  fake random device. The hwkey client library is not part of the repository: the locale \<open>hwkey_carrier\<close> says that it carries the
  requests to the handlers of the service and the responses back. From it the contracts \<open>key_requests\<close>, \<open>key_store\<close> and
  \<open>key_derivation\<close> are derived for every build configuration, so that any sequence of the tests of a build passes from any
  reachable state without live handles. A library that keeps the contract, for the examples, ends the theory.
\<close>

section \<open>The service behind a library\<close>

text \<open>
  An event of the service as a client causes it: a connection that is accepted, with memory for its context, and a request. The
  service has memory for a handle, and its responses are sent.
\<close>

definition accept_env :: "crypto \<Rightarrow> nat \<Rightarrow> int \<Rightarrow> hwkey_env" where
  "accept_env C a ch =
     \<lparr>crypto_env = C, node_calloc = True, recv_res = Inl (-1), send_rc = 0,
      chan_errors_abort = False, port_errors_abort = False,
      accept_res = Inr (ch, hwcrypto_unittest_uuid), ctx_calloc = Some a, set_cookie_rc = 0\<rparr>"

definition request_env :: "crypto \<Rightarrow> u32 \<Rightarrow> u32 \<Rightarrow> byte list \<Rightarrow> hwkey_env" where
  "request_env C command arg payload =
     \<lparr>crypto_env = C, node_calloc = True,
      recv_res = Inr (\<lparr>cmd = command, status = HWKEY_NO_ERROR, arg1 = arg\<rparr>, payload), send_rc = 0,
      chan_errors_abort = False, port_errors_abort = False,
      accept_res = Inl (-1), ctx_calloc = None, set_cookie_rc = 0\<rparr>"

definition connected_event :: uevent where
  "connected_event = \<lparr>ev_handle = 0, ev_event = {IPC_HANDLE_POLL_READY}\<rparr>"

definition hangup_event :: "hwkey_chan_ctx \<Rightarrow> uevent" where
  "hangup_event ctx = \<lparr>ev_handle = chan ctx, ev_event = {IPC_HANDLE_POLL_HUP}\<rparr>"

definition message_event :: "hwkey_chan_ctx \<Rightarrow> uevent" where
  "message_event ctx = \<lparr>ev_handle = chan ctx, ev_event = {IPC_HANDLE_POLL_MSG}\<rparr>"

text \<open>The state is the one the service leaves, if it handles the event without a fault.\<close>

definition becomes :: "'s res \<Rightarrow> 's \<Rightarrow> bool" where
  "becomes r s \<longleftrightarrow> (\<forall>s'. r = Inr s' \<longrightarrow> s = s')"

text \<open>
  What the library promises, on a world \<open>'k\<close> of which \<open>srv\<close> is the state of the service and \<open>conn\<close> the context of the service that each
  session of the client is connected to. Opening and closing a session are events of the port and of the channel. A request is a
  message on the channel; when the service answers with one message, the result is the status of that message as a return code,
  \<open>rc\<close>, and, with no error and enough room, its payload.
\<close>

locale hwkey_carrier =
  fixes p :: hwkey_proto and C :: crypto and cfg :: hwkey_config and lib :: "'k hwkey_lib" and good :: "'k \<Rightarrow> bool"
    and srv :: "'k \<Rightarrow> (64 word) hwkey_state" and conn :: "'k \<Rightarrow> int \<rightharpoonup> nat" and rc :: "hwkey_status \<Rightarrow> int"
  assumes config: "config_ok cfg" and crypto: "bssl_ok C"
    and codes: "rc HWKEY_NO_ERROR = NO_ERROR" "rc HWKEY_ERR_NOT_FOUND = lib_ERR_NOT_FOUND lib"
      "rc HWKEY_ERR_ALREADY_EXISTS = lib_ERR_ALREADY_EXISTS lib"
    and best: "lib_KDF_VERSION_BEST lib = HWKEY_KDF_VERSION_BEST p"
    and sizes: "HWKEY_OPAQUE_HANDLE_SIZE \<le> lib_HANDLE_MAX_SIZE lib" "length (lib_uninit lib n) = n"
    and opened: "good k \<Longrightarrow> \<exists>h a ch k'. lib_open lib k = (h, k') \<and> 0 \<le> h \<and> conn k h = None \<and> conn k' = (conn k)(h \<mapsto> a) \<and>
      ctxs (srv k) a = None \<and> good k' \<and>
      becomes (hwkey_port_handler (fake_provider cfg) (accept_env C a ch) connected_event (srv k)) (srv k')"
    and closed: "good k \<Longrightarrow> conn k h = Some a \<Longrightarrow> ctxs (srv k) a = Some ctx \<Longrightarrow>
      good (lib_close lib h k) \<and> conn (lib_close lib h k) = (conn k)(h := None) \<and>
      becomes (hwkey_chan_handler p (fake_provider cfg) fake_dev (request_env C 0 0 []) (hangup_event ctx) a (srv k))
        (srv (lib_close lib h k))"
    and got: "good k \<Longrightarrow> conn k h = Some a \<Longrightarrow> ctxs (srv k) a = Some ctx \<Longrightarrow> length slot_id \<le> 2048 \<Longrightarrow>
      hwkey_chan_handler p (fake_provider cfg) fake_dev (request_env C (HWKEY_GET_KEYSLOT p) 0 slot_id) (message_event ctx) a (srv k) = Inr s \<Longrightarrow>
      outs s = outs (srv k) @ [Sent (chan ctx) rsp d] \<Longrightarrow> length d \<le> room \<Longrightarrow>
      \<exists>k'. lib_get_keyslot_data lib h slot_id room k = ((rc (status rsp), if status rsp = HWKEY_NO_ERROR then d else []), k') \<and>
        srv k' = s \<and> conn k' = conn k \<and> good k'"
    and derived: "good k \<Longrightarrow> conn k h = Some a \<Longrightarrow> ctxs (srv k) a = Some ctx \<Longrightarrow> src \<noteq> [] \<Longrightarrow> length src \<le> 2048 \<Longrightarrow>
      hwkey_chan_handler p (fake_provider cfg) fake_dev (request_env C (HWKEY_DERIVE p) v src) (message_event ctx) a (srv k) = Inr s \<Longrightarrow>
      outs s = outs (srv k) @ [Sent (chan ctx) rsp d] \<Longrightarrow> status rsp = HWKEY_NO_ERROR \<Longrightarrow> length d = length src \<Longrightarrow>
      \<exists>k'. lib_derive lib h v src k = ((rc (status rsp), arg1 rsp, d), k') \<and> srv k' = s \<and> conn k' = conn k \<and> good k'"

subsection \<open>Tokens of the counter\<close>

definition next_token :: "64 word \<Rightarrow> byte list" where
  "next_token c = (case token_loop fake_dev c zero_token of Some (_, t, _) \<Rightarrow> t | None \<Rightarrow> [])"

lemma map_upt_two: "map f [0..<Suc (Suc n)] = f 0 # f 1 # map f [2..<Suc (Suc n)]"
  by (simp add: upt_conv_Cons numeral_2_eq_2 del: upt_Suc)

lemma next_token:
  "token_loop fake_dev c zero_token = Some (NO_ERROR, next_token c, c + 34)"
  "valid_token (next_token c)"
  "hd (next_token c) = (if ucast c = (0 :: byte) then 1 else ucast c)"
proof -
  define bs where "bs = (map (\<lambda>i. ucast c + of_nat i) [0..<34] :: byte list)"
  have "fst (snd (fake_dev c 34)) = bs" unfolding bs_def by (rule fake_bytes) simp
  then have d: "fake_dev c 34 = (NO_ERROR, bs, c + 34)" by (auto simp: fake_get_eq)
  obtain t off where f: "fill_token bs zero_token 0 = (t, off)" by fastforce
  have off: "off = 31"
    using fake_block_nonzero [of "ucast c", folded bs_def] f
    by (simp add: fill_token_0 [OF zero_token_buffer] Let_def)
  have r: "round_ends fake_dev c" by (rule fake_round_ends) simp
  have l: "token_loop fake_dev c zero_token = Some (NO_ERROR, t, c + 34)"
    using token_loop_step [where dev = fake_dev and r = c, OF zero_token_buffer d f] r by simp
  then have n: "next_token c = t" by (simp add: next_token_def)
  from l n show "token_loop fake_dev c zero_token = Some (NO_ERROR, next_token c, c + 34)" by simp
  note v = fill_token_complete [OF zero_token_buffer f [unfolded off]]
  show "valid_token (next_token c)" using v n by simp
  then obtain nz where "t = nz @ [0]" "length nz = 31" using n by (auto simp: valid_token_def)
  then have "hd t = hd (butlast t)" by (cases nz) auto
  then have "hd t = hd (take 31 (filter (\<lambda>b. b \<noteq> 0) bs))" using v by auto
  moreover obtain rest where "bs = ucast c # (ucast c + 1) # rest"
  proof -
    have n: "34 = Suc (Suc 32)" by simp
    define rest where "rest = (map (\<lambda>i. ucast c + of_nat i) [2..<Suc (Suc 32)] :: byte list)"
    have "bs = (ucast c + of_nat 0) # (ucast c + of_nat 1) # rest"
      unfolding bs_def n map_upt_two rest_def ..
    then show ?thesis by (intro that [of rest]) simp
  qed
  ultimately show "hd (next_token c) = (if ucast c = (0 :: byte) then 1 else ucast c)"
    using n by simp
qed

lemma next_token_differs: "next_token (c + 34) \<noteq> next_token c"
proof
  assume "next_token (c + 34) = next_token c"
  then have h: "hd (next_token (c + 34)) = hd (next_token c)" by simp
  have u: "(ucast (c + 34) :: byte) = ucast c + 34" by (subst ucast_add_byte) simp_all
  have e: "(if ucast c + 34 = (0 :: byte) then 1 else ucast c + 34) = (if ucast c = (0 :: byte) then 1 else ucast c :: byte)"
    using h by (simp only: next_token(3) u)
  have "b = 222" if "b + 34 = (0 :: byte)" for b
  proof -
    have "b = b + 34 - 34" by simp
    also have "\<dots> = 222" using that by simp
    finally show ?thesis .
  qed
  with e show False by (auto split: if_splits)
qed

subsection \<open>The slots of the tests\<close>

text \<open>
  The documented behaviour of AES-256-CBC on the test vector of the provider: the key of the unit tests
  decrypts it to the derived key, without padding.
\<close>

definition decrypts_unittest :: "crypto \<Rightarrow> bool" where
  "decrypts_unittest C \<longleftrightarrow>
     EVP_CIPHER_CTX_new C \<and> EVP_DecryptInit C EVP_aes_256_cbc \<and> EVP_iv_length C EVP_aes_256_cbc = 16 \<and>
     EVP_set_padding C \<and>
     (let iv = take 16 unittest_encrypted_key32; ct = drop 16 unittest_encrypted_key32 in
       EVP_DecryptInit_key C EVP_aes_256_cbc unittest_key32 iv \<and>
       EVP_DecryptUpdate C EVP_aes_256_cbc unittest_key32 iv ct = (True, UNITTEST_DERIVED_KEYSLOT) \<and>
       EVP_DecryptFinal C EVP_aes_256_cbc unittest_key32 iv ct = (True, 0))"

text \<open>The slots the tests open; the derived one when its key can be decrypted.\<close>

definition svc_names :: "crypto \<Rightarrow> byte list set" where
  "svc_names C = {OPAQUE_HANDLE_ID, OPAQUE_HANDLE2_ID, OPAQUE_HANDLE_NOACCESS_ID} \<union>
     (if decrypts_unittest C then {OPAQUE_DERIVED_ID} else {})"

definition svc_readable :: "byte list \<Rightarrow> byte list option" where
  "svc_readable i = (if i \<in> {OPAQUE_HANDLE_ID, OPAQUE_HANDLE2_ID} then Some UNITTEST_KEYSLOT
     else if i = OPAQUE_DERIVED_ID then Some UNITTEST_DERIVED_KEYSLOT else None)"

definition svc_plain :: "crypto \<Rightarrow> hwkey_config \<Rightarrow> byte list \<rightharpoonup> byte list" where
  "svc_plain C cfg i = (if \<not> WITH_HWCRYPTO_UNITTEST cfg then None
     else if i = KEYBOX_ID then Some UNITTEST_KEYSLOT
     else if i = DERIVED_KEYBOX_ID \<and> decrypts_unittest C then Some UNITTEST_DERIVED_KEYSLOT else None)"

definition svc_hidden :: "hwkey_config \<Rightarrow> byte list set" where
  "svc_hidden cfg = insert RPMB_STORAGE_AUTH_KEY_ID
     (if WITH_HWCRYPTO_UNITTEST cfg then {} else {OPAQUE_HANDLE_ID, KEYBOX_ID, DERIVED_KEYBOX_ID})"

lemmas test_ids = OPAQUE_HANDLE_ID_def OPAQUE_HANDLE2_ID_def OPAQUE_HANDLE_NOACCESS_ID_def OPAQUE_DERIVED_ID_def
  KEYBOX_ID_def DERIVED_KEYBOX_ID_def RPMB_STORAGE_AUTH_KEY_ID_def

lemma test_keys: "UNITTEST_KEYSLOT = unittest_key32" "length UNITTEST_DERIVED_KEYSLOT = 32"
  by (simp_all add: UNITTEST_KEYSLOT_def unittest_key32_def UNITTEST_DERIVED_KEYSLOT_def)

lemma derived_key_decrypted:
  assumes "decrypts_unittest C" and "length kbuf = 2048"
  shows "hwkey_get_derived_key C hwcrypto_unittest_derived_data kbuf =
    Inr (HWKEY_NO_ERROR, UNITTEST_DERIVED_KEYSLOT @ drop 32 kbuf, Some 32)"
proof -
  have l: "length unittest_encrypted_key32 = 48" by (simp add: unittest_encrypted_key32_def)
  have r: "dk_retriever hwcrypto_unittest_derived_data C (replicate HWKEY_DERIVED_KEY_MAX_SIZE 0) =
      Inr (HWKEY_NO_ERROR, unittest_key32, Some 32)"
    by (simp add: hwcrypto_unittest_derived_data_def get_unittest_key32_derived_def get_unittest_key32_eq)
  have d: "encrypted_key_data hwcrypto_unittest_derived_data = unittest_encrypted_key32"
    "encrypted_key_size hwcrypto_unittest_derived_data = 48"
    by (simp_all add: hwcrypto_unittest_derived_data_def l)
  have t: "take 32 (drop 16 unittest_encrypted_key32) = drop 16 unittest_encrypted_key32" using l by simp
  show ?thesis
    using assms unfolding hwkey_get_derived_key_def r
    by (simp add: derived_cipher_def d l t decrypts_unittest_def Let_def memcpy_to_def test_keys)
qed

definition node_id :: "hwkey_config \<Rightarrow> opaque_handle_node \<Rightarrow> byte list" where
  "node_id cfg e = bytes_of (key_id (key_table cfg ! key_slot e))"

text \<open>The handles are those of the tests' slots, and the next \<open>n\<close> tokens are new.\<close>

definition tokens_ready :: "crypto \<Rightarrow> hwkey_config \<Rightarrow> nat \<Rightarrow> (64 word) hwkey_state \<Rightarrow> bool" where
  "tokens_ready C cfg n s \<longleftrightarrow>
     node_id cfg ` set (opaque_handles s) \<subseteq> svc_names C \<and> distinct (map token (opaque_handles s)) \<and>
     (\<forall>i < n. next_token (rng s + 34 * of_nat i) \<notin> token ` set (opaque_handles s)) \<and>
     inj_on (\<lambda>i. next_token (rng s + 34 * of_nat i)) {..<n}"

text \<open>What the table says of a slot the tests open.\<close>

definition opens_slot :: "crypto \<Rightarrow> hwkey_keyslot \<Rightarrow> bool" where
  "opens_slot C sl \<longleftrightarrow> slot_uuid sl = hwcrypto_unittest_uuid \<and> is_opaque_handle sl \<and>
     (\<exists>h. slot_priv sl = Handle_priv h \<and>
       (hwcrypto_unittest_uuid \<in> set (allowed_uuids h) \<longleftrightarrow> svc_readable (bytes_of (key_id sl)) \<noteq> None) \<and>
       (\<forall>key kbuf. svc_readable (bytes_of (key_id sl)) = Some key \<longrightarrow> length kbuf = 2048 \<longrightarrow>
         oh_retriever h (oh_priv h) C kbuf = Inr (HWKEY_NO_ERROR, key @ drop (length key) kbuf, Some (length key))))"

lemma opens_slotI:
  assumes "slot_uuid sl = hwcrypto_unittest_uuid" and "slot_handler sl = Some Get_key_handle"
    and "slot_priv sl = Handle_priv h"
    and "hwcrypto_unittest_uuid \<in> set (allowed_uuids h) \<longleftrightarrow> svc_readable (bytes_of (key_id sl)) \<noteq> None"
    and "\<And>key kbuf. svc_readable (bytes_of (key_id sl)) = Some key \<Longrightarrow> length kbuf = 2048 \<Longrightarrow>
      oh_retriever h (oh_priv h) C kbuf = Inr (HWKEY_NO_ERROR, key @ drop (length key) kbuf, Some (length key))"
  shows "opens_slot C sl"
  using assms by (simp add: opens_slot_def is_opaque_handle_def)

lemma svc_readable_simps:
  "svc_readable OPAQUE_HANDLE_ID = Some UNITTEST_KEYSLOT" "svc_readable OPAQUE_HANDLE2_ID = Some UNITTEST_KEYSLOT"
  "svc_readable OPAQUE_HANDLE_NOACCESS_ID = None" "svc_readable OPAQUE_DERIVED_ID = Some UNITTEST_DERIVED_KEYSLOT"
  by (simp_all add: svc_readable_def test_ids bytes_of_inj)

text \<open>The four slots of the unit test table, each by its position.\<close>

lemma slot_ids:
  "key_id (unittest_slots ! 0) = ''com.android.trusty.hwcrypto.unittest.key32''"
  "key_id (unittest_slots ! 1) = ''com.android.trusty.hwcrypto.unittest.derived_key32''"
  "bytes_of (key_id (unittest_slots ! 2)) = OPAQUE_HANDLE_ID" "bytes_of (key_id (unittest_slots ! 3)) = OPAQUE_HANDLE2_ID"
  "bytes_of (key_id (unittest_slots ! 4)) = OPAQUE_HANDLE_NOACCESS_ID" "bytes_of (key_id (unittest_slots ! 5)) = OPAQUE_DERIVED_ID"
  "length unittest_slots = 7"
  by (simp_all add: unittest_slots_def test_ids)

lemmas slot_data = unittest_opaque_handle_data_def unittest_opaque_handle_data2_def unittest_opaque_handle_data_noaccess_def
  unittest_opaque_derived_data_def unittest_allowed_opaque_key_uuids_def

lemma opens_test_slots:
  "opens_slot C (unittest_slots ! 2)" "opens_slot C (unittest_slots ! 3)" "opens_slot C (unittest_slots ! 4)"
  "decrypts_unittest C \<Longrightarrow> opens_slot C (unittest_slots ! 5)"
proof -
  show "opens_slot C (unittest_slots ! 2)"
  proof (rule opens_slotI [where h = unittest_opaque_handle_data])
    show "oh_retriever unittest_opaque_handle_data (oh_priv unittest_opaque_handle_data) C kbuf =
        Inr (HWKEY_NO_ERROR, key @ drop (length key) kbuf, Some (length key))"
      if "svc_readable (bytes_of (key_id (unittest_slots ! 2))) = Some key" "length kbuf = 2048" for key kbuf
      using that by (simp add: slot_ids svc_readable_simps test_keys slot_data get_unittest_key32_opaque_def get_unittest_key32_eq)
  qed (simp_all add: slot_ids svc_readable_simps slot_data, simp_all add: unittest_slots_def slot_data)
  show "opens_slot C (unittest_slots ! 3)"
  proof (rule opens_slotI [where h = unittest_opaque_handle_data2])
    show "oh_retriever unittest_opaque_handle_data2 (oh_priv unittest_opaque_handle_data2) C kbuf =
        Inr (HWKEY_NO_ERROR, key @ drop (length key) kbuf, Some (length key))"
      if "svc_readable (bytes_of (key_id (unittest_slots ! 3))) = Some key" "length kbuf = 2048" for key kbuf
      using that by (simp add: slot_ids svc_readable_simps test_keys slot_data get_unittest_key32_opaque_def get_unittest_key32_eq)
  qed (simp_all add: slot_ids svc_readable_simps slot_data, simp_all add: unittest_slots_def slot_data)
  show "opens_slot C (unittest_slots ! 4)"
    by (rule opens_slotI [where h = unittest_opaque_handle_data_noaccess])
       (simp_all add: slot_ids svc_readable_simps slot_data, simp_all add: unittest_slots_def slot_data)
  show "opens_slot C (unittest_slots ! 5)" if d: "decrypts_unittest C"
  proof (rule opens_slotI [where h = unittest_opaque_derived_data])
    show "oh_retriever unittest_opaque_derived_data (oh_priv unittest_opaque_derived_data) C kbuf =
        Inr (HWKEY_NO_ERROR, key @ drop (length key) kbuf, Some (length key))"
      if "svc_readable (bytes_of (key_id (unittest_slots ! 5))) = Some key" "length kbuf = 2048" for key kbuf
      using that derived_key_decrypted [OF d that(2)]
      by (simp add: slot_ids svc_readable_simps test_keys slot_data get_derived_key_opaque_def derived_data_def)
  qed (simp_all add: slot_ids svc_readable_simps slot_data, simp_all add: unittest_slots_def slot_data)
qed

lemma test_slot_in_table:
  assumes "WITH_HWCRYPTO_UNITTEST cfg" and "n < 7"
  shows "unittest_slots ! n \<in> set (key_table cfg)"
  using assms slot_ids(7) nth_mem [of n unittest_slots] by (simp add: key_table_def)

lemma table_slot_unique:
  assumes "sl \<in> set (key_table cfg)" and "sl' \<in> set (key_table cfg)" and "bytes_of (key_id sl) = bytes_of (key_id sl')"
  shows "sl = sl'"
  using assms key_table_distinct [of cfg] by (auto simp: distinct_map inj_on_def bytes_of_inj)

lemma svc_name_slot:
  assumes "i \<in> svc_names C"
  obtains n where "n < 7" "bytes_of (key_id (unittest_slots ! n)) = i" "opens_slot C (unittest_slots ! n)"
proof -
  consider "i = OPAQUE_HANDLE_ID" | "i = OPAQUE_HANDLE2_ID" | "i = OPAQUE_HANDLE_NOACCESS_ID" |
    "i = OPAQUE_DERIVED_ID" "decrypts_unittest C"
    using assms by (auto simp: svc_names_def split: if_splits)
  then show ?thesis
    by cases (rule that [of 2] that [of 3] that [of 4] that [of 5], simp_all add: slot_ids opens_test_slots)+
qed

lemma svc_slot:
  assumes "WITH_HWCRYPTO_UNITTEST cfg" and "sl \<in> set (key_table cfg)" and "bytes_of (key_id sl) \<in> svc_names C"
  shows "opens_slot C sl"
proof -
  obtain n where n: "n < 7" "bytes_of (key_id (unittest_slots ! n)) = bytes_of (key_id sl)" "opens_slot C (unittest_slots ! n)"
    by (rule svc_name_slot [OF assms(3)])
  then show ?thesis using table_slot_unique [OF assms(2) test_slot_in_table [OF assms(1) n(1)]] by simp
qed

lemma svc_name_index:
  assumes "WITH_HWCRYPTO_UNITTEST cfg" and "i \<in> svc_names C"
  obtains j where "j < length (key_table cfg)" "bytes_of (key_id (key_table cfg ! j)) = i"
proof -
  obtain n where "n < 7" "bytes_of (key_id (unittest_slots ! n)) = i" by (rule svc_name_slot [OF assms(2)])
  with test_slot_in_table [OF assms(1)] show ?thesis using that by (metis in_set_conv_nth)
qed

lemma distinct_map_token:
  "distinct (map f xs) \<Longrightarrow> x \<in> set xs \<Longrightarrow> y \<in> set xs \<Longrightarrow> f y = f x \<Longrightarrow> y = x"
  by (auto simp: distinct_map inj_on_def)

lemma tokens_ready_issue:
  assumes "tokens_ready C cfg (Suc n) s" and "opaque_handles s' = opaque_handles s @ [e]" and "token e = next_token (rng s)"
    and "node_id cfg e \<in> svc_names C" and "rng s' = rng s + 34"
  shows "tokens_ready C cfg n s'"
proof -
  have shift: "rng s + 34 + 34 * of_nat i = rng s + 34 * of_nat (Suc i)" for i
    by (simp add: algebra_simps)
  have f: "next_token (rng s + 34 * of_nat i) \<notin> token ` set (opaque_handles s)" if "i < Suc n" for i
    using assms(1) that by (simp add: tokens_ready_def)
  have inj: "inj_on (\<lambda>i. next_token (rng s + 34 * of_nat i)) {..<Suc n}"
    using assms(1) by (simp add: tokens_ready_def)
  have new: "next_token (rng s + 34 * of_nat (Suc i)) \<noteq> next_token (rng s)" if "i < n" for i
    using inj_onD [OF inj, of "Suc i" 0] that by auto
  have "inj_on (\<lambda>i. next_token (rng s + 34 * of_nat (Suc i))) {..<n}"
    using inj_onD [OF inj, of "Suc _" "Suc _"] by (intro inj_onI) (simp del: of_nat_Suc)
  moreover have "next_token (rng s) \<notin> token ` set (opaque_handles s)" using f [of 0] by simp
  ultimately show ?thesis
    using assms f new unfolding tokens_ready_def by (simp add: shift del: of_nat_Suc)
qed

lemma tokens_ready_empty:
  assumes "opaque_handles s = []"
  shows "tokens_ready C cfg 2 s" "tokens_ready C cfg 0 s"
proof -
  have "inj_on (\<lambda>i. next_token (rng s + 34 * of_nat i)) {..<2}"
    using next_token_differs [of "rng s"] by (auto simp: inj_on_def numeral_2_eq_2 less_Suc_eq)
  with assms show "tokens_ready C cfg 2 s" "tokens_ready C cfg 0 s" by (simp_all add: tokens_ready_def)
qed

section \<open>The service keeps the contracts of the tests\<close>

context hwkey_carrier
begin

text \<open>
  The service behind the sessions of the client: its invariant, a context for each session and no other one that holds a handle.
\<close>

definition client_ctx :: "int \<Rightarrow> hwkey_chan_ctx" where
  "client_ctx ch = \<lparr>chan = ch, ctx_uuid = hwcrypto_unittest_uuid\<rparr>"

definition sessions :: "'k \<Rightarrow> int set" where
  "sessions k = dom (conn k)"

definition session_of :: "'k \<Rightarrow> nat \<Rightarrow> int" where
  "session_of k a = (SOME h. conn k h = Some a)"

definition held :: "'k \<Rightarrow> byte list \<rightharpoonup> int \<times> byte list" where
  "held k = map_of (map (\<lambda>e. (node_id cfg e, (session_of k (owner e), token e))) (opaque_handles (srv k)))"

definition ready :: "nat \<Rightarrow> 'k \<Rightarrow> bool" where
  "ready n k \<longleftrightarrow> good k \<and> hwkey_inv (fake_provider cfg) (key_table cfg) (srv k) \<and> inj_on (conn k) (dom (conn k)) \<and>
     (\<forall>a \<in> ran (conn k). \<exists>ch. ctxs (srv k) a = Some (client_ctx ch)) \<and>
     owner ` set (opaque_handles (srv k)) \<subseteq> ran (conn k) \<and> tokens_ready C cfg n (srv k)"

lemma readyD:
  assumes "ready n k"
  shows "good k" "hwkey_inv (fake_provider cfg) (key_table cfg) (srv k)" "inj_on (conn k) (dom (conn k))" "tokens_ready C cfg n (srv k)"
    "\<And>e. e \<in> set (opaque_handles (srv k)) \<Longrightarrow> node_id cfg e \<in> svc_names C"
    "\<And>e e'. e \<in> set (opaque_handles (srv k)) \<Longrightarrow> e' \<in> set (opaque_handles (srv k)) \<Longrightarrow> token e' = token e \<Longrightarrow> e' = e"
    "\<And>h a. conn k h = Some a \<Longrightarrow> \<exists>ch. ctxs (srv k) a = Some (client_ctx ch)"
    "\<And>e. e \<in> set (opaque_handles (srv k)) \<Longrightarrow> \<exists>h. conn k h = Some (owner e)"
  using assms by (auto simp: ready_def tokens_ready_def ran_def dest: distinct_map_token)

lemma session_of_eq:
  assumes "ready n k" and "conn k h = Some a"
  shows "session_of k a = h"
proof -
  have "conn k (session_of k a) = Some a" unfolding session_of_def using assms(2) by (rule someI)
  with assms(2) inj_onD [OF readyD(3) [OF assms(1)]] show ?thesis by (metis domI)
qed

lemma ready_session:
  assumes "ready n k" and "h \<in> sessions k"
  obtains a ch where "conn k h = Some a" "ctxs (srv k) a = Some (client_ctx ch)" "session_of k a = h"
  using that assms(2) readyD(7) [OF assms(1)] session_of_eq [OF assms(1)] by (auto simp: sessions_def) metis

lemma held_Some:
  assumes "ready n k"
  shows "held k i = Some (h, t) \<longleftrightarrow>
    (\<exists>e \<in> set (opaque_handles (srv k)). node_id cfg e = i \<and> conn k h = Some (owner e) \<and> t = token e)"
proof -
  note inv = readyD(2) [OF assms]
  have "key_slot e < length (key_table cfg)" if "e \<in> set (opaque_handles (srv k))" for e
    using hwkey_invD(2) [OF inv that] by (simp add: node_ok_def)
  then have "node_id cfg x = node_id cfg y \<longleftrightarrow> key_slot x = key_slot y"
    if "x \<in> set (opaque_handles (srv k))" "y \<in> set (opaque_handles (srv k))" for x y
    using that nth_eq_iff_index_eq [OF key_table_distinct [of cfg], of "key_slot x" "key_slot y"]
    by (simp add: node_id_def bytes_of_inj)
  then have "inj_on (node_id cfg) (set (opaque_handles (srv k)))"
    using hwkey_invD(3) [OF inv] by (simp add: distinct_map inj_on_def)
  moreover have "distinct (opaque_handles (srv k))" using hwkey_invD(3) [OF inv] by (simp add: distinct_map)
  ultimately have "distinct (map (node_id cfg) (opaque_handles (srv k)))" by (simp add: distinct_map)
  then have "held k i = Some (h, t) \<longleftrightarrow>
      (\<exists>e \<in> set (opaque_handles (srv k)). node_id cfg e = i \<and> h = session_of k (owner e) \<and> t = token e)"
    by (auto simp: held_def o_def)
  moreover have "h = session_of k (owner e) \<longleftrightarrow> conn k h = Some (owner e)" if "e \<in> set (opaque_handles (srv k))" for e
    using readyD(8) [OF assms that] session_of_eq [OF assms] by metis
  ultimately show ?thesis by blast
qed

text \<open>What keeps the store ready: the same handles and counter.\<close>

lemma ready_keep:
  assumes "ready n k" and "good k'" and "conn k' = conn k" and "hwkey_inv (fake_provider cfg) (key_table cfg) (srv k')"
    and "opaque_handles (srv k') = opaque_handles (srv k)" and "rng (srv k') = rng (srv k)" and "ctxs (srv k') = ctxs (srv k)"
  shows "ready n k'" "held k' = held k" "sessions k' = sessions k"
  using assms by (simp_all add: ready_def tokens_ready_def held_def session_of_def sessions_def)

lemma held_empty: "held k = Map.empty \<longleftrightarrow> opaque_handles (srv k) = []"
  by (cases "opaque_handles (srv k)") (auto simp: held_def)

lemma ready_empty: "ready n k \<Longrightarrow> held k = Map.empty \<Longrightarrow> ready 2 k"
  by (simp add: ready_def held_empty tokens_ready_empty)

lemma request_env_ok:
  "length payload \<le> 2048 \<Longrightarrow> env_ok bssl_ok cs (request_env C command arg payload)"
  "ctxs s a = None \<Longrightarrow> env_ok bssl_ok (ctxs s) (accept_env C a ch)"
  using crypto by (simp_all add: env_ok_def request_env_def accept_env_def)

lemma opens_session:
  assumes "ready n k"
  shows "\<exists>h k'. lib_open lib k = (h, k') \<and> 0 \<le> h \<and> h \<notin> sessions k \<and>
    sessions k' = insert h (sessions k) \<and> held k' = held k \<and> ready n k'"
proof -
  note r = readyD [OF assms]
  obtain h a ch k' where o: "lib_open lib k = (h, k')" "0 \<le> h" "conn k h = None" "conn k' = (conn k)(h \<mapsto> a)"
    "ctxs (srv k) a = None" "good k'"
    "becomes (hwkey_port_handler (fake_provider cfg) (accept_env C a ch) connected_event (srv k)) (srv k')"
    using opened [OF r(1)] by blast
  let ?s = "(srv k)\<lparr>ctxs := (ctxs (srv k))(a \<mapsto> client_ctx ch)\<rparr>"
  have h: "hwkey_port_handler (fake_provider cfg) (accept_env C a ch) connected_event (srv k) = Inr ?s"
    by (simp add: hwkey_port_handler_def accept_env_def connected_event_def client_ctx_def fake_provider_def fake_client_allowed_def
        allowed_clients_def Let_def)
  then have s: "srv k' = ?s" using o(7) by (simp add: becomes_def)
  have inv: "hwkey_inv (fake_provider cfg) (key_table cfg) ?s"
    using hwkey_service.port_handler_total [OF fake_service [OF config] r(2) request_env_ok(2) [OF o(5)], of ch connected_event] h by simp
  have na: "a \<notin> ran (conn k)" using o(5) r(7) by (fastforce simp: ran_def)
  have ran: "ran (conn k') = insert a (ran (conn k))" using o(3,4) by simp
  have "inj_on (conn k') (dom (conn k'))"
    using r(3) na o(3,4) by (auto simp: inj_on_def ran_def)
  then have rd: "ready n k'"
    using assms o(6) inv ran na unfolding ready_def s by (auto simp: tokens_ready_def)
  have "held k' i = Some (h', t) \<longleftrightarrow> held k i = Some (h', t)" for i h' t
    unfolding held_Some [OF rd] held_Some [OF assms] using s o(3,4) r(8) na by (auto simp: ran_def)
  then have "held k' i = held k i" for i by (metis option.exhaust surj_pair)
  with o rd show ?thesis by (auto simp: sessions_def fun_eq_iff)
qed

lemma closes_session:
  assumes "ready n k" and "h \<in> sessions k"
  shows "ready n (lib_close lib h k) \<and> sessions (lib_close lib h k) = sessions k - {h} \<and>
    held (lib_close lib h k) = without h (held k)"
proof -
  note r = readyD [OF assms(1)]
  obtain a ch where a: "conn k h = Some a" "ctxs (srv k) a = Some (client_ctx ch)" by (rule ready_session [OF assms])
  let ?k = "lib_close lib h k"
  have c: "good ?k" "conn ?k = (conn k)(h := None)"
    "becomes (hwkey_chan_handler p (fake_provider cfg) fake_dev (request_env C 0 0 []) (hangup_event (client_ctx ch)) a (srv k)) (srv ?k)"
    using closed [OF r(1) a] by auto
  obtain s' where x: "hwkey_ctx_close a (srv k) = Inr s'" "hwkey_inv (fake_provider cfg) (key_table cfg) s'"
    using hwkey_ctx_close_inv [OF r(2) a(2)] by blast
  then have s': "opaque_handles s' = filter (\<lambda>e. owner e \<noteq> a) (opaque_handles (srv k))"
    "ctxs s' = (ctxs (srv k))(a := None)" "rng s' = rng (srv k)"
    by (auto simp: hwkey_ctx_close_eq [OF a(2) hwkey_invD(3) [OF r(2)]])
  have s: "srv ?k = s'"
    using c(3) x(1) a(2) by (simp add: becomes_def hwkey_chan_handler_def hangup_event_def request_env_def)
  have d: "conn k h' = Some a \<longleftrightarrow> h' = h" for h' using inj_onD [OF r(3), of h' h] a(1) by auto
  have ran: "ran (conn ?k) = ran (conn k) - {a}" using c(2) d by (auto simp: ran_def) (metis option.inject)
  have "inj_on (conn ?k) (dom (conn ?k))" using r(3) c(2) by (auto simp: inj_on_def)
  then have rd: "ready n ?k"
    using assms(1) c(1) x(2) ran s' unfolding ready_def s by (auto simp: tokens_ready_def distinct_map inj_on_def)
  have "held ?k i = Some (h', t) \<longleftrightarrow> without h (held k) i = Some (h', t)" for i h' t
    unfolding without_Some held_Some [OF rd] held_Some [OF assms(1)] using s s'(1) c(2) d by auto
  then have "held ?k i = without h (held k) i" for i by (metis option.exhaust surj_pair)
  then have "held ?k = without h (held k)" by (simp add: fun_eq_iff)
  with rd c(2) show ?thesis by (auto simp: sessions_def split: if_splits)
qed

lemma message_inv:
  assumes "ready n k" and "ctxs (srv k) a = Some ctx" and "length payload \<le> 2048"
    and "hwkey_chan_handle_msg p (fake_provider cfg) fake_dev (request_env C command arg payload) a ctx (srv k) = Inr (rc', s')"
  shows "hwkey_inv (fake_provider cfg) (key_table cfg) s'"
  using hwkey_service.chan_handle_msg_handled [OF fake_service [OF config] readyD(2) [OF assms(1)] request_env_ok(1) [OF assms(3)] assms(2),
      of p command arg] assms(4)
  by (simp add: handled_def)

lemma handled_message:
  assumes "ctxs s a = Some ctx" and "hwkey_chan_handle_msg p (fake_provider cfg) fake_dev (request_env C command arg payload) a ctx s = Inr (0, s')"
  shows "hwkey_chan_handler p (fake_provider cfg) fake_dev (request_env C command arg payload) (message_event ctx) a s = Inr s'"
  using assms by (simp add: hwkey_chan_handler_def message_event_def request_env_def)

abbreviation get_env :: "byte list \<Rightarrow> hwkey_env" where
  "get_env slot_id \<equiv> request_env C (HWKEY_GET_KEYSLOT p) 0 slot_id"

abbreviation req_hdr :: hwkey_msg where
  "req_hdr \<equiv> \<lparr>cmd = HWKEY_GET_KEYSLOT p, status = HWKEY_NO_ERROR, arg1 = 0\<rparr>"

text \<open>What the service does with a request for a slot, and what the client gets.\<close>

lemma get_request:
  assumes "ready n k" and "ctxs (srv k) a = Some (client_ctx ch)" and "length slot_id \<le> 2048"
  shows "keyslot_request p (fake_provider cfg) (key_table cfg) bssl_ok (get_env slot_id) a (client_ctx ch) req_hdr slot_id (srv k)"
  using readyD(2) [OF assms(1)] request_env_ok(1) [OF assms(3)] assms(2) by (simp add: keyslot_request_def request_env_def)

lemma get_outcome:
  assumes r: "ready n k" and a: "conn k h = Some a" "ctxs (srv k) a = Some (client_ctx ch)" and len: "length slot_id \<le> 2048"
    and m: "hwkey_chan_handle_msg p (fake_provider cfg) fake_dev (get_env slot_id) a (client_ctx ch) (srv k) = Inr (0, s')"
    and o: "outs s' = outs (srv k) @ [Sent ch (response p hdr st) d]" and room: "length d \<le> room"
  shows "\<exists>k'. lib_get_keyslot_data lib h slot_id room k = ((rc st, if st = HWKEY_NO_ERROR then d else []), k') \<and>
    srv k' = s' \<and> conn k' = conn k \<and> good k' \<and> hwkey_inv (fake_provider cfg) (key_table cfg) s'"
  using got [OF readyD(1) [OF r] a len handled_message [OF a(2) m] _ room, of "response p hdr st"] o
    message_inv [OF r a(2) len m] by (simp add: client_ctx_def response_def)

text \<open>A request that changes no handle: what is left to say is what it answers.\<close>

lemma get_answer:
  assumes r: "ready n k" and a: "conn k h = Some a" "ctxs (srv k) a = Some (client_ctx ch)" and len: "length slot_id \<le> 2048"
    and m: "\<exists>s'. hwkey_chan_handle_msg p (fake_provider cfg) fake_dev (get_env slot_id) a (client_ctx ch) (srv k) = Inr (0, s') \<and>
      outs s' = outs (srv k) @ [Sent ch (response p req_hdr st) d] \<and>
      opaque_handles s' = opaque_handles (srv k) \<and> ctxs s' = ctxs (srv k) \<and> rng s' = rng (srv k)"
    and room: "length d \<le> room"
  shows "\<exists>k'. lib_get_keyslot_data lib h slot_id room k = ((rc st, if st = HWKEY_NO_ERROR then d else []), k') \<and>
    held k' = held k \<and> sessions k' = sessions k \<and> ready n k'"
proof -
  obtain s' where s': "hwkey_chan_handle_msg p (fake_provider cfg) fake_dev (get_env slot_id) a (client_ctx ch) (srv k) = Inr (0, s')"
    "outs s' = outs (srv k) @ [Sent ch (response p req_hdr st) d]"
    "opaque_handles s' = opaque_handles (srv k)" "ctxs s' = ctxs (srv k)" "rng s' = rng (srv k)"
    using m by blast
  obtain k' where k': "lib_get_keyslot_data lib h slot_id room k = ((rc st, if st = HWKEY_NO_ERROR then d else []), k')"
    "srv k' = s'" "conn k' = conn k" "good k'" "hwkey_inv (fake_provider cfg) (key_table cfg) s'"
    using get_outcome [OF r a len s'(1,2) room] by blast
  with ready_keep [OF r k'(4,3)] s'(3-5) show ?thesis by auto
qed

text \<open>Slots whose key comes at once.\<close>

lemma svc_plain_slot:
  assumes r: "ready n k" and h: "h \<in> sessions k"
    and key: "svc_plain C cfg i = Some key" and room: "length key \<le> room"
  shows "\<exists>k'. lib_get_keyslot_data lib h i room k = ((NO_ERROR, key), k') \<and>
    held k' = held k \<and> sessions k' = sessions k \<and> ready n k'"
proof -
  obtain a ch where a: "conn k h = Some a" "ctxs (srv k) a = Some (client_ctx ch)" by (rule ready_session [OF r h])
  note inv = readyD(2) [OF r]
  have u: "WITH_HWCRYPTO_UNITTEST cfg" using key by (auto simp: svc_plain_def split: if_splits)
  obtain m g where m: "m < 7" "bytes_of (key_id (unittest_slots ! m)) = i" "slot_uuid (unittest_slots ! m) = hwcrypto_unittest_uuid"
    "slot_handler (unittest_slots ! m) = Some (Slot_handler g)" "length i \<le> 2048" "length key = 32"
    "g (slot_uuid (unittest_slots ! m)) (slot_priv (unittest_slots ! m)) C (key_data (srv k)) =
      Inr (HWKEY_NO_ERROR, key @ drop 32 (key_data (srv k)), Some 32)"
  proof -
    consider "i = KEYBOX_ID" "key = UNITTEST_KEYSLOT" | "i = DERIVED_KEYBOX_ID" "key = UNITTEST_DERIVED_KEYSLOT" "decrypts_unittest C"
      using key by (auto simp: svc_plain_def split: if_splits)
    then show ?thesis
    proof cases
      case 1
      show ?thesis
        by (rule that [of 0 get_unittest_key32_handler])
           (use 1 hwkey_invD(5) [OF inv] in \<open>simp_all add: unittest_slots_def KEYBOX_ID_def test_keys
             get_unittest_key32_handler_def get_unittest_key32_eq\<close>)
    next
      case 2
      show ?thesis
        by (rule that [of 1 derived_keyslot_handler])
           (use 2 derived_key_decrypted [OF 2(3) hwkey_invD(5) [OF inv]] in \<open>simp_all add: unittest_slots_def DERIVED_KEYBOX_ID_def
             test_keys derived_keyslot_handler_def key_priv_def derived_data_def\<close>)
    qed
  qed
  obtain j where j: "j < length (key_table cfg)" "key_table cfg ! j = unittest_slots ! m"
    using test_slot_in_table [OF u m(1)] by (metis in_set_conv_nth)
  have f: "find (\<lambda>(j', sl). slot_serves hwcrypto_unittest_uuid (terminated i (req_data (srv k))) sl) (enumerate 0 (key_table cfg)) =
      Some (j, unittest_slots ! m)"
    using find_table_slot [OF j(1), of "req_data (srv k)"] j(2) m(2,3) by simp
  have "\<exists>s'. hwkey_chan_handle_msg p (fake_provider cfg) fake_dev (get_env i) a (client_ctx ch) (srv k) = Inr (0, s') \<and>
      outs s' = outs (srv k) @ [Sent ch (response p req_hdr HWKEY_NO_ERROR) key] \<and>
      opaque_handles s' = opaque_handles (srv k) \<and> ctxs s' = ctxs (srv k) \<and> rng s' = rng (srv k)"
    using hwkey_service.keyslot_plain [OF fake_service [OF config] get_request [OF r a(2) m(5)] _ m(4), of j HWKEY_NO_ERROR
        "key @ drop 32 (key_data (srv k))" "Some 32"] f m(6,7) hwkey_invD(5) [OF inv]
    by (simp add: request_env_def client_ctx_def)
  from get_answer [OF r a m(5) this room] codes show ?thesis by simp
qed

text \<open>Slots the client does not get: no slot of its own has the name, and no token is a prefix of it.\<close>

lemma svc_hidden_slot:
  assumes r: "ready n k" and h: "h \<in> sessions k" and i: "i \<in> svc_hidden cfg"
  shows "\<exists>k'. lib_get_keyslot_data lib h i room k = ((lib_ERR_NOT_FOUND lib, []), k') \<and>
    held k' = held k \<and> sessions k' = sessions k \<and> ready n k'"
proof -
  obtain a ch where a: "conn k h = Some a" "ctxs (srv k) a = Some (client_ctx ch)" by (rule ready_session [OF r h])
  note inv = readyD(2) [OF r]
  have l: "length i \<le> 2048" "32 \<le> length i" "cstr i = i" "i ! 31 \<noteq> 0"
    using i by (auto simp: svc_hidden_def test_ids cstr_def bytes_of_def split: if_splits)
  have "slot_uuid sl \<noteq> hwcrypto_unittest_uuid \<or> bytes_of (key_id sl) \<noteq> i" if "sl \<in> set (key_table cfg)" for sl
    using that i by (auto simp: svc_hidden_def key_table_sets test_ids bytes_of_inj uuid_defs split: if_splits)
  then have none: "\<forall>sl \<in> set (key_table cfg). slot_uuid sl = hwcrypto_unittest_uuid \<longrightarrow> bytes_of (key_id sl) \<noteq> cstr i"
    using l(3) by auto
  have no: "token e \<noteq> take 32 (terminated i (req_data (srv k)))" if e: "e \<in> set (opaque_handles (srv k))" for e
  proof
    assume "token e = take 32 (terminated i (req_data (srv k)))"
    then have "token e ! 31 = i ! 31" using l(2) by (simp add: terminated_def nth_append)
    moreover have "token e ! 31 = 0"
      using hwkey_invD(2) [OF inv e] by (auto simp: node_ok_def valid_token_def nth_append)
    ultimately show False using l(4) by simp
  qed
  have "\<exists>s'. hwkey_chan_handle_msg p (fake_provider cfg) fake_dev (get_env i) a (client_ctx ch) (srv k) = Inr (0, s') \<and>
      outs s' = outs (srv k) @ [Sent ch (response p req_hdr HWKEY_ERR_NOT_FOUND) []] \<and>
      opaque_handles s' = opaque_handles (srv k) \<and> ctxs s' = ctxs (srv k) \<and> rng s' = rng (srv k)"
    using hwkey_service.keyslot_refused [OF fake_service [OF config] get_request [OF r a(2) l(1)]] none no
    by (simp add: request_env_def client_ctx_def)
  from get_answer [OF r a l(1) this, of room] codes show ?thesis by simp
qed

end

text \<open>
  A crypto library whose \<open>HKDF\<close> succeeds on keys of up to 32 bytes, and a protocol that tells the two commands
  and the versions apart.
\<close>

definition svc_kdf :: "crypto \<Rightarrow> byte list \<Rightarrow> byte list" where
  "svc_kdf C src = snd (HKDF C (length src) fake_device_key (uuid_bytes C hwcrypto_unittest_uuid) src)"

definition kdf_works :: "crypto \<Rightarrow> bool" where
  "kdf_works C \<longleftrightarrow> (\<forall>src. src \<noteq> [] \<and> length src \<le> 32 \<longrightarrow>
     fst (HKDF C (length src) fake_device_key (uuid_bytes C hwcrypto_unittest_uuid) src))"

definition proto_distinct :: "hwkey_proto \<Rightarrow> bool" where
  "proto_distinct p \<longleftrightarrow> HWKEY_GET_KEYSLOT p \<noteq> HWKEY_DERIVE p \<and> HWKEY_KDF_VERSION_1 p \<noteq> HWKEY_KDF_VERSION_BEST p"

locale hwkey_deriver = hwkey_carrier p C cfg lib good srv conn rc
  for p :: hwkey_proto and C :: crypto and cfg :: hwkey_config and lib :: "'k hwkey_lib" and good :: "'k \<Rightarrow> bool"
    and srv :: "'k \<Rightarrow> (64 word) hwkey_state" and conn :: "'k \<Rightarrow> int \<rightharpoonup> nat" and rc :: "hwkey_status \<Rightarrow> int" +
  assumes works: "kdf_works C" and proto: "proto_distinct p"
begin

lemma svc_derives:
  assumes r: "ready n k" and h: "h \<in> sessions k"
    and v: "v = HWKEY_KDF_VERSION_BEST p \<or> v = HWKEY_KDF_VERSION_1 p" and src: "src \<noteq> []" "length src \<le> 32"
  shows "\<exists>k'. lib_derive lib h v src k = ((NO_ERROR, HWKEY_KDF_VERSION_1 p, svc_kdf C src), k') \<and>
    length (svc_kdf C src) = length src \<and> held k' = held k \<and> sessions k' = sessions k \<and> ready n k'"
proof -
  obtain a ch where a: "conn k h = Some a" "ctxs (srv k) a = Some (client_ctx ch)" by (rule ready_session [OF r h])
  let ?env = "request_env C (HWKEY_DERIVE p) v src" and ?ctx = "client_ctx ch"
  let ?hdr = "\<lparr>cmd = HWKEY_DERIVE p, status = HWKEY_NO_ERROR, arg1 = v\<rparr>"
  have len: "length src \<le> 2048" using src(2) by simp
  have k: "arg1 (kdf_hdr p ?hdr) = HWKEY_KDF_VERSION_1 p" using v by (auto simp: kdf_hdr_def)
  have hk: "HKDF C (length src) fake_device_key (uuid_bytes C hwcrypto_unittest_uuid) src = (True, svc_kdf C src)"
    using works src by (auto simp: kdf_works_def svc_kdf_def prod_eq_iff)
  have d: "derived_response p (crypto_env ?env) ?hdr (ctx_uuid ?ctx) src = (HWKEY_NO_ERROR, svc_kdf C src)"
    using k hk src(1) by (simp add: derived_response_def request_env_def client_ctx_def)
  obtain s' where s': "hwkey_chan_handle_msg p (fake_provider cfg) fake_dev ?env a ?ctx (srv k) = Inr (send_rc ?env, s')"
    "outs s' = outs (srv k) @ [Sent (chan ?ctx) (response p (kdf_hdr p ?hdr) HWKEY_NO_ERROR) (svc_kdf C src)]"
    "length (svc_kdf C src) = length src" "opaque_handles s' = opaque_handles (srv k)" "ctxs s' = ctxs (srv k)" "rng s' = rng (srv k)"
  proof (rule derive_msg_response [OF readyD(2) [OF r] request_env_ok(1) [OF len, of _ "HWKEY_DERIVE p" v] _ _ _ d, of a])
    show "recv_res ?env = Inr (?hdr, src)" by (simp add: request_env_def)
  qed (use proto that in \<open>simp_all add: proto_distinct_def\<close>)
  have m: "hwkey_chan_handle_msg p (fake_provider cfg) fake_dev ?env a ?ctx (srv k) = Inr (0, s')"
    using s'(1) by (simp add: request_env_def)
  have "status (response p (kdf_hdr p ?hdr) HWKEY_NO_ERROR) = HWKEY_NO_ERROR"
    "arg1 (response p (kdf_hdr p ?hdr) HWKEY_NO_ERROR) = HWKEY_KDF_VERSION_1 p" using k by (simp_all add: response_def)
  with derived [OF readyD(1) [OF r] a src(1) len handled_message [OF a(2) m] s'(2) _ s'(3)]
  obtain k' where k': "lib_derive lib h v src k = ((NO_ERROR, HWKEY_KDF_VERSION_1 p, svc_kdf C src), k')"
    "srv k' = s'" "conn k' = conn k" "good k'"
    using codes by auto
  with ready_keep [OF r k'(4,3)] message_inv [OF r a(2) len m] s'(3-6) show ?thesis by auto
qed

end

text \<open>The unit test build.\<close>

locale hwkey_unittest = hwkey_carrier p C cfg lib good srv conn rc
  for p :: hwkey_proto and C :: crypto and cfg :: hwkey_config and lib :: "'k hwkey_lib" and good :: "'k \<Rightarrow> bool"
    and srv :: "'k \<Rightarrow> (64 word) hwkey_state" and conn :: "'k \<Rightarrow> int \<rightharpoonup> nat" and rc :: "hwkey_status \<Rightarrow> int" +
  assumes unittest: "WITH_HWCRYPTO_UNITTEST cfg"
begin

text \<open>No key id of the table is a token without its terminator, or empty.\<close>

lemma token_no_id:
  assumes "valid_token t \<or> t = []"
  shows "\<forall>sl \<in> set (key_table cfg). bytes_of (key_id sl) \<noteq> cstr t" "length (cstr t) \<le> 2048" "cstr (cstr t) = cstr t"
proof -
  have l: "length (cstr t) \<in> {0, 31}" using assms valid_token_cstr by (auto simp: cstr_def)
  have "length (key_id sl) \<noteq> 31 \<and> key_id sl \<noteq> []" if "sl \<in> set (key_table cfg)" for sl
    using that by (auto simp: key_table_sets split: if_splits)
  with l show "\<forall>sl \<in> set (key_table cfg). bytes_of (key_id sl) \<noteq> cstr t"
    by (metis bytes_of_length empty_iff insertE length_0_conv)
  show "length (cstr t) \<le> 2048" using l by auto
  show "cstr (cstr t) = cstr t" by (simp add: cstr_def takeWhile_idem)
qed

lemma svc_name:
  assumes "i \<in> svc_names C"
  obtains j where "j < length (key_table cfg)" "is_opaque_handle (key_table cfg ! j)"
    "length i \<le> 2048" "\<forall>e. key_slot e = j \<longleftrightarrow> key_slot e < length (key_table cfg) \<and> node_id cfg e = i"
    "\<forall>req. find (\<lambda>(j, sl). slot_serves hwcrypto_unittest_uuid (terminated i req) sl) (enumerate 0 (key_table cfg)) =
      Some (j, key_table cfg ! j)"
proof -
  obtain j where j: "j < length (key_table cfg)" "bytes_of (key_id (key_table cfg ! j)) = i"
    by (rule svc_name_index [OF unittest assms])
  have m: "key_table cfg ! j \<in> set (key_table cfg)" using j(1) by simp
  note sl = svc_slot [OF unittest m, unfolded j(2), OF assms, unfolded opens_slot_def]
  show ?thesis
  proof (rule that [OF j(1)])
    show "is_opaque_handle (key_table cfg ! j)" using sl by simp
    show "length i \<le> 2048"
      using assms by (auto simp: svc_names_def test_ids split: if_splits)
    show "\<forall>e. key_slot e = j \<longleftrightarrow> key_slot e < length (key_table cfg) \<and> node_id cfg e = i"
      using nth_eq_iff_index_eq [OF key_table_distinct [of cfg], of _ j] j
      by (auto simp: node_id_def bytes_of_inj)
    show "\<forall>req. find (\<lambda>(j, sl). slot_serves hwcrypto_unittest_uuid (terminated i req) sl) (enumerate 0 (key_table cfg)) =
      Some (j, key_table cfg ! j)"
      using find_table_slot [OF j(1)] sl j(2) by simp
  qed
qed

lemma svc_issues:
  assumes r: "ready (Suc n) k" and h: "h \<in> sessions k" and i: "i \<in> svc_names C"
    and free: "held k i = None" and room: "32 \<le> room"
  shows "\<exists>t k'. lib_get_keyslot_data lib h i room k = ((NO_ERROR, t), k') \<and> valid_token t \<and>
    (\<forall>i' h'. held k i' \<noteq> Some (h', t)) \<and> held k' = (held k)(i \<mapsto> (h, t)) \<and> sessions k' = sessions k \<and> ready n k'"
proof -
  obtain a ch where a: "conn k h = Some a" "ctxs (srv k) a = Some (client_ctx ch)" "session_of k a = h" by (rule ready_session [OF r h])
  obtain j where j: "j < length (key_table cfg)" "is_opaque_handle (key_table cfg ! j)" "length i \<le> 2048"
    "\<forall>e. key_slot e = j \<longleftrightarrow> key_slot e < length (key_table cfg) \<and> node_id cfg e = i"
    "\<forall>req. find (\<lambda>(j, sl). slot_serves hwcrypto_unittest_uuid (terminated i req) sl) (enumerate 0 (key_table cfg)) =
      Some (j, key_table cfg ! j)"
    by (rule svc_name [OF i])
  have fresh: "\<forall>e \<in> set (opaque_handles (srv k)). key_slot e \<noteq> j"
    using free j(4) by (auto simp: held_def map_of_eq_None_iff image_iff)
  let ?t = "next_token (rng (srv k))" and ?e = "\<lparr>key_slot = j, owner = a, token = next_token (rng (srv k))\<rparr>"
  obtain s' where m: "hwkey_chan_handle_msg p (fake_provider cfg) fake_dev (get_env i) a (client_ctx ch) (srv k) = Inr (0, s')"
    "outs s' = outs (srv k) @ [Sent ch (response p req_hdr HWKEY_NO_ERROR) ?t]"
    "opaque_handles s' = opaque_handles (srv k) @ [?e]" "ctxs s' = ctxs (srv k)" "rng s' = rng (srv k) + 34"
    using hwkey_service.keyslot_issue [OF fake_service [OF config] get_request [OF r a(2) j(3)] j(1,2) _ fresh _ next_token(1)]
      j(5) by (auto simp: request_env_def client_ctx_def)
  have "length ?t \<le> room" using next_token(2) [of "rng (srv k)"] room by auto
  then obtain k' where k': "lib_get_keyslot_data lib h i room k = ((NO_ERROR, ?t), k')" "srv k' = s'" "conn k' = conn k" "good k'"
    "hwkey_inv (fake_provider cfg) (key_table cfg) s'"
    using get_outcome [OF r a(1,2) j(3) m(1,2)] codes(1) by auto
  have id: "node_id cfg ?e = i" using j(1) j(4) [rule_format, of ?e] by simp
  have "tokens_ready C cfg n s'"
    by (rule tokens_ready_issue [OF readyD(4) [OF r] m(3) _ _ m(5)]) (use id i in simp_all)
  then have rd: "ready n k'"
    using r k' m(3,4) a(1) unfolding ready_def by (auto simp: ran_def)
  moreover have "held k' = (held k)(i \<mapsto> (h, ?t))"
    using m(3) id free a(3) k'(2,3) by (auto simp: held_def session_of_def map_add_def fun_eq_iff split: option.splits)
  moreover have "?t \<notin> token ` set (opaque_handles (srv k))" using readyD(4) [OF r] by (force simp: tokens_ready_def)
  then have "\<forall>i' h'. held k i' \<noteq> Some (h', ?t)" by (auto simp: held_Some [OF r])
  ultimately show ?thesis using k'(1,3) next_token(2) [of "rng (srv k)"] by (simp add: sessions_def)
qed

lemma svc_taken:
  assumes r: "ready n k" and h: "h \<in> sessions k" and i: "i \<in> svc_names C"
    and taken: "held k i = Some x"
  shows "\<exists>k'. lib_get_keyslot_data lib h i room k = ((lib_ERR_ALREADY_EXISTS lib, []), k') \<and>
    held k' = held k \<and> sessions k' = sessions k \<and> ready n k'"
proof -
  obtain a ch where a: "conn k h = Some a" "ctxs (srv k) a = Some (client_ctx ch)" by (rule ready_session [OF r h])
  obtain j where j: "j < length (key_table cfg)" "is_opaque_handle (key_table cfg ! j)" "length i \<le> 2048"
    "\<forall>e. key_slot e = j \<longleftrightarrow> key_slot e < length (key_table cfg) \<and> node_id cfg e = i"
    "\<forall>req. find (\<lambda>(j, sl). slot_serves hwcrypto_unittest_uuid (terminated i req) sl) (enumerate 0 (key_table cfg)) =
      Some (j, key_table cfg ! j)"
    by (rule svc_name [OF i])
  obtain e where e: "e \<in> set (opaque_handles (srv k))" "node_id cfg e = i"
    using held_Some [OF r, of i "fst x" "snd x"] taken by auto
  then have "key_slot e = j"
    using j(4) hwkey_invD(2) [OF readyD(2) [OF r] e(1)] by (simp add: node_ok_def)
  then have "\<exists>s'. hwkey_chan_handle_msg p (fake_provider cfg) fake_dev (get_env i) a (client_ctx ch) (srv k) = Inr (0, s') \<and>
      outs s' = outs (srv k) @ [Sent ch (response p req_hdr HWKEY_ERR_ALREADY_EXISTS) []] \<and>
      opaque_handles s' = opaque_handles (srv k) \<and> ctxs s' = ctxs (srv k) \<and> rng s' = rng (srv k)"
    using hwkey_service.keyslot_existing [OF fake_service [OF config] get_request [OF r a(2) j(3)] j(1,2) _ e(1)]
      j(5) by (auto simp: request_env_def client_ctx_def)
  from get_answer [OF r a j(3) this, of room] codes show ?thesis by simp
qed

lemma svc_fetches:
  assumes r: "ready n k" and h: "h \<in> sessions k"
    and is_held: "held k i = Some (h', t)" and key: "svc_readable i = Some key" and room: "length key \<le> room"
  shows "\<exists>k'. lib_get_keyslot_data lib h (cstr t) room k = ((NO_ERROR, key), k') \<and>
    held k' = held k \<and> sessions k' = sessions k \<and> ready n k'"
proof -
  obtain a ch where a: "conn k h = Some a" "ctxs (srv k) a = Some (client_ctx ch)" by (rule ready_session [OF r h])
  note inv = readyD(2) [OF r]
  obtain e where e: "e \<in> set (opaque_handles (srv k))" "node_id cfg e = i" "t = token e"
    using is_held by (auto simp: held_Some [OF r])
  have n: "key_slot e < length (key_table cfg)" "valid_token t"
    using hwkey_invD(2) [OF inv e(1)] e(3) by (auto simp: node_ok_def)
  have sl: "opens_slot C (key_table cfg ! key_slot e)"
    using svc_slot [OF unittest nth_mem [OF n(1)]] readyD(5) [OF r e(1)] by (simp add: node_id_def)
  obtain hd where hd: "slot_priv (key_table cfg ! key_slot e) = Handle_priv hd"
    "hwcrypto_unittest_uuid \<in> set (allowed_uuids hd)"
    "oh_retriever hd (oh_priv hd) C (key_data (srv k)) = Inr (HWKEY_NO_ERROR, key @ drop (length key) (key_data (srv k)), Some (length key))"
    using sl e(2) key hwkey_invD(5) [OF inv] by (auto simp: opens_slot_def node_id_def)
  have b: "cstr t = butlast (token e)" using valid_token_cstr [OF n(2)] e(3) by simp
  note l = token_no_id [OF disjI1 [OF n(2)]]
  have "\<exists>s'. hwkey_chan_handle_msg p (fake_provider cfg) fake_dev (get_env (cstr t)) a (client_ctx ch) (srv k) = Inr (send_rc (get_env (cstr t)), s') \<and>
      outs s' = outs (srv k) @ [Sent (chan (client_ctx ch)) (response p req_hdr HWKEY_NO_ERROR) (take (klen_of (Some (length key))) (key @ drop (length key) (key_data (srv k))))] \<and>
      opaque_handles s' = opaque_handles (srv k) \<and> ctxs s' = ctxs (srv k) \<and> rng s' = rng (srv k)"
  proof (rule hwkey_service.keyslot_fetch [OF fake_service [OF config] get_request [OF r a(2) l(2)] e(1) _ hd(1)])
    show "\<forall>e' \<in> set (opaque_handles (srv k)). token e' = token e \<longrightarrow> e' = e" using readyD(6) [OF r e(1)] by blast
    show "cstr t = token e \<or> cstr t = butlast (token e)" using b by simp
    show "oh_retriever hd (oh_priv hd) (crypto_env (get_env (cstr t))) (key_data (srv k)) =
      Inr (HWKEY_NO_ERROR, key @ drop (length key) (key_data (srv k)), Some (length key))"
      using hd(3) by (simp add: request_env_def client_ctx_def)
  qed (use hd(2) l(1) b in \<open>auto simp: client_ctx_def\<close>)
  then have "\<exists>s'. hwkey_chan_handle_msg p (fake_provider cfg) fake_dev (get_env (cstr t)) a (client_ctx ch) (srv k) = Inr (0, s') \<and>
      outs s' = outs (srv k) @ [Sent ch (response p req_hdr HWKEY_NO_ERROR) key] \<and>
      opaque_handles s' = opaque_handles (srv k) \<and> ctxs s' = ctxs (srv k) \<and> rng s' = rng (srv k)"
    by (simp add: request_env_def client_ctx_def)
  from get_answer [OF r a l(2) this room] codes show ?thesis by simp
qed

lemma svc_refuses:
  assumes r: "ready n k" and h: "h \<in> sessions k" and t: "valid_token t \<or> t = []"
    and no: "\<forall>i h'. held k i = Some (h', t) \<longrightarrow> svc_readable i = None"
  shows "\<exists>k'. lib_get_keyslot_data lib h (cstr t) room k = ((lib_ERR_NOT_FOUND lib, []), k') \<and>
    held k' = held k \<and> sessions k' = sessions k \<and> ready n k'"
proof -
  obtain a ch where a: "conn k h = Some a" "ctxs (srv k) a = Some (client_ctx ch)" by (rule ready_session [OF r h])
  note inv = readyD(2) [OF r] and l = token_no_id [OF t]
  have nm: "token e \<noteq> take 32 (terminated (cstr t) (req_data (srv k)))"
    if e: "e \<in> set (opaque_handles (srv k))" and hd: "slot_priv (key_table cfg ! key_slot e) = Handle_priv hd"
      "hwcrypto_unittest_uuid \<in> set (allowed_uuids hd)" for e hd
  proof
    assume m: "token e = take 32 (terminated (cstr t) (req_data (srv k)))"
    have n: "key_slot e < length (key_table cfg)" "valid_token (token e)"
      using hwkey_invD(2) [OF inv e] by (auto simp: node_ok_def)
    have eq: "take 31 (cstr t) = butlast (token e)" using token_in_request [OF n(2) m] by simp
    have "svc_readable (node_id cfg e) \<noteq> None"
      using svc_slot [OF unittest nth_mem [OF n(1)]] readyD(5) [OF r e] hd by (auto simp: node_id_def opens_slot_def)
    moreover have "t = token e"
    proof -
      have lb: "length (butlast (token e)) = 31" using n(2) by simp
      have "cstr t \<noteq> []" using arg_cong [OF eq, of length] lb by auto
      then have v: "valid_token t" using t by (auto simp: cstr_def)
      then have "butlast t = butlast (token e)" using eq valid_token_cstr [OF v] by simp
      with v n(2) show ?thesis by (auto simp: valid_token_def)
    qed
    moreover obtain h' where "conn k h' = Some (owner e)" using readyD(8) [OF r e] by blast
    ultimately have "svc_readable (node_id cfg e) \<noteq> None" "held k (node_id cfg e) = Some (h', t)"
      using e by (auto simp: held_Some [OF r])
    then show False using no [rule_format, of "node_id cfg e" h'] by simp
  qed
  have "\<exists>s'. hwkey_chan_handle_msg p (fake_provider cfg) fake_dev (get_env (cstr t)) a (client_ctx ch) (srv k) = Inr (0, s') \<and>
      outs s' = outs (srv k) @ [Sent ch (response p req_hdr HWKEY_ERR_NOT_FOUND) []] \<and>
      opaque_handles s' = opaque_handles (srv k) \<and> ctxs s' = ctxs (srv k) \<and> rng s' = rng (srv k)"
    using hwkey_service.keyslot_refused [OF fake_service [OF config] get_request [OF r a(2) l(2)]] l(1,3) nm
    by (simp add: request_env_def client_ctx_def)
  from get_answer [OF r a l(2) this, of room] codes show ?thesis by simp
qed

end

sublocale hwkey_carrier \<subseteq> requests: key_requests lib ready sessions held "svc_plain C cfg" "svc_hidden cfg"
proof (unfold_locales, goal_cases)
  case (1 n k)
  then show ?case by (rule opens_session)
next
  case (2 n k h)
  then show ?case by (rule closes_session)
next
  case (3 n k)
  then show ?case by (rule ready_empty)
next
  case (4 n k h i key room)
  then show ?case by (rule svc_plain_slot)
next
  case (5 n k h i room)
  then show ?case by (rule svc_hidden_slot)
next
  case (6 n)
  then show ?case by (rule sizes)
qed (simp add: svc_hidden_def)

sublocale hwkey_unittest \<subseteq> store: key_store lib ready sessions held "svc_names C" svc_readable
proof (unfold_locales, goal_cases)
  case 1
  then show ?case using sizes(1) by simp
next
  case (2 n)
  then show ?case by (rule sizes)
next
  case (3 n k h i room)
  then show ?case by (rule svc_issues)
next
  case (4 n k h i x room)
  then show ?case by (rule svc_taken)
next
  case (5 n k h i h' t key room)
  then show ?case using svc_fetches by blast
next
  case (6 n k h t room)
  then show ?case by (rule svc_refuses)
qed (simp_all add: svc_names_def svc_readable_simps)

context hwkey_unittest
begin

lemmas unit_store = store.key_store_axioms

end

sublocale hwkey_deriver \<subseteq> kdf: key_derivation lib ready sessions held "HWKEY_KDF_VERSION_1 p" "svc_kdf C"
proof (unfold_locales, goal_cases)
  case (1 n k h v src)
  then show ?case using svc_derives best by simp
next
  case 2
  then show ?case using proto best by (simp add: proto_distinct_def)
qed

section \<open>The tests on the service\<close>

context hwkey_carrier
begin

lemma start_ready:
  assumes "good k" and "hwkey_inv (fake_provider cfg) (key_table cfg) (srv k)" and "opaque_handles (srv k) = []" and "conn k = Map.empty"
  shows "ready 0 k" "held k = Map.empty"
  using assms tokens_ready_empty(2) by (auto simp: ready_def held_empty)

text \<open>
  A suite on a service that holds no handles: no test fails, and afterwards no handle is left and
  the client has no session.
\<close>

lemma suite_on_service:
  assumes "good k" and "hwkey_inv (fake_provider cfg) (key_table cfg) (srv k)" and "opaque_handles (srv k) = []" and "conn k = Map.empty"
    and tests: "\<forall>body \<in> set tests. test_passes ready sessions held body"
  shows "\<exists>k' h. run_state (hk_suite lib tests) (passing k x) = ((), passing k' h) \<and> opaque_handles (srv k') = [] \<and> conn k' = Map.empty"
proof -
  obtain k' h where k: "run_state (hk_suite lib tests) (passing k x) = ((), passing k' h)"
    "held k' = Map.empty" "sessions k' = sessions k"
    using requests.suite_passes [OF start_ready [OF assms(1-4)] tests, of x] by blast
  then show ?thesis using assms(4) by (auto simp: held_empty sessions_def)
qed

lemmas requests_pass = requests.storage_auth_passes requests.bare_tests_pass_each requests.keybox_passes requests.derived_keybox_passes

text \<open>Each test of a build passes on the service of the build.\<close>

lemma build_test_passes:
  assumes "body \<in> set (build_tests (WITH_HWCRYPTO_UNITTEST cfg) (decrypts_unittest C) lib)"
  shows "test_passes ready sessions held body"
proof -
  consider (storage) "body = get_storage_auth lib"
    | (bare) "\<not> WITH_HWCRYPTO_UNITTEST cfg" "body \<in> set (bare_tests lib)"
    | (unit) "WITH_HWCRYPTO_UNITTEST cfg" "body \<in> set (opaque_tests lib) \<or> body = get_keybox True lib \<or>
        decrypts_unittest C \<and> (body = get_derived_keybox True lib \<or> body = get_opaque_derived_key lib)"
    using assms by (auto simp: build_tests_def keybox_tests_def decrypt_tests_def split: if_splits)
  then show ?thesis
  proof cases
    case storage
    then show ?thesis using requests_pass(1) by simp
  next
    case bare
    then show ?thesis by (intro requests_pass(2)) (simp_all add: svc_hidden_def)
  next
    case unit
    have u: "hwkey_unittest p C cfg lib good srv conn rc"
      using hwkey_carrier_axioms unit(1) by (simp add: hwkey_unittest_def hwkey_unittest_axioms_def)
    have plain: "svc_plain C cfg KEYBOX_ID = Some UNITTEST_KEYSLOT"
      "decrypts_unittest C \<Longrightarrow> svc_plain C cfg DERIVED_KEYBOX_ID = Some UNITTEST_DERIVED_KEYSLOT"
      using unit(1) by (simp_all add: svc_plain_def test_ids bytes_of_inj)
    have name: "decrypts_unittest C \<Longrightarrow> OPAQUE_DERIVED_ID \<in> svc_names C" by (simp add: svc_names_def)
    from unit(2) show ?thesis
      using key_store.opaque_tests_pass_each [OF hwkey_unittest.unit_store [OF u], of body] requests_pass(3) [OF plain(1)]
        requests_pass(4) [OF plain(2)] key_store.get_opaque_derived_passes [OF hwkey_unittest.unit_store [OF u] name]
      by blast
  qed
qed

lemma build_suite_passes:
  assumes "good k" and "hwcrypto_reach p cfg (srv k)" and "opaque_handles (srv k) = []" and "conn k = Map.empty"
    and "set tests \<subseteq> set (build_tests (WITH_HWCRYPTO_UNITTEST cfg) (decrypts_unittest C) lib)"
  shows "\<exists>k' h. run_state (hk_suite lib tests) (passing k x) = ((), passing k' h) \<and> opaque_handles (srv k') = [] \<and> conn k' = Map.empty"
  by (rule suite_on_service [OF assms(1) fake_reach_inv [OF config assms(2)] assms(3,4)]) (use build_test_passes assms(5) in blast)

end

context hwkey_deriver
begin

lemma derive_on_service:
  assumes "good k" and "hwcrypto_reach p cfg (srv k)" and "opaque_handles (srv k) = []" and "conn k = Map.empty"
  shows "hk_failed (snd (run_state (hk_fixture lib (derive_repeatable lib)) (passing k x))) =
      (svc_kdf C (take 32 src_data) = take 32 src_data)"
    "hk_failed (snd (run_state (hk_fixture lib (derive_different lib)) (passing k x))) =
      (svc_kdf C (take 32 src_data) = svc_kdf C (take 32 src_data2) \<or>
       svc_kdf C (take 32 src_data) = take 32 src_data \<or> svc_kdf C (take 32 src_data2) = take 32 src_data2)"
  by (rule kdf.derive_repeatable_fixture kdf.derive_different_fixture,
      rule start_ready [OF assms(1) fake_reach_inv [OF config assms(2)] assms(3,4)],
      rule start_ready [OF assms(1) fake_reach_inv [OF config assms(2)] assms(3,4)])+

end

text \<open>C38: The service decides the key tests: behind any client library that carries requests to the handlers of the service and
  responses back, whatever sequence of the tests of the build a client runs, from any reachable state in which no handle is live and the
  client has no session, no check fails; afterwards no handle is live and the client has no session. The tests of the derived keys are
  among them when the cipher decrypts the test vector.\<close>

theorem key_tests_pass:
  assumes "hwkey_carrier p C cfg lib good srv conn rc" and "good k" and "hwcrypto_reach p cfg (srv k)"
    and "opaque_handles (srv k) = []" and "conn k = Map.empty"
    and "set tests \<subseteq> set (build_tests (WITH_HWCRYPTO_UNITTEST cfg) (decrypts_unittest C) lib)"
  shows "\<exists>k' h. run_state (hk_suite lib tests) \<lparr>hk_world = k, hwkey_session = x, hk_failed = False\<rparr> =
      ((), \<lparr>hk_world = k', hwkey_session = h, hk_failed = False\<rparr>) \<and> opaque_handles (srv k') = [] \<and> conn k' = Map.empty"
  using hwkey_carrier.build_suite_passes [OF assms] .

text \<open>The tests of key derivation check the derivation and nothing else: behind any such library, on any reachable state without
  live handles, the first fails exactly if the derived key is the data it is derived from, the second exactly if
  the two keys are equal or one of them is the data it is derived from.\<close>

theorem derive_tests_exact:
  assumes "hwkey_carrier p C cfg lib good srv conn rc" and "kdf_works C" and "proto_distinct p"
    and "good k" and "hwcrypto_reach p cfg (srv k)" and "opaque_handles (srv k) = []" and "conn k = Map.empty"
  shows "hk_failed (snd (run_state (hk_fixture lib (derive_repeatable lib)) \<lparr>hk_world = k, hwkey_session = x, hk_failed = False\<rparr>)) =
      (svc_kdf C (take 32 src_data) = take 32 src_data) \<and>
    hk_failed (snd (run_state (hk_fixture lib (derive_different lib)) \<lparr>hk_world = k, hwkey_session = x, hk_failed = False\<rparr>)) =
      (svc_kdf C (take 32 src_data) = svc_kdf C (take 32 src_data2) \<or>
       svc_kdf C (take 32 src_data) = take 32 src_data \<or> svc_kdf C (take 32 src_data2) = take 32 src_data2)"
proof -
  have d: "hwkey_deriver p C cfg lib good srv conn rc"
    using assms(1-3) by (simp add: hwkey_deriver_def hwkey_deriver_axioms_def)
  show ?thesis
    using hwkey_deriver.derive_on_service [OF d assms(4-7)] by simp
qed

section \<open>A library that keeps the contract\<close>

text \<open>
  A session is named by the address of its context, which is also the handle of its channel; the counter is the next one. The return
  codes and sizes are parameters.
\<close>

type_synonym service = "(64 word) hwkey_state \<times> nat"

record hwkey_client =
  client_rc :: "hwkey_status \<Rightarrow> int"
  client_ERR_NOT_FOUND :: int
  client_ERR_ALREADY_EXISTS :: int
  client_ERR_BAD_LEN :: int
  client_ERR_BAD_HANDLE :: int
  client_ERR_NOT_VALID :: int
  client_HANDLE_MAX_SIZE :: nat
  client_INVALID_HANDLE :: int
  client_uninit :: "nat \<Rightarrow> byte list"

definition client_ok :: "hwkey_client \<Rightarrow> bool" where
  "client_ok cl \<longleftrightarrow> client_rc cl HWKEY_NO_ERROR = NO_ERROR \<and>
     client_rc cl HWKEY_ERR_NOT_FOUND = client_ERR_NOT_FOUND cl \<and>
     client_rc cl HWKEY_ERR_ALREADY_EXISTS = client_ERR_ALREADY_EXISTS cl \<and>
     HWKEY_OPAQUE_HANDLE_SIZE \<le> client_HANDLE_MAX_SIZE cl \<and> client_INVALID_HANDLE cl < 0 \<and>
     (\<forall>n. length (client_uninit cl n) = n)"

definition svc_session :: "service \<Rightarrow> int \<Rightarrow> bool" where
  "svc_session k h \<longleftrightarrow> 0 \<le> h \<and> ctxs (fst k) (nat h) = Some \<lparr>chan = h, ctx_uuid = hwcrypto_unittest_uuid\<rparr>"

definition svc_conn :: "service \<Rightarrow> int \<rightharpoonup> nat" where
  "svc_conn k h = (if svc_session k h then Some (nat h) else None)"

definition svc_open :: "crypto \<Rightarrow> hwkey_config \<Rightarrow> service \<Rightarrow> int \<times> service" where
  "svc_open C cfg k = (case k of (s, c) \<Rightarrow>
     (case hwkey_port_handler (fake_provider cfg) (accept_env C c (int c)) connected_event s of
        Inl _ \<Rightarrow> (-1, k) | Inr s' \<Rightarrow> (int c, (s', Suc c))))"

definition svc_close :: "hwkey_proto \<Rightarrow> crypto \<Rightarrow> hwkey_config \<Rightarrow> int \<Rightarrow> service \<Rightarrow> service" where
  "svc_close p C cfg h k = (case k of (s, c) \<Rightarrow>
     (case hwkey_chan_handler p (fake_provider cfg) fake_dev (request_env C 0 0 [])
        (hangup_event \<lparr>chan = h, ctx_uuid = hwcrypto_unittest_uuid\<rparr>) (nat h) s of
        Inl _ \<Rightarrow> k | Inr s' \<Rightarrow> (s', c)))"

text \<open>A message of a session and the messages the service sends back.\<close>

definition svc_message :: "hwkey_proto \<Rightarrow> crypto \<Rightarrow> hwkey_config \<Rightarrow> u32 \<Rightarrow> u32 \<Rightarrow> byte list \<Rightarrow> int \<Rightarrow> service \<Rightarrow> hwkey_out list \<times> service" where
  "svc_message p C cfg command arg payload h k = (case k of (s, c) \<Rightarrow>
     (case hwkey_chan_handler p (fake_provider cfg) fake_dev (request_env C command arg payload)
        (message_event \<lparr>chan = h, ctx_uuid = hwcrypto_unittest_uuid\<rparr>) (nat h) s of
        Inl _ \<Rightarrow> ([], k) | Inr s' \<Rightarrow> (drop (length (outs s)) (outs s'), (s', c))))"

definition svc_get ::
    "hwkey_proto \<Rightarrow> crypto \<Rightarrow> hwkey_config \<Rightarrow> hwkey_client \<Rightarrow> int \<Rightarrow> byte list \<Rightarrow> nat \<Rightarrow> service \<Rightarrow>
     (int \<times> byte list) \<times> service" where
  "svc_get p C cfg cl h slot_id room k =
     (case svc_message p C cfg (HWKEY_GET_KEYSLOT p) 0 slot_id h k of
        ([Sent _ rsp d], k') \<Rightarrow>
          ((if status rsp \<noteq> HWKEY_NO_ERROR then (client_rc cl (status rsp), [])
            else if room < length d then (client_ERR_BAD_LEN cl, []) else (NO_ERROR, d)), k')
      | (_, k') \<Rightarrow> ((-1, []), k'))"

text \<open>The kernel refuses a handle that is no session of the client, the library an empty request.\<close>

definition svc_derive ::
    "hwkey_proto \<Rightarrow> crypto \<Rightarrow> hwkey_config \<Rightarrow> hwkey_client \<Rightarrow> int \<Rightarrow> u32 \<Rightarrow> byte list \<Rightarrow> service \<Rightarrow>
     (int \<times> u32 \<times> byte list) \<times> service" where
  "svc_derive p C cfg cl h v src k =
     (if h < 0 then ((client_ERR_BAD_HANDLE cl, v, []), k)
      else if \<not> svc_session k h then ((client_ERR_NOT_FOUND cl, v, []), k)
      else if src = [] then ((client_ERR_NOT_VALID cl, v, []), k)
      else
        (case svc_message p C cfg (HWKEY_DERIVE p) v src h k of
           ([Sent _ rsp d], k') \<Rightarrow>
             ((if status rsp \<noteq> HWKEY_NO_ERROR then (client_rc cl (status rsp), v, [])
               else (NO_ERROR, arg1 rsp, d)), k')
         | (_, k') \<Rightarrow> ((-1, v, []), k')))"

definition svc_lib :: "hwkey_proto \<Rightarrow> crypto \<Rightarrow> hwkey_config \<Rightarrow> hwkey_client \<Rightarrow> service hwkey_lib" where
  "svc_lib p C cfg cl =
     \<lparr>lib_open = svc_open C cfg, lib_close = svc_close p C cfg, lib_get_keyslot_data = svc_get p C cfg cl,
      lib_derive = svc_derive p C cfg cl,
      lib_ERR_NOT_FOUND = client_ERR_NOT_FOUND cl, lib_ERR_BAD_HANDLE = client_ERR_BAD_HANDLE cl,
      lib_ERR_NOT_VALID = client_ERR_NOT_VALID cl, lib_KDF_VERSION_BEST = HWKEY_KDF_VERSION_BEST p, lib_ERR_ALREADY_EXISTS = client_ERR_ALREADY_EXISTS cl,
      lib_HANDLE_MAX_SIZE = client_HANDLE_MAX_SIZE cl, lib_INVALID_HANDLE = client_INVALID_HANDLE cl,
      lib_uninit = client_uninit cl\<rparr>"

definition svc_good :: "hwkey_config \<Rightarrow> service \<Rightarrow> bool" where
  "svc_good cfg k \<longleftrightarrow> hwkey_inv (fake_provider cfg) (key_table cfg) (fst k) \<and> (\<forall>a \<in> dom (ctxs (fst k)). a < snd k)"

locale hwkey_build =
  fixes p :: hwkey_proto and C :: crypto and cfg :: hwkey_config and cl :: hwkey_client
  assumes config: "config_ok cfg" and crypto: "bssl_ok C" and client: "client_ok cl"
begin

lemma env_oks:
  "length payload \<le> 2048 \<Longrightarrow> env_ok bssl_ok cs (request_env C command arg payload)"
  "ctxs s a = None \<Longrightarrow> env_ok bssl_ok (ctxs s) (accept_env C a ch)"
  using crypto by (simp_all add: env_ok_def request_env_def accept_env_def)

lemma svc_conn_Some: "svc_conn k h = Some a \<longleftrightarrow> h = int a \<and> ctxs (fst k) a = Some \<lparr>chan = int a, ctx_uuid = hwcrypto_unittest_uuid\<rparr>"
  by (auto simp: svc_conn_def svc_session_def)

lemma svc_opens:
  assumes "svc_good cfg k"
  shows "\<exists>h a ch k'. svc_open C cfg k = (h, k') \<and> 0 \<le> h \<and> svc_conn k h = None \<and> svc_conn k' = (svc_conn k)(h \<mapsto> a) \<and>
    ctxs (fst k) a = None \<and> svc_good cfg k' \<and>
    becomes (hwkey_port_handler (fake_provider cfg) (accept_env C a ch) connected_event (fst k)) (fst k')"
proof -
  obtain s c where k: "k = (s, c)" by (cases k)
  have g: "hwkey_inv (fake_provider cfg) (key_table cfg) s" "\<forall>a \<in> dom (ctxs s). a < c" "ctxs s c = None"
    using assms k by (auto simp: svc_good_def)
  let ?s = "s\<lparr>ctxs := (ctxs s)(c \<mapsto> \<lparr>chan = int c, ctx_uuid = hwcrypto_unittest_uuid\<rparr>)\<rparr>"
  have h: "hwkey_port_handler (fake_provider cfg) (accept_env C c (int c)) connected_event s = Inr ?s"
    by (simp add: hwkey_port_handler_def accept_env_def connected_event_def fake_provider_def fake_client_allowed_def
        allowed_clients_def Let_def)
  have inv: "hwkey_inv (fake_provider cfg) (key_table cfg) ?s"
    using hwkey_service.port_handler_total [OF fake_service [OF config] g(1) env_oks(2) [OF g(3)], of "int c" connected_event] h by simp
  have "svc_conn (?s, Suc c) = (svc_conn k)(int c \<mapsto> c)"
    by (auto simp: fun_eq_iff svc_conn_def svc_session_def k)
  moreover have "svc_good cfg (?s, Suc c)" using inv g(2) by (auto simp: svc_good_def less_Suc_eq)
  moreover have "svc_conn k (int c) = None" using g(3) by (simp add: svc_conn_def svc_session_def k)
  ultimately show ?thesis
    using h g(3) k by (intro exI [of _ "int c"] exI [of _ c] exI [of _ "(?s, Suc c)"]) (auto simp: svc_open_def becomes_def)
qed

lemma svc_closes:
  assumes "svc_good cfg k" and "svc_conn k h = Some a" and "ctxs (fst k) a = Some ctx"
  shows "svc_good cfg (svc_close p C cfg h k) \<and> svc_conn (svc_close p C cfg h k) = (svc_conn k)(h := None) \<and>
    becomes (hwkey_chan_handler p (fake_provider cfg) fake_dev (request_env C 0 0 []) (hangup_event ctx) a (fst k))
      (fst (svc_close p C cfg h k))"
proof -
  obtain s c where k: "k = (s, c)" by (cases k)
  have c: "h = int a" "ctx = \<lparr>chan = h, ctx_uuid = hwcrypto_unittest_uuid\<rparr>" "ctxs s a = Some ctx"
    using assms(2,3) k by (auto simp: svc_conn_Some)
  have g: "hwkey_inv (fake_provider cfg) (key_table cfg) s" "\<forall>a \<in> dom (ctxs s). a < c" using assms(1) k by (auto simp: svc_good_def)
  obtain s' where x: "hwkey_ctx_close a s = Inr s'" "hwkey_inv (fake_provider cfg) (key_table cfg) s'"
    using hwkey_ctx_close_inv [OF g(1) c(3)] by blast
  then have s': "ctxs s' = (ctxs s)(a := None)" by (auto simp: hwkey_ctx_close_eq [OF c(3) hwkey_invD(3) [OF g(1)]])
  have h: "hwkey_chan_handler p (fake_provider cfg) fake_dev (request_env C 0 0 []) (hangup_event ctx) a s = Inr s'"
    using x(1) c(3) by (simp add: hwkey_chan_handler_def hangup_event_def request_env_def)
  have "svc_close p C cfg h k = (s', c)" using h c(1,2) k by (simp add: svc_close_def)
  moreover have "svc_conn (s', c) = (svc_conn k)(h := None)"
    using s' c(1) k by (auto simp: fun_eq_iff svc_conn_def svc_session_def)
  ultimately show ?thesis using x(2) s' g(2) h k by (auto simp: svc_good_def becomes_def)
qed

text \<open>A message that the service answers with one message changes no context.\<close>

lemma svc_messages:
  assumes "svc_good cfg k" and "svc_conn k h = Some a" and "ctxs (fst k) a = Some ctx" and "length payload \<le> 2048"
    and "hwkey_chan_handler p (fake_provider cfg) fake_dev (request_env C command arg payload) (message_event ctx) a (fst k) = Inr s'"
    and "outs s' = outs (fst k) @ [Sent x rsp d]"
  shows "svc_message p C cfg command arg payload h k = ([Sent x rsp d], (s', snd k))" "svc_good cfg (s', snd k)"
    "svc_conn (s', snd k) = svc_conn k" "svc_session k h" "0 \<le> h"
proof -
  have c: "h = int a" "ctx = \<lparr>chan = h, ctx_uuid = hwcrypto_unittest_uuid\<rparr>"
    using assms(2,3) by (auto simp: svc_conn_Some)
  have g: "hwkey_inv (fake_provider cfg) (key_table cfg) (fst k)" using assms(1) by (simp add: svc_good_def)
  obtain rc s1 where m: "hwkey_chan_handle_msg p (fake_provider cfg) fake_dev (request_env C command arg payload) a ctx (fst k) = Inr (rc, s1)"
    "hwkey_inv (fake_provider cfg) (key_table cfg) s1" "ctxs s1 = ctxs (fst k)"
    using hwkey_service.chan_handle_msg_handled [OF fake_service [OF config] g env_oks(1) [OF assms(4)] assms(3), of p command arg]
    unfolding handled_def by blast
  have "s1 = s'"
  proof (cases "rc < 0")
    case True
    have "ctxs s1 a = Some ctx" using m(3) assms(3) by simp
    then have "outs s' = outs s1 @ [Closed (chan ctx)]"
      using assms(3,5) m(1) True hwkey_invD(3) [OF m(2)]
      by (auto simp: hwkey_chan_handler_def message_event_def request_env_def hwkey_ctx_close_eq)
    with assms(6) show ?thesis by simp
  next
    case False
    with assms(3,5) m(1) show ?thesis by (simp add: hwkey_chan_handler_def message_event_def request_env_def)
  qed
  with m have s': "hwkey_inv (fake_provider cfg) (key_table cfg) s'" "ctxs s' = ctxs (fst k)" by auto
  with assms(1) show "svc_good cfg (s', snd k)" "svc_conn (s', snd k) = svc_conn k"
    by (simp_all add: svc_good_def svc_conn_def [abs_def] svc_session_def)
  show "svc_message p C cfg command arg payload h k = ([Sent x rsp d], (s', snd k))"
    using assms(5,6) c by (cases k) (simp add: svc_message_def)
  show "svc_session k h" "0 \<le> h" using assms(2) by (auto simp: svc_conn_def svc_session_def split: if_splits)
qed

end

sublocale hwkey_build \<subseteq> carried: hwkey_carrier p C cfg "svc_lib p C cfg cl" "svc_good cfg" fst svc_conn "client_rc cl"
proof (unfold_locales, goal_cases)
  case 1
  show ?case by (rule config)
next
  case 2
  show ?case by (rule crypto)
next
  case (9 k)
  then show ?case using svc_opens by (simp add: svc_lib_def)
next
  case (10 k h a ctx)
  then show ?case using svc_closes by (simp add: svc_lib_def)
next
  case (11 k h a ctx slot_id s rsp d room)
  note m = svc_messages [OF 11(1-6)]
  have "svc_get p C cfg cl h slot_id room k =
      ((client_rc cl (status rsp), if status rsp = HWKEY_NO_ERROR then d else []), (s, snd k))"
    using m(1) 11(7) client by (simp add: svc_get_def client_ok_def)
  with m(2,3) show ?case by (simp add: svc_lib_def)
next
  case (12 k h a ctx src v s rsp d)
  note m = svc_messages [OF 12(1-3,5-7)]
  have "svc_derive p C cfg cl h v src k = ((client_rc cl (status rsp), arg1 rsp, d), (s, snd k))"
    using m(1,4,5) 12(4,8) client by (simp add: svc_derive_def client_ok_def)
  with m(2,3) show ?case by (simp add: svc_lib_def)
qed (use client in \<open>simp_all add: svc_lib_def client_ok_def\<close>)

text \<open>It refuses closed and invalid sessions, and derives nothing from nothing.\<close>

sublocale hwkey_build \<subseteq> refused: key_refusals "svc_lib p C cfg cl" carried.ready carried.sessions carried.held
proof (unfold_locales, goal_cases)
  case (1 n k h v)
  then have "svc_session k h" "0 \<le> h" by (auto simp: carried.sessions_def svc_conn_def svc_session_def split: if_splits)
  then show ?case by (simp add: svc_lib_def svc_derive_def)
next
  case (2 h k v src)
  then have "\<not> svc_session k h" by (auto simp: carried.sessions_def svc_conn_def)
  with 2 show ?case by (simp add: svc_lib_def svc_derive_def)
next
  case (3 v src k)
  then show ?case using client by (simp add: svc_lib_def svc_derive_def client_ok_def)
qed

definition run_client :: hwkey_client where
  "run_client = \<lparr>client_rc = (\<lambda>st. case st of HWKEY_NO_ERROR \<Rightarrow> 0 | HWKEY_ERR_NOT_FOUND \<Rightarrow> -2
       | HWKEY_ERR_ALREADY_EXISTS \<Rightarrow> -3 | _ \<Rightarrow> -4),
     client_ERR_NOT_FOUND = -2, client_ERR_ALREADY_EXISTS = -3, client_ERR_BAD_LEN = -5,
     client_ERR_BAD_HANDLE = -6, client_ERR_NOT_VALID = -7,
     client_HANDLE_MAX_SIZE = 128, client_INVALID_HANDLE = -1, client_uninit = (\<lambda>n. replicate n 170)\<rparr>"

lemma run_client_ok: "client_ok run_client"
  by (simp add: client_ok_def run_client_def NO_ERROR_def)

text \<open>A crypto library that also decrypts the test vector.\<close>

definition run_crypto2 :: crypto where
  "run_crypto2 = run_crypto\<lparr>EVP_DecryptUpdate := (\<lambda>_ _ _ ct.
     (True, if length ct = 32 then UNITTEST_DERIVED_KEYSLOT else ct))\<rparr>"

lemma run_crypto2_ok: "bssl_ok run_crypto2" "decrypts_unittest run_crypto2" "kdf_works run_crypto2"
  "svc_kdf run_crypto2 src = replicate (length src) 7"
  by (simp_all add: bssl_ok_def run_crypto2_def run_crypto_def decrypts_unittest_def kdf_works_def svc_kdf_def test_keys
      unittest_encrypted_key32_def)

lemma run_proto_distinct: "proto_distinct run_proto"
  by (simp add: proto_distinct_def run_proto_def)

interpretation built: hwkey_build run_proto run_crypto2 unittest_config run_client
  by unfold_locales (simp_all add: unittest_config_ok run_crypto2_ok run_client_ok)

abbreviation example_key_lib :: "service hwkey_lib" where
  "example_key_lib \<equiv> svc_lib run_proto run_crypto2 unittest_config run_client"

interpretation unit: hwkey_unittest run_proto run_crypto2 unittest_config example_key_lib "svc_good unittest_config" fst svc_conn
    "client_rc run_client"
  by unfold_locales (simp add: unittest_config_def)

interpretation derive: hwkey_deriver run_proto run_crypto2 unittest_config example_key_lib "svc_good unittest_config" fst svc_conn
    "client_rc run_client"
  by unfold_locales (simp_all add: run_crypto2_ok run_proto_distinct)

lemma service_start:
  "svc_good unittest_config (run_started, 1)" "hwcrypto_reach run_proto unittest_config (fst (run_started, 1 :: nat))"
  "opaque_handles (fst (run_started, 1 :: nat)) = []" "svc_conn (run_started, 1) = Map.empty"
  using run_started_reach fake_reach_inv [OF unittest_config_ok run_started_reach]
  by (simp_all add: svc_good_def svc_conn_def svc_session_def run_started_def hwkey_initial_def fun_eq_iff)

theorem key_tests_pass_witness:
  "\<exists>k' h. run_state (hk_suite example_key_lib (build_tests True True example_key_lib))
      \<lparr>hk_world = (run_started, 1), hwkey_session = 0, hk_failed = False\<rparr> =
      ((), \<lparr>hk_world = k', hwkey_session = h, hk_failed = False\<rparr>) \<and> opaque_handles (fst k') = [] \<and> svc_conn k' = Map.empty"
  by (rule key_tests_pass [OF built.carried.hwkey_carrier_axioms service_start])
    (simp add: unittest_config_def run_crypto2_ok)

theorem derive_tests_exact_witness:
  "\<not> hk_failed (snd (run_state (hk_fixture example_key_lib (derive_repeatable example_key_lib))
      \<lparr>hk_world = (run_started, 1), hwkey_session = 0, hk_failed = False\<rparr>)) \<and>
   hk_failed (snd (run_state (hk_fixture example_key_lib (derive_different example_key_lib))
      \<lparr>hk_world = (run_started, 1), hwkey_session = 0, hk_failed = False\<rparr>))"
proof -
  have e: "take 32 src_data \<noteq> replicate 32 7" "length src_data = 33" "length src_data2 = 33"
    by (auto simp: src_data_def src_data2_def bytes_of_def dest!: arg_cong [of _ _ hd])
  show ?thesis
    using derive_tests_exact [OF built.carried.hwkey_carrier_axioms run_crypto2_ok(3) run_proto_distinct service_start, of 0] e
    by (simp add: run_crypto2_ok(4) eq_commute)
qed

end
