(* ===== verification/Swspi.thy ===== *)
theory Swspi
  imports Prelude
begin

text \<open>
  The software SPI driver (\<open>spi/swspi-srv/driver/swspi.c\<close>, \<open>swspi.h\<close>) and the devices of
  its server (\<open>spi/swspi-srv/swspi-srv.c\<close>): a client builds a sequence of requests in an
  array and commits it, and only then are the requests executed, in order. \<open>rand\<close> is the C
  library's, a parameter: the values it returns after \<open>srand\<close> with a given seed.
\<close>

section \<open>State\<close>

datatype spi_exec =
    spi_req_exec_set_clk
  | spi_req_exec_cs_assert
  | spi_req_exec_cs_deassert
  | spi_req_exec_xfer
  | spi_req_exec_delay

text \<open>Buffers live in a memory of named buffers; a transfer may lack either direction.\<close>

record spi_req_xfer_args =
  tx :: "nat option"
  rx :: "nat option"
  xfer_len :: nat

datatype spi_priv = Xfer_args spi_req_xfer_args | Delay_arg u64

record spi_seq_entry =
  exec :: "spi_exec option"
  priv :: "spi_priv option"

record spi_dev_ctx =
  dev_bus :: nat
  cmds :: "spi_seq_entry list option"
  num_cmds :: nat
  curr_cmd :: nat
  loopback :: bool

record spi_bus_ctx =
  bus_owner :: "nat option"
  num_devs :: nat

record spi_state =
  devs :: "nat \<Rightarrow> spi_dev_ctx"
  buses :: "nat \<Rightarrow> spi_bus_ctx"
  mem :: "nat \<rightharpoonup> byte list"
  sleeps :: "u64 list"

type_synonym c_rand = "byte \<Rightarrow> nat \<Rightarrow> nat"

text \<open>The return codes, by name.\<close>

datatype spi_rc = SPI_NO_ERROR | ERR_NO_MEMORY

definition upd_dev :: "nat \<Rightarrow> (spi_dev_ctx \<Rightarrow> spi_dev_ctx) \<Rightarrow> spi_state \<Rightarrow> spi_state" where
  "upd_dev d f s = s\<lparr>devs := (devs s)(d := f (devs s d))\<rparr>"

definition set_owner :: "nat \<Rightarrow> nat option \<Rightarrow> spi_state \<Rightarrow> spi_state" where
  "set_owner b ow s = s\<lparr>buses := (buses s)(b := (buses s b)\<lparr>bus_owner := ow\<rparr>)\<rparr>"

definition spi_is_bus_shared :: "nat \<Rightarrow> spi_state \<Rightarrow> bool" where
  "spi_is_bus_shared d s = (num_devs (buses s (dev_bus (devs s d))) > 1)"

definition spi_dev_seq_active :: "nat \<Rightarrow> spi_state \<Rightarrow> bool" where
  "spi_dev_seq_active d s = (cmds (devs s d) \<noteq> None)"

section \<open>Building a sequence\<close>

text \<open>\<open>dev->cmds[dev->curr_cmd] = entry; dev->curr_cmd++\<close>, with the faults of the array access.\<close>

definition put_cmd :: "nat \<Rightarrow> spi_exec \<Rightarrow> spi_priv option \<Rightarrow> spi_state \<Rightarrow> (spi_rc \<times> spi_state) res" where
  "put_cmd d e pr s =
     (let dev = devs s d in
      case cmds dev of
        None \<Rightarrow> Inl Null_deref
      | Some cs \<Rightarrow>
          if \<not> curr_cmd dev < length cs then Inl Out_of_bounds
          else
            let entry = cs ! curr_cmd dev;
                entry1 = (case pr of None \<Rightarrow> entry\<lparr>exec := Some e\<rparr>
                          | Some p \<Rightarrow> entry\<lparr>exec := Some e, priv := Some p\<rparr>)
            in Inr (SPI_NO_ERROR, upd_dev d (\<lambda>dv. dv\<lparr>cmds := Some (cs[curr_cmd dev := entry1]),
                                            curr_cmd := Suc (curr_cmd dev)\<rparr>) s))"

text \<open>\<open>clk_hz\<close> is the address of the clock value, or a null pointer.\<close>

definition spi_req_set_clk :: "nat \<Rightarrow> nat option \<Rightarrow> spi_state \<Rightarrow> (spi_rc \<times> spi_state) res" where
  "spi_req_set_clk d clk_hz s = assertr (clk_hz \<noteq> None) (put_cmd d spi_req_exec_set_clk None s)"

definition spi_req_cs_assert :: "nat \<Rightarrow> spi_state \<Rightarrow> (spi_rc \<times> spi_state) res" where
  "spi_req_cs_assert d s =
     assertr (spi_dev_seq_active d s)
      (assertr (curr_cmd (devs s d) < num_cmds (devs s d)) (put_cmd d spi_req_exec_cs_assert None s))"

definition spi_req_cs_deassert :: "nat \<Rightarrow> spi_state \<Rightarrow> (spi_rc \<times> spi_state) res" where
  "spi_req_cs_deassert d s =
     assertr (spi_dev_seq_active d s)
      (assertr (curr_cmd (devs s d) < num_cmds (devs s d)) (put_cmd d spi_req_exec_cs_deassert None s))"

definition spi_req_xfer ::
    "bool \<Rightarrow> nat \<Rightarrow> nat option \<Rightarrow> nat option \<Rightarrow> nat \<Rightarrow> spi_state \<Rightarrow> (spi_rc \<times> spi_state) res" where
  "spi_req_xfer malloc_ok d t r len s =
     assertr (spi_dev_seq_active d s)
      (assertr (curr_cmd (devs s d) < num_cmds (devs s d))
        (if \<not> malloc_ok then Inr (ERR_NO_MEMORY, s)
         else put_cmd d spi_req_exec_xfer (Some (Xfer_args \<lparr>tx = t, rx = r, xfer_len = len\<rparr>)) s))"

definition spi_req_delay :: "bool \<Rightarrow> nat \<Rightarrow> u64 \<Rightarrow> spi_state \<Rightarrow> (spi_rc \<times> spi_state) res" where
  "spi_req_delay malloc_ok d delay_ns s =
     (if \<not> malloc_ok then Inr (ERR_NO_MEMORY, s)
      else put_cmd d spi_req_exec_delay (Some (Delay_arg delay_ns)) s)"

definition spi_seq_begin :: "bool \<Rightarrow> nat \<Rightarrow> nat \<Rightarrow> spi_state \<Rightarrow> (spi_rc \<times> spi_state) res" where
  "spi_seq_begin calloc_ok d n s =
     assertr (\<not> spi_dev_seq_active d s)
      (if \<not> calloc_ok then Inr (ERR_NO_MEMORY, s)
       else Inr (SPI_NO_ERROR, upd_dev d (\<lambda>dev. dev\<lparr>cmds := Some (replicate n \<lparr>exec = None, priv = None\<rparr>),
                                           num_cmds := n\<rparr>) s))"

section \<open>Executing a sequence\<close>

fun digest_loop :: "byte list \<Rightarrow> byte \<Rightarrow> byte" where
  "digest_loop [] d = d"
| "digest_loop (b # bs) d = digest_loop bs ((drop_bit 1 d OR push_bit 7 (d AND 1)) XOR b)"

definition digest :: "byte list \<Rightarrow> byte" where
  "digest buf = digest_loop buf 0"

definition rand_buf :: "c_rand \<Rightarrow> nat \<Rightarrow> byte \<Rightarrow> byte list" where
  "rand_buf rnd sz seed = map (\<lambda>i. of_nat (rnd seed i mod 255)) [0..<sz]"

definition buf_read :: "nat \<Rightarrow> nat \<Rightarrow> spi_state \<Rightarrow> byte list res" where
  "buf_read a len s = (case mem s a of None \<Rightarrow> Inl Use_after_free | Some buf \<Rightarrow> mem_read buf 0 len)"

definition buf_write :: "nat \<Rightarrow> byte list \<Rightarrow> spi_state \<Rightarrow> spi_state res" where
  "buf_write a bytes s =
     (case mem s a of
        None \<Rightarrow> Inl Use_after_free
      | Some buf \<Rightarrow> bindr (memcpy_to buf 0 bytes) (\<lambda>b. Inr (s\<lparr>mem := (mem s)(a \<mapsto> b)\<rparr>)))"

definition exec_xfer :: "c_rand \<Rightarrow> nat \<Rightarrow> spi_req_xfer_args \<Rightarrow> spi_state \<Rightarrow> spi_state res" where
  "exec_xfer rnd d args s =
     (let len = xfer_len args in
      if loopback (devs s d) then
        (case rx args of
           None \<Rightarrow> Inr s
         | Some r \<Rightarrow>
             (case tx args of
                None \<Rightarrow> buf_write r (replicate len 0) s
              | Some t \<Rightarrow> bindr (buf_read t len s) (\<lambda>bytes. buf_write r bytes s)))
      else
        bindr (case tx args of None \<Rightarrow> Inr 0
               | Some t \<Rightarrow> bindr (buf_read t len s) (\<lambda>bytes. Inr (digest bytes))) (\<lambda>seed.
          case rx args of
            None \<Rightarrow> Inr s
          | Some r \<Rightarrow> buf_write r (rand_buf rnd len seed) s))"

text \<open>The call through the function pointer, with the private data read as the type it expects.\<close>

definition exec_cmd :: "c_rand \<Rightarrow> nat \<Rightarrow> spi_seq_entry \<Rightarrow> spi_state \<Rightarrow> spi_state res" where
  "exec_cmd rnd d entry s =
     (let b = dev_bus (devs s d) in
      case exec entry of
        None \<Rightarrow> Inl Null_deref
      | Some spi_req_exec_set_clk \<Rightarrow> Inr s
      | Some spi_req_exec_cs_assert \<Rightarrow>
          assertr (bus_owner (buses s b) = None) (Inr (set_owner b (Some d) s))
      | Some spi_req_exec_cs_deassert \<Rightarrow>
          assertr (bus_owner (buses s b) = Some d) (Inr (set_owner b None s))
      | Some spi_req_exec_xfer \<Rightarrow>
          (case priv entry of None \<Rightarrow> Inl Null_deref
           | Some (Xfer_args args) \<Rightarrow> exec_xfer rnd d args s
           | Some (Delay_arg n) \<Rightarrow> Inl Type_confusion)
      | Some spi_req_exec_delay \<Rightarrow>
          (case priv entry of None \<Rightarrow> Inl Null_deref
           | Some (Delay_arg n) \<Rightarrow> Inr (s\<lparr>sleeps := sleeps s @ [n]\<rparr>)
           | Some (Xfer_args args) \<Rightarrow> Inl Type_confusion))"

text \<open>The loop of \<open>spi_seq_commit\<close>: execution does not change the array.\<close>

fun exec_cmds :: "c_rand \<Rightarrow> nat \<Rightarrow> spi_seq_entry list \<Rightarrow> spi_state \<Rightarrow> spi_state res" where
  "exec_cmds rnd d [] s = Inr s"
| "exec_cmds rnd d (entry # entries) s =
     bindr (exec_cmd rnd d entry s) (exec_cmds rnd d entries)"

definition spi_seq_free :: "nat \<Rightarrow> spi_state \<Rightarrow> spi_state res" where
  "spi_seq_free d s =
     (case cmds (devs s d) of
        None \<Rightarrow> if num_cmds (devs s d) > 0 then Inl Null_deref
                else Inr (upd_dev d (\<lambda>dev. dev\<lparr>cmds := None, num_cmds := 0, curr_cmd := 0\<rparr>) s)
      | Some cs \<Rightarrow>
          if length cs < num_cmds (devs s d) then Inl Out_of_bounds
          else Inr (upd_dev d (\<lambda>dev. dev\<lparr>cmds := None, num_cmds := 0, curr_cmd := 0\<rparr>) s))"

definition spi_seq_commit :: "c_rand \<Rightarrow> nat \<Rightarrow> spi_state \<Rightarrow> (spi_rc \<times> spi_state) res" where
  "spi_seq_commit rnd d s =
     assertr (spi_dev_seq_active d s)
      (assertr (curr_cmd (devs s d) = num_cmds (devs s d))
        (case cmds (devs s d) of
           None \<Rightarrow> Inl Null_deref
         | Some cs \<Rightarrow>
             if length cs < num_cmds (devs s d) then Inl Out_of_bounds
             else
               bindr (exec_cmds rnd d (take (num_cmds (devs s d)) cs) s) (\<lambda>s1.
                 bindr (spi_seq_free d s1) (\<lambda>s2. Inr (SPI_NO_ERROR, s2)))))"

definition spi_seq_abort :: "nat \<Rightarrow> spi_state \<Rightarrow> spi_state res" where
  "spi_seq_abort d s = assertr (spi_dev_seq_active d s) (spi_seq_free d s)"

section \<open>The devices of the server\<close>

definition test_dev :: nat where
  "test_dev = 0"

definition loopback_dev :: nat where
  "loopback_dev = 1"

definition idle_dev :: "nat \<Rightarrow> bool \<Rightarrow> spi_dev_ctx" where
  "idle_dev b lb = \<lparr>dev_bus = b, cmds = None, num_cmds = 0, curr_cmd = 0, loopback = lb\<rparr>"

text \<open>Bus 0 is \<open>test_bus\<close> and bus 1 \<open>loopback_bus\<close>.\<close>

definition swspi_initial :: "(nat \<rightharpoonup> byte list) \<Rightarrow> spi_state" where
  "swspi_initial m =
     \<lparr>devs = (\<lambda>d. if d = loopback_dev then idle_dev 1 True else idle_dev 0 False),
      buses = (\<lambda>b. if b = 1 then \<lparr>bus_owner = None, num_devs = 1\<rparr> else \<lparr>bus_owner = None, num_devs = 2\<rparr>),
      mem = m, sleeps = []\<rparr>"

end
