(* ===== verification/Swspi_Props.thy ===== *)
theory Swspi_Props
  imports Swspi
begin

text \<open>
  What the software SPI driver guarantees: a committed sequence does what its requests would
  do one after the other, an aborted one does nothing, the bus is owned only inside a chip
  select, and which transfers return what.
\<close>

section \<open>Requests and their direct meaning\<close>

text \<open>A clock request comes with a clock value; the value is not used, so its address is left out.\<close>

datatype spi_request =
    Set_clk
  | Cs_assert
  | Cs_deassert
  | Xfer "nat option" "nat option" nat
  | Delay u64

fun request :: "nat \<Rightarrow> spi_request \<Rightarrow> spi_state \<Rightarrow> (spi_rc \<times> spi_state) res" where
  "request d Set_clk s = spi_req_set_clk d (Some 0) s"
| "request d Cs_assert s = spi_req_cs_assert d s"
| "request d Cs_deassert s = spi_req_cs_deassert d s"
| "request d (Xfer t r n) s = spi_req_xfer True d t r n s"
| "request d (Delay n) s = spi_req_delay True d n s"

fun requests :: "nat \<Rightarrow> spi_request list \<Rightarrow> spi_state \<Rightarrow> spi_state res" where
  "requests d [] s = Inr s"
| "requests d (r # rs) s = bindr (request d r s) (\<lambda>(rc, s1). requests d rs s1)"

text \<open>What a request means by itself, without a sequence.\<close>

fun perform :: "c_rand \<Rightarrow> nat \<Rightarrow> spi_request \<Rightarrow> spi_state \<Rightarrow> spi_state res" where
  "perform rnd d Set_clk s = Inr s"
| "perform rnd d Cs_assert s = assertr (bus_owner (buses s (dev_bus (devs s d))) = None)
     (Inr (set_owner (dev_bus (devs s d)) (Some d) s))"
| "perform rnd d Cs_deassert s = assertr (bus_owner (buses s (dev_bus (devs s d))) = Some d)
     (Inr (set_owner (dev_bus (devs s d)) None s))"
| "perform rnd d (Xfer t r n) s = exec_xfer rnd d \<lparr>tx = t, rx = r, xfer_len = n\<rparr> s"
| "perform rnd d (Delay n) s = Inr (s\<lparr>sleeps := sleeps s @ [n]\<rparr>)"

fun perform_all :: "c_rand \<Rightarrow> nat \<Rightarrow> spi_request list \<Rightarrow> spi_state \<Rightarrow> spi_state res" where
  "perform_all rnd d [] s = Inr s"
| "perform_all rnd d (r # rs) s = bindr (perform rnd d r s) (perform_all rnd d rs)"

definition dev_idle :: "nat \<Rightarrow> spi_state \<Rightarrow> bool" where
  "dev_idle d s \<longleftrightarrow> cmds (devs s d) = None \<and> num_cmds (devs s d) = 0 \<and> curr_cmd (devs s d) = 0"

section \<open>The array of a sequence\<close>

fun entry_of :: "spi_request \<Rightarrow> spi_seq_entry" where
  "entry_of Set_clk = \<lparr>exec = Some spi_req_exec_set_clk, priv = None\<rparr>"
| "entry_of Cs_assert = \<lparr>exec = Some spi_req_exec_cs_assert, priv = None\<rparr>"
| "entry_of Cs_deassert = \<lparr>exec = Some spi_req_exec_cs_deassert, priv = None\<rparr>"
| "entry_of (Xfer t r n) = \<lparr>exec = Some spi_req_exec_xfer, priv = Some (Xfer_args \<lparr>tx = t, rx = r, xfer_len = n\<rparr>)\<rparr>"
| "entry_of (Delay n) = \<lparr>exec = Some spi_req_exec_delay, priv = Some (Delay_arg n)\<rparr>"

abbreviation empty_entry :: spi_seq_entry where
  "empty_entry \<equiv> \<lparr>exec = None, priv = None\<rparr>"

definition with_seq :: "nat \<Rightarrow> spi_seq_entry list option \<Rightarrow> nat \<Rightarrow> nat \<Rightarrow> spi_state \<Rightarrow> spi_state" where
  "with_seq d cs n k s = upd_dev d (\<lambda>dev. dev\<lparr>cmds := cs, num_cmds := n, curr_cmd := k\<rparr>) s"

lemma with_seq_simps [simp]:
  "cmds (devs (with_seq d cs n k s) d) = cs" "num_cmds (devs (with_seq d cs n k s) d) = n"
  "curr_cmd (devs (with_seq d cs n k s) d) = k"
  "dev_bus (devs (with_seq d cs n k s) d') = dev_bus (devs s d')"
  "loopback (devs (with_seq d cs n k s) d') = loopback (devs s d')"
  "buses (with_seq d cs n k s) = buses s" "mem (with_seq d cs n k s) = mem s"
  "sleeps (with_seq d cs n k s) = sleeps s"
  "with_seq d cs n k (with_seq d cs' n' k' s) = with_seq d cs n k s"
  by (simp_all add: with_seq_def upd_dev_def)

lemma with_seq_idle: "dev_idle d s \<Longrightarrow> with_seq d None 0 0 s = s"
  by (cases s; cases "devs s d") (auto simp: with_seq_def upd_dev_def dev_idle_def fun_upd_idem)

lemma with_seq_upd:
  "upd_dev d (\<lambda>dv. dv\<lparr>cmds := c, curr_cmd := k'\<rparr>) (with_seq d cs n k s) = with_seq d c n k' s"
  by (cases "devs s d") (simp add: with_seq_def upd_dev_def)

lemma with_seq_frame:
  "(with_seq d cs n k s)\<lparr>mem := m\<rparr> = with_seq d cs n k (s\<lparr>mem := m\<rparr>)"
  "(with_seq d cs n k s)\<lparr>sleeps := z\<rparr> = with_seq d cs n k (s\<lparr>sleeps := z\<rparr>)"
  "set_owner b ow (with_seq d cs n k s) = with_seq d cs n k (set_owner b ow s)"
  by (simp_all add: with_seq_def upd_dev_def set_owner_def)

lemma request_with_seq:
  assumes "k < length cs" and "cs ! k = empty_entry"
  shows "request d r (with_seq d (Some cs) (length cs) k s) =
    Inr (SPI_NO_ERROR, with_seq d (Some (cs[k := entry_of r])) (length cs) (Suc k) s)"
  using assms
  by (cases r) (simp_all add: spi_req_set_clk_def spi_req_cs_assert_def spi_req_cs_deassert_def
      spi_req_xfer_def spi_req_delay_def put_cmd_def spi_dev_seq_active_def Let_def with_seq_upd)

lemma requests_with_seq:
  "requests d rs (with_seq d (Some (map entry_of done @ replicate (length rs) empty_entry))
      (length done + length rs) (length done) s) =
    Inr (with_seq d (Some (map entry_of (done @ rs))) (length done + length rs) (length done + length rs) s)"
proof (induction rs arbitrary: "done")
  case Nil
  then show ?case by simp
next
  case (Cons r rs)
  let ?cs = "map entry_of done @ empty_entry # replicate (length rs) empty_entry"
  have "request d r (with_seq d (Some ?cs) (length ?cs) (length done) s) =
    Inr (SPI_NO_ERROR, with_seq d (Some (?cs[length done := entry_of r])) (length ?cs) (Suc (length done)) s)"
    by (rule request_with_seq) (simp_all add: nth_append)
  with Cons.IH [of "done @ [r]"] show ?case by (simp add: list_update_append)
qed

text \<open>Execution neither reads nor writes the sequence of the device.\<close>

lemma buf_with_seq [simp]:
  "buf_read a len (with_seq d cs n k s) = buf_read a len s"
  "buf_write a bs (with_seq d cs n k s) = bindr (buf_write a bs s) (\<lambda>s'. Inr (with_seq d cs n k s'))"
  by (simp_all add: buf_read_def buf_write_def with_seq_frame bindr_assoc split: option.split)

lemma exec_xfer_with_seq:
  "exec_xfer rnd d args (with_seq d cs n k s) =
    bindr (exec_xfer rnd d args s) (\<lambda>s'. Inr (with_seq d cs n k s'))"
  by (simp add: exec_xfer_def Let_def bindr_assoc split: option.split)

lemma exec_cmd_perform:
  "exec_cmd rnd d (entry_of r) (with_seq d cs n k s) =
    bindr (perform rnd d r s) (\<lambda>s'. Inr (with_seq d cs n k s'))"
  by (cases r) (simp_all add: exec_cmd_def exec_xfer_with_seq with_seq_frame assertr_def Let_def)

lemma exec_cmds_perform:
  "exec_cmds rnd d (map entry_of rs) (with_seq d cs n k s) =
    bindr (perform_all rnd d rs s) (\<lambda>s'. Inr (with_seq d cs n k s'))"
  by (induction rs arbitrary: s) (simp_all add: exec_cmd_perform bindr_assoc)

text \<open>Performing a request keeps every device as it is.\<close>

lemma perform_devs: "perform rnd d r s = Inr s' \<Longrightarrow> devs s' = devs s"
  by (cases r) (auto simp: exec_xfer_def buf_write_def set_owner_def Let_def split: option.splits if_splits)

lemma perform_all_devs: "perform_all rnd d rs s = Inr s' \<Longrightarrow> devs s' = devs s"
  by (induction rs arbitrary: s) (auto dest: perform_devs)

lemma seq_free_with_seq: "spi_seq_free d (with_seq d (Some cs) (length cs) k s) = Inr (with_seq d None 0 0 s)"
  by (simp add: spi_seq_free_def) (simp add: with_seq_def upd_dev_def)

lemma seq_begin_idle:
  "dev_idle d s \<Longrightarrow> spi_seq_begin True d n s =
    Inr (SPI_NO_ERROR, with_seq d (Some (replicate n empty_entry)) n 0 s)"
  by (cases "devs s d") (simp add: spi_seq_begin_def spi_dev_seq_active_def dev_idle_def with_seq_def upd_dev_def)

text \<open>A client that opens a sequence of the right length, makes its requests and commits.\<close>

definition run_sequence :: "c_rand \<Rightarrow> nat \<Rightarrow> spi_request list \<Rightarrow> spi_state \<Rightarrow> spi_state res" where
  "run_sequence rnd d rs s =
     bindr (spi_seq_begin True d (length rs) s) (\<lambda>(rc, s1).
       bindr (requests d rs s1) (\<lambda>s2. bindr (spi_seq_commit rnd d s2) (\<lambda>(rc, s3). Inr s3)))"

definition run_aborted :: "nat \<Rightarrow> spi_request list \<Rightarrow> spi_state \<Rightarrow> spi_state res" where
  "run_aborted d rs s =
     bindr (spi_seq_begin True d (length rs) s) (\<lambda>(rc, s1).
       bindr (requests d rs s1) (spi_seq_abort d))"

lemma built_sequence:
  assumes "dev_idle d s"
  shows "requests d rs (with_seq d (Some (replicate (length rs) empty_entry)) (length rs) 0 s) =
    Inr (with_seq d (Some (map entry_of rs)) (length rs) (length rs) s)"
  using requests_with_seq [of d rs "[]" s] by simp

lemma perform_all_idle: "dev_idle d s \<Longrightarrow> perform_all rnd d rs s = Inr s' \<Longrightarrow> dev_idle d s'"
  using perform_all_devs by (simp add: dev_idle_def)

lemma run_sequence_eq:
  assumes "dev_idle d s"
  shows "run_sequence rnd d rs s = perform_all rnd d rs s"
proof -
  have "spi_seq_commit rnd d (with_seq d (Some (map entry_of rs)) (length rs) (length rs) s) =
      bindr (perform_all rnd d rs s) (\<lambda>s'. Inr (SPI_NO_ERROR, with_seq d None 0 0 s'))"
    using seq_free_with_seq [of d "map entry_of rs"]
    by (simp add: spi_seq_commit_def spi_dev_seq_active_def exec_cmds_perform bindr_assoc)
  moreover have "bindr (perform_all rnd d rs s) (\<lambda>s'. Inr (with_seq d None 0 0 s')) = perform_all rnd d rs s"
    using perform_all_idle [OF assms] by (cases "perform_all rnd d rs s") (simp_all add: with_seq_idle)
  ultimately show ?thesis
    using assms
    by (simp add: run_sequence_def seq_begin_idle built_sequence bindr_assoc del: bindr_eq_Inr)
qed

text \<open>C25: A committed sequence does exactly what its requests would do one after the other: opening
  a sequence on an idle device, making any list of requests and committing gives the same final
  state, or the same fault, as performing the requests directly; the device is idle again.\<close>

theorem sequence_equivalence:
  assumes "dev_idle d s"
  shows "run_sequence rnd d rs s = perform_all rnd d rs s \<and>
    (\<forall>s'. run_sequence rnd d rs s = Inr s' \<longrightarrow> dev_idle d s')"
  using run_sequence_eq [OF assms] perform_all_idle [OF assms] by simp

text \<open>An aborted sequence leaves no trace: nothing of it was executed and the device is as before.\<close>

theorem abort_no_effect:
  assumes "dev_idle d s"
  shows "run_aborted d rs s = Inr s"
  using assms seq_free_with_seq [of d "map entry_of rs" "length rs" s]
  by (simp add: run_aborted_def seq_begin_idle built_sequence spi_seq_abort_def spi_dev_seq_active_def with_seq_idle)

text \<open>Two buffers of the example: what is sent and where it is received.\<close>

definition spi_example :: spi_state where
  "spi_example = swspi_initial [10 \<mapsto> [1, 2, 3], 11 \<mapsto> [0, 0, 0, 9]]"

lemma spi_example_idle: "dev_idle d spi_example"
  by (simp add: dev_idle_def spi_example_def swspi_initial_def idle_dev_def)

theorem sequence_equivalence_witness:
  "run_sequence (\<lambda>seed i. i) loopback_dev [Xfer (Some 10) (Some 11) 3, Delay 7] spi_example =
    perform_all (\<lambda>seed i. i) loopback_dev [Xfer (Some 10) (Some 11) 3, Delay 7] spi_example"
  using sequence_equivalence [OF spi_example_idle] by simp

theorem abort_no_effect_witness: "run_aborted test_dev [Cs_assert, Delay 7] spi_example = Inr spi_example"
  by (rule abort_no_effect [OF spi_example_idle])

section \<open>Transfers\<close>

text \<open>What a device answers to the bytes of a transfer.\<close>

definition answer :: "c_rand \<Rightarrow> bool \<Rightarrow> byte list \<Rightarrow> byte list" where
  "answer rnd lb bytes = (if lb then bytes else rand_buf rnd (length bytes) (digest bytes))"

lemma answer_length [simp]: "length (answer rnd lb bytes) = length bytes"
  by (simp add: answer_def rand_buf_def)

lemma set_owner_simps [simp]:
  "devs (set_owner b ow s) = devs s" "mem (set_owner b ow s) = mem s"
  "bus_owner (buses (set_owner b ow s) b) = ow"
  "set_owner b ow (set_owner b ow' s) = set_owner b ow s"
  "(set_owner b ow s)\<lparr>mem := m\<rparr> = set_owner b ow (s\<lparr>mem := m\<rparr>)"
  by (simp_all add: set_owner_def)

lemma set_owner_idle: "bus_owner (buses s b) = ow \<Longrightarrow> set_owner b ow s = s"
  by (cases s; cases "buses s b") (auto simp: set_owner_def fun_upd_idem)

text \<open>A transfer framed by a chip select, on an idle device and a free bus, replaces the first
  bytes of the receive buffer by the device's answer to the bytes sent and changes nothing else;
  the bus is free afterwards. The loopback device answers with the bytes themselves, the test
  device with the random sequence seeded with their digest.\<close>

theorem framed_transfer:
  assumes "dev_idle d s" and "bus_owner (buses s (dev_bus (devs s d))) = None"
    and "mem s t = Some tb" and "mem s r = Some rb" and "n \<le> length tb" and "n \<le> length rb"
  shows "run_sequence rnd d [Cs_assert, Xfer (Some t) (Some r) n, Cs_deassert] s =
    Inr (s\<lparr>mem := (mem s)(r \<mapsto> answer rnd (loopback (devs s d)) (take n tb) @ drop n rb)\<rparr>)"
proof -
  let ?b = "dev_bus (devs s d)"
  have "exec_xfer rnd d \<lparr>tx = Some t, rx = Some r, xfer_len = n\<rparr> (set_owner ?b (Some d) s) =
    Inr (set_owner ?b (Some d) (s\<lparr>mem := (mem s)(r \<mapsto> answer rnd (loopback (devs s d)) (take n tb) @ drop n rb)\<rparr>))"
    using assms(3-6)
    by (simp add: exec_xfer_def buf_read_def buf_write_def mem_read_def memcpy_to_def answer_def rand_buf_def)
  then have "perform_all rnd d [Cs_assert, Xfer (Some t) (Some r) n, Cs_deassert] s =
      Inr (set_owner ?b None (s\<lparr>mem := (mem s)(r \<mapsto> answer rnd (loopback (devs s d)) (take n tb) @ drop n rb)\<rparr>))"
    using assms(2) by simp
  then show ?thesis
    using run_sequence_eq [OF assms(1)] assms(2) by (simp add: set_owner_idle)
qed

theorem framed_transfer_witness:
  "run_sequence (\<lambda>seed i. i) loopback_dev [Cs_assert, Xfer (Some 10) (Some 11) 3, Cs_deassert] spi_example =
    Inr (spi_example\<lparr>mem := [10 \<mapsto> [1, 2, 3], 11 \<mapsto> [1, 2, 3, 9]]\<rparr>)"
proof -
  have "bus_owner (buses spi_example (dev_bus (devs spi_example loopback_dev))) = None"
    by (simp add: spi_example_def swspi_initial_def idle_dev_def)
  from framed_transfer [OF spi_example_idle this, of 10 _ 11 _ 3] show ?thesis
    by (simp add: spi_example_def swspi_initial_def idle_dev_def answer_def fun_upd_twist)
qed

section \<open>The digest\<close>

text \<open>The rotation, and that it is one: no bit is lost.\<close>

definition rotr1 :: "byte \<Rightarrow> byte" where
  "rotr1 d = drop_bit 1 d OR push_bit 7 (d AND 1)"

lemma rotr1_bit: "n < 8 \<Longrightarrow> bit (rotr1 d) n = (if n = 7 then bit d 0 else bit d (Suc n))"
proof -
  have "\<not> bit d 8" using bit_imp_le_length [of d 8] by auto
  moreover assume "n < 8"
  ultimately show ?thesis
    unfolding rotr1_def
    by (cases "n = 7") (auto simp add: bit_or_iff bit_drop_bit_eq bit_push_bit_iff bit_and_iff bit_1_iff
        simp del: push_bit_and push_bit_of_1)
qed

lemma rotr1_inj: "rotr1 a = rotr1 b \<longleftrightarrow> a = b"
proof
  assume "rotr1 a = rotr1 b"
  then have r: "bit (rotr1 a) n = bit (rotr1 b) n" for n by simp
  show "a = b"
  proof (rule bit_word_eqI)
    fix n assume "n < LENGTH(8)"
    then have "n < 8" by simp
    then show "bit a n = bit b n"
      using r [of 7] r [of "n - 1"] by (cases n) (simp_all add: rotr1_bit split: if_splits)
  qed
qed simp

lemma digest_loop_inj: "digest_loop bs d = digest_loop bs e \<longleftrightarrow> d = e"
proof (induction bs arbitrary: d e)
  case Nil
  then show ?case by simp
next
  case (Cons b bs)
  have "rotr1 d XOR b = rotr1 e XOR b \<longleftrightarrow> d = e"
    by (simp add: xor_inject rotr1_inj)
  with Cons show ?case by (simp add: rotr1_def)
qed

lemma digest_loop_append: "digest_loop (as @ bs) d = digest_loop bs (digest_loop as d)"
  by (induction "as" arbitrary: d) simp_all

text \<open>The digest the test device seeds its answer with tells any two buffers apart that differ in
  one byte.\<close>

theorem digest_single_byte:
  assumes "i < length buf" and "b \<noteq> buf ! i"
  shows "digest (buf[i := b]) \<noteq> digest buf"
proof -
  let ?d = "digest_loop (take i buf) 0" and ?rest = "drop (Suc i) buf"
  have "digest buf = digest_loop ?rest (rotr1 ?d XOR buf ! i)"
    unfolding digest_def by (subst id_take_nth_drop [OF assms(1)]) (simp add: digest_loop_append rotr1_def)
  moreover have "digest (buf[i := b]) = digest_loop ?rest (rotr1 ?d XOR b)"
    using assms(1) by (simp add: digest_def upd_conv_take_nth_drop digest_loop_append rotr1_def)
  moreover have "rotr1 ?d XOR buf ! i \<noteq> rotr1 ?d XOR b"
    using assms(2) by (simp add: xor_inject)
  ultimately show ?thesis by (simp add: digest_loop_inj)
qed

theorem digest_single_byte_witness: "digest ([1, 2, 3][1 := 5]) \<noteq> digest [1, 2, 3]"
  by (rule digest_single_byte) simp_all

section \<open>Requests outside a sequence\<close>

text \<open>Three of the five request functions check the sequence they write to, two do not. On an idle
  device chip select and transfer requests fail their assertion, while \<open>spi_req_set_clk\<close> and
  \<open>spi_req_delay\<close> write through a null pointer; on a full sequence the former fail their
  assertion and the latter write past the end of the array.\<close>

theorem unchecked_requests:
  assumes "dev_idle d s"
  shows "spi_req_cs_assert d s = Inl Assert_failed \<and> spi_req_cs_deassert d s = Inl Assert_failed \<and>
    spi_req_xfer True d t r n s = Inl Assert_failed \<and>
    spi_req_set_clk d (Some p) s = Inl Null_deref \<and> spi_req_delay True d ns s = Inl Null_deref \<and>
    (\<forall>full. bindr (spi_seq_begin True d (length rs) s) (\<lambda>(rc, s1). requests d rs s1) = Inr full \<longrightarrow>
       spi_req_cs_assert d full = Inl Assert_failed \<and>
       spi_req_set_clk d (Some p) full = Inl Out_of_bounds \<and> spi_req_delay True d ns full = Inl Out_of_bounds)"
  using assms
  by (simp add: seq_begin_idle built_sequence spi_req_cs_assert_def spi_req_cs_deassert_def spi_req_xfer_def
      spi_req_set_clk_def spi_req_delay_def put_cmd_def spi_dev_seq_active_def assertr_def del: bindr_eq_Inr)
     (simp add: dev_idle_def)

theorem unchecked_requests_witness: "spi_req_set_clk test_dev (Some 0) spi_example = Inl Null_deref"
  using unchecked_requests [OF spi_example_idle] by blast

end
