(* ===== verification/Swspi_Test.thy ===== *)
theory Swspi_Test
  imports Swspi_Props
begin

text \<open>
  The transfer tests of \<open>spi/swspi-test/swspi-test.c\<close>, run against the model of the software SPI
  driver. The SPI client and server libraries that stand between them are not part of this
  repository: they are the arguments \<open>add\<close> and \<open>run\<close>, with the contracts \<open>takes_commands\<close> and \<open>runs_driver\<close>. The tests carry their own
  digest and random sequence, which are shown to agree with those of the driver.
\<close>

section \<open>The tests\<close>

definition MAX_NUM_CMDS :: nat where
  "MAX_NUM_CMDS = 32"

definition MAX_TOTAL_PAYLOAD :: nat where
  "MAX_TOTAL_PAYLOAD = 1024 * 1024"

text \<open>The static buffer of the expected bytes has this size.\<close>

definition TXRX_SIZE :: nat where
  "TXRX_SIZE = MAX_TOTAL_PAYLOAD"

text \<open>The test has its own copies of the digest and of the random sequence.\<close>

definition test_digest :: "byte list \<Rightarrow> byte" where
  "test_digest buf = fold (\<lambda>b d. (drop_bit 1 d OR push_bit 7 (d AND 1)) XOR b) buf 0"

definition test_rand_buf :: "c_rand \<Rightarrow> nat \<Rightarrow> byte \<Rightarrow> byte list" where
  "test_rand_buf rnd sz seed = map (\<lambda>i. of_nat (rnd seed i mod 255)) [0..<sz]"

text \<open>
  \<open>spi_exec_cmds\<close> with the commands added before it: the client and server libraries, which turn
  them into calls of the driver. It gives the return code and the state afterwards.
\<close>

type_synonym spi_exec_cmds = "spi_request list \<Rightarrow> spi_state \<Rightarrow> int \<times> spi_state"

text \<open>
  The calls \<open>spi_add_..._cmd\<close> for one command after the other on a device without commands: the return
  code of each.
\<close>

type_synonym spi_add_cmds = "spi_request list \<Rightarrow> int list"

definition all_added :: "spi_add_cmds \<Rightarrow> spi_request list \<Rightarrow> bool" where
  "all_added add rs \<longleftrightarrow> add rs = replicate (length rs) 0"

text \<open>
  Each test gives whether its expectations hold. \<open>txb\<close> and \<open>rxb\<close> are the buffers that
  \<open>spi_add_data_xfer_cmd\<close> hands out.
\<close>

definition exec_xfer_test ::
    "c_rand \<Rightarrow> spi_add_cmds \<Rightarrow> spi_exec_cmds \<Rightarrow> bool \<Rightarrow> nat \<Rightarrow> nat \<Rightarrow> nat \<Rightarrow> spi_state \<Rightarrow> (bool \<times> spi_state) res" where
  "exec_xfer_test rnd add run lb txb rxb len s =
     (let tx_seed = of_nat (len mod 255);
          tx_bytes = test_rand_buf rnd len tx_seed in
      bindr (buf_write txb tx_bytes s) (\<lambda>s1.
        bindr (buf_read txb len s1) (\<lambda>sent.
          if TXRX_SIZE < len then Inl Out_of_bounds
          else
            let result = (if lb then sent else test_rand_buf rnd len (test_digest sent));
                rs = [Set_clk, Cs_assert, Xfer (Some txb) (Some rxb) len, Cs_deassert] in
            case run rs s1 of (rc, s2) \<Rightarrow>
              bindr (buf_read rxb len s2) (\<lambda>got. Inr (all_added add rs \<and> rc = 0 \<and> got = result, s2)))))"

text \<open>The transfer tests of one length after the other: short, long and very large.\<close>

fun xfer_tests ::
    "c_rand \<Rightarrow> spi_add_cmds \<Rightarrow> spi_exec_cmds \<Rightarrow> bool \<Rightarrow> nat \<Rightarrow> nat \<Rightarrow> nat list \<Rightarrow> spi_state \<Rightarrow> (bool \<times> spi_state) res" where
  "xfer_tests rnd add run lb txb rxb [] s = Inr (True, s)"
| "xfer_tests rnd add run lb txb rxb (len # lens) s =
     bindr (exec_xfer_test rnd add run lb txb rxb len s) (\<lambda>(ok, s1).
       bindr (xfer_tests rnd add run lb txb rxb lens s1) (\<lambda>(oks, s2). Inr (ok \<and> oks, s2)))"

definition multi_segment_xfer ::
    "c_rand \<Rightarrow> spi_add_cmds \<Rightarrow> spi_exec_cmds \<Rightarrow> bool \<Rightarrow> nat \<Rightarrow> nat \<Rightarrow> nat \<Rightarrow> nat \<Rightarrow> spi_state \<Rightarrow> (bool \<times> spi_state) res" where
  "multi_segment_xfer rnd add run lb tx0 rx0 tx1 rx1 s =
     bindr (buf_write tx0 (test_rand_buf rnd 128 0) s) (\<lambda>s1.
     bindr (buf_write tx1 (test_rand_buf rnd 64 1) s1) (\<lambda>s2.
     bindr (buf_read tx0 128 s2) (\<lambda>sent0.
     bindr (buf_read tx1 64 s2) (\<lambda>sent1.
     let expected0 = test_rand_buf rnd 128 (test_digest sent0);
         expected1 = test_rand_buf rnd 64 (test_digest sent1);
         rs = [Cs_assert, Xfer (Some tx0) (Some rx0) 128, Xfer (Some tx1) (Some rx1) 64, Cs_deassert] in
     case run rs s2 of
       (rc, s3) \<Rightarrow>
         bindr (buf_read rx0 128 s3) (\<lambda>got0.
         bindr (buf_read rx1 64 s3) (\<lambda>got1.
         bindr (buf_read tx0 128 s3) (\<lambda>now0.
         bindr (buf_read tx1 64 s3) (\<lambda>now1.
           Inr (all_added add rs \<and> rc = 0 \<and>
               (if lb then now0 = got0 \<and> now1 = got1 else expected0 = got0 \<and> expected1 = got1),
             s3)))))))))"

definition unidir_recv ::
    "c_rand \<Rightarrow> spi_add_cmds \<Rightarrow> spi_exec_cmds \<Rightarrow> bool \<Rightarrow> nat \<Rightarrow> spi_state \<Rightarrow> (bool \<times> spi_state) res" where
  "unidir_recv rnd add run lb rxb s =
     (let expected = test_rand_buf rnd 128 0;
          rs = [Cs_assert, Xfer None (Some rxb) 128, Cs_deassert] in
      case run rs s of (rc, s1) \<Rightarrow>
        bindr (buf_read rxb 128 s1) (\<lambda>got. Inr (all_added add rs \<and> rc = 0 \<and> (lb \<or> expected = got), s1)))"

section \<open>Transfers under a chip select\<close>

lemma test_digest_eq: "test_digest buf = digest buf"
proof -
  have "fold (\<lambda>b d. (drop_bit 1 d OR push_bit 7 (d AND 1)) XOR b) buf d = digest_loop buf d" for d
    by (induction buf arbitrary: d) simp_all
  then show ?thesis by (simp add: test_digest_def digest_def)
qed

lemma test_rand_buf_eq: "test_rand_buf = rand_buf"
  by (simp add: fun_eq_iff test_rand_buf_def rand_buf_def)

text \<open>The requests other than chip selects neither look at nor change who owns the bus.\<close>

fun free_request :: "spi_request \<Rightarrow> bool" where
  "free_request Cs_assert = False"
| "free_request Cs_deassert = False"
| "free_request _ = True"

lemma buf_set_owner [simp]:
  "buf_read a len (set_owner b ow s) = buf_read a len s"
  "buf_write a bs (set_owner b ow s) = bindr (buf_write a bs s) (\<lambda>s'. Inr (set_owner b ow s'))"
  by (simp_all add: buf_read_def buf_write_def bindr_assoc split: option.split)

lemma exec_xfer_set_owner:
  "exec_xfer rnd d args (set_owner b ow s) = bindr (exec_xfer rnd d args s) (\<lambda>s'. Inr (set_owner b ow s'))"
  by (simp add: exec_xfer_def Let_def bindr_assoc split: option.split)

lemma perform_set_owner:
  "free_request r \<Longrightarrow>
    perform rnd d r (set_owner b ow s) = bindr (perform rnd d r s) (\<lambda>s'. Inr (set_owner b ow s'))"
  by (cases r) (simp_all add: exec_xfer_set_owner, simp add: set_owner_def)

lemma perform_all_set_owner:
  "list_all free_request rs \<Longrightarrow>
    perform_all rnd d rs (set_owner b ow s) = bindr (perform_all rnd d rs s) (\<lambda>s'. Inr (set_owner b ow s'))"
  by (induction rs arbitrary: s) (simp_all add: perform_set_owner bindr_assoc)

lemma perform_buses: "free_request r \<Longrightarrow> perform rnd d r s = Inr s' \<Longrightarrow> buses s' = buses s"
  by (cases r) (auto simp: exec_xfer_def buf_write_def Let_def split: option.splits if_splits)

lemma perform_all_buses: "list_all free_request rs \<Longrightarrow> perform_all rnd d rs s = Inr s' \<Longrightarrow> buses s' = buses s"
  by (induction rs arbitrary: s) (auto dest: perform_buses)

lemma perform_all_append: "perform_all rnd d (xs @ ys) s = bindr (perform_all rnd d xs s) (perform_all rnd d ys)"
proof (induction xs arbitrary: s)
  case (Cons x xs)
  then have "perform_all rnd d (xs @ ys) = (\<lambda>s. bindr (perform_all rnd d xs s) (perform_all rnd d ys))"
    by (simp add: fun_eq_iff)
  then show ?case by (simp add: bindr_assoc)
qed simp

definition bus_free :: "nat \<Rightarrow> spi_state \<Rightarrow> bool" where
  "bus_free d s \<longleftrightarrow> bus_owner (buses s (dev_bus (devs s d))) = None"

lemma perform_selected:
  assumes "bus_free d s" and "list_all free_request rs" and "perform_all rnd d rs s = Inr s'"
  shows "perform_all rnd d (Cs_assert # rs @ [Cs_deassert]) s = Inr s'"
  using assms perform_all_devs [OF assms(3)] perform_all_buses [OF assms(2,3)]
  by (simp add: bus_free_def perform_all_append perform_all_set_owner set_owner_idle)

text \<open>What a transfer does to memory, with the device's answer to what was sent (nothing: zeroes or seed 0).\<close>

definition answer_none :: "c_rand \<Rightarrow> bool \<Rightarrow> nat \<Rightarrow> byte list" where
  "answer_none rnd lb n = (if lb then replicate n 0 else rand_buf rnd n 0)"

lemma exec_xfer_both:
  assumes "mem s t = Some tb" and "mem s r = Some rb" and "n \<le> length tb" and "n \<le> length rb"
  shows "exec_xfer rnd d \<lparr>tx = Some t, rx = Some r, xfer_len = n\<rparr> s =
    Inr (s\<lparr>mem := (mem s)(r \<mapsto> answer rnd (loopback (devs s d)) (take n tb) @ drop n rb)\<rparr>)"
  using assms by (simp add: exec_xfer_def buf_read_def buf_write_def mem_read_def memcpy_to_def answer_def rand_buf_def)

lemma exec_xfer_recv:
  assumes "mem s r = Some rb" and "n \<le> length rb"
  shows "exec_xfer rnd d \<lparr>tx = None, rx = Some r, xfer_len = n\<rparr> s =
    Inr (s\<lparr>mem := (mem s)(r \<mapsto> answer_none rnd (loopback (devs s d)) n @ drop n rb)\<rparr>)"
  using assms by (simp add: exec_xfer_def buf_write_def memcpy_to_def answer_none_def rand_buf_def)

section \<open>The driver passes the tests\<close>

text \<open>
  The contract of the libraries between the test and the driver: when the driver runs the commands as
  one sequence without a fault, \<open>spi_exec_cmds\<close> reports success and leaves the state the driver left.
\<close>

definition runs_driver :: "c_rand \<Rightarrow> nat \<Rightarrow> spi_exec_cmds \<Rightarrow> bool" where
  "runs_driver rnd d run \<longleftrightarrow> (\<forall>rs s s'. run_sequence rnd d rs s = Inr s' \<longrightarrow> run rs s = (0, s'))"

text \<open>And a device takes as many commands, with as many bytes, as it was opened for.\<close>

fun request_payload :: "spi_request \<Rightarrow> nat" where
  "request_payload (Xfer t r n) = n"
| "request_payload _ = 0"

definition takes_commands :: "spi_add_cmds \<Rightarrow> bool" where
  "takes_commands add \<longleftrightarrow> (\<forall>rs. length rs \<le> MAX_NUM_CMDS \<and> sum_list (map request_payload rs) \<le> MAX_TOTAL_PAYLOAD \<longrightarrow> all_added add rs)"

lemma takes_commandsD:
  "takes_commands add \<Longrightarrow> length rs \<le> MAX_NUM_CMDS \<Longrightarrow> sum_list (map request_payload rs) \<le> MAX_TOTAL_PAYLOAD \<Longrightarrow> all_added add rs"
  by (simp add: takes_commands_def)

text \<open>The state between tests: the device idle, its bus free, and buffers of the given sizes.\<close>

definition test_ready :: "nat \<Rightarrow> bool \<Rightarrow> (nat \<times> nat) list \<Rightarrow> spi_state \<Rightarrow> bool" where
  "test_ready d lb bufs s \<longleftrightarrow> dev_idle d s \<and> bus_free d s \<and> loopback (devs s d) = lb \<and>
     (\<forall>a n. (a, n) \<in> set bufs \<longrightarrow> (\<exists>b. mem s a = Some b \<and> length b = n))"

lemma test_ready_buf:
  "test_ready d lb bufs s \<Longrightarrow> (a, n) \<in> set bufs \<Longrightarrow> \<exists>b. mem s a = Some b \<and> length b = n"
  unfolding test_ready_def by blast

lemma test_ready_frame:
  assumes "test_ready d lb bufs s" and "\<forall>a. map_option length (m a) = map_option length (mem s a)"
  shows "test_ready d lb bufs (s\<lparr>mem := m\<rparr>)"
proof -
  have "\<exists>b. m a = Some b \<and> length b = n" if "(a, n) \<in> set bufs" for a n
    using test_ready_buf [OF assms(1) that] assms(2) [rule_format, of a] by auto
  with assms(1) show ?thesis by (auto simp: test_ready_def dev_idle_def bus_free_def)
qed

lemma run_selected:
  assumes "runs_driver rnd d run" and "dev_idle d s" and "bus_free d s" and "list_all free_request rs"
    and "perform_all rnd d rs s = Inr s'"
  shows "run (Cs_assert # rs @ [Cs_deassert]) s = (0, s')"
    and "run (Set_clk # Cs_assert # rs @ [Cs_deassert]) s = (0, s')"
proof -
  have "perform_all rnd d (Cs_assert # rs @ [Cs_deassert]) s = Inr s'"
    by (rule perform_selected [OF assms(3-5)])
  moreover from this have "perform_all rnd d (Set_clk # Cs_assert # rs @ [Cs_deassert]) s = Inr s'" by simp
  ultimately show "run (Cs_assert # rs @ [Cs_deassert]) s = (0, s')" "run (Set_clk # Cs_assert # rs @ [Cs_deassert]) s = (0, s')"
    using assms(1) run_sequence_eq [OF assms(2)] unfolding runs_driver_def by metis+
qed

lemma xfer_test_passes:
  assumes "runs_driver rnd d run" and "test_ready d lb [(t, N), (r, M)] s" and "t \<noteq> r" and "n \<le> N" and "n \<le> M"
    and "takes_commands add" and "n \<le> TXRX_SIZE"
  shows "\<exists>s'. exec_xfer_test rnd add run lb t r n s = Inr (True, s') \<and> test_ready d lb [(t, N), (r, M)] s'"
proof -
  obtain tb rb where mem: "mem s t = Some tb" "mem s r = Some rb" "length tb = N" "length rb = M"
    using test_ready_buf [OF assms(2), of t N] test_ready_buf [OF assms(2), of r M] by auto
  define sent where "sent = rand_buf rnd n (of_nat (n mod 255))"
  have len: "length sent = n" by (simp add: sent_def rand_buf_def)
  define s1 where "s1 = s\<lparr>mem := (mem s)(t \<mapsto> sent @ drop n tb)\<rparr>"
  define s2 where "s2 = s1\<lparr>mem := (mem s1)(r \<mapsto> answer rnd lb sent @ drop n rb)\<rparr>"
  have w: "buf_write t sent s = Inr s1"
    using mem assms(4) len by (simp add: buf_write_def memcpy_to_def s1_def)
  have ready1: "test_ready d lb [(t, N), (r, M)] s1"
    unfolding s1_def by (rule test_ready_frame [OF assms(2)]) (use mem assms(4) len in auto)
  then have i: "dev_idle d s1" "bus_free d s1" and lb: "loopback (devs s1 d) = lb" by (auto simp: test_ready_def)
  have "perform_all rnd d [Xfer (Some t) (Some r) n] s1 = Inr s2"
    using exec_xfer_both [of s1 t "sent @ drop n tb" r rb n rnd d] mem assms(3-5) len lb
    by (simp add: s1_def s2_def)
  then have x: "run [Set_clk, Cs_assert, Xfer (Some t) (Some r) n, Cs_deassert] s1 = (0, s2)"
    using run_selected(2) [OF assms(1) i, of "[Xfer (Some t) (Some r) n]"] by simp
  have ready2: "test_ready d lb [(t, N), (r, M)] s2"
    unfolding s2_def by (rule test_ready_frame [OF ready1]) (use mem assms(3,5) len in \<open>auto simp: s1_def\<close>)
  have "buf_read t n s1 = Inr sent" "buf_read r n s2 = Inr (answer rnd lb sent)"
    using mem assms(3-5) len by (simp_all add: buf_read_def mem_read_def s1_def s2_def)
  moreover have "all_added add [Set_clk, Cs_assert, Xfer (Some t) (Some r) n, Cs_deassert]"
    using assms(7) by (intro takes_commandsD [OF assms(6)]) (simp_all add: MAX_NUM_CMDS_def TXRX_SIZE_def)
  ultimately show ?thesis
    using w x ready2 assms(7) by (simp add: exec_xfer_test_def Let_def test_rand_buf_eq test_digest_eq answer_def len flip: sent_def)
qed

lemma xfer_tests_pass:
  assumes "runs_driver rnd d run" and "test_ready d lb [(t, N), (r, M)] s" and "t \<noteq> r"
    and "takes_commands add" and "\<forall>n \<in> set lens. n \<le> N \<and> n \<le> M \<and> n \<le> TXRX_SIZE"
  shows "\<exists>s'. xfer_tests rnd add run lb t r lens s = Inr (True, s') \<and> test_ready d lb [(t, N), (r, M)] s'"
  using assms(2,5)
proof (induction lens arbitrary: s)
  case (Cons n lens)
  obtain s1 where s1: "exec_xfer_test rnd add run lb t r n s = Inr (True, s1)" "test_ready d lb [(t, N), (r, M)] s1"
    using xfer_test_passes [OF assms(1) Cons.prems(1) assms(3) _ _ assms(4)] Cons.prems(2) by auto
  moreover obtain s2 where "xfer_tests rnd add run lb t r lens s1 = Inr (True, s2)" "test_ready d lb [(t, N), (r, M)] s2"
    using Cons.IH [OF s1(2)] Cons.prems(2) by auto
  ultimately show ?case by simp
qed simp

lemma unidir_test_passes:
  assumes "runs_driver rnd d run" and "test_ready d lb [(r, M)] s" and "128 \<le> M" and "takes_commands add"
  shows "\<exists>s'. unidir_recv rnd add run lb r s = Inr (True, s') \<and> test_ready d lb [(r, M)] s'"
proof -
  obtain rb where mem: "mem s r = Some rb" "length rb = M"
    using test_ready_buf [OF assms(2), of r M] by auto
  define s1 where "s1 = s\<lparr>mem := (mem s)(r \<mapsto> answer_none rnd lb 128 @ drop 128 rb)\<rparr>"
  have i: "dev_idle d s" "bus_free d s" and lb: "loopback (devs s d) = lb" using assms(2) by (auto simp: test_ready_def)
  have len: "length (answer_none rnd lb 128) = 128" by (simp add: answer_none_def rand_buf_def)
  have "perform_all rnd d [Xfer None (Some r) 128] s = Inr s1"
    using exec_xfer_recv [of s r rb 128 rnd d] mem assms(3) lb by (simp add: s1_def)
  then have "run [Cs_assert, Xfer None (Some r) 128, Cs_deassert] s = (0, s1)"
    using run_selected(1) [OF assms(1) i, of "[Xfer None (Some r) 128]"] by simp
  moreover have "test_ready d lb [(r, M)] s1"
    unfolding s1_def by (rule test_ready_frame [OF assms(2)]) (use mem assms(3) len in auto)
  moreover have "buf_read r 128 s1 = Inr (answer_none rnd lb 128)"
    using mem assms(3) len by (simp add: buf_read_def mem_read_def s1_def)
  moreover have "all_added add [Cs_assert, Xfer None (Some r) 128, Cs_deassert]"
    by (intro takes_commandsD [OF assms(4)]) (simp_all add: MAX_NUM_CMDS_def MAX_TOTAL_PAYLOAD_def)
  ultimately show ?thesis by (simp add: unidir_recv_def Let_def test_rand_buf_eq answer_none_def)
qed

lemma multi_test_passes:
  assumes "runs_driver rnd d run" and "test_ready d lb [(t0, 128), (r0, 128), (t1, 64), (r1, 64)] s"
    and "distinct [t0, r0, t1, r1]" and "takes_commands add"
  shows "\<exists>s'. multi_segment_xfer rnd add run lb t0 r0 t1 r1 s = Inr (True, s') \<and>
    test_ready d lb [(t0, 128), (r0, 128), (t1, 64), (r1, 64)] s'"
proof -
  let ?bufs = "[(t0, 128), (r0, 128), (t1, 64), (r1, 64)]"
  let ?a0 = "rand_buf rnd 128 0" and ?a1 = "rand_buf rnd 64 1"
  have len: "length (rand_buf rnd n x) = n" for n x by (simp add: rand_buf_def)
  obtain b0 c0 b1 c1 where mem: "mem s t0 = Some b0" "mem s r0 = Some c0" "mem s t1 = Some b1" "mem s r1 = Some c1"
    "length b0 = 128" "length c0 = 128" "length b1 = 64" "length c1 = 64"
    using test_ready_buf [OF assms(2), of t0 128] test_ready_buf [OF assms(2), of r0 128]
      test_ready_buf [OF assms(2), of t1 64] test_ready_buf [OF assms(2), of r1 64] by auto
  define s1 where "s1 = s\<lparr>mem := (mem s)(t0 \<mapsto> ?a0)\<rparr>"
  define s2 where "s2 = s1\<lparr>mem := (mem s1)(t1 \<mapsto> ?a1)\<rparr>"
  define s3 where "s3 = s2\<lparr>mem := (mem s2)(r0 \<mapsto> answer rnd lb ?a0)\<rparr>"
  define s4 where "s4 = s3\<lparr>mem := (mem s3)(r1 \<mapsto> answer rnd lb ?a1)\<rparr>"
  have w: "buf_write t0 ?a0 s = Inr s1" "buf_write t1 ?a1 s1 = Inr s2"
    using mem assms(3) by (auto simp: buf_write_def memcpy_to_def len s1_def s2_def)
  have ready2: "test_ready d lb ?bufs s2"
    unfolding s2_def s1_def
    by (intro test_ready_frame test_ready_frame [OF assms(2)]) (use mem assms(3) len in auto)
  then have i: "dev_idle d s2" "bus_free d s2" and lb: "loopback (devs s2 d) = lb" by (auto simp: test_ready_def)
  have x: "exec_xfer rnd d \<lparr>tx = Some t0, rx = Some r0, xfer_len = 128\<rparr> s2 = Inr s3"
    "exec_xfer rnd d \<lparr>tx = Some t1, rx = Some r1, xfer_len = 64\<rparr> s3 = Inr s4"
    using exec_xfer_both [of s2 t0 ?a0 r0 c0 128 rnd d] exec_xfer_both [of s3 t1 ?a1 r1 c1 64 rnd d] mem assms(3) lb
    by (auto simp: s1_def s2_def s3_def s4_def len)
  then have "run [Cs_assert, Xfer (Some t0) (Some r0) 128, Xfer (Some t1) (Some r1) 64, Cs_deassert] s2 = (0, s4)"
    using run_selected(1) [OF assms(1) i, of "[Xfer (Some t0) (Some r0) 128, Xfer (Some t1) (Some r1) 64]"] by simp
  moreover have "test_ready d lb ?bufs s4"
    unfolding s4_def s3_def
    by (intro test_ready_frame test_ready_frame [OF ready2])
      (use mem assms(3) len in \<open>auto simp: s1_def s2_def\<close>)
  moreover have "buf_read t0 128 s2 = Inr ?a0" "buf_read t1 64 s2 = Inr ?a1" "buf_read t0 128 s4 = Inr ?a0"
    "buf_read t1 64 s4 = Inr ?a1" "buf_read r0 128 s4 = Inr (answer rnd lb ?a0)" "buf_read r1 64 s4 = Inr (answer rnd lb ?a1)"
    using assms(3) by (auto simp: buf_read_def mem_read_def s1_def s2_def s3_def s4_def len)
  moreover have "all_added add [Cs_assert, Xfer (Some t0) (Some r0) 128, Xfer (Some t1) (Some r1) 64, Cs_deassert]"
    by (intro takes_commandsD [OF assms(4)]) (simp_all add: MAX_NUM_CMDS_def MAX_TOTAL_PAYLOAD_def)
  ultimately show ?thesis
    using w by (simp add: multi_segment_xfer_def Let_def test_rand_buf_eq test_digest_eq answer_def len)
qed


text \<open>Libraries that only run the driver, and buffers for the examples.\<close>

definition direct_run :: "c_rand \<Rightarrow> nat \<Rightarrow> spi_exec_cmds" where
  "direct_run rnd d rs s = (case run_sequence rnd d rs s of Inl f \<Rightarrow> (-1, s) | Inr s' \<Rightarrow> (0, s'))"

lemma direct_run_ok: "runs_driver rnd d (direct_run rnd d)"
  by (simp add: runs_driver_def direct_run_def)

text \<open>A device that takes 32 commands with a payload of 1 MiB and no more.\<close>

definition counted_add :: spi_add_cmds where
  "counted_add rs = map (\<lambda>i. if MAX_NUM_CMDS < i \<or> MAX_TOTAL_PAYLOAD < sum_list (map request_payload (take i rs)) then -1 else 0) [1..<Suc (length rs)]"

lemma take_payload: "sum_list (map request_payload (take i rs)) \<le> sum_list (map request_payload rs)"
  by (metis append_take_drop_id le_add1 map_append sum_list_append)

lemma counted_add_ok: "takes_commands counted_add"
proof -
  have "counted_add rs = replicate (length rs) 0"
    if "length rs \<le> MAX_NUM_CMDS" "sum_list (map request_payload rs) \<le> MAX_TOTAL_PAYLOAD" for rs
    unfolding counted_add_def using that le_trans [OF take_payload that(2)]
    by (intro nth_equalityI) (auto simp: not_less simp del: upt_Suc)
  then show ?thesis by (simp add: takes_commands_def all_added_def)
qed

definition spi_test_state :: spi_state where
  "spi_test_state = swspi_initial [1 \<mapsto> replicate 128 0, 2 \<mapsto> replicate 128 0, 3 \<mapsto> replicate 64 0, 4 \<mapsto> replicate 64 0]"

lemma spi_test_state_ready: "test_ready test_dev False [(1, 128), (2, 128), (3, 64), (4, 64)] spi_test_state"
  by (auto simp: test_ready_def spi_test_state_def swspi_initial_def idle_dev_def dev_idle_def bus_free_def
      test_dev_def loopback_dev_def)


end
