(* ===== verification/Swspi_Select.thy ===== *)
theory Swspi_Select
  imports Swspi_Test
begin

text \<open>
  The chip select discipline of the software SPI driver: which sequences of requests it runs and which fail
  one of its assertions, \<open>spi_req_exec_cs_assert\<close> and \<open>spi_req_exec_cs_deassert\<close> of \<open>spi/swspi-srv/driver/swspi.c\<close>. The check \<open>cs_check\<close>
  is the reference: the driver itself has none, so whoever calls it has to make it.
\<close>

section \<open>Chip select discipline\<close>

text \<open>
  The check of a sequence of requests: chip selects are asserted and deasserted in turn. It gives the index
  of the first request out of turn, or whether the chip is still selected at the end.
\<close>

fun cs_check :: "bool \<Rightarrow> nat \<Rightarrow> spi_request list \<Rightarrow> nat + bool" where
  "cs_check sel i [] = Inr sel"
| "cs_check sel i (Cs_assert # rs) = (if sel then Inl i else cs_check True (Suc i) rs)"
| "cs_check sel i (Cs_deassert # rs) = (if sel then cs_check False (Suc i) rs else Inl i)"
| "cs_check sel i (r # rs) = cs_check sel (Suc i) rs"

text \<open>A transfer whose buffers exist and are long enough.\<close>

definition buf_ok :: "(nat \<rightharpoonup> byte list) \<Rightarrow> nat option \<Rightarrow> nat \<Rightarrow> bool" where
  "buf_ok m a n = (case a of None \<Rightarrow> True | Some x \<Rightarrow> (case m x of None \<Rightarrow> False | Some b \<Rightarrow> n \<le> length b))"

fun xfer_ok :: "(nat \<rightharpoonup> byte list) \<Rightarrow> spi_request \<Rightarrow> bool" where
  "xfer_ok m (Xfer t r n) = (buf_ok m t n \<and> buf_ok m r n)"
| "xfer_ok m _ = True"

text \<open>The delays of a sequence.\<close>

fun delay_of :: "spi_request \<Rightarrow> u64 list" where
  "delay_of (Delay n) = [n]"
| "delay_of _ = []"

definition holds_bus :: "nat \<Rightarrow> bool \<Rightarrow> spi_state \<Rightarrow> bool" where
  "holds_bus d sel s \<longleftrightarrow> bus_owner (buses s (dev_bus (devs s d))) = (if sel then Some d else None)"

text \<open>The buses with another owner of bus \<open>b\<close>.\<close>

definition owned_by :: "nat \<Rightarrow> nat option \<Rightarrow> (nat \<Rightarrow> spi_bus_ctx) \<Rightarrow> nat \<Rightarrow> spi_bus_ctx" where
  "owned_by b ow bs = bs(b := (bs b)\<lparr>bus_owner := ow\<rparr>)"

lemma set_owner_buses: "buses (set_owner b ow s) = owned_by b ow (buses s)"
  by (simp add: set_owner_def owned_by_def)

lemma owned_by_twice: "owned_by b ow (owned_by b ow' bs) = owned_by b ow bs"
  by (simp add: owned_by_def)

lemma owned_by_same: "bus_owner (bs b) = ow \<Longrightarrow> owned_by b ow bs = bs"
  by (auto simp: owned_by_def)

lemma buf_write_ok:
  assumes "buf_ok (mem s) (Some r) (length bs)"
  shows "\<exists>m. buf_write r bs s = Inr (s\<lparr>mem := m\<rparr>) \<and> (\<forall>a n. buf_ok m a n = buf_ok (mem s) a n)"
proof -
  obtain b where b: "mem s r = Some b" "length bs \<le> length b" using assms by (auto simp: buf_ok_def split: option.splits)
  then have "buf_write r bs s = Inr (s\<lparr>mem := (mem s)(r \<mapsto> bs @ drop (length bs) b)\<rparr>)"
    by (simp add: buf_write_def memcpy_to_def)
  moreover have "buf_ok ((mem s)(r \<mapsto> bs @ drop (length bs) b)) a n = buf_ok (mem s) a n" for a n
    using b by (auto simp: buf_ok_def split: option.split)
  ultimately show ?thesis by blast
qed

lemma exec_xfer_ok:
  assumes "buf_ok (mem s) t n" and "buf_ok (mem s) r n"
  shows "\<exists>m. exec_xfer rnd d \<lparr>tx = t, rx = r, xfer_len = n\<rparr> s = Inr (s\<lparr>mem := m\<rparr>) \<and> (\<forall>a n. buf_ok m a n = buf_ok (mem s) a n)"
proof -
  have r: "\<exists>bs. buf_read x n s = Inr bs \<and> length bs = n" if "t = Some x" for x
    using assms(1) that by (auto simp: buf_ok_def buf_read_def mem_read_def split: option.splits)
  have l: "length (rand_buf rnd n sd) = n" for sd by (simp add: rand_buf_def)
  show ?thesis
  proof (cases r)
    case None
    then have "exec_xfer rnd d \<lparr>tx = t, rx = r, xfer_len = n\<rparr> s = Inr s"
      using r by (cases t) (auto simp: exec_xfer_def)
    then show ?thesis by (intro exI [of _ "mem s"]) simp
  next
    case (Some x)
    obtain bs where e: "exec_xfer rnd d \<lparr>tx = t, rx = r, xfer_len = n\<rparr> s = buf_write x bs s" "length bs = n"
      using r l Some by (cases t; cases "loopback (devs s d)") (auto simp: exec_xfer_def)
    then show ?thesis using buf_write_ok [of s x bs] assms(2) Some by simp
  qed
qed

text \<open>
  On an idle device the driver runs exactly the sequences that keep the discipline; every other sequence
  fails an assertion.
\<close>

lemma perform_free:
  assumes "free_request r" and "xfer_ok (mem s) r"
  shows "\<exists>m. perform rnd d r s = Inr (s\<lparr>mem := m, sleeps := sleeps s @ delay_of r\<rparr>) \<and> (\<forall>q. xfer_ok m q = xfer_ok (mem s) q)"
proof (cases r)
  case (Xfer t x n)
  then obtain m where m: "exec_xfer rnd d \<lparr>tx = t, rx = x, xfer_len = n\<rparr> s = Inr (s\<lparr>mem := m\<rparr>)"
    "\<forall>a n. buf_ok m a n = buf_ok (mem s) a n"
    using exec_xfer_ok [of s t n x rnd d] assms(2) by auto
  have "xfer_ok m q = xfer_ok (mem s) q" for q using m(2) by (cases q) auto
  with m Xfer show ?thesis by auto
qed (use assms in \<open>auto intro!: exI [of _ "mem s"]\<close>)

lemma cs_check_free: "free_request r \<Longrightarrow> cs_check sel i (r # rs) = cs_check sel (Suc i) rs"
  by (cases r) simp_all

lemma perform_all_cs:
  assumes "holds_bus d sel s" and "list_all (xfer_ok (mem s)) rs"
  shows "case cs_check sel i rs of
      Inl _ \<Rightarrow> perform_all rnd d rs s = Inl Assert_failed
    | Inr sel' \<Rightarrow> \<exists>s'. perform_all rnd d rs s = Inr s' \<and> holds_bus d sel' s' \<and> devs s' = devs s \<and>
        buses s' = owned_by (dev_bus (devs s d)) (if sel' then Some d else None) (buses s) \<and>
        sleeps s' = sleeps s @ concat (map delay_of rs) \<and> (\<forall>q. xfer_ok (mem s') q = xfer_ok (mem s) q)"
  using assms
proof (induction rs arbitrary: sel i s)
  case Nil
  then show ?case by (simp add: holds_bus_def owned_by_same)
next
  case (Cons r rs)
  consider "r = Cs_assert" | "r = Cs_deassert" | "free_request r" by (cases r) auto
  then show ?case
  proof cases
    case 1
    let ?s = "set_owner (dev_bus (devs s d)) (Some d) s"
    have s: "holds_bus d True ?s" "list_all (xfer_ok (mem ?s)) rs" "sleeps ?s = sleeps s"
      using Cons.prems by (simp_all add: holds_bus_def, simp add: set_owner_def)
    show ?thesis
      using Cons.IH [OF s(1,2), of "Suc i"] Cons.prems(1) s(3) 1
      by (auto simp: holds_bus_def assertr_def set_owner_buses owned_by_twice split: sum.splits)
  next
    case 2
    let ?s = "set_owner (dev_bus (devs s d)) None s"
    have s: "holds_bus d False ?s" "list_all (xfer_ok (mem ?s)) rs" "sleeps ?s = sleeps s"
      using Cons.prems by (simp_all add: holds_bus_def, simp add: set_owner_def)
    show ?thesis
      using Cons.IH [OF s(1,2), of "Suc i"] Cons.prems(1) s(3) 2
      by (auto simp: holds_bus_def assertr_def set_owner_buses owned_by_twice split: sum.splits)
  next
    case 3
    obtain m where m: "perform rnd d r s = Inr (s\<lparr>mem := m, sleeps := sleeps s @ delay_of r\<rparr>)"
      "\<forall>q. xfer_ok m q = xfer_ok (mem s) q"
      using perform_free [OF 3, of s rnd d] Cons.prems(2) by auto
    let ?s = "s\<lparr>mem := m, sleeps := sleeps s @ delay_of r\<rparr>"
    have s: "holds_bus d sel ?s" "list_all (xfer_ok (mem ?s)) rs"
      using Cons.prems m(2) by (simp_all add: holds_bus_def list_all_iff)
    show ?thesis
      using Cons.IH [OF s, of "Suc i"] m by (auto simp: cs_check_free [OF 3] split: sum.splits)
  qed
qed

text \<open>C33: The driver runs exactly the sequences in which chip selects are asserted and deasserted in turn: on an idle
  device with a free bus and with buffers that are long enough such a sequence is executed to its end,
  with all its delays, leaves the device idle and the bus free unless the last assertion is still open;
  any other sequence fails an assertion of the driver.\<close>

theorem cs_discipline_exact:
  assumes "dev_idle d s" and "bus_free d s" and "list_all (xfer_ok (mem s)) rs"
  shows "case cs_check False 0 rs of
      Inl _ \<Rightarrow> run_sequence rnd d rs s = Inl Assert_failed
    | Inr sel \<Rightarrow> \<exists>s'. run_sequence rnd d rs s = Inr s' \<and> dev_idle d s' \<and> (bus_free d s' \<longleftrightarrow> \<not> sel) \<and>
        sleeps s' = sleeps s @ concat (map delay_of rs)"
proof -
  have "holds_bus d False s" using assms(2) by (simp add: holds_bus_def bus_free_def)
  from perform_all_cs [OF this assms(3), where i = 0 and rnd = rnd] assms(1) show ?thesis
    by (auto simp: run_sequence_eq holds_bus_def bus_free_def dev_idle_def split: sum.splits)
qed

theorem cs_discipline_exact_witness:
  "run_sequence (\<lambda>seed i. i) test_dev [Cs_assert, Xfer (Some 1) (Some 2) 128, Cs_assert] spi_test_state = Inl Assert_failed \<and>
   (\<exists>s'. run_sequence (\<lambda>seed i. i) test_dev [Cs_assert, Xfer (Some 1) (Some 2) 128, Delay 7, Cs_deassert] spi_test_state = Inr s' \<and>
     bus_free test_dev s' \<and> sleeps s' = [7])"
proof -
  have r: "dev_idle test_dev spi_test_state" "bus_free test_dev spi_test_state"
    using spi_test_state_ready by (auto simp: test_ready_def)
  have m: "mem spi_test_state 1 = Some (replicate 128 0)" "mem spi_test_state 2 = Some (replicate 128 0)"
    "sleeps spi_test_state = []"
    by (simp_all add: spi_test_state_def swspi_initial_def)
  show ?thesis
    using cs_discipline_exact [OF r, of "[Cs_assert, Xfer (Some 1) (Some 2) 128, Cs_assert]" "\<lambda>seed i. i"]
      cs_discipline_exact [OF r, of "[Cs_assert, Xfer (Some 1) (Some 2) 128, Delay 7, Cs_deassert]" "\<lambda>seed i. i"]
    by (auto simp: buf_ok_def m m [unfolded One_nat_def])
qed

end
