(* ===== verification/Swspi_Cmds.thy ===== *)
theory Swspi_Cmds
  imports Swspi_Select "HOL-Library.State_Monad"
begin

text \<open>
  The command tests of \<open>spi/swspi-test/swspi-test.c\<close>, as programs over the SPI client library, which is not
  part of the repository: adding commands, the limits of a batch, chip selects, the clock and delays. The
  locale \<open>spi_client\<close> states what the tests of the chip selects and of delays need of the library and everything behind it,
  \<open>spi_limits\<close> what the tests of the library itself need on top; in them every test is shown to pass, by a small logic of
  passing programs. In \<open>Swspi_Stack\<close> the first contract is derived from what the software SPI driver of the repository does.
\<close>

section \<open>The client library\<close>

definition CLK_SPEED :: u64 where
  "CLK_SPEED = 1000000"

text \<open>
  The commands a client adds: a transfer names the directions it has a pointer for, a clock command whether
  it has one.
\<close>

datatype spi_cmd =
    Add_cs_assert
  | Add_cs_deassert
  | Add_data_xfer bool bool nat
  | Add_set_clk u64 bool
  | Add_delay u64

record spi_errors =
  ERR_BAD_HANDLE :: int
  ERR_OUT_OF_RANGE :: int
  ERR_TOO_BIG :: int
  ERR_BAD_STATE :: int

text \<open>
  The library on a state \<open>'k\<close> of everything behind it. \<open>sl_add\<close> is the family \<open>spi_add_..._cmd\<close>: the device is
  named by its place in \<open>devs\<close>, or is \<open>NULL\<close>; it gives the return code and the pointers it writes. \<open>sl_exec\<close> is
  \<open>spi_exec_cmds\<close>: the return code and the index of the failed command. \<open>sl_clk\<close> reads through a clock pointer.
\<close>

record 'k spi_lib =
  sl_open :: "nat \<Rightarrow> string \<Rightarrow> nat \<Rightarrow> nat \<Rightarrow> 'k \<Rightarrow> int \<times> 'k"
  sl_clear :: "nat \<Rightarrow> 'k \<Rightarrow> 'k"
  sl_add :: "nat option \<Rightarrow> spi_cmd \<Rightarrow> 'k \<Rightarrow> (int \<times> nat option \<times> nat option) \<times> 'k"
  sl_exec :: "nat \<Rightarrow> 'k \<Rightarrow> (int \<times> nat) \<times> 'k"
  sl_clk :: "nat \<Rightarrow> 'k \<Rightarrow> u64"
  sl_gettime :: "'k \<Rightarrow> int"
  sl_errors :: spi_errors
  SPI_TEST_PORT :: string
  SPI_LOOPBACK_PORT :: string

section \<open>The tests\<close>

record spi_test_dev =
  dev_name :: string
  initialized :: bool
  is_loopback :: bool

record 'k spi_run =
  spi_world :: 'k
  test_devs :: "spi_test_dev list"
  spi_failed :: bool

type_synonym ('k, 'a) spi_prog = "('k spi_run, 'a) state"

definition spi_test_devs :: "'k spi_lib \<Rightarrow> spi_test_dev list" where
  "spi_test_devs lib = [\<lparr>dev_name = SPI_TEST_PORT lib, initialized = False, is_loopback = False\<rparr>,
     \<lparr>dev_name = SPI_LOOPBACK_PORT lib, initialized = False, is_loopback = True\<rparr>]"

definition SPI_DEV_COUNT :: nat where
  "SPI_DEV_COUNT = 2"

definition sp_expect :: "bool \<Rightarrow> ('k, unit) spi_prog" where
  "sp_expect c = State_Monad.update (\<lambda>s. s\<lparr>spi_failed := spi_failed s \<or> \<not> c\<rparr>)"

definition sp_call :: "('k \<Rightarrow> 'a \<times> 'k) \<Rightarrow> ('k, 'a) spi_prog" where
  "sp_call f = State (\<lambda>s. case f (spi_world s) of (x, k) \<Rightarrow> (x, s\<lparr>spi_world := k\<rparr>))"

definition sp_read :: "('k \<Rightarrow> 'a) \<Rightarrow> ('k, 'a) spi_prog" where
  "sp_read f = State (\<lambda>s. (f (spi_world s), s))"

definition sp_dev :: "nat \<Rightarrow> ('k, spi_test_dev) spi_prog" where
  "sp_dev idx = State (\<lambda>s. (test_devs s ! idx, s))"

definition spi_dev_init_once :: "'k spi_lib \<Rightarrow> nat \<Rightarrow> ('k, int) spi_prog" where
  "spi_dev_init_once lib idx = do {
     test_dev \<leftarrow> sp_dev idx;
     if initialized test_dev then State_Monad.return 0
     else do {
       rc \<leftarrow> sp_call (sl_open lib idx (dev_name test_dev) MAX_NUM_CMDS MAX_TOTAL_PAYLOAD);
       _ \<leftarrow> (if rc = NO_ERROR
             then State_Monad.update (\<lambda>s. s\<lparr>test_devs := (test_devs s)[idx := test_dev\<lparr>initialized := True\<rparr>]\<rparr>)
             else State_Monad.return ());
       State_Monad.return rc } }"

text \<open>The fixture: when it is set up, the body runs. Its parameter is a place in \<open>devs\<close>.\<close>

definition swspi_fixture :: "'k spi_lib \<Rightarrow> (nat \<Rightarrow> ('k, unit) spi_prog) \<Rightarrow> nat \<Rightarrow> ('k, unit) spi_prog" where
  "swspi_fixture lib body idx =
     (if \<not> idx < SPI_DEV_COUNT then sp_expect False
      else do {
        rc \<leftarrow> spi_dev_init_once lib idx;
        if rc \<noteq> 0 then sp_expect False
        else do {
          _ \<leftarrow> sp_call (\<lambda>k. ((), sl_clear lib idx k));
          body idx } })"

definition add_ok :: "'k spi_lib \<Rightarrow> nat \<Rightarrow> spi_cmd \<Rightarrow> ('k, unit) spi_prog" where
  "add_ok lib d c = do { (rc, _, _) \<leftarrow> sp_call (sl_add lib (Some d) c); sp_expect (rc = 0) }"

text \<open>A transfer with the checks of the pointers it asks for.\<close>

definition add_xfer_ok :: "'k spi_lib \<Rightarrow> nat \<Rightarrow> bool \<Rightarrow> bool \<Rightarrow> nat \<Rightarrow> ('k, unit) spi_prog" where
  "add_xfer_ok lib d want_tx want_rx n = do {
     (rc, tx, rx) \<leftarrow> sp_call (sl_add lib (Some d) (Add_data_xfer want_tx want_rx n));
     _ \<leftarrow> sp_expect (rc = 0);
     _ \<leftarrow> sp_expect (want_tx \<longrightarrow> tx \<noteq> None);
     sp_expect (want_rx \<longrightarrow> rx \<noteq> None) }"

text \<open>The transfer whose two pointers go to the same variable, the second after the first.\<close>

definition add_xfer_same :: "'k spi_lib \<Rightarrow> nat \<Rightarrow> ('k, unit) spi_prog" where
  "add_xfer_same lib d = do {
     (rc, tx, rx) \<leftarrow> sp_call (sl_add lib (Some d) (Add_data_xfer True True 1));
     _ \<leftarrow> sp_expect (rc = 0);
     sp_expect ((case rx of None \<Rightarrow> tx | Some p \<Rightarrow> Some p) \<noteq> None) }"

definition add_cmd :: "'k spi_lib \<Rightarrow> nat \<Rightarrow> ('k, unit) spi_prog" where
  "add_cmd lib d = do {
     _ \<leftarrow> add_ok lib d Add_cs_assert;
     _ \<leftarrow> add_xfer_ok lib d True True 1;
     _ \<leftarrow> add_xfer_ok lib d True False 1;
     _ \<leftarrow> add_xfer_ok lib d False True 1;
     _ \<leftarrow> add_xfer_same lib d;
     _ \<leftarrow> add_xfer_ok lib d False False 0;
     _ \<leftarrow> add_ok lib d Add_cs_deassert;
     _ \<leftarrow> add_ok lib d (Add_set_clk CLK_SPEED False);
     add_ok lib d (Add_set_clk CLK_SPEED True) }"

definition add_cmd_null :: "'k spi_lib \<Rightarrow> nat \<Rightarrow> ('k, unit) spi_prog" where
  "add_cmd_null lib d = do {
     (rc, _, _) \<leftarrow> sp_call (sl_add lib None Add_cs_assert);
     sp_expect (rc = ERR_BAD_HANDLE (sl_errors lib)) }"

function add_pairs :: "'k spi_lib \<Rightarrow> nat \<Rightarrow> nat \<Rightarrow> ('k, unit) spi_prog" where
  "add_pairs lib d i =
     (if i < MAX_NUM_CMDS then do {
        _ \<leftarrow> add_ok lib d Add_cs_assert;
        _ \<leftarrow> add_ok lib d Add_cs_deassert;
        add_pairs lib d (i + 2) }
      else State_Monad.return ())"
  by pat_completeness auto

termination add_pairs
  by (relation "measure (\<lambda>(lib, d, i). MAX_NUM_CMDS - i)") auto

declare add_pairs.simps [simp del]

definition add_cmd_out_of_bounds :: "'k spi_lib \<Rightarrow> nat \<Rightarrow> ('k, unit) spi_prog" where
  "add_cmd_out_of_bounds lib d = do {
     _ \<leftarrow> add_pairs lib d 0;
     (rc, _, _) \<leftarrow> sp_call (sl_add lib (Some d) Add_cs_assert);
     sp_expect (rc = ERR_OUT_OF_RANGE (sl_errors lib)) }"

definition add_xfer_too_big :: "'k spi_lib \<Rightarrow> nat \<Rightarrow> ('k, unit) spi_prog" where
  "add_xfer_too_big lib d = do {
     _ \<leftarrow> add_ok lib d Add_cs_assert;
     (rc, _, _) \<leftarrow> sp_call (sl_add lib (Some d) (Add_data_xfer True True (MAX_TOTAL_PAYLOAD + 1)));
     _ \<leftarrow> sp_expect (rc = ERR_TOO_BIG (sl_errors lib));
     (rc, _, _) \<leftarrow> sp_call (sl_add lib (Some d) Add_cs_deassert);
     _ \<leftarrow> sp_expect (rc < 0);
     (rc, failed) \<leftarrow> sp_call (sl_exec lib d);
     _ \<leftarrow> sp_expect (rc = ERR_BAD_STATE (sl_errors lib));
     sp_expect (failed = 1) }"

definition cs_double_assert :: "'k spi_lib \<Rightarrow> nat \<Rightarrow> ('k, unit) spi_prog" where
  "cs_double_assert lib d = do {
     _ \<leftarrow> add_ok lib d Add_cs_assert;
     _ \<leftarrow> add_ok lib d Add_cs_assert;
     (rc, failed) \<leftarrow> sp_call (sl_exec lib d);
     _ \<leftarrow> sp_expect (rc < 0);
     sp_expect (failed = 1) }"

definition cs_already_deasserted :: "'k spi_lib \<Rightarrow> nat \<Rightarrow> ('k, unit) spi_prog" where
  "cs_already_deasserted lib d = do {
     _ \<leftarrow> add_ok lib d Add_cs_deassert;
     (rc, failed) \<leftarrow> sp_call (sl_exec lib d);
     _ \<leftarrow> sp_expect (rc < 0);
     sp_expect (failed = 0) }"

definition cs_shared_bus :: "'k spi_lib \<Rightarrow> nat \<Rightarrow> ('k, unit) spi_prog" where
  "cs_shared_bus lib d = do {
     test_dev \<leftarrow> sp_dev d;
     if is_loopback test_dev then State_Monad.return ()
     else do {
       _ \<leftarrow> add_ok lib d Add_cs_assert;
       (rc, failed) \<leftarrow> sp_call (sl_exec lib d);
       sp_expect (rc < 0) } }"

definition set_clk_test :: "'k spi_lib \<Rightarrow> nat \<Rightarrow> ('k, unit) spi_prog" where
  "set_clk_test lib d = do {
     (rc, clk_hz, _) \<leftarrow> sp_call (sl_add lib (Some d) (Add_set_clk CLK_SPEED True));
     _ \<leftarrow> sp_expect (rc = 0);
     (rc, _) \<leftarrow> sp_call (sl_exec lib d);
     _ \<leftarrow> sp_expect (rc = 0);
     case clk_hz of
       None \<Rightarrow> sp_expect False
     | Some p \<Rightarrow> do { clk \<leftarrow> sp_read (sl_clk lib p); sp_expect (clk \<le> CLK_SPEED) } }"

definition delay_test :: "'k spi_lib \<Rightarrow> nat \<Rightarrow> ('k, unit) spi_prog" where
  "delay_test lib d = do {
     _ \<leftarrow> add_ok lib d Add_cs_assert;
     _ \<leftarrow> add_ok lib d (Add_delay 1000000000);
     _ \<leftarrow> add_ok lib d Add_cs_deassert;
     start_ns \<leftarrow> sp_read (sl_gettime lib);
     (rc, _) \<leftarrow> sp_call (sl_exec lib d);
     end_ns \<leftarrow> sp_read (sl_gettime lib);
     _ \<leftarrow> sp_expect (rc = 0);
     sp_expect (end_ns - start_ns \<ge> 1000000000) }"

definition command_tests :: "'k spi_lib \<Rightarrow> (nat \<Rightarrow> ('k, unit) spi_prog) list" where
  "command_tests lib = [add_cmd lib, add_cmd_null lib, add_cmd_out_of_bounds lib, add_xfer_too_big lib,
     cs_double_assert lib, cs_already_deasserted lib, cs_shared_bus lib, set_clk_test lib, delay_test lib]"

text \<open>Those whose outcome the driver decides.\<close>

definition driver_tests :: "'k spi_lib \<Rightarrow> (nat \<Rightarrow> ('k, unit) spi_prog) list" where
  "driver_tests lib = [cs_double_assert lib, cs_already_deasserted lib, cs_shared_bus lib, delay_test lib]"

text \<open>The framework runs one test after the other, each for a device.\<close>

fun swspi_suite :: "'k spi_lib \<Rightarrow> ((nat \<Rightarrow> ('k, unit) spi_prog) \<times> nat) list \<Rightarrow> ('k, unit) spi_prog" where
  "swspi_suite lib [] = State_Monad.return ()"
| "swspi_suite lib ((t, idx) # ts) = do { _ \<leftarrow> swspi_fixture lib t idx; swspi_suite lib ts }"

section \<open>What the tests need of the library\<close>

text \<open>
  A device has a batch of commands, each with the pointers its caller got; when a command could not be added,
  the batch is spoilt at its index.
\<close>

type_synonym batch_entry = "spi_cmd \<times> nat option \<times> nat option"

datatype spi_batch = Batch "batch_entry list" | Spoilt nat

fun cmd_payload :: "spi_cmd \<Rightarrow> nat" where
  "cmd_payload (Add_data_xfer t r n) = n"
| "cmd_payload _ = 0"

definition batch_payload :: "batch_entry list \<Rightarrow> nat" where
  "batch_payload es = sum_list (map (cmd_payload \<circ> fst) es)"

fun entry_request :: "batch_entry \<Rightarrow> spi_request" where
  "entry_request (Add_cs_assert, _, _) = Cs_assert"
| "entry_request (Add_cs_deassert, _, _) = Cs_deassert"
| "entry_request (Add_data_xfer _ _ n, t, r) = Xfer t r n"
| "entry_request (Add_set_clk _ _, _, _) = Set_clk"
| "entry_request (Add_delay n, _, _) = Delay n"

text \<open>Whether the pointers a command asks for are given, and no others.\<close>

fun pointers_given :: "batch_entry \<Rightarrow> bool" where
  "pointers_given (Add_data_xfer wt wr n, t, r) = ((t \<noteq> None) = wt \<and> (r \<noteq> None) = wr)"
| "pointers_given (Add_set_clk hz w, t, r) = ((t \<noteq> None) = w \<and> r = None)"
| "pointers_given (_, t, r) = (t = None \<and> r = None)"

definition delays :: "batch_entry list \<Rightarrow> int" where
  "delays es = sum_list (map uint (concat (map (delay_of \<circ> entry_request) es)))"

locale spi_client =
  fixes lib :: "'k spi_lib" and good :: "'k \<Rightarrow> bool" and opened :: "'k \<Rightarrow> nat set" and batch :: "'k \<Rightarrow> nat \<Rightarrow> spi_batch"
    and shared :: "nat set"
  assumes opens: "good k \<Longrightarrow> d < SPI_DEV_COUNT \<Longrightarrow> p = dev_name (spi_test_devs lib ! d) \<Longrightarrow>
      \<exists>k'. sl_open lib d p MAX_NUM_CMDS MAX_TOTAL_PAYLOAD k = (0, k') \<and> good k' \<and> opened k' = insert d (opened k)"
    and clears: "good k \<Longrightarrow> d \<in> opened k \<Longrightarrow> good (sl_clear lib d k) \<and> opened (sl_clear lib d k) = opened k \<and>
      batch (sl_clear lib d k) d = Batch []"
    and adds: "good k \<Longrightarrow> d \<in> opened k \<Longrightarrow> batch k d = Batch es \<Longrightarrow> length es < MAX_NUM_CMDS \<Longrightarrow>
      batch_payload es + cmd_payload c \<le> MAX_TOTAL_PAYLOAD \<Longrightarrow>
      \<exists>t r k'. sl_add lib (Some d) c k = ((0, t, r), k') \<and> pointers_given (c, t, r) \<and>
        good k' \<and> opened k' = opened k \<and> batch k' d = Batch (es @ [(c, t, r)])"
    and exec_refused: "good k \<Longrightarrow> d \<in> opened k \<Longrightarrow> batch k d = Batch es \<Longrightarrow>
      cs_check False 0 (map entry_request es) = Inl i \<Longrightarrow>
      \<exists>rc k'. sl_exec lib d k = ((rc, i), k') \<and> rc < 0 \<and> good k' \<and> opened k' = opened k"
    and exec_unreleased: "good k \<Longrightarrow> d \<in> opened k \<Longrightarrow> batch k d = Batch es \<Longrightarrow> d \<in> shared \<Longrightarrow>
      cs_check False 0 (map entry_request es) = Inr True \<Longrightarrow>
      \<exists>rc i k'. sl_exec lib d k = ((rc, i), k') \<and> rc < 0 \<and> good k' \<and> opened k' = opened k"
    and exec_runs: "good k \<Longrightarrow> d \<in> opened k \<Longrightarrow> batch k d = Batch es \<Longrightarrow>
      cs_check False 0 (map entry_request es) = Inr False \<Longrightarrow>
      \<exists>i k'. sl_exec lib d k = ((0, i), k') \<and> good k' \<and> opened k' = opened k \<and>
        sl_gettime lib k + delays es \<le> sl_gettime lib k'"
    and test_shared: "0 \<in> shared"

text \<open>The limits of a batch, a missing device, and the clock.\<close>

locale spi_limits = spi_client lib good opened batch shared
  for lib :: "'k spi_lib" and good :: "'k \<Rightarrow> bool" and opened :: "'k \<Rightarrow> nat set" and batch :: "'k \<Rightarrow> nat \<Rightarrow> spi_batch" and shared :: "nat set" +
  assumes null_device: "\<exists>t r. sl_add lib None c k = ((ERR_BAD_HANDLE (sl_errors lib), t, r), k)"
    and full: "good k \<Longrightarrow> d \<in> opened k \<Longrightarrow> batch k d = Batch es \<Longrightarrow> length es = MAX_NUM_CMDS \<Longrightarrow>
      \<exists>t r k'. sl_add lib (Some d) c k = ((ERR_OUT_OF_RANGE (sl_errors lib), t, r), k') \<and> good k' \<and> opened k' = opened k"
    and too_big: "good k \<Longrightarrow> d \<in> opened k \<Longrightarrow> batch k d = Batch es \<Longrightarrow> length es < MAX_NUM_CMDS \<Longrightarrow>
      batch_payload es + cmd_payload c > MAX_TOTAL_PAYLOAD \<Longrightarrow>
      \<exists>t r k'. sl_add lib (Some d) c k = ((ERR_TOO_BIG (sl_errors lib), t, r), k') \<and> good k' \<and> opened k' = opened k \<and>
        batch k' d = Spoilt (length es)"
    and spoilt: "good k \<Longrightarrow> d \<in> opened k \<Longrightarrow> batch k d = Spoilt i \<Longrightarrow>
      \<exists>rc t r. sl_add lib (Some d) c k = ((rc, t, r), k) \<and> rc < 0"
    and exec_spoilt: "good k \<Longrightarrow> d \<in> opened k \<Longrightarrow> batch k d = Spoilt i \<Longrightarrow>
      \<exists>k'. sl_exec lib d k = ((ERR_BAD_STATE (sl_errors lib), i), k') \<and> good k' \<and> opened k' = opened k"
    and clocks: "good k \<Longrightarrow> d \<in> opened k \<Longrightarrow> batch k d = Batch es \<Longrightarrow> cs_check False 0 (map entry_request es) = Inr False \<Longrightarrow>
      sl_exec lib d k = (x, k') \<Longrightarrow> (Add_set_clk hz True, Some p, None) \<in> set es \<Longrightarrow> sl_clk lib p k' \<le> hz"

section \<open>Passing programs\<close>

text \<open>A program that passes: from a world with \<open>P\<close> it ends with \<open>Q\<close>, and no check fails.\<close>

abbreviation running :: "spi_test_dev list \<Rightarrow> 'k \<Rightarrow> 'k spi_run" where
  "running dv k \<equiv> \<lparr>spi_world = k, test_devs = dv, spi_failed = False\<rparr>"

definition passes :: "spi_test_dev list \<Rightarrow> ('k \<Rightarrow> bool) \<Rightarrow> ('k, 'a) spi_prog \<Rightarrow> ('a \<Rightarrow> 'k \<Rightarrow> bool) \<Rightarrow> bool" where
  "passes dv P m Q \<longleftrightarrow> (\<forall>k. P k \<longrightarrow> (\<exists>x k'. run_state m (running dv k) = (x, running dv k') \<and> Q x k'))"

lemma passesD: "passes dv P m Q \<Longrightarrow> P k \<Longrightarrow> \<exists>x k'. run_state m (running dv k) = (x, running dv k') \<and> Q x k'"
  by (simp add: passes_def)

lemma passes_bind: "passes dv P m R \<Longrightarrow> (\<And>x. passes dv (R x) (f x) Q) \<Longrightarrow> passes dv P (State_Monad.bind m f) Q"
  unfolding passes_def by (fastforce simp: run_state_bind)

lemma passes_post: "passes dv P m R \<Longrightarrow> (\<And>x k. R x k \<Longrightarrow> Q x k) \<Longrightarrow> passes dv P m Q"
  unfolding passes_def by blast

lemma passes_pre: "passes dv R m Q \<Longrightarrow> (\<And>k. P k \<Longrightarrow> R k) \<Longrightarrow> passes dv P m Q"
  unfolding passes_def by blast

lemma passes_fact: "(c \<Longrightarrow> passes dv P m Q) \<Longrightarrow> passes dv (\<lambda>k. c \<and> P k) m Q"
  unfolding passes_def by blast

lemma passes_call: "(\<And>k. P k \<Longrightarrow> \<exists>x k'. f k = (x, k') \<and> Q x k') \<Longrightarrow> passes dv P (sp_call f) Q"
  unfolding passes_def sp_call_def by fastforce

lemma passes_expect: "(\<And>k. P k \<Longrightarrow> c) \<Longrightarrow> (\<And>k. P k \<Longrightarrow> Q () k) \<Longrightarrow> passes dv P (sp_expect c) Q"
  unfolding passes_def sp_expect_def State_Monad.update_def by simp

lemma passes_check: "(\<And>k. P k \<Longrightarrow> c) \<Longrightarrow> passes dv P m Q \<Longrightarrow> passes dv P (do { _ \<leftarrow> sp_expect c; m }) Q"
  by (rule passes_bind [of dv P _ "\<lambda>_. P"]) (auto intro: passes_expect)

lemma passes_read: "passes dv P (sp_read f) (\<lambda>x k. P k \<and> x = f k)"
  unfolding passes_def sp_read_def by simp

lemma passes_return: "(\<And>k. P k \<Longrightarrow> Q x k) \<Longrightarrow> passes dv P (State_Monad.return x) Q"
  unfolding passes_def by simp

lemma passes_prod: "(\<And>a b. x = (a, b) \<Longrightarrow> passes dv P (f a b) Q) \<Longrightarrow> passes dv P (case x of (a, b) \<Rightarrow> f a b) Q"
  by (cases x) simp

lemma cs_check_pointers:
  "cs_check sel i (map entry_request es) = cs_check sel i (map (\<lambda>c. entry_request (c, None, None)) (map fst es))"
proof (induction es arbitrary: sel i)
  case (Cons e es)
  then show ?case by (cases e rule: entry_request.cases) simp_all
qed simp

lemma batch_payload_fst: "batch_payload es = sum_list (map cmd_payload (map fst es))"
  by (simp add: batch_payload_def comp_def)

context spi_client
begin

text \<open>The batch of device \<open>d\<close> holds the commands \<open>cs\<close>, while the devices \<open>devices\<close> are open.\<close>

definition at :: "nat set \<Rightarrow> nat \<Rightarrow> spi_cmd list \<Rightarrow> 'k \<Rightarrow> bool" where
  "at devices d cs k \<longleftrightarrow> good k \<and> opened k = devices \<and> d \<in> devices \<and> (\<exists>es. batch k d = Batch es \<and> map fst es = cs)"

definition ended :: "nat set \<Rightarrow> 'k \<Rightarrow> bool" where
  "ended devices k \<longleftrightarrow> good k \<and> opened k = devices"

lemma at_ended: "at devices d cs k \<Longrightarrow> ended devices k"
  by (simp add: at_def ended_def)

lemma add_passes:
  assumes "length cs < MAX_NUM_CMDS" and "sum_list (map cmd_payload cs) + cmd_payload c \<le> MAX_TOTAL_PAYLOAD"
  shows "passes dv (at devices d cs) (sp_call (sl_add lib (Some d) c))
    (\<lambda>(rc, t, r) k. (rc = 0 \<and> pointers_given (c, t, r)) \<and> at devices d (cs @ [c]) k)"
proof (rule passes_call)
  fix k assume "at devices d cs k"
  then obtain es where e: "good k" "d \<in> opened k" "opened k = devices" "batch k d = Batch es" "map fst es = cs" by (auto simp: at_def)
  have l: "length es = length cs" by (simp flip: e(5))
  obtain t r k' where a: "sl_add lib (Some d) c k = ((0, t, r), k')" "pointers_given (c, t, r)"
    "good k'" "opened k' = opened k" "batch k' d = Batch (es @ [(c, t, r)])"
    using adds [OF e(1,2,4), of c] assms by (auto simp: batch_payload_fst l e(5) simp del: map_map)
  then show "\<exists>x k'. sl_add lib (Some d) c k = (x, k') \<and>
      (case x of (rc, t, r) \<Rightarrow> \<lambda>k. (rc = 0 \<and> pointers_given (c, t, r)) \<and> at devices d (cs @ [c]) k) k'"
    using e by (auto simp: at_def)
qed

lemma add_ok_passes:
  assumes "length cs < MAX_NUM_CMDS" and "sum_list (map cmd_payload cs) + cmd_payload c \<le> MAX_TOTAL_PAYLOAD"
  shows "passes dv (at devices d cs) (add_ok lib d c) (\<lambda>_. at devices d (cs @ [c]))"
  unfolding add_ok_def
  by (rule passes_bind, rule add_passes [OF assms], auto intro!: passes_expect split: prod.split)

lemma add_xfer_passes:
  assumes "length cs < MAX_NUM_CMDS" and "sum_list (map cmd_payload cs) + n \<le> MAX_TOTAL_PAYLOAD"
  shows "passes dv (at devices d cs) (add_xfer_ok lib d t r n) (\<lambda>_. at devices d (cs @ [Add_data_xfer t r n]))"
  unfolding add_xfer_ok_def
  by (rule passes_bind, rule add_passes)
    (use assms in \<open>auto intro!: passes_check passes_expect passes_fact split: prod.split\<close>)

lemma add_same_passes:
  assumes "length cs < MAX_NUM_CMDS" and "sum_list (map cmd_payload cs) + 1 \<le> MAX_TOTAL_PAYLOAD"
  shows "passes dv (at devices d cs) (add_xfer_same lib d) (\<lambda>_. at devices d (cs @ [Add_data_xfer True True 1]))"
  unfolding add_xfer_same_def
  by (rule passes_bind, rule add_passes)
    (use assms in \<open>auto intro!: passes_check passes_expect passes_fact split: prod.split option.split\<close>)

text \<open>Each test passes.\<close>

lemma add_cmd_passes: "passes dv (at devices d []) (add_cmd lib d) (\<lambda>_. ended devices)"
  unfolding add_cmd_def
  by (rule passes_bind add_ok_passes add_xfer_passes add_same_passes passes_post [OF add_ok_passes] at_ended
      | simp add: MAX_NUM_CMDS_def MAX_TOTAL_PAYLOAD_def)+

lemma exec_passes:
  assumes "cs_check False 0 (map (\<lambda>c. entry_request (c, None, None)) cs) = Inl i"
  shows "passes dv (at devices d cs) (sp_call (sl_exec lib d)) (\<lambda>(rc, j) k. (rc < 0 \<and> j = i) \<and> ended devices k)"
proof (rule passes_call)
  fix k assume "at devices d cs k"
  then obtain es where e: "good k" "d \<in> opened k" "opened k = devices" "batch k d = Batch es" "map fst es = cs"
    by (auto simp: at_def)
  have "cs_check False 0 (map entry_request es) = Inl i" using assms by (simp only: cs_check_pointers e(5))
  from exec_refused [OF e(1,2,4) this] e(3)
  show "\<exists>x k'. sl_exec lib d k = (x, k') \<and> (case x of (rc, j) \<Rightarrow> \<lambda>k. (rc < 0 \<and> j = i) \<and> ended devices k) k'"
    by (auto simp: ended_def)
qed

lemma cs_double_assert_passes: "passes dv (at devices d []) (cs_double_assert lib d) (\<lambda>_. ended devices)"
  unfolding cs_double_assert_def
  by (rule passes_check passes_bind add_ok_passes exec_passes passes_prod passes_expect | simp add: MAX_NUM_CMDS_def)+

lemma cs_already_deasserted_passes: "passes dv (at devices d []) (cs_already_deasserted lib d) (\<lambda>_. ended devices)"
  unfolding cs_already_deasserted_def
  by (rule passes_check passes_bind add_ok_passes exec_passes passes_prod passes_expect | simp add: MAX_NUM_CMDS_def)+

lemma exec_unreleased_passes:
  assumes "cs_check False 0 (map (\<lambda>c. entry_request (c, None, None)) cs) = Inr True" and "d \<in> shared"
  shows "passes dv (at devices d cs) (sp_call (sl_exec lib d)) (\<lambda>(rc, j) k. rc < 0 \<and> ended devices k)"
proof (rule passes_call)
  fix k assume "at devices d cs k"
  then obtain es where e: "good k" "d \<in> opened k" "opened k = devices" "batch k d = Batch es" "map fst es = cs"
    by (auto simp: at_def)
  have "cs_check False 0 (map entry_request es) = Inr True" using assms(1) by (simp only: cs_check_pointers e(5))
  from exec_unreleased [OF e(1,2,4) assms(2) this] e(3)
  show "\<exists>x k'. sl_exec lib d k = (x, k') \<and> (case x of (rc, j) \<Rightarrow> \<lambda>k. rc < 0 \<and> ended devices k) k'"
    by (auto simp: ended_def)
qed

lemma passes_dev: "(\<And>k. passes dv P (f (dv ! d)) Q) \<Longrightarrow> passes dv P (State_Monad.bind (sp_dev d) f) Q"
  by (simp add: passes_def sp_dev_def)

lemma cs_shared_bus_passes:
  assumes "is_loopback (dv ! d) \<or> d \<in> shared"
  shows "passes dv (at devices d []) (cs_shared_bus lib d) (\<lambda>_. ended devices)"
proof (cases "is_loopback (dv ! d)")
  case True
  then show ?thesis unfolding cs_shared_bus_def
    by (intro passes_dev) (auto intro!: passes_return dest: at_ended)
next
  case False
  have "passes dv (at devices d []) (do {
      _ \<leftarrow> add_ok lib d Add_cs_assert; (rc, failed) \<leftarrow> sp_call (sl_exec lib d); sp_expect (rc < 0) }) (\<lambda>_. ended devices)"
    by (rule passes_bind add_ok_passes exec_unreleased_passes passes_prod passes_expect
        | simp add: MAX_NUM_CMDS_def | use assms False in simp)+
  with False show ?thesis unfolding cs_shared_bus_def by (intro passes_dev) simp
qed

lemma exec_runs_at:
  assumes "at devices d cs k" and "cs_check False 0 (map (\<lambda>c. entry_request (c, None, None)) cs) = Inr False"
  obtains i k' es where "sl_exec lib d k = ((0, i), k')" "ended devices k'" "batch k d = Batch es" "map fst es = cs"
    "sl_gettime lib k + delays es \<le> sl_gettime lib k'"
proof -
  obtain es where e: "good k" "d \<in> opened k" "opened k = devices" "batch k d = Batch es" "map fst es = cs"
    using assms(1) by (auto simp: at_def)
  have "cs_check False 0 (map entry_request es) = Inr False" using assms(2) by (simp only: cs_check_pointers e(5))
  from exec_runs [OF e(1,2,4) this] e(3-5) that show ?thesis by (auto simp: ended_def)
qed

lemma delay_passes: "passes dv (at devices d []) (delay_test lib d) (\<lambda>_. ended devices)"
proof -
  let ?cs = "[Add_cs_assert, Add_delay 1000000000, Add_cs_deassert]"
  have x: "passes dv (\<lambda>k. at devices d ?cs k \<and> t = sl_gettime lib k) (sp_call (sl_exec lib d))
      (\<lambda>(rc, j) k. rc = 0 \<and> (t + 1000000000 \<le> sl_gettime lib k \<and> ended devices k))" for t
  proof (rule passes_call)
    fix k assume k: "at devices d ?cs k \<and> t = sl_gettime lib k"
    then have "at devices d ?cs k" by simp
    then obtain i k' es where e: "sl_exec lib d k = ((0, i), k')" "ended devices k'" "map fst es = ?cs"
      "sl_gettime lib k + delays es \<le> sl_gettime lib k'"
      by (rule exec_runs_at) auto
    have "delays es = 1000000000" using e(3) by (auto simp: delays_def map_eq_Cons_conv)
    with e k show "\<exists>x k'. sl_exec lib d k = (x, k') \<and>
        (case x of (rc, j) \<Rightarrow> \<lambda>k. rc = 0 \<and> (t + 1000000000 \<le> sl_gettime lib k \<and> ended devices k)) k'" by auto
  qed
  show ?thesis unfolding delay_test_def
    by (rule passes_bind [OF add_ok_passes] passes_bind [OF passes_read] passes_bind [OF x] passes_prod passes_fact passes_check
        passes_expect | simp add: MAX_NUM_CMDS_def)+
qed

lemma driver_test_passes:
  assumes "body \<in> set (driver_tests lib)" and "is_loopback (dv ! d) \<or> d \<in> shared"
  shows "passes dv (at devices d []) (body d) (\<lambda>_. ended devices)"
  using assms cs_double_assert_passes cs_already_deasserted_passes cs_shared_bus_passes delay_passes
  unfolding driver_tests_def by auto

text \<open>A body that passes on a device that is open and has no commands.\<close>

definition body_passes :: "(nat \<Rightarrow> ('k, unit) spi_prog) \<Rightarrow> bool" where
  "body_passes body \<longleftrightarrow> (\<forall>dv d devices. is_loopback (dv ! d) \<or> d \<in> shared \<longrightarrow>
     passes dv (at devices d []) (body d) (\<lambda>_. ended devices))"

lemma body_passesD:
  "body_passes body \<Longrightarrow> is_loopback (dv ! d) \<or> d \<in> shared \<Longrightarrow> passes dv (at devices d []) (body d) (\<lambda>_. ended devices)"
  unfolding body_passes_def by blast

lemma driver_bodies: "body \<in> set (driver_tests lib) \<Longrightarrow> body_passes body"
  using driver_test_passes unfolding body_passes_def by blast

text \<open>Between tests: a device that is marked as initialised is open.\<close>

definition between :: "spi_test_dev list \<Rightarrow> 'k \<Rightarrow> bool" where
  "between dv k \<longleftrightarrow> good k \<and> map dev_name dv = map dev_name (spi_test_devs lib) \<and>
     map is_loopback dv = map is_loopback (spi_test_devs lib) \<and> (\<forall>i < SPI_DEV_COUNT. initialized (dv ! i) \<longrightarrow> i \<in> opened k)"

lemma init_once_opens:
  assumes "between dv k" and "d < SPI_DEV_COUNT"
  obtains dv' k' where "run_state (spi_dev_init_once lib d) (running dv k) = (0, running dv' k')" "between dv' k'" "d \<in> opened k'"
proof (cases "initialized (dv ! d)")
  case True
  with assms show ?thesis
    by (intro that [of k dv]) (simp_all add: spi_dev_init_once_def sp_dev_def between_def)
next
  case False
  have l: "length dv = SPI_DEV_COUNT" "dev_name (dv ! d) = dev_name (spi_test_devs lib ! d)"
    using assms map_eq_imp_length_eq [of dev_name dv dev_name "spi_test_devs lib"]
    by (auto simp: between_def spi_test_devs_def SPI_DEV_COUNT_def nth_Cons')
  obtain k' where k': "sl_open lib d (dev_name (dv ! d)) MAX_NUM_CMDS MAX_TOTAL_PAYLOAD k = (0, k')" "good k'"
    "opened k' = insert d (opened k)"
    using opens [OF _ assms(2) l(2), of k] assms(1) by (auto simp: between_def)
  let ?dv = "dv[d := (dv ! d)\<lparr>initialized := True\<rparr>]"
  have "run_state (spi_dev_init_once lib d) (running dv k) = (0, running ?dv k')"
    using False k'(1) by (simp add: spi_dev_init_once_def sp_dev_def sp_call_def run_state_bind NO_ERROR_def State_Monad.update_def)
  moreover have "map dev_name ?dv = map dev_name dv" "map is_loopback ?dv = map is_loopback dv"
    using assms(2) l(1) by (simp_all add: map_update list_update_same_conv)
  ultimately show ?thesis
    using assms k' l(1) by (intro that [of k' ?dv]) (auto simp: between_def nth_list_update)
qed

lemma fixture_passes:
  assumes "between dv k" and "d < SPI_DEV_COUNT" and "body_passes body"
  obtains dv' k' where "run_state (swspi_fixture lib body d) (running dv k) = ((), running dv' k')" "between dv' k'"
proof -
  obtain dv1 k1 where i: "run_state (spi_dev_init_once lib d) (running dv k) = (0, running dv1 k1)" "between dv1 k1" "d \<in> opened k1"
    by (rule init_once_opens [OF assms(1,2)])
  have g: "good k1" using i(2) by (simp add: between_def)
  have lb: "is_loopback (dv1 ! d) \<or> d \<in> shared"
    using i(2) assms(2) test_shared by (auto simp: between_def spi_test_devs_def SPI_DEV_COUNT_def map_eq_Cons_conv less_2_cases_iff)
  have "at (opened k1) d [] (sl_clear lib d k1)" using clears [OF g i(3)] i(3) by (simp add: at_def)
  from passesD [OF body_passesD [OF assms(3) lb] this]
  obtain k2 where k2: "run_state (body d) (running dv1 (sl_clear lib d k1)) = ((), running dv1 k2)" "ended (opened k1) k2"
    by auto
  have "run_state (swspi_fixture lib body d) (running dv k) = ((), running dv1 k2)"
    using assms(2) i(1) k2(1) by (simp add: swspi_fixture_def run_state_bind sp_call_def)
  moreover have "between dv1 k2" using i(2) k2(2) by (simp add: between_def ended_def)
  ultimately show ?thesis by (rule that)
qed

lemma suite_passes:
  assumes "between dv k" and "\<forall>(body, d) \<in> set tests. body_passes body \<and> d < SPI_DEV_COUNT"
  shows "\<exists>dv' k'. run_state (swspi_suite lib tests) (running dv k) = ((), running dv' k') \<and> between dv' k'"
  using assms
proof (induction tests arbitrary: dv k)
  case Nil
  then show ?case by simp
next
  case (Cons t tests)
  obtain body d where t: "t = (body, d)" by (cases t)
  obtain dv1 k1 where f: "run_state (swspi_fixture lib body d) (running dv k) = ((), running dv1 k1)" "between dv1 k1"
    by (rule fixture_passes [OF Cons.prems(1), of d body]) (use Cons.prems(2) t in auto)
  with Cons.IH [OF f(2)] Cons.prems(2) t show ?case by (simp add: run_state_bind)
qed

end

context spi_limits
begin

lemma add_cmd_null_passes: "passes dv (at devices d []) (add_cmd_null lib d) (\<lambda>_. ended devices)"
  unfolding add_cmd_null_def
  by (rule passes_bind [OF passes_call, where R = "\<lambda>(rc, _) k. rc = ERR_BAD_HANDLE (sl_errors lib) \<and> at devices d [] k"])
    (use null_device in \<open>fastforce intro!: passes_expect dest: at_ended split: prod.split\<close>)+

lemma add_pairs_passes:
  assumes "2 * n + length cs = MAX_NUM_CMDS" and "sum_list (map cmd_payload cs) = 0"
  shows "passes dv (at devices d cs) (add_pairs lib d (length cs)) (\<lambda>_ k. \<exists>cs. length cs = MAX_NUM_CMDS \<and> at devices d cs k)"
  using assms
proof (induction n arbitrary: cs)
  case 0
  then show ?case by (subst add_pairs.simps) (auto intro: passes_return)
next
  case (Suc n)
  have l: "length cs < MAX_NUM_CMDS" "length (cs @ [Add_cs_assert]) < MAX_NUM_CMDS" using Suc.prems by simp_all
  have p: "sum_list (map cmd_payload cs) \<le> MAX_TOTAL_PAYLOAD" using Suc.prems(2) by linarith
  have "passes dv (at devices d ((cs @ [Add_cs_assert]) @ [Add_cs_deassert])) (add_pairs lib d (length cs + 2))
      (\<lambda>_ k. \<exists>cs. length cs = MAX_NUM_CMDS \<and> at devices d cs k)"
    using Suc.IH [of "(cs @ [Add_cs_assert]) @ [Add_cs_deassert]"] Suc.prems by simp
  then show ?case
    using l p by (subst add_pairs.simps) (auto intro!: passes_bind [OF add_ok_passes] simp del: append_assoc)
qed

lemma full_passes:
  "passes dv (\<lambda>k. \<exists>cs. length cs = MAX_NUM_CMDS \<and> at devices d cs k) (sp_call (sl_add lib (Some d) c))
    (\<lambda>(rc, t, r) k. rc = ERR_OUT_OF_RANGE (sl_errors lib) \<and> ended devices k)"
proof (rule passes_call)
  fix k assume "\<exists>cs. length cs = MAX_NUM_CMDS \<and> at devices d cs k"
  then obtain es where e: "good k" "d \<in> opened k" "opened k = devices" "batch k d = Batch es" "length es = MAX_NUM_CMDS"
    by (auto simp: at_def)
  from full [OF e(1,2,4,5), of c] e(3)
  show "\<exists>x k'. sl_add lib (Some d) c k = (x, k') \<and>
      (case x of (rc, t, r) \<Rightarrow> \<lambda>k. rc = ERR_OUT_OF_RANGE (sl_errors lib) \<and> ended devices k) k'"
    by (auto simp: ended_def)
qed

lemma add_cmd_out_of_bounds_passes: "passes dv (at devices d []) (add_cmd_out_of_bounds lib d) (\<lambda>_. ended devices)"
proof -
  have "passes dv (at devices d []) (add_pairs lib d 0) (\<lambda>_ k. \<exists>cs. length cs = MAX_NUM_CMDS \<and> at devices d cs k)"
    using add_pairs_passes [of 16 "[]"] by (simp add: MAX_NUM_CMDS_def)
  then show ?thesis
    unfolding add_cmd_out_of_bounds_def
    by (rule passes_bind) (rule passes_bind full_passes passes_prod passes_expect | simp)+
qed

text \<open>A spoilt batch.\<close>

definition spoilt_at :: "nat set \<Rightarrow> nat \<Rightarrow> nat \<Rightarrow> 'k \<Rightarrow> bool" where
  "spoilt_at devices d i k \<longleftrightarrow> good k \<and> opened k = devices \<and> d \<in> devices \<and> batch k d = Spoilt i"

lemma too_big_passes:
  assumes "length cs < MAX_NUM_CMDS" and "sum_list (map cmd_payload cs) + cmd_payload c > MAX_TOTAL_PAYLOAD"
  shows "passes dv (at devices d cs) (sp_call (sl_add lib (Some d) c))
    (\<lambda>(rc, t, r) k. rc = ERR_TOO_BIG (sl_errors lib) \<and> spoilt_at devices d (length cs) k)"
proof (rule passes_call)
  fix k assume "at devices d cs k"
  then obtain es where e: "good k" "d \<in> opened k" "opened k = devices" "batch k d = Batch es" "map fst es = cs"
    by (auto simp: at_def)
  have l: "length es = length cs" by (simp flip: e(5))
  have "batch_payload es + cmd_payload c > MAX_TOTAL_PAYLOAD" using assms(2) by (simp only: batch_payload_fst e(5))
  from too_big [OF e(1,2,4) _ this] assms(1) e(2,3) l
  show "\<exists>x k'. sl_add lib (Some d) c k = (x, k') \<and>
      (case x of (rc, t, r) \<Rightarrow> \<lambda>k. rc = ERR_TOO_BIG (sl_errors lib) \<and> spoilt_at devices d (length cs) k) k'"
    by (auto simp: spoilt_at_def)
qed

lemma spoilt_passes:
  "passes dv (spoilt_at devices d i) (sp_call (sl_add lib (Some d) c)) (\<lambda>(rc, t, r) k. rc < 0 \<and> spoilt_at devices d i k)"
  by (rule passes_call) (use spoilt in \<open>fastforce simp: spoilt_at_def\<close>)

lemma exec_spoilt_passes:
  "passes dv (spoilt_at devices d i) (sp_call (sl_exec lib d))
    (\<lambda>(rc, j) k. (rc = ERR_BAD_STATE (sl_errors lib) \<and> j = i) \<and> ended devices k)"
  by (rule passes_call) (use exec_spoilt in \<open>fastforce simp: spoilt_at_def ended_def\<close>)

lemma add_xfer_too_big_passes: "passes dv (at devices d []) (add_xfer_too_big lib d) (\<lambda>_. ended devices)"
  unfolding add_xfer_too_big_def
  by (rule passes_bind [OF add_ok_passes] passes_bind [OF too_big_passes] passes_prod passes_fact passes_check
      passes_bind [OF spoilt_passes] passes_bind [OF exec_spoilt_passes] passes_expect | simp add: MAX_NUM_CMDS_def)+

text \<open>The clock: what the pointer of the command shows after the batch ran.\<close>

lemma set_clk_passes: "passes dv (at devices d []) (set_clk_test lib d) (\<lambda>_. ended devices)"
proof -
  have "\<exists>k'. run_state (set_clk_test lib d) (running dv k) = ((), running dv k') \<and> ended devices k'"
    if k: "at devices d [] k" for k
  proof -
    have b: "good k" "d \<in> opened k" "batch k d = Batch []" "opened k = devices" using k by (auto simp: at_def)
    obtain p k1 where a: "sl_add lib (Some d) (Add_set_clk CLK_SPEED True) k = ((0, Some p, None), k1)"
      "good k1" "opened k1 = opened k" "batch k1 d = Batch [(Add_set_clk CLK_SPEED True, Some p, None)]"
      using adds [OF b(1-3), of "Add_set_clk CLK_SPEED True"] by (auto simp: MAX_NUM_CMDS_def batch_payload_def)
    have "at devices d [Add_set_clk CLK_SPEED True] k1" using a b by (simp add: at_def)
    then obtain i k2 where x: "sl_exec lib d k1 = ((0, i), k2)" "ended devices k2"
      by (rule exec_runs_at) auto
    have "sl_clk lib p k2 \<le> CLK_SPEED"
      using clocks [OF a(2) _ a(4) _ x(1), of CLK_SPEED p] a(3) b(2) by simp
    with a x show ?thesis
      by (simp add: set_clk_test_def sp_call_def sp_expect_def sp_read_def State_Monad.update_def run_state_bind)
  qed
  then show ?thesis by (fastforce simp: passes_def)
qed

lemma command_bodies:
  assumes "body \<in> set (command_tests lib)"
  shows "body_passes body"
proof -
  have "body \<in> set (driver_tests lib) \<or> body \<in> {add_cmd lib, add_cmd_null lib, add_cmd_out_of_bounds lib, add_xfer_too_big lib, set_clk_test lib}"
    using assms by (auto simp: command_tests_def driver_tests_def)
  then show ?thesis
    using driver_bodies add_cmd_passes add_cmd_null_passes add_cmd_out_of_bounds_passes add_xfer_too_big_passes set_clk_passes
    unfolding body_passes_def by blast
qed

text \<open>So every command test passes where the limits are kept, too.\<close>

lemma command_suite_passes:
  assumes "between dv k" and "\<forall>(body, d) \<in> set tests. body \<in> set (command_tests lib) \<and> d < SPI_DEV_COUNT"
  shows "\<exists>dv' k'. run_state (swspi_suite lib tests) (running dv k) = ((), running dv' k') \<and> between dv' k'"
  using assms command_bodies by (intro suite_passes) auto

end

end
