(* ===== verification/Swspi_Stack.thy ===== *)
theory Swspi_Stack
  imports Swspi_Cmds
begin

text \<open>
  The ports of the software SPI server (\<open>spi/swspi-srv/swspi-srv.c\<close>) and the command tests on the driver of the repository. The SPI
  client and server libraries between them are not part of the repository: the locale \<open>spi_on_driver\<close> says what they promise, in terms
  of what the driver does with the requests of a batch. From it the contract \<open>spi_client\<close> of the tests is derived with the lemmas on the
  driver, so that the tests of the chip selects and of delays pass. A library that keeps the contract, for the examples, ends the theory.
\<close>

section \<open>The ports of the server\<close>

text \<open>The private data of a port is its device.\<close>

record swspi_port = tipc_port +
  port_priv :: nat

definition SPI_MAX_MSG_SIZE :: nat where
  "SPI_MAX_MSG_SIZE = 1024"

text \<open>No list of uuids: every application may connect.\<close>

definition swspi_port_acl :: tipc_port_acl where
  "swspi_port_acl = \<lparr>allow_ta_connect = True, allow_ns_connect = False, uuid_num = 0\<rparr>"

text \<open>The port names are in a header outside the repository; \<open>with_loopback\<close> is the build's \<open>WITH_SW_SPI_LOOPBACK\<close>.\<close>

definition swspi_ports :: "string \<Rightarrow> string \<Rightarrow> bool \<Rightarrow> swspi_port list" where
  "swspi_ports test_name loopback_name with_loopback =
     \<lparr>port_name = test_name, msg_max_size = SPI_MAX_MSG_SIZE, msg_queue_len = 1, port_acl = swspi_port_acl, port_priv = test_dev\<rparr> #
     (if with_loopback
      then [\<lparr>port_name = loopback_name, msg_max_size = SPI_MAX_MSG_SIZE, msg_queue_len = 1, port_acl = swspi_port_acl,
             port_priv = loopback_dev\<rparr>]
      else [])"

section \<open>Libraries on the driver\<close>

text \<open>The driver as it boots, but for memory and the delays so far.\<close>

definition at_rest :: "spi_state \<Rightarrow> bool" where
  "at_rest s \<longleftrightarrow> devs s = devs (swspi_initial Map.empty) \<and> buses s = buses (swspi_initial Map.empty)"

text \<open>The driver runs the first \<open>i\<close> requests and fails on the next.\<close>

definition stops_at :: "c_rand \<Rightarrow> nat \<Rightarrow> spi_request list \<Rightarrow> spi_state \<Rightarrow> nat \<Rightarrow> bool" where
  "stops_at rnd v rs s i \<longleftrightarrow> i < length rs \<and> (\<exists>s'. run_sequence rnd v (take i rs) s = Inr s') \<and>
     (\<exists>f. run_sequence rnd v (take (Suc i) rs) s = Inl f)"

text \<open>
  What the libraries promise. \<open>target\<close> is the device of the driver a client's device is connected to, \<open>drv\<close> the state of the driver.
  A port of the server connects to its device. A batch that the driver runs to its end, with the bus free again, is run on it. A batch
  with a request on which the driver fails is refused with the index of that request, and on a shared bus one that would keep the bus
  is refused as well; devices and buses are then as before. Time passes while the driver sleeps.
\<close>

locale spi_on_driver =
  fixes rnd :: c_rand and lib :: "'k spi_lib" and good :: "'k \<Rightarrow> bool" and target :: "'k \<Rightarrow> nat \<rightharpoonup> nat"
    and batch :: "'k \<Rightarrow> nat \<Rightarrow> spi_batch" and drv :: "'k \<Rightarrow> spi_state"
  assumes names: "SPI_TEST_PORT lib \<noteq> SPI_LOOPBACK_PORT lib"
    and connects: "good k \<Longrightarrow>
      find (\<lambda>p. port_name p = name) (swspi_ports (SPI_TEST_PORT lib) (SPI_LOOPBACK_PORT lib) True) = Some p \<Longrightarrow>
      \<exists>k'. sl_open lib d name MAX_NUM_CMDS MAX_TOTAL_PAYLOAD k = (0, k') \<and> good k' \<and>
        target k' = (target k)(d \<mapsto> port_priv p) \<and> drv k' = drv k"
    and cleared: "good k \<Longrightarrow> target k d = Some v \<Longrightarrow> good (sl_clear lib d k) \<and> target (sl_clear lib d k) = target k \<and>
      drv (sl_clear lib d k) = drv k \<and> batch (sl_clear lib d k) d = Batch []"
    and added: "good k \<Longrightarrow> target k d = Some v \<Longrightarrow> batch k d = Batch es \<Longrightarrow> length es < MAX_NUM_CMDS \<Longrightarrow>
      batch_payload es + cmd_payload c \<le> MAX_TOTAL_PAYLOAD \<Longrightarrow>
      \<exists>t r k'. sl_add lib (Some d) c k = ((0, t, r), k') \<and> pointers_given (c, t, r) \<and> good k' \<and> target k' = target k \<and>
        devs (drv k') = devs (drv k) \<and> buses (drv k') = buses (drv k) \<and> batch k' d = Batch (es @ [(c, t, r)])"
    and buffers: "good k \<Longrightarrow> batch k d = Batch es \<Longrightarrow> list_all (xfer_ok (mem (drv k))) (map entry_request es)"
    and completes: "good k \<Longrightarrow> target k d = Some v \<Longrightarrow> batch k d = Batch es \<Longrightarrow>
      run_sequence rnd v (map entry_request es) (drv k) = Inr s \<Longrightarrow> bus_free v s \<Longrightarrow>
      \<exists>i k'. sl_exec lib d k = ((0, i), k') \<and> good k' \<and> target k' = target k \<and> drv k' = s"
    and refused: "good k \<Longrightarrow> target k d = Some v \<Longrightarrow> batch k d = Batch es \<Longrightarrow>
      stops_at rnd v (map entry_request es) (drv k) i \<Longrightarrow>
      \<exists>rc k'. sl_exec lib d k = ((rc, i), k') \<and> rc < 0 \<and> good k' \<and> target k' = target k \<and>
        devs (drv k') = devs (drv k) \<and> buses (drv k') = buses (drv k)"
    and kept: "good k \<Longrightarrow> target k d = Some v \<Longrightarrow> batch k d = Batch es \<Longrightarrow>
      run_sequence rnd v (map entry_request es) (drv k) = Inr s \<Longrightarrow> \<not> bus_free v s \<Longrightarrow> spi_is_bus_shared v (drv k) \<Longrightarrow>
      \<exists>rc i k'. sl_exec lib d k = ((rc, i), k') \<and> rc < 0 \<and> good k' \<and> target k' = target k \<and>
        devs (drv k') = devs (drv k) \<and> buses (drv k') = buses (drv k)"
    and sleeping: "good k \<Longrightarrow> sl_exec lib d k = (x, k') \<Longrightarrow> sleeps (drv k') = sleeps (drv k) @ ds \<Longrightarrow>
      sl_gettime lib k + sum_list (map uint ds) \<le> sl_gettime lib k'"

section \<open>What the driver does with a batch\<close>

lemma at_rest_ready:
  assumes "at_rest s" and "v \<in> {test_dev, loopback_dev}"
  shows "dev_idle v s" and "holds_bus v False s" and "bus_free v s"
  using assms by (auto simp: at_rest_def swspi_initial_def dev_idle_def idle_dev_def holds_bus_def bus_free_def)

lemma test_bus_shared: "at_rest s \<Longrightarrow> spi_is_bus_shared test_dev s"
  by (simp add: at_rest_def spi_is_bus_shared_def swspi_initial_def idle_dev_def test_dev_def loopback_dev_def)

lemma cs_check_prefix:
  assumes "cs_check sel n rs = Inl j"
  obtains i b where "j = n + i" "i < length rs" "cs_check sel n (take i rs) = Inr b" "cs_check sel n (take (Suc i) rs) = Inl j"
proof -
  have "\<exists>i b. j = n + i \<and> i < length rs \<and> cs_check sel n (take i rs) = Inr b \<and> cs_check sel n (take (Suc i) rs) = Inl j"
    using assms
  proof (induction sel n rs rule: cs_check.induct)
    case (2 sel n rs)
    then show ?case
      by (cases sel) (force, fastforce intro: exI [where x = "Suc i" for i])
  next
    case (3 sel n rs)
    then show ?case
      by (cases sel) (fastforce intro: exI [where x = "Suc i" for i], force)
  qed (fastforce intro: exI [where x = "Suc i" for i])+
  with that show ?thesis by blast
qed

text \<open>On a driver at rest the chip selects decide, in the terms of the contract.\<close>

lemma driver_stops:
  assumes "at_rest s" and "v \<in> {test_dev, loopback_dev}" and "list_all (xfer_ok (mem s)) rs" and "cs_check False 0 rs = Inl i"
  shows "stops_at rnd v rs s i"
proof -
  note r = at_rest_ready [OF assms(1,2)]
  obtain b where i: "i < length rs" "cs_check False 0 (take i rs) = Inr b" "cs_check False 0 (take (Suc i) rs) = Inl i"
    using cs_check_prefix [OF assms(4)] by (metis add_0)
  have x: "list_all (xfer_ok (mem s)) (take n rs)" for n using assms(3) by (auto simp: list_all_iff dest: in_set_takeD)
  show ?thesis
    using perform_all_cs [OF r(2) x, where i = 0 and rnd = rnd] i
    by (fastforce simp: stops_at_def run_sequence_eq [OF r(1)] split: sum.splits)
qed

lemma driver_runs:
  assumes "at_rest s" and "v \<in> {test_dev, loopback_dev}" and "list_all (xfer_ok (mem s)) rs" and "cs_check False 0 rs = Inr sel"
  obtains s' where "run_sequence rnd v rs s = Inr s'" "bus_free v s' = (\<not> sel)" "\<not> sel \<Longrightarrow> at_rest s'"
    "sleeps s' = sleeps s @ concat (map delay_of rs)" "\<forall>q. xfer_ok (mem s') q = xfer_ok (mem s) q"
proof -
  note r = at_rest_ready [OF assms(1,2)]
  from perform_all_cs [OF r(2) assms(3), where i = 0 and rnd = rnd] assms(4)
  obtain s' where s': "perform_all rnd v rs s = Inr s'" "holds_bus v sel s'" "devs s' = devs s"
    "buses s' = owned_by (dev_bus (devs s v)) (if sel then Some v else None) (buses s)"
    "sleeps s' = sleeps s @ concat (map delay_of rs)" "\<forall>q. xfer_ok (mem s') q = xfer_ok (mem s) q"
    by auto
  have "at_rest s'" if "\<not> sel"
    using assms(1) that s'(3,4) r(2) by (simp add: at_rest_def owned_by_same holds_bus_def)
  with s' show ?thesis
    by (intro that [of s']) (auto simp: run_sequence_eq [OF r(1)] holds_bus_def bus_free_def)
qed

lemma driver_run_checked:
  assumes "at_rest s" and "v \<in> {test_dev, loopback_dev}" and "list_all (xfer_ok (mem s)) rs" and "run_sequence rnd v rs s = Inr s'"
  shows "\<exists>sel. cs_check False 0 rs = Inr sel"
  using perform_all_cs [OF at_rest_ready(2) [OF assms(1,2)] assms(3), where i = 0 and rnd = rnd] assms(4)
  by (auto simp: run_sequence_eq [OF at_rest_ready(1) [OF assms(1,2)]] split: sum.splits)

section \<open>The tests on the driver\<close>

context spi_on_driver
begin

text \<open>The driver at rest, and the devices of the tests connected to those of the same name.\<close>

definition rested :: "'k \<Rightarrow> bool" where
  "rested k \<longleftrightarrow> good k \<and> at_rest (drv k) \<and> ran (target k) \<subseteq> {test_dev, loopback_dev} \<and> target k 0 \<in> {None, Some test_dev}"

lemma rested_same: "rested k \<Longrightarrow> good k' \<Longrightarrow> target k' = target k \<Longrightarrow> devs (drv k') = devs (drv k) \<Longrightarrow>
    buses (drv k') = buses (drv k) \<Longrightarrow> rested k'"
  by (simp add: rested_def at_rest_def)

lemma rested_target: "rested k \<Longrightarrow> target k d = Some v \<Longrightarrow> v \<in> {test_dev, loopback_dev}"
  by (auto simp: rested_def ran_def)

lemma opened_port:
  assumes "rested k" and "d < SPI_DEV_COUNT" and "p = dev_name (spi_test_devs lib ! d)"
  shows "\<exists>k'. sl_open lib d p MAX_NUM_CMDS MAX_TOTAL_PAYLOAD k = (0, k') \<and> rested k' \<and> dom (target k') = insert d (dom (target k))"
proof -
  have g: "good k" using assms(1) by (simp add: rested_def)
  obtain q where q: "find (\<lambda>q. port_name q = p) (swspi_ports (SPI_TEST_PORT lib) (SPI_LOOPBACK_PORT lib) True) = Some q"
    "port_priv q \<in> {test_dev, loopback_dev}" "d = 0 \<longrightarrow> port_priv q = test_dev"
    using assms(2,3) names by (auto simp: SPI_DEV_COUNT_def less_2_cases_iff spi_test_devs_def swspi_ports_def)
  obtain k' where k': "sl_open lib d p MAX_NUM_CMDS MAX_TOTAL_PAYLOAD k = (0, k')" "good k'"
    "target k' = (target k)(d \<mapsto> port_priv q)" "drv k' = drv k"
    using connects [OF g q(1)] by blast
  have "rested k'"
    using assms(1) k'(2-4) q(2,3) by (auto simp: rested_def ran_def)
  with k' show ?thesis by simp
qed

end

sublocale spi_on_driver \<subseteq> tests: spi_client lib rested "\<lambda>k. dom (target k)" batch "{0}"
proof (unfold_locales, goal_cases)
  case (1 k d p)
  then show ?case by (rule opened_port)
next
  case (2 k d)
  then show ?case using cleared [of k d] rested_same [OF 2(1)] by (auto simp: rested_def)
next
  case (3 k d es c)
  then obtain v where v: "good k" "target k d = Some v" by (auto simp: rested_def)
  from added [OF this 3(3-5)] rested_same [OF 3(1)] show ?case by metis
next
  case (4 k d es i)
  then obtain v where v: "good k" "target k d = Some v" "at_rest (drv k)" by (auto simp: rested_def)
  from refused [OF v(1,2) 4(3) driver_stops [OF v(3) rested_target [OF 4(1) v(2)] buffers [OF v(1) 4(3)] 4(4)]] rested_same [OF 4(1)]
  show ?case by metis
next
  case (5 k d es)
  then have v: "good k" "target k d = Some test_dev" "at_rest (drv k)" by (auto simp: rested_def)
  obtain s where "run_sequence rnd test_dev (map entry_request es) (drv k) = Inr s" "\<not> bus_free test_dev s"
    by (rule driver_runs [OF v(3) _ buffers [OF v(1) 5(3)] 5(5), of test_dev rnd]) auto
  from kept [OF v(1,2) 5(3) this test_bus_shared [OF v(3)]] rested_same [OF 5(1)] show ?case by metis
next
  case (6 k d es)
  then obtain v where v: "good k" "target k d = Some v" "at_rest (drv k)" by (auto simp: rested_def)
  obtain s where s: "run_sequence rnd v (map entry_request es) (drv k) = Inr s" "bus_free v s" "at_rest s"
    "sleeps s = sleeps (drv k) @ concat (map delay_of (map entry_request es))"
    by (rule driver_runs [OF v(3) rested_target [OF 6(1) v(2)] buffers [OF v(1) 6(3)] 6(4), of rnd]) auto
  obtain i k' where k': "sl_exec lib d k = ((0, i), k')" "good k'" "target k' = target k" "drv k' = s"
    using completes [OF v(1,2) 6(3) s(1,2)] by blast
  have "sl_gettime lib k + delays es \<le> sl_gettime lib k'"
    using sleeping [OF v(1) k'(1)] s(4) k'(4) by (simp add: delays_def comp_def)
  with k' s(3) 6(1) show ?case by (auto simp: rested_def)
qed simp

context spi_on_driver
begin

lemma tests_pass:
  assumes "good k" and "at_rest (drv k)" and "target k = Map.empty" and "set ts \<subseteq> set (driver_tests lib) \<times> {0..<SPI_DEV_COUNT}"
  shows "\<exists>dv k'. run_state (swspi_suite lib ts) (running (spi_test_devs lib) k) = ((), running dv k') \<and> good k' \<and> at_rest (drv k')"
proof -
  have b: "tests.between (spi_test_devs lib) k"
    using assms(1-3) by (auto simp: tests.between_def rested_def spi_test_devs_def SPI_DEV_COUNT_def less_2_cases_iff)
  have "\<forall>(body, d) \<in> set ts. tests.body_passes body \<and> d < SPI_DEV_COUNT"
    using assms(4) tests.driver_bodies by auto
  from tests.suite_passes [OF b this] show ?thesis
    by (auto simp: tests.between_def rested_def)
qed

end

text \<open>C37: The driver decides the tests of the chip selects and of delays: behind any client and server libraries that run a batch on the
  driver when the driver runs it to its end, and report the index of the first request on which the driver fails, every sequence of these
  tests, for either device, runs without a failed check, from a state in which the driver is as it boots; it ends in such a state. A second
  assertion of the chip select and a deassertion without one are reported at their place, a batch that would keep the shared bus is an
  error, and a batch with a delay of one second takes at least that long.\<close>

theorem command_tests_pass:
  assumes "spi_on_driver rnd lib good target batch drv" and "good k" and "at_rest (drv k)" and "target k = Map.empty"
    and "set tests \<subseteq> set (driver_tests lib) \<times> {0..<SPI_DEV_COUNT}"
  shows "\<exists>dv k'. run_state (swspi_suite lib tests) \<lparr>spi_world = k, test_devs = spi_test_devs lib, spi_failed = False\<rparr> =
      ((), \<lparr>spi_world = k', test_devs = dv, spi_failed = False\<rparr>) \<and> good k' \<and> at_rest (drv k')"
  using spi_on_driver.tests_pass [OF assms] .

section \<open>A library that keeps the contract\<close>

text \<open>
  The driver with the devices the handles of a client are connected to, their batches, the clock values and
  the next free address.
\<close>

record spi_stack =
  stk_drv :: spi_state
  stk_conn :: "nat \<rightharpoonup> nat"
  stk_batch :: "nat \<Rightarrow> spi_batch"
  stk_clks :: "nat \<Rightarrow> u64"
  stk_next :: nat

definition stk_open :: "spi_errors \<Rightarrow> swspi_port list \<Rightarrow> nat \<Rightarrow> string \<Rightarrow> nat \<Rightarrow> nat \<Rightarrow> spi_stack \<Rightarrow> int \<times> spi_stack" where
  "stk_open er ports d name max_cmds max_payload k =
     (case find (\<lambda>p. port_name p = name) ports of
        None \<Rightarrow> (ERR_BAD_HANDLE er, k)
      | Some p \<Rightarrow> (0, k\<lparr>stk_conn := (stk_conn k)(d \<mapsto> port_priv p)\<rparr>))"

definition set_batch :: "nat \<Rightarrow> spi_batch \<Rightarrow> spi_stack \<Rightarrow> spi_stack" where
  "set_batch d b k = k\<lparr>stk_batch := (stk_batch k)(d := b)\<rparr>"

text \<open>The pointers a command gets, and what is behind them.\<close>

fun new_pointers :: "spi_cmd \<Rightarrow> nat \<Rightarrow> nat option \<times> nat option" where
  "new_pointers (Add_data_xfer wt wr len) n = (if wt then Some n else None, if wr then Some (Suc n) else None)"
| "new_pointers (Add_set_clk hz w) n = (if w then Some n else None, None)"
| "new_pointers _ n = (None, None)"

fun new_mem :: "spi_cmd \<Rightarrow> nat \<Rightarrow> (nat \<rightharpoonup> byte list) \<Rightarrow> nat \<rightharpoonup> byte list" where
  "new_mem (Add_data_xfer wt wr len) n m = m(n \<mapsto> replicate len 0, Suc n \<mapsto> replicate len 0)"
| "new_mem _ n m = m"

fun new_clks :: "spi_cmd \<Rightarrow> nat \<Rightarrow> (nat \<Rightarrow> u64) \<Rightarrow> nat \<Rightarrow> u64" where
  "new_clks (Add_set_clk hz w) n cl = cl(n := hz)"
| "new_clks _ n cl = cl"

definition stk_add :: "spi_errors \<Rightarrow> nat option \<Rightarrow> spi_cmd \<Rightarrow> spi_stack \<Rightarrow> (int \<times> nat option \<times> nat option) \<times> spi_stack" where
  "stk_add er dev c k =
     (case dev of
        None \<Rightarrow> ((ERR_BAD_HANDLE er, None, None), k)
      | Some d \<Rightarrow>
          (case stk_batch k d of
             Spoilt i \<Rightarrow> ((ERR_BAD_STATE er, None, None), k)
           | Batch es \<Rightarrow>
               if \<not> length es < MAX_NUM_CMDS then ((ERR_OUT_OF_RANGE er, None, None), set_batch d (Spoilt (length es)) k)
               else if batch_payload es + cmd_payload c > MAX_TOTAL_PAYLOAD
               then ((ERR_TOO_BIG er, None, None), set_batch d (Spoilt (length es)) k)
               else
                 let n = stk_next k; ptrs = new_pointers c n
                 in ((0, ptrs), k\<lparr>stk_drv := (stk_drv k)\<lparr>mem := new_mem c n (mem (stk_drv k))\<rparr>, stk_batch := (stk_batch k)(d := Batch (es @ [(c, ptrs)])),
                       stk_clks := new_clks c n (stk_clks k), stk_next := n + 2\<rparr>)))"

text \<open>The first request on which the driver fails, found by trying the prefixes of the batch.\<close>

definition first_stop :: "c_rand \<Rightarrow> nat \<Rightarrow> spi_request list \<Rightarrow> spi_state \<Rightarrow> nat" where
  "first_stop rnd v rs s = length (takeWhile (\<lambda>i. \<not> isl (run_sequence rnd v (take (Suc i) rs) s)) [0..<length rs])"

definition stk_exec :: "c_rand \<Rightarrow> spi_errors \<Rightarrow> nat \<Rightarrow> spi_stack \<Rightarrow> (int \<times> nat) \<times> spi_stack" where
  "stk_exec rnd er d k =
     (let k1 = set_batch d (Batch []) k in
      case stk_conn k d of
        None \<Rightarrow> ((ERR_BAD_HANDLE er, 0), k)
      | Some v \<Rightarrow>
          (case stk_batch k d of
             Spoilt i \<Rightarrow> ((ERR_BAD_STATE er, i), k1)
           | Batch es \<Rightarrow>
               (case run_sequence rnd v (map entry_request es) (stk_drv k) of
                  Inl f \<Rightarrow> ((ERR_BAD_STATE er, first_stop rnd v (map entry_request es) (stk_drv k)), k1)
                | Inr s \<Rightarrow>
                    if bus_free v s then ((0, 0), k1\<lparr>stk_drv := s\<rparr>)
                    else ((ERR_BAD_STATE er, length es), k1))))"

definition stk_time :: "spi_stack \<Rightarrow> int" where
  "stk_time k = sum_list (map uint (sleeps (stk_drv k)))"

definition stk_lib :: "c_rand \<Rightarrow> spi_errors \<Rightarrow> string \<Rightarrow> string \<Rightarrow> bool \<Rightarrow> spi_stack spi_lib" where
  "stk_lib rnd er test_name loopback_name with_loopback =
     \<lparr>sl_open = stk_open er (swspi_ports test_name loopback_name with_loopback), sl_clear = (\<lambda>d. set_batch d (Batch [])),
      sl_add = stk_add er, sl_exec = stk_exec rnd er, sl_clk = (\<lambda>p k. stk_clks k p), sl_gettime = stk_time,
      sl_errors = er, SPI_TEST_PORT = test_name, SPI_LOOPBACK_PORT = loopback_name\<rparr>"

definition entry_sound :: "(nat \<rightharpoonup> byte list) \<Rightarrow> (nat \<Rightarrow> u64) \<Rightarrow> nat \<Rightarrow> batch_entry \<Rightarrow> bool" where
  "entry_sound m cl n e \<longleftrightarrow> xfer_ok m (entry_request e) \<and>
     (\<forall>hz p. e = (Add_set_clk hz True, Some p, None) \<longrightarrow> p < n \<and> cl p \<le> hz)"

definition stk_good :: "spi_stack \<Rightarrow> bool" where
  "stk_good k \<longleftrightarrow> at_rest (stk_drv k) \<and> ran (stk_conn k) \<subseteq> {test_dev, loopback_dev} \<and>
     (\<forall>a \<ge> stk_next k. mem (stk_drv k) a = None) \<and>
     (\<forall>d es e. stk_batch k d = Batch es \<longrightarrow> e \<in> set es \<longrightarrow> entry_sound (mem (stk_drv k)) (stk_clks k) (stk_next k) e)"

lemma buf_ok_grow: "buf_ok m a len \<Longrightarrow> \<forall>a \<ge> n. m a = None \<Longrightarrow> buf_ok (new_mem c n m) a len"
  by (cases c) (auto simp: buf_ok_def split: option.splits)

lemma entry_sound_grow:
  assumes "entry_sound m cl n e" and "\<forall>a \<ge> n. m a = None"
  shows "entry_sound (new_mem c n m) (new_clks c n cl) (n + 2) e"
proof -
  have "xfer_ok (new_mem c n m) (entry_request e)"
    using assms buf_ok_grow [OF _ assms(2)] by (cases "entry_request e") (auto simp: entry_sound_def)
  moreover have "p < n + 2 \<and> new_clks c n cl p \<le> hz" if "e = (Add_set_clk hz True, Some p, None)" for hz p
    using assms(1) that by (cases c) (auto simp: entry_sound_def)
  ultimately show ?thesis by (simp add: entry_sound_def)
qed

lemma entry_sound_new: "entry_sound (new_mem c n m) (new_clks c n cl) (n + 2) (c, new_pointers c n)"
  by (cases c) (auto simp: entry_sound_def buf_ok_def)

lemma new_mem_fresh: "\<forall>a \<ge> n. m a = None \<Longrightarrow> \<forall>a \<ge> n + 2. new_mem c n m a = None"
  by (cases c) auto

lemma pointers_given_new: "pointers_given (c, new_pointers c n)"
  by (cases c) auto

lemma stk_goodD:
  assumes "stk_good k"
  shows "at_rest (stk_drv k)" and "stk_conn k d = Some v \<Longrightarrow> v \<in> {test_dev, loopback_dev}"
    and "\<forall>a \<ge> stk_next k. mem (stk_drv k) a = None"
    and "stk_batch k d = Batch es \<Longrightarrow> \<forall>e \<in> set es. entry_sound (mem (stk_drv k)) (stk_clks k) (stk_next k) e"
  using assms by (auto simp: stk_good_def ran_def)

lemma stk_buffers: "stk_good k \<Longrightarrow> stk_batch k d = Batch es \<Longrightarrow> list_all (xfer_ok (mem (stk_drv k))) (map entry_request es)"
  using stk_goodD(4) by (fastforce simp: entry_sound_def list_all_iff)

lemma at_rest_mem [simp]: "at_rest (s\<lparr>mem := m\<rparr>) = at_rest s"
  by (simp add: at_rest_def)

lemma stk_good_batch:
  assumes "stk_good k" and "b = Batch [] \<or> b = Spoilt i"
  shows "stk_good (set_batch d b k)"
  using assms by (auto simp: stk_good_def set_batch_def split: if_splits)

lemma stk_good_open:
  assumes "stk_good k" and "v \<in> {test_dev, loopback_dev}"
  shows "stk_good (k\<lparr>stk_conn := (stk_conn k)(d \<mapsto> v)\<rparr>)"
  using assms unfolding stk_good_def by (auto simp: ran_def)

lemma stk_good_add:
  assumes "stk_good k" and "stk_batch k d = Batch es"
  shows "stk_good (k\<lparr>stk_drv := (stk_drv k)\<lparr>mem := new_mem c (stk_next k) (mem (stk_drv k))\<rparr>,
      stk_batch := (stk_batch k)(d := Batch (es @ [(c, new_pointers c (stk_next k))])),
      stk_clks := new_clks c (stk_next k) (stk_clks k), stk_next := stk_next k + 2\<rparr>)"
proof -
  note g = stk_goodD [OF assms(1)]
  have "entry_sound (new_mem c (stk_next k) (mem (stk_drv k))) (new_clks c (stk_next k) (stk_clks k)) (stk_next k + 2) e"
    if "stk_batch k d' = Batch es'" "e \<in> set es'" for d' es' e
    using entry_sound_grow [OF _ g(3)] g(4) [OF that(1)] that(2) by blast
  then show ?thesis
    using assms entry_sound_new [of c "stk_next k"] new_mem_fresh [OF g(3), of c] unfolding stk_good_def by auto
qed

lemma stk_good_run:
  assumes "stk_good k" and "stk_conn k d = Some v" and "stk_batch k d = Batch es"
    and "run_sequence rnd v (map entry_request es) (stk_drv k) = Inr s" and "bus_free v s"
  shows "stk_good (set_batch d (Batch []) k\<lparr>stk_drv := s\<rparr>)"
proof -
  note v = stk_goodD(2) [OF assms(1,2)] and m = stk_buffers [OF assms(1,3)] and rest = stk_goodD(1) [OF assms(1)]
  obtain sel where sel: "cs_check False 0 (map entry_request es) = Inr sel"
    using driver_run_checked [OF rest v m assms(4)] by blast
  obtain s1 where s1: "run_sequence rnd v (map entry_request es) (stk_drv k) = Inr s1" "bus_free v s1 = (\<not> sel)" "\<not> sel \<Longrightarrow> at_rest s1"
    "\<forall>q. xfer_ok (mem s1) q = xfer_ok (mem (stk_drv k)) q"
    by (rule driver_runs [OF rest v m sel, of rnd]) blast
  then have s: "at_rest s" "\<forall>q. xfer_ok (mem s) q = xfer_ok (mem (stk_drv k)) q" using assms(4,5) by auto
  have "mem s a = None \<longleftrightarrow> mem (stk_drv k) a = None" for a
    using s(2) [rule_format, of "Xfer (Some a) None 0"] by (auto simp: buf_ok_def split: option.splits)
  then show ?thesis
    using assms(1) s by (auto simp: stk_good_def set_batch_def entry_sound_def split: if_splits)
qed

lemma first_stop_eq:
  assumes "dev_idle v s" and "stops_at rnd v rs s i"
  shows "first_stop rnd v rs s = i" and "\<exists>f. run_sequence rnd v rs s = Inl f"
proof -
  have i: "i < length rs" "\<not> isl (perform_all rnd v (take i rs) s)" "isl (perform_all rnd v (take (Suc i) rs) s)"
    using assms(2) by (auto simp: stops_at_def run_sequence_eq [OF assms(1)])
  have pre: "\<not> isl (perform_all rnd v (take j rs) s)" if "j \<le> n" "\<not> isl (perform_all rnd v (take n rs) s)" for j n
  proof -
    have "take n rs = take j rs @ drop j (take n rs)" using that(1) by (metis append_take_drop_id min.absorb1 take_take)
    then have e: "perform_all rnd v (take n rs) s = bindr (perform_all rnd v (take j rs) s) (perform_all rnd v (drop j (take n rs)))"
      by (metis perform_all_append)
    show ?thesis using that(2) by (cases "perform_all rnd v (take j rs) s") (simp_all add: e)
  qed
  have "takeWhile (\<lambda>i. \<not> isl (perform_all rnd v (take (Suc i) rs) s)) ([0..<i] @ i # [Suc i..<length rs]) = [0..<i]"
    using i pre [OF _ i(2)] by (simp add: takeWhile_tail takeWhile_append)
  moreover have "[0..<length rs] = [0..<i] @ i # [Suc i..<length rs]" using i(1) upt_add_eq_append [of 0 i "length rs - i"] by (simp add: upt_conv_Cons)
  ultimately show "first_stop rnd v rs s = i"
    unfolding first_stop_def run_sequence_eq [OF assms(1)] by simp
  show "\<exists>f. run_sequence rnd v rs s = Inl f"
    using pre [of "Suc i" "length rs"] i by (cases "perform_all rnd v rs s") (auto simp: run_sequence_eq [OF assms(1)])
qed

text \<open>What the library does with a batch, case by case.\<close>

lemma set_batch_simps [simp]:
  "stk_conn (set_batch d b k) = stk_conn k" "stk_batch (set_batch d b k) d = b" "stk_drv (set_batch d b k) = stk_drv k"
  "stk_clks (set_batch d b k) = stk_clks k"
  by (simp_all add: set_batch_def)

lemma stk_add_cases:
  "stk_add er None c k = ((ERR_BAD_HANDLE er, None, None), k)"
  "stk_batch k d = Spoilt i \<Longrightarrow> stk_add er (Some d) c k = ((ERR_BAD_STATE er, None, None), k)"
  "stk_batch k d = Batch es \<Longrightarrow> length es = MAX_NUM_CMDS \<Longrightarrow>
    stk_add er (Some d) c k = ((ERR_OUT_OF_RANGE er, None, None), set_batch d (Spoilt (length es)) k)"
  "stk_batch k d = Batch es \<Longrightarrow> length es < MAX_NUM_CMDS \<Longrightarrow> batch_payload es + cmd_payload c > MAX_TOTAL_PAYLOAD \<Longrightarrow>
    stk_add er (Some d) c k = ((ERR_TOO_BIG er, None, None), set_batch d (Spoilt (length es)) k)"
  by (simp_all add: stk_add_def)

lemma stk_exec_cases:
  assumes "stk_conn k d = Some v"
  shows "stk_batch k d = Spoilt i \<Longrightarrow> stk_exec rnd er d k = ((ERR_BAD_STATE er, i), set_batch d (Batch []) k)"
    and "stk_batch k d = Batch es \<Longrightarrow> run_sequence rnd v (map entry_request es) (stk_drv k) = Inl f \<Longrightarrow>
      stk_exec rnd er d k = ((ERR_BAD_STATE er, first_stop rnd v (map entry_request es) (stk_drv k)), set_batch d (Batch []) k)"
    and "stk_batch k d = Batch es \<Longrightarrow> run_sequence rnd v (map entry_request es) (stk_drv k) = Inr s \<Longrightarrow> \<not> bus_free v s \<Longrightarrow>
      stk_exec rnd er d k = ((ERR_BAD_STATE er, length es), set_batch d (Batch []) k)"
    and "stk_batch k d = Batch es \<Longrightarrow> run_sequence rnd v (map entry_request es) (stk_drv k) = Inr s \<Longrightarrow> bus_free v s \<Longrightarrow>
      stk_exec rnd er d k = ((0, 0), set_batch d (Batch []) k\<lparr>stk_drv := s\<rparr>)"
  using assms by (simp_all add: stk_exec_def)

lemma stk_lib_sel [simp]:
  "sl_clear (stk_lib rnd er tn ln w) d = set_batch d (Batch [])" "sl_add (stk_lib rnd er tn ln w) = stk_add er"
  "sl_exec (stk_lib rnd er tn ln w) = stk_exec rnd er" "sl_clk (stk_lib rnd er tn ln w) p k = stk_clks k p"
  "sl_gettime (stk_lib rnd er tn ln w) = stk_time" "sl_errors (stk_lib rnd er tn ln w) = er"
  "sl_open (stk_lib rnd er tn ln w) = stk_open er (swspi_ports tn ln w)"
  "SPI_TEST_PORT (stk_lib rnd er tn ln w) = tn" "SPI_LOOPBACK_PORT (stk_lib rnd er tn ln w) = ln"
  by (simp_all add: stk_lib_def)

lemma stk_time_exec:
  assumes "stk_exec rnd er d k = (x, k')" and "sleeps (stk_drv k') = sleeps (stk_drv k) @ ds"
  shows "stk_time k + sum_list (map uint ds) \<le> stk_time k'"
  using assms by (simp add: stk_time_def)

lemma stk_port:
  "find (\<lambda>p. port_name p = name) (swspi_ports tn ln True) = Some p \<Longrightarrow> port_priv p \<in> {test_dev, loopback_dev}"
  by (auto simp: swspi_ports_def split: if_splits)

locale swspi_build =
  fixes rnd :: c_rand and er :: spi_errors and test_name :: string and loopback_name :: string
  assumes negative: "ERR_BAD_STATE er < 0" and names: "test_name \<noteq> loopback_name"

sublocale swspi_build \<subseteq> stack: spi_on_driver rnd "stk_lib rnd er test_name loopback_name True" stk_good stk_conn stk_batch stk_drv
proof (unfold_locales, goal_cases)
  case 1
  then show ?case using names by simp
next
  case (2 k name p d)
  then show ?case using stk_good_open [OF 2(1) stk_port] by (simp add: stk_open_def)
next
  case (3 k d v)
  then show ?case by (simp add: stk_good_batch)
next
  case (4 k d v es c)
  then show ?case
    using stk_good_add [OF 4(1,3), of c] pointers_given_new [of c "stk_next k"]
    by (cases "new_pointers c (stk_next k)") (simp add: stk_add_def Let_def)
next
  case (5 k d es)
  then show ?case by (rule stk_buffers)
next
  case (6 k d v es s)
  then show ?case using stk_good_run [OF 6] by (simp add: stk_exec_cases(4))
next
  case (7 k d v es i)
  have "dev_idle v (stk_drv k)" by (rule at_rest_ready(1) [OF stk_goodD(1,2) [OF 7(1)]]) (fact 7(2))
  from first_stop_eq [OF this 7(4)] 7(1-3) negative show ?case
    by (auto simp: stk_exec_cases(2) stk_good_batch)
next
  case (8 k d v es s)
  then show ?case using negative by (simp add: stk_exec_cases(3) stk_good_batch)
next
  case (9 k d x k' ds)
  then show ?case using stk_time_exec by simp
qed

text \<open>It keeps the limits of a batch, too.\<close>

lemma stk_exec_clks: "stk_clks (snd (stk_exec rnd er d k)) = stk_clks k"
  by (simp add: stk_exec_def Let_def split: option.splits spi_batch.splits sum.splits)

sublocale swspi_build \<subseteq> limits: spi_limits "stk_lib rnd er test_name loopback_name True" stack.rested "\<lambda>k. dom (stk_conn k)" stk_batch "{0}"
proof (unfold_locales, goal_cases)
  case (6 k d es x k' hz p)
  have "stk_clks k' = stk_clks k" using stk_exec_clks [of rnd er d k] 6(5) by simp
  moreover have "stk_clks k p \<le> hz"
    using stk_goodD(4) [of k d es] 6(1,3,6) by (auto simp: stack.rested_def entry_sound_def)
  ultimately show ?case by simp
qed (use negative in \<open>auto simp: stack.rested_def stk_add_cases stk_exec_cases stk_good_batch\<close>)

definition example_errors :: spi_errors where
  "example_errors = \<lparr>ERR_BAD_HANDLE = -12, ERR_OUT_OF_RANGE = -11, ERR_TOO_BIG = -14, ERR_BAD_STATE = -7\<rparr>"

definition boot_stack :: spi_stack where
  "boot_stack = \<lparr>stk_drv = swspi_initial Map.empty, stk_conn = Map.empty, stk_batch = (\<lambda>_. Batch []), stk_clks = (\<lambda>_. 0), stk_next = 0\<rparr>"

lemma boot_stack_good: "stk_good boot_stack"
  by (simp add: stk_good_def boot_stack_def at_rest_def swspi_initial_def)

interpretation booted: swspi_build "\<lambda>seed i. i" example_errors "''test''" "''loopback''"
  by unfold_locales (simp_all add: example_errors_def)

abbreviation example_spi_lib :: "spi_stack spi_lib" where
  "example_spi_lib \<equiv> stk_lib (\<lambda>seed i. i) example_errors ''test'' ''loopback'' True"

theorem command_tests_pass_witness:
  "\<exists>dv k'. run_state (swspi_suite example_spi_lib
       [(cs_double_assert example_spi_lib, 0), (cs_already_deasserted example_spi_lib, 1), (cs_shared_bus example_spi_lib, 0),
        (delay_test example_spi_lib, 1)])
      \<lparr>spi_world = boot_stack, test_devs = spi_test_devs example_spi_lib, spi_failed = False\<rparr> =
      ((), \<lparr>spi_world = k', test_devs = dv, spi_failed = False\<rparr>) \<and> stk_good k' \<and> at_rest (stk_drv k')"
  by (rule command_tests_pass [OF booted.stack.spi_on_driver_axioms boot_stack_good])
    (auto simp: boot_stack_def at_rest_def swspi_initial_def driver_tests_def SPI_DEV_COUNT_def)

end
