(* ===== verification/Swspi_Typing.thy ===== *)
theory Swspi_Typing
  imports Swspi_Props
begin

text \<open>
  Type safety of the software SPI driver (\<open>spi/swspi-srv/driver/swspi.c\<close>): an entry of a sequence holds a function pointer and untyped
  private data, which the function reads as its own type. The reachable states, under any calls for any devices, keep a typing of the
  entries, from which the faults each call can have follow.
\<close>

section \<open>Calls of the driver\<close>

text \<open>Every call that a user of the driver can make for a device; the flag of a call is whether its allocation succeeds.\<close>

datatype spi_call =
    Call_begin bool nat
  | Call_request bool spi_request
  | Call_set_clk "nat option"
  | Call_commit
  | Call_abort

fun spi_call_run :: "c_rand \<Rightarrow> nat \<Rightarrow> spi_call \<Rightarrow> spi_state \<Rightarrow> (spi_rc \<times> spi_state) res" where
  "spi_call_run rnd d (Call_begin ok n) s = spi_seq_begin ok d n s"
| "spi_call_run rnd d (Call_request ok (Xfer t r n)) s = spi_req_xfer ok d t r n s"
| "spi_call_run rnd d (Call_request ok (Delay n)) s = spi_req_delay ok d n s"
| "spi_call_run rnd d (Call_request ok r) s = request d r s"
| "spi_call_run rnd d (Call_set_clk clk_hz) s = spi_req_set_clk d clk_hz s"
| "spi_call_run rnd d Call_commit s = spi_seq_commit rnd d s"
| "spi_call_run rnd d Call_abort s = bindr (spi_seq_abort d s) (\<lambda>s1. Inr (SPI_NO_ERROR, s1))"

inductive swspi_reach :: "c_rand \<Rightarrow> spi_state \<Rightarrow> bool" for rnd where
  start: "swspi_reach rnd (swspi_initial m)"
| call: "swspi_reach rnd s \<Longrightarrow> spi_call_run rnd d c s = Inr (rc, s') \<Longrightarrow> swspi_reach rnd s'"

section \<open>The typing of a sequence\<close>

text \<open>An entry is typed when its private data is what its function reads it as.\<close>

definition entry_typed :: "spi_seq_entry \<Rightarrow> bool" where
  "entry_typed e \<longleftrightarrow>
     (case exec e of
        None \<Rightarrow> False
      | Some spi_req_exec_xfer \<Rightarrow> (\<exists>args. priv e = Some (Xfer_args args))
      | Some spi_req_exec_delay \<Rightarrow> (\<exists>n. priv e = Some (Delay_arg n))
      | Some _ \<Rightarrow> True)"

text \<open>The entries of a device below the current one are typed, the others are as \<open>calloc\<close> left them.\<close>

definition dev_typed :: "spi_dev_ctx \<Rightarrow> bool" where
  "dev_typed dv \<longleftrightarrow>
     (case cmds dv of
        None \<Rightarrow> num_cmds dv = 0 \<and> curr_cmd dv = 0
      | Some cs \<Rightarrow> length cs = num_cmds dv \<and> curr_cmd dv \<le> num_cmds dv \<and>
          list_all entry_typed (take (curr_cmd dv) cs) \<and> (\<forall>e \<in> set (drop (curr_cmd dv) cs). e = empty_entry))"

definition spi_typed :: "spi_state \<Rightarrow> bool" where
  "spi_typed s \<longleftrightarrow> (\<forall>d. dev_typed (devs s d)) \<and> (\<forall>b d. bus_owner (buses s b) = Some d \<longrightarrow> dev_bus (devs s d) = b)"

text \<open>The faults of a call in a typed state.\<close>

fun call_faults :: "spi_call \<Rightarrow> fault set" where
  "call_faults (Call_request ok Set_clk) = {Null_deref, Out_of_bounds}"
| "call_faults (Call_request ok (Delay n)) = {Null_deref, Out_of_bounds}"
| "call_faults (Call_set_clk (Some p)) = {Null_deref, Out_of_bounds}"
| "call_faults Call_commit = {Assert_failed, Use_after_free, Out_of_bounds}"
| "call_faults _ = {Assert_failed}"

lemma spi_typed_dev: "spi_typed s \<Longrightarrow> dev_typed (devs s d)"
  by (simp add: spi_typed_def)

text \<open>Changes of one device that keep its bus.\<close>

lemma spi_typed_upd:
  assumes "spi_typed s" and "dev_typed (f (devs s d))" and "dev_bus (f (devs s d)) = dev_bus (devs s d)"
  shows "spi_typed (upd_dev d f s)"
  using assms by (auto simp: spi_typed_def upd_dev_def)

lemma dev_typed_put:
  assumes "dev_typed dv" and "cmds dv = Some cs" and "curr_cmd dv < length cs" and "entry_typed e"
  shows "dev_typed (dv\<lparr>cmds := Some (cs[curr_cmd dv := e]), curr_cmd := Suc (curr_cmd dv)\<rparr>)"
proof -
  have "drop (curr_cmd dv) cs = cs ! curr_cmd dv # drop (Suc (curr_cmd dv)) cs"
    using assms(3) by (rule Cons_nth_drop_Suc [symmetric])
  moreover have "take (Suc (curr_cmd dv)) (cs[curr_cmd dv := e]) = take (curr_cmd dv) cs @ [e]"
    using assms(3) by (simp add: take_Suc_conv_app_nth)
  ultimately show ?thesis using assms by (auto simp: dev_typed_def)
qed

lemma put_cmd_typed:
  assumes "spi_typed s" and "\<And>e. e = empty_entry \<Longrightarrow> entry_typed (case pr of None \<Rightarrow> e\<lparr>exec := Some x\<rparr> | Some p \<Rightarrow> e\<lparr>exec := Some x, priv := Some p\<rparr>)"
  shows "case put_cmd d x pr s of Inl f \<Rightarrow> f \<in> {Null_deref, Out_of_bounds} | Inr (rc, s') \<Rightarrow> spi_typed s'"
proof (cases "cmds (devs s d)")
  case None
  then show ?thesis by (simp add: put_cmd_def)
next
  case (Some cs)
  show ?thesis
  proof (cases "curr_cmd (devs s d) < length cs")
    case False
    with Some show ?thesis by (simp add: put_cmd_def)
  next
    case True
    have t: "dev_typed (devs s d)" by (rule spi_typed_dev [OF assms(1)])
    have "cs ! curr_cmd (devs s d) \<in> set (drop (curr_cmd (devs s d)) cs)"
      using True by (simp flip: Cons_nth_drop_Suc)
    then have "cs ! curr_cmd (devs s d) = empty_entry" using t Some by (auto simp: dev_typed_def)
    with True Some show ?thesis
      using assms(2) [OF refl] by (auto simp: put_cmd_def Let_def intro!: spi_typed_upd [OF assms(1)] dev_typed_put [OF t])
  qed
qed

section \<open>Every call keeps the typing\<close>

text \<open>A call keeps the typing when it returns in a typed state or has one of the faults \<open>F\<close>.\<close>

definition keeps_typed :: "fault set \<Rightarrow> (spi_rc \<times> spi_state) res \<Rightarrow> bool" where
  "keeps_typed F r \<longleftrightarrow> (case r of Inl f \<Rightarrow> f \<in> F | Inr (rc, s) \<Rightarrow> spi_typed s)"

lemma keeps_typed_simps [simp]:
  "keeps_typed F (Inl f) \<longleftrightarrow> f \<in> F" "keeps_typed F (Inr (rc, s)) \<longleftrightarrow> spi_typed s"
  "Assert_failed \<in> F \<Longrightarrow> keeps_typed F (assertr c r) \<longleftrightarrow> c \<longrightarrow> keeps_typed F r"
  by (simp_all add: keeps_typed_def assertr_def)

lemmas put_cmd_keeps = put_cmd_typed [folded keeps_typed_def]

text \<open>A checked request writes within the array.\<close>

lemma put_cmd_checked:
  assumes "spi_typed s" and "spi_dev_seq_active d s" and "curr_cmd (devs s d) < num_cmds (devs s d)"
    and "\<And>e. e = empty_entry \<Longrightarrow> entry_typed (case pr of None \<Rightarrow> e\<lparr>exec := Some x\<rparr> | Some p \<Rightarrow> e\<lparr>exec := Some x, priv := Some p\<rparr>)"
  shows "keeps_typed F (put_cmd d x pr s)"
proof -
  obtain cs where cs: "cmds (devs s d) = Some cs" using assms(2) by (auto simp: spi_dev_seq_active_def)
  then have "curr_cmd (devs s d) < length cs" using spi_typed_dev [OF assms(1), of d] assms(3) by (simp add: dev_typed_def)
  then have "\<exists>rc s'. put_cmd d x pr s = Inr (rc, s')" using cs by (simp add: put_cmd_def Let_def)
  then show ?thesis using put_cmd_keeps [OF assms(1,4), of d] by (auto simp: keeps_typed_def)
qed

lemma request_keeps:
  assumes "spi_typed s"
  shows "keeps_typed (call_faults (Call_request ok r)) (spi_call_run rnd d (Call_request ok r) s)"
  using assms
  by (cases r)
    (auto simp: spi_req_set_clk_def spi_req_cs_assert_def spi_req_cs_deassert_def spi_req_xfer_def spi_req_delay_def entry_typed_def
      intro!: put_cmd_keeps put_cmd_checked)

lemma set_clk_keeps:
  assumes "spi_typed s"
  shows "keeps_typed (call_faults (Call_set_clk clk_hz)) (spi_req_set_clk d clk_hz s)"
  using assms by (cases clk_hz) (auto simp: spi_req_set_clk_def entry_typed_def intro!: put_cmd_keeps)

lemma begin_keeps:
  assumes "spi_typed s"
  shows "keeps_typed {Assert_failed} (spi_seq_begin ok d n s)"
  using assms spi_typed_dev [OF assms, of d]
  by (auto simp: spi_seq_begin_def spi_dev_seq_active_def dev_typed_def intro!: spi_typed_upd)

text \<open>Execution changes no device, and gives a bus only to a device on it.\<close>

lemma buf_write_cases: "case buf_write a bs s of Inl f \<Rightarrow> f \<in> {Use_after_free, Out_of_bounds} | Inr s' \<Rightarrow> \<exists>m. s' = s\<lparr>mem := m\<rparr>"
  by (auto simp: buf_write_def memcpy_to_def split: option.split)

lemma buf_read_cases: "buf_read a n s = Inl f \<Longrightarrow> f \<in> {Use_after_free, Out_of_bounds}"
  by (auto simp: buf_read_def mem_read_def split: option.splits if_splits)

lemma exec_xfer_cases:
  "case exec_xfer rnd d args s of Inl f \<Rightarrow> f \<in> {Use_after_free, Out_of_bounds} | Inr s' \<Rightarrow> \<exists>m. s' = s\<lparr>mem := m\<rparr>"
proof -
  have idle: "\<exists>m. s = s\<lparr>mem := m\<rparr>" by (rule exI [of _ "mem s"]) simp
  have read: "case bindr (buf_read a n s) g of Inl f \<Rightarrow> f \<in> {Use_after_free, Out_of_bounds} | Inr s' \<Rightarrow> \<exists>m. s' = s\<lparr>mem := m\<rparr>"
    if "\<And>bs. case g bs of Inl f \<Rightarrow> f \<in> {Use_after_free, Out_of_bounds} | Inr s' \<Rightarrow> \<exists>m. s' = s\<lparr>mem := m\<rparr>" for a n g
    using buf_read_cases [of a n s] that by (cases "buf_read a n s") auto
  show ?thesis
    using idle buf_write_cases [where s = s]
    by (cases "rx args"; cases "tx args") (auto simp: exec_xfer_def Let_def bindr_assoc simp del: insert_iff intro!: read)
qed

lemma set_owner_typed:
  assumes "spi_typed s" and "ow = None \<or> ow = Some d \<and> dev_bus (devs s d) = b"
  shows "spi_typed (set_owner b ow s) \<and> devs (set_owner b ow s) = devs s"
  using assms unfolding spi_typed_def set_owner_def by auto

lemma exec_cmd_typed:
  assumes "spi_typed s" and "entry_typed e"
  shows "case exec_cmd rnd d e s of Inl f \<Rightarrow> f \<in> call_faults Call_commit | Inr s' \<Rightarrow> spi_typed s' \<and> devs s' = devs s"
proof (cases "exec e")
  case (Some x)
  show ?thesis
  proof (cases x)
    case spi_req_exec_xfer
    then obtain args where "exec_cmd rnd d e s = exec_xfer rnd d args s"
      using assms(2) Some by (auto simp: entry_typed_def exec_cmd_def)
    then show ?thesis using exec_xfer_cases [where rnd = rnd and d = d and args = args and s = s] assms(1) by (auto simp: spi_typed_def split: sum.splits)
  next
    case spi_req_exec_delay
    then obtain n where "exec_cmd rnd d e s = Inr (s\<lparr>sleeps := sleeps s @ [n]\<rparr>)"
      using assms(2) Some by (auto simp: entry_typed_def exec_cmd_def)
    then show ?thesis using assms(1) by (simp add: spi_typed_def)
  qed (use assms(1) Some set_owner_typed in \<open>simp_all add: exec_cmd_def assertr_def Let_def\<close>)
qed (use assms(2) in \<open>simp add: entry_typed_def\<close>)

lemma exec_cmds_typed:
  assumes "spi_typed s" and "list_all entry_typed es"
  shows "case exec_cmds rnd d es s of Inl f \<Rightarrow> f \<in> call_faults Call_commit | Inr s' \<Rightarrow> spi_typed s' \<and> devs s' = devs s"
  using assms
proof (induction es arbitrary: s)
  case (Cons e es)
  have e: "case exec_cmd rnd d e s of Inl f \<Rightarrow> f \<in> call_faults Call_commit | Inr s' \<Rightarrow> spi_typed s' \<and> devs s' = devs s"
    using exec_cmd_typed [of s e] Cons.prems by simp
  show ?case
  proof (cases "exec_cmd rnd d e s")
    case (Inr s1)
    with e Cons.IH [of s1] Cons.prems show ?thesis by (auto split: sum.splits)
  qed (use e in simp)
qed simp

lemma seq_free_typed:
  assumes "spi_typed s"
  shows "\<exists>s'. spi_seq_free d s = Inr s' \<and> spi_typed s'"
  using spi_typed_dev [OF assms, of d]
  by (auto simp: spi_seq_free_def dev_typed_def split: option.split intro!: spi_typed_upd [OF assms])

lemma commit_keeps:
  assumes "spi_typed s"
  shows "keeps_typed (call_faults Call_commit) (spi_seq_commit rnd d s)"
proof (cases "cmds (devs s d)")
  case (Some cs)
  have t: "length cs = num_cmds (devs s d)" "curr_cmd (devs s d) = num_cmds (devs s d) \<Longrightarrow> list_all entry_typed cs"
    using spi_typed_dev [OF assms, of d] Some by (auto simp: dev_typed_def)
  show ?thesis
  proof (cases "curr_cmd (devs s d) = num_cmds (devs s d)")
    case True
    then have e: "case exec_cmds rnd d cs s of Inl f \<Rightarrow> f \<in> call_faults Call_commit | Inr s' \<Rightarrow> spi_typed s' \<and> devs s' = devs s"
      using exec_cmds_typed [OF assms] t(2) by blast
    show ?thesis
    proof (cases "exec_cmds rnd d cs s")
      case (Inr s1)
      then obtain s2 where "spi_seq_free d s1 = Inr s2" "spi_typed s2" using e seq_free_typed by fastforce
      with Inr Some True t(1) show ?thesis by (simp add: spi_seq_commit_def spi_dev_seq_active_def)
    qed (use e Some True t(1) in \<open>simp add: spi_seq_commit_def spi_dev_seq_active_def\<close>)
  qed (simp add: spi_seq_commit_def)
qed (simp add: spi_seq_commit_def spi_dev_seq_active_def)

lemma call_keeps:
  assumes "spi_typed s"
  shows "keeps_typed (call_faults c) (spi_call_run rnd d c s)"
proof (cases c)
  case Call_abort
  obtain s' where "spi_seq_free d s = Inr s'" "spi_typed s'" using seq_free_typed [OF assms] by blast
  with Call_abort show ?thesis by (simp add: spi_seq_abort_def assertr_def)
qed (use assms request_keeps set_clk_keeps begin_keeps commit_keeps in auto)

lemma initial_typed: "spi_typed (swspi_initial m)"
  by (simp add: spi_typed_def swspi_initial_def idle_dev_def dev_typed_def)

lemma reach_typed: "swspi_reach rnd s \<Longrightarrow> spi_typed s"
proof (induction rule: swspi_reach.induct)
  case (call s d c rc s')
  then show ?case using call_keeps [of s c rnd d] by (simp add: keeps_typed_def)
qed (rule initial_typed)

text \<open>C32: The driver is type safe: whatever calls its users make for whatever devices, in any order and with any allocations failing,
  in every reachable state the entries made so far carry the private data their functions read, the entries to come are as allocated, and a
  bus is owned only by a device on it. So no call reads private data as the wrong type or runs an empty entry: starting,
  aborting, the three checked requests and a clock request without a clock value fail at most their assertions, committing at most these or on a transfer buffer
  that is gone or too short; only \<open>spi_req_set_clk\<close> and \<open>spi_req_delay\<close> can write through a null pointer or past the array.\<close>

theorem swspi_type_safe:
  assumes "swspi_reach rnd s"
  shows "spi_typed s \<and>
    (case spi_call_run rnd d c s of Inl f \<Rightarrow> f \<in> call_faults c | Inr (rc, s') \<Rightarrow> swspi_reach rnd s')"
  using reach_typed [OF assms] call_keeps [OF reach_typed [OF assms], of c rnd d] swspi_reach.call [OF assms, of d c]
  by (auto simp: keeps_typed_def split: sum.split)

theorem swspi_type_safe_witness:
  "\<exists>s. swspi_reach (\<lambda>seed i. i) s \<and> cmds (devs s test_dev) = Some [\<lparr>exec = Some spi_req_exec_delay, priv = Some (Delay_arg 5)\<rparr>] \<and>
    spi_typed s \<and> spi_call_run (\<lambda>seed i. i) test_dev Call_commit s \<noteq> Inl Type_confusion"
proof -
  let ?r = "\<lambda>seed i. i"
  let ?s0 = "swspi_initial Map.empty"
  obtain s1 where s1: "spi_call_run ?r test_dev (Call_begin True 1) ?s0 = Inr (SPI_NO_ERROR, s1)"
    "cmds (devs s1 test_dev) = Some [empty_entry]" "curr_cmd (devs s1 test_dev) = 0"
    by (simp add: spi_seq_begin_def spi_dev_seq_active_def swspi_initial_def idle_dev_def upd_dev_def test_dev_def loopback_dev_def)
  obtain s2 where s2: "spi_call_run ?r test_dev (Call_request True (Delay 5)) s1 = Inr (SPI_NO_ERROR, s2)"
    "cmds (devs s2 test_dev) = Some [\<lparr>exec = Some spi_req_exec_delay, priv = Some (Delay_arg 5)\<rparr>]"
    using s1(2,3) by (simp add: spi_req_delay_def put_cmd_def upd_dev_def)
  have "swspi_reach ?r s2" by (rule swspi_reach.call [OF swspi_reach.call [OF swspi_reach.start s1(1)] s2(1)])
  with s2(2) swspi_type_safe [where rnd = ?r and s = s2 and d = test_dev and c = Call_commit] show ?thesis by (auto split: sum.splits)
qed

end
