(* ===== verification/Spec2Isabelle.thy ===== *)
theory Spec2Isabelle
  imports Hwkey_Leases Hwkey_Requests Hwcrypto_Main Hwaes_Props
    Memref_Test Receiver Ctrl_Apps App_Client Secure_Fb Small_Apps Hwrng_Test_Srv Hwkey_Test_Srv Swspi_Stack Swspi_Typing
begin

text \<open>
  Verification of the Trusty sample applications.

  \<^bold>\<open>The program.\<close> The repository holds applications for the Trusty operating system, written in C.
  The \<open>hwcrypto\<close> application runs three services in one event loop: \<open>hwkey\<close> (key slots, opaque handles to
  them, key derivation) with a fake key provider, \<open>hwrng\<close> (random bytes in messages of at most 4096) with
  a fake device, and \<open>keybox\<close> (unwrapping of key boxes). The \<open>hwaes\<close> application does AES operations and
  asks \<open>hwkey\<close> for keys named by an opaque handle. The software SPI driver records the requests of a
  client in an array and executes them when the sequence is committed. The memory lender and receiver
  share pages by memory references. The application manager tests drive small servers that create
  ports, accept connections and exit. The remaining applications are a busy loop, a storage writer, a
  mock of a secure framebuffer, and unit tests.

  \<^bold>\<open>Theories and sources\<close> (paths under \<open>src/\<close>).
  \<^item> \<open>Prelude\<close>, \<open>Trusty_Env\<close>: machine words, faults as values (\<open>'a res\<close>, with \<open>bindr\<close> and \<open>assertr\<close>), checked
    byte buffers, C strings, and the IPC and cipher names several services share.
  \<^item> \<open>Hwrng_Dev\<close>: \<open>hwcrypto/hwrng_srv_fake_provider.c\<close>; the locale \<open>hwrng_device\<close> is the interface of a random
    device, interpreted by the fake one. \<open>Hwrng_Srv\<close>, \<open>Hwrng_Props\<close>: \<open>hwcrypto/hwrng_srv.c\<close>. \<open>Hwrng_Test\<close>: the random
    number tests of \<open>hwcrypto-unittest/main.c\<close>; \<open>Hwrng_Test_Srv\<close>: they pass on the service.
  \<^item> \<open>Hwkey_Token\<close>, \<open>Hwkey_Srv\<close>: \<open>hwcrypto/hwkey_srv.c\<close> and \<open>hwkey_srv_priv.h\<close>, one definition per function, the state in
    the record \<open>hwkey_state\<close>. \<open>Hwkey_Provider\<close>: \<open>hwcrypto/hwkey_srv_fake_provider.c\<close> for every build configuration.
    The locale \<open>hwrng_supply\<close> (a device that ends the token loop) extends \<open>hwrng_device\<close>; \<open>hwkey_service\<close> states
    what the service needs from its provider; \<open>hwkey_build\<close> is the service with the provider of the
    repository, a sublocale of it, interpreted on 32-bit and 64-bit builds (\<open>hk32\<close>, \<open>hk64\<close>).
    \<open>Hwkey_Inv\<close>, \<open>Hwkey_Props\<close>, \<open>Hwkey_Requests\<close>, \<open>Hwkey_Leases\<close>: what is proved of them. \<open>Hwkey_Test\<close>: the key tests of
    \<open>hwcrypto-unittest/main.c\<close> as programs of the state monad over the client library, with contracts for it;
    \<open>Hwkey_Test_Srv\<close>: the service keeps them behind every library that carries the messages (the locale \<open>hwkey_carrier\<close>).
  \<^item> \<open>Keybox\<close>, \<open>Keybox_Props\<close>: \<open>hwcrypto/keybox/keybox.c\<close> and \<open>srv.c\<close>. \<open>Hwcrypto_Main\<close>: \<open>hwcrypto/main.c\<close>, the three services
    together.
  \<^item> \<open>Hwaes\<close>, \<open>Hwaes_Props\<close>: \<open>hwaes/main.c\<close>. This theory composes it with the hwkey service.
  \<^item> \<open>Swspi\<close>, \<open>Swspi_Props\<close>: \<open>spi/swspi-srv/driver/swspi.c\<close>, \<open>swspi.h\<close> and the devices of \<open>swspi-srv.c\<close>. \<open>Swspi_Test\<close>: the
    transfer tests of \<open>spi/swspi-test/swspi-test.c\<close> against the driver. \<open>Swspi_Select\<close>: the chip select discipline of the driver. \<open>Swspi_Typing\<close>: its type safety.
    \<open>Swspi_Cmds\<close>: the command tests of the same file as programs over the SPI client library, with the locales \<open>spi_client\<close> and
    \<open>spi_limits\<close> as its contracts and a logic of passing programs. \<open>Swspi_Stack\<close>: the ports of \<open>swspi-srv.c\<close>, and the first contract derived
    from what the driver does with a batch (the locale \<open>spi_on_driver\<close>).
  \<^item> \<open>Lender\<close>, \<open>Lender_Props\<close>: \<open>memref-test/lender/lender.c\<close>. \<open>Memref_Client\<close>: the client helpers of
    \<open>memref-test/memref-test.c\<close> against it; \<open>Memref_Test\<close>: the tests around them, with the locales \<open>memref_ipc\<close>, \<open>memref_os\<close> (references and mappings with
    protections, instances of the lender, limited tables) and \<open>memref_checks\<close> (the calls that are refused). \<open>Receiver\<close>: \<open>memref-test/receiver/receiver.c\<close>.
  \<^item> \<open>App_Mgmt\<close>: \<open>app-mgmt-test/port-start-srv\<close> and \<open>port-waiter-srv\<close>. \<open>App_Client\<close>: \<open>app-mgmt-test/client/main.c\<close>, as
    programs of the state monad over an arbitrary kernel. \<open>Ctrl_Apps\<close>: \<open>spinner\<close>, \<open>storage-test\<close>,
    \<open>userscs-test\<close> and the other servers of \<open>app-mgmt-test\<close>.
  \<^item> \<open>Secure_Fb\<close>: \<open>secure_fb_mock_impl/main.cpp\<close>. \<open>Small_Apps\<close>: \<open>timer\<close>, \<open>prebuilts-test\<close>, \<open>manifest-test\<close>, \<open>hwbcc\<close> and the
    entry point of the SPI server.

  \<^bold>\<open>How code is modelled.\<close> A function of the source is a function of the state it reads and of the
  answers of the calls it makes; a failed assertion, an access outside a buffer, a use after free or a
  loop that does not end is a value \<open>Inl\<close> of the result type. Code outside the repository (the kernel,
  BoringSSL, the tipc, hwkey, storage and SPI libraries) is an argument: a record of answers, or a
  function of an arbitrary state. What the code relies on is a named contract: \<open>bssl_ok\<close>, \<open>env_ok\<close>,
  \<open>hr_env_ok\<close>, \<open>kb_env_ok\<close>, \<open>hwaes_env_ok\<close>, \<open>lender_env_ok\<close>, \<open>fb_env_ok\<close>, \<open>carries\<close>, \<open>client_relays\<close>, \<open>runs_driver\<close>,
  \<open>world_ok\<close>, \<open>clock_ok\<close>, \<open>maps_manifest\<close>, \<open>hwkey_carrier\<close>, \<open>relays_rng\<close>, \<open>takes_commands\<close>, \<open>spi_on_driver\<close>, \<open>memref_os\<close>, \<open>decrypts_unittest\<close>, \<open>kdf_works\<close>, \<open>proto_distinct\<close>; the ones the properties use have an instance in a witness. Machine integers that can wrap are words, conversions of
  lengths to \<open>int\<close> (\<open>c_int\<close> of \<open>Hwaes\<close>) and signed overflow (\<open>delay\<close>) are written out, and
  \<open>size_t\<close> is a word of any width where that matters. Event loops run over a list of events, so that
  a theorem for every list covers every finite run. The token loop and the busy wait may run
  forever and are \<open>partial_function\<close>s: it is proved exactly when they return. No fuel is used.

  \<^bold>\<open>What is shown.\<close>
  \<^item> The services do not fault: on every reachable state and every answer within the contracts, the
    handlers of hwkey, hwrng, hwaes and the lender return; how \<open>main\<close> of hwcrypto ends is known exactly for every sequence of
    events. The one event on which the keybox service, and so \<open>main\<close>, faults is characterised. The SPI driver is type safe: which calls
    can fault, and how, follows from a typing of its sequences.
  \<^item> Key material is given out only on the two grounds the design allows; tokens open exactly their
    slot; closing a connection revokes its handles; the handle list refines a specification of leases.
  \<^item> Functional behaviour, branch by branch: the admission of clients, key derivation, keyslot requests, queue passes, keybox
    unwrapping (a round trip that detects every single changed byte), AES requests, SPI sequences
    (equal to their requests one after the other, and run exactly when the chip selects are in turn), regions of the lender's page.
  \<^item> Compositions: AES through an opaque handle equals AES with the key; any sequence of the key tests that the service decides passes
    on the hwkey service and leaves no handle behind, the derivation tests fail exactly on a collision or a
    fixed point of the derivation; the random number tests pass on the hwrng service; the memory client and its tests with the lender; the transfer tests of SPI and its tests of chip selects and delays with the driver; the sessions of the application manager tests with the
    port start server.
  \<^item> Handles: the test servers, the test client and the storage writer close what they open, with
    the exceptions the theorems name.

  \<^bold>\<open>Not modelled.\<close> \<open>skel\<close>, \<open>skel2\<close> and \<open>skel_rust\<close> (empty examples), the macros that register tests with the unit test library,
  manifests and build files.
  Logging has no effect and is left out. The tests of what a library alone decides (the limits of a batch of SPI commands, refused creations
  of memory references, closed and invalid hwkey sessions) pass under a contract of that library, which has an instance but no code here.
\<close>

section \<open>The AES service as a client of the hwkey service\<close>

text \<open>
  What the hwkey client library makes of a response of the service: the key bytes when the status is
  good and they fit the caller's buffer, an error otherwise.
\<close>

definition client_relays :: "hwaes_env \<Rightarrow> byte list \<Rightarrow> hwkey_status \<Rightarrow> byte list \<Rightarrow> bool" where
  "client_relays aenv slot_id st d \<longleftrightarrow>
     hwkey_get_keyslot_data aenv slot_id (AES_KEY_MAX_SIZE aenv) =
       (if st = HWKEY_NO_ERROR \<and> length d \<le> AES_KEY_MAX_SIZE aenv then (NO_ERROR, d) else (-1, []))"

lemma valid_token_shape: "valid_token t \<Longrightarrow> length t = 32 \<and> t ! 31 = 0"
  by (auto simp: valid_token_def nth_append)

lemma fetch_token:
  assumes "valid_token t" and "0 \<le> hwkey_open aenv" and "32 \<le> HWKEY_OPAQUE_HANDLE_MAX_SIZE aenv"
    and "client_relays aenv (cstr t) HWKEY_NO_ERROR k" and "length k \<le> AES_KEY_MAX_SIZE aenv"
  shows "\<exists>ops. fetch_key aenv \<lparr>arg_len = 32, data_ptr = Some t\<rparr> = Inr (Inr k, ops)"
  using assms valid_token_shape [OF assms(1)]
  by (simp add: fetch_key_def arg_bytes_def mem_read_def memcpy_to_def client_relays_def Let_def)

text \<open>Only the key checks and the key resolution look at the key argument.\<close>

lemma with_key_sel:
  fixes args :: hwaes_aes_op_args
  shows "iv_arg (args\<lparr>key_type := kt, key_arg := ka\<rparr>) = iv_arg args"
    "aad_arg (args\<lparr>key_type := kt, key_arg := ka\<rparr>) = aad_arg args"
    "text_in (args\<lparr>key_type := kt, key_arg := ka\<rparr>) = text_in args"
    "text_out (args\<lparr>key_type := kt, key_arg := ka\<rparr>) = text_out args"
    "tag_in (args\<lparr>key_type := kt, key_arg := ka\<rparr>) = tag_in args"
    "tag_out (args\<lparr>key_type := kt, key_arg := ka\<rparr>) = tag_out args"
    "padding (args\<lparr>key_type := kt, key_arg := ka\<rparr>) = padding args"
    "aes_mode (args\<lparr>key_type := kt, key_arg := ka\<rparr>) = aes_mode args"
    "encrypt (args\<lparr>key_type := kt, key_arg := ka\<rparr>) = encrypt args"
    "key_type (args\<lparr>key_type := kt, key_arg := ka\<rparr>) = kt"
    "key_arg (args\<lparr>key_type := kt, key_arg := ka\<rparr>) = ka"
  by simp_all

lemma choose_cipher_key: "choose_cipher (args\<lparr>key_type := kt, key_arg := ka\<rparr>) n = choose_cipher args n"
  unfolding choose_cipher_def with_key_sel ..

lemma run_cipher_key:
  "run_cipher env (args\<lparr>key_type := kt, key_arg := ka\<rparr>) cipher key = run_cipher env args cipher key"
  unfolding run_cipher_def with_key_sel ..

lemma aes_op_fetched:
  assumes "key_type args = HWAES_OPAQUE_HANDLE" and "key_arg args = \<lparr>arg_len = Suc n, data_ptr = Some t\<rparr>"
    and "fetch_key env (key_arg args) = Inr (Inr k, ops)" and "k \<noteq> []"
  shows "hwaes_aes_op env cipher_ctx args =
    hwaes_aes_op env cipher_ctx (args\<lparr>key_type := Other_key_type m, key_arg := \<lparr>arg_len = length k, data_ptr = Some k\<rparr>\<rparr>)"
proof -
  have "arg_bytes \<lparr>arg_len = length k, data_ptr = Some k\<rparr> = Inr k"
    by (simp add: arg_bytes_def mem_read_def)
  moreover have "hwaes_check_arg_in \<lparr>arg_len = length k, data_ptr = Some k\<rparr> = HWAES_NO_ERROR"
    "hwaes_check_arg_in (key_arg args) = HWAES_NO_ERROR"
    using assms(2,4) by (simp_all add: hwaes_check_arg_in_def hwaes_check_arg_helper_def)
  ultimately show ?thesis
    using assms(1,3)
    unfolding hwaes_aes_op_def with_key_sel choose_cipher_key run_cipher_key by (simp add: Let_def)
qed

lemma live_token_valid:
  assumes "config_ok cfg" and "hwcrypto_reach p cfg s" and "e \<in> set (opaque_handles s)"
  shows "valid_token (token e)"
  using hwkey_invD(2) [OF fake_reach_inv [OF assms(1,2)] assms(3)] by (simp add: node_ok_def)

lemma token_answer:
  assumes "config_ok cfg" and "hwcrypto_reach p cfg s" and "env_ok bssl_ok (ctxs s) henv"
    and "ctxs s c = Some ctx" and "recv_res henv = Inr (hdr, token e)" and "cmd hdr = HWKEY_GET_KEYSLOT p"
    and "e \<in> set (opaque_handles s)" and "\<forall>e' \<in> set (opaque_handles s). token e' = token e \<longrightarrow> e' = e"
    and "slot_priv (key_table cfg ! key_slot e) = Handle_priv h" and "ctx_uuid ctx \<in> set (allowed_uuids h)"
    and "oh_retriever h (oh_priv h) (crypto_env henv) (key_data s) = Inr (st, kb, Some n)"
  shows "\<exists>s'. hwkey_chan_handle_msg p (fake_provider cfg) fake_dev henv c ctx s = Inr (send_rc henv, s') \<and>
    outs s' = outs s @ [Sent (chan ctx) (response p hdr st) (take n kb)]"
proof -
  have "length (butlast (token e)) = 31" using valid_token_shape live_token_valid [OF assms(1,2,7)] by simp
  then have "\<forall>sl \<in> set (key_table cfg). slot_uuid sl = ctx_uuid ctx \<longrightarrow> bytes_of (key_id sl) \<noteq> butlast (token e)"
    using key_table_ids by (metis bytes_of_length)
  from hwkey_service.keyslot_read [OF fake_service, OF assms(1) fake_request [OF assms(1-6)] assms(7-10)
      refl this assms(11)] show ?thesis by auto
qed

text \<open>C40: An opaque handle is as good as the key: when a client gives the AES service a live token of a
  slot that lists the service as a reader, and the hwkey client library relays what the hwkey service
  answers to it, the AES operation does exactly what it does when it is given the key bytes of that
  slot in plain, on every path.\<close>

theorem hwaes_opaque_key:
  assumes "config_ok cfg" and "hwcrypto_reach p cfg s" and "env_ok bssl_ok (ctxs s) henv"
    and "ctxs s c = Some ctx" and "ctx_uuid ctx = hwaes_uuid"
    and "recv_res henv = Inr (hdr, token e)" and "cmd hdr = HWKEY_GET_KEYSLOT p"
    and "e \<in> set (opaque_handles s)" and "\<forall>e' \<in> set (opaque_handles s). token e' = token e \<longrightarrow> e' = e"
    and "slot_priv (key_table cfg ! key_slot e) = Handle_priv h" and "hwaes_uuid \<in> set (allowed_uuids h)"
    and "oh_retriever h (oh_priv h) (crypto_env henv) (key_data s) = Inr (HWKEY_NO_ERROR, kb, Some n)"
    and "k = take n kb" and "k \<noteq> []" and "length k \<le> AES_KEY_MAX_SIZE aenv"
    and "\<forall>s' st d. hwkey_chan_handle_msg p (fake_provider cfg) fake_dev henv c ctx s = Inr (send_rc henv, s') \<and>
      outs s' = outs s @ [Sent (chan ctx) (response p hdr st) d] \<longrightarrow> client_relays aenv (cstr (token e)) st d"
    and "0 \<le> hwkey_open aenv" and "32 \<le> HWKEY_OPAQUE_HANDLE_MAX_SIZE aenv"
    and "key_type args = HWAES_OPAQUE_HANDLE" and "key_arg args = \<lparr>arg_len = 32, data_ptr = Some (token e)\<rparr>"
  shows "hwaes_aes_op aenv cipher_ctx args =
    hwaes_aes_op aenv cipher_ctx
      (args\<lparr>key_type := Other_key_type m, key_arg := \<lparr>arg_len = length k, data_ptr = Some k\<rparr>\<rparr>)"
proof -
  obtain s' where "hwkey_chan_handle_msg p (fake_provider cfg) fake_dev henv c ctx s = Inr (send_rc henv, s')"
    "outs s' = outs s @ [Sent (chan ctx) (response p hdr HWKEY_NO_ERROR) k]"
    using token_answer [OF assms(1-4,6-10) _ assms(12)] assms(5,11,13) by auto
  with assms(16) have "client_relays aenv (cstr (token e)) HWKEY_NO_ERROR k" by blast
  from fetch_token [OF live_token_valid [OF assms(1,2,8)] assms(17,18) this assms(15)]
  obtain ops where "fetch_key aenv (key_arg args) = Inr (Inr k, ops)" by (auto simp: assms(20))
  with assms(14,19,20) show ?thesis by (intro aes_op_fetched) simp_all
qed

text \<open>
  The example: the AES unit test and the AES service connect to the hwkey service, the unit test is
  issued a token of its slot, and the AES service presents it.
\<close>

definition aes_connect :: "handle_t \<Rightarrow> uuid \<Rightarrow> nat \<Rightarrow> hwkey_env" where
  "aes_connect ch u c = (run_env 0 [])\<lparr>accept_res := Inr (ch, u), ctx_calloc := Some c\<rparr>"

abbreviation aes_test_ctx :: hwkey_chan_ctx where
  "aes_test_ctx \<equiv> \<lparr>chan = 9, ctx_uuid = hwaes_unittest_uuid\<rparr>"

abbreviation aes_ctx :: hwkey_chan_ctx where
  "aes_ctx \<equiv> \<lparr>chan = 10, ctx_uuid = hwaes_uuid\<rparr>"

definition aes_connected :: "(64 word) hwkey_state" where
  "aes_connected = run_started\<lparr>ctxs := [100 \<mapsto> aes_test_ctx, 101 \<mapsto> aes_ctx]\<rparr>"

lemma connect_reach:
  assumes "hwcrypto_reach run_proto unittest_config s" and "ctxs s c = None"
    and "u \<in> {hwaes_unittest_uuid, hwaes_uuid}"
  shows "hwcrypto_reach run_proto unittest_config (s\<lparr>ctxs := (ctxs s)(c \<mapsto> \<lparr>chan = ch, ctx_uuid = u\<rparr>)\<rparr>)"
proof (rule hwkey_reach.stepped [OF assms(1) hwkey_step.port_event [where env = "aes_connect ch u c" and
      ev = "\<lparr>ev_handle = 1, ev_event = {IPC_HANDLE_POLL_READY}\<rparr>"]])
  show "env_ok bssl_ok (ctxs s) (aes_connect ch u c)"
    using assms(2) by (simp add: env_ok_def aes_connect_def run_env_def run_crypto_ok)
  show "hwkey_port_handler (fake_provider unittest_config) (aes_connect ch u c)
      \<lparr>ev_handle = 1, ev_event = {IPC_HANDLE_POLL_READY}\<rparr> s =
    Inr (s\<lparr>ctxs := (ctxs s)(c \<mapsto> \<lparr>chan = ch, ctx_uuid = u\<rparr>)\<rparr>)"
    using assms(3)
    by (auto simp: hwkey_port_handler_def aes_connect_def run_env_def fake_provider_def fake_client_allowed_def
        allowed_clients_def unittest_config_def Let_def)
qed

lemma aes_connected_reach: "hwcrypto_reach run_proto unittest_config aes_connected"
proof -
  let ?s = "run_started\<lparr>ctxs := (ctxs run_started)(100 \<mapsto> aes_test_ctx)\<rparr>"
  have "hwcrypto_reach run_proto unittest_config ?s"
    by (rule connect_reach [OF run_started_reach]) (simp_all add: run_started_def hwkey_initial_def)
  then have "hwcrypto_reach run_proto unittest_config (?s\<lparr>ctxs := (ctxs ?s)(101 \<mapsto> aes_ctx)\<rparr>)"
    by (rule connect_reach) (simp_all add: run_started_def hwkey_initial_def)
  then show ?thesis by (simp add: aes_connected_def run_started_def hwkey_initial_def)
qed

abbreviation aes_slot_id :: "byte list" where
  "aes_slot_id \<equiv> bytes_of ''com.android.trusty.hwaes.unittest.opaque_handle''"

lemma aes_slot:
  "8 < length (key_table unittest_config)" "is_opaque_handle (key_table unittest_config ! 8)"
  "key_id (key_table unittest_config ! 8) = ''com.android.trusty.hwaes.unittest.opaque_handle''"
  "slot_uuid (key_table unittest_config ! 8) = hwaes_unittest_uuid"
  "slot_priv (key_table unittest_config ! 8) = Handle_priv hwaes_unittest_opaque_handle_data"
  by (simp_all add: key_table_def unittest_config_def sign_key_slot_def encrypt_key_slot_def
      unittest_slots_def is_opaque_handle_def)

definition aes_node :: opaque_handle_node where
  "aes_node = \<lparr>key_slot = 8, owner = 100, token = run_token\<rparr>"

lemma aes_connected_sel: "ctxs aes_connected 100 = Some aes_test_ctx" "ctxs aes_connected 101 = Some aes_ctx"
  "opaque_handles aes_connected = []" "rng aes_connected = initial_counter" "key_data aes_connected = replicate 2048 0"
  by (simp_all add: aes_connected_def run_started_def hwkey_initial_def)

lemma aes_issued:
  "\<exists>s. hwcrypto_reach run_proto unittest_config s \<and> opaque_handles s = [aes_node] \<and>
    ctxs s 101 = Some aes_ctx \<and> key_data s = replicate 2048 0"
proof -
  let ?env = "run_msg aes_slot_id" and ?ev = "\<lparr>ev_handle = 9, ev_event = {IPC_HANDLE_POLL_MSG}\<rparr>"
  have e: "env_ok bssl_ok (ctxs aes_connected) ?env" by (rule run_msg_ok) simp
  have r: "keyslot_request run_proto (fake_provider unittest_config) (key_table unittest_config) bssl_ok
      ?env 100 aes_test_ctx run_hdr aes_slot_id aes_connected"
    by (rule fake_request [OF unittest_config_ok aes_connected_reach e]) (simp_all add: aes_connected_sel)
  obtain s where s: "hwkey_chan_handle_msg run_proto (fake_provider unittest_config) fake_dev ?env 100
      aes_test_ctx aes_connected = Inr (0, s)" "opaque_handles s = [aes_node]" "ctxs s = ctxs aes_connected"
    "key_data s = replicate 2048 0"
    using hwkey_service.keyslot_issue [OF fake_service [OF unittest_config_ok] r aes_slot(1,2), of run_token 35]
      find_table_slot [OF aes_slot(1), of "req_data aes_connected"] run_token_loop
    by (auto simp: aes_slot aes_connected_sel aes_node_def replicate_add [symmetric])
  have "hwkey_chan_handler run_proto (fake_provider unittest_config) fake_dev ?env ?ev 100 aes_connected = Inr s"
    using s(1) env_okD(5) [OF e] by (simp add: hwkey_chan_handler_def aes_connected_sel)
  from hwkey_step.chan_event [OF e aes_connected_sel(1) _ this]
  have "hwcrypto_reach run_proto unittest_config s"
    by (intro hwkey_reach.stepped [OF aes_connected_reach]) simp
  with s aes_connected_sel show ?thesis by auto
qed

definition aes_client :: hwaes_env where
  "aes_client = flip_env\<lparr>hwkey_get_keyslot_data := (\<lambda>h n. (NO_ERROR, unittest_key32))\<rparr>"

definition aes_request :: hwaes_aes_op_args where
  "aes_request = (flip_args HWAES_CBC_MODE True no_arg)
     \<lparr>key_type := HWAES_OPAQUE_HANDLE, key_arg := \<lparr>arg_len = 32, data_ptr = Some run_token\<rparr>\<rparr>"

lemma aes_client_sel [simp]: "AES_KEY_MAX_SIZE aes_client = 32" "HWKEY_OPAQUE_HANDLE_MAX_SIZE aes_client = 128"
  "hwkey_open aes_client = 1" "hwkey_get_keyslot_data aes_client h n = (NO_ERROR, unittest_key32)"
  "key_type aes_request = HWAES_OPAQUE_HANDLE" "key_arg aes_request = \<lparr>arg_len = 32, data_ptr = Some run_token\<rparr>"
  by (simp_all add: aes_client_def flip_env_def aes_request_def)

lemma aes_lengths: "length run_token = 32" "length unittest_key32 = 32" "unittest_key32 \<noteq> []"
  by (simp_all add: run_token_def unittest_key32_def bytes_of_def)

theorem hwaes_opaque_key_witness:
  "hwaes_aes_op aes_client True aes_request =
    hwaes_aes_op aes_client True
      (aes_request\<lparr>key_type := Other_key_type 0, key_arg := \<lparr>arg_len = 32, data_ptr = Some unittest_key32\<rparr>\<rparr>)"
proof -
  obtain s where s: "hwcrypto_reach run_proto unittest_config s" "opaque_handles s = [aes_node]"
    "ctxs s 101 = Some aes_ctx" "key_data s = replicate 2048 0" using aes_issued by blast
  let ?h = hwaes_unittest_opaque_handle_data and ?env = "run_msg run_token"
  have ret: "oh_retriever ?h (oh_priv ?h) run_crypto (key_data s) =
      Inr (HWKEY_NO_ERROR, unittest_key32 @ replicate 2016 0, Some 32)"
    by (simp add: hwaes_unittest_opaque_handle_data_def get_unittest_key32_opaque_def s get_unittest_key32_eq)
  have allowed: "hwaes_uuid \<in> set (allowed_uuids ?h)" by (simp add: hwaes_unittest_opaque_handle_data_def)
  note live = s(2) aes_node_def aes_slot(5) aes_lengths
  obtain s' where "hwkey_chan_handle_msg run_proto (fake_provider unittest_config) fake_dev ?env 101 aes_ctx s = Inr (0, s')"
    "outs s' = outs s @ [Sent 10 (response run_proto run_hdr HWKEY_NO_ERROR) unittest_key32]"
    using token_answer [OF unittest_config_ok s(1) run_msg_ok s(3), of run_token run_hdr aes_node ?h
        HWKEY_NO_ERROR "unittest_key32 @ replicate 2016 0" 32] ret allowed by (auto simp: live)
  then have "\<forall>s' st d. hwkey_chan_handle_msg run_proto (fake_provider unittest_config) fake_dev ?env 101 aes_ctx s =
        Inr (send_rc ?env, s') \<and> outs s' = outs s @ [Sent (chan aes_ctx) (response run_proto run_hdr st) d] \<longrightarrow>
      client_relays aes_client (cstr (token aes_node)) st d"
    by (simp add: client_relays_def response_def aes_lengths)
  then show ?thesis
    using hwaes_opaque_key [OF unittest_config_ok s(1) run_msg_ok s(3), of run_token run_hdr aes_node ?h
        "unittest_key32 @ replicate 2016 0" 32 unittest_key32 aes_client aes_request True 0] ret allowed
    by (simp add: live)
qed

end
